(* ===== verification/Prelude.thy ===== *)
theory Prelude
  imports Main "HOL-Library.Word" "HOL-Library.Multiset" "HOL-Library.Code_Target_Nat"
begin

text \<open>
  What every component shares: the machine integers of the Go code, its error values with
  \<open>errors.Is\<close>, decimal formatting and parsing of integers, and the combinators for
  operations that pass a state and may return an error.
\<close>

named_theorems prog_simps \<open>unfolding rules of the program combinators\<close>
named_theorems prog_intros \<open>introduction rules for the contracts of programs\<close>

subsection \<open>Numbers and instants\<close>

text \<open>Go's \<open>int64\<close> (chat ids, link ids, offsets); read as a signed number by \<open>sint\<close>.\<close>

type_synonym i64 = "64 word"

text \<open>A \<open>time.Time\<close> is an instant: nanoseconds since the Unix epoch. A \<open>time.Duration\<close> is
  a number of nanoseconds.\<close>

type_synonym instant = int
type_synonym duration = int

subsection \<open>Error values\<close>

text \<open>The package-level error variables that the code compares with \<open>errors.Is\<close>: the scrapper's
  (\<open>S_\<close>), the bot's (\<open>B_\<close>) and the ones of the standard and client libraries.\<close>

datatype sentinel =
    S_ErrChatAlreadyRegistered
  | S_ErrChatNotRegistered
  | S_ErrLinkNotFound
  | S_ErrAlreadySubscribed
  | S_ErrNotSubscribed
  | S_ErrURLNotSupported
  | B_ErrAlreadySubscribed
  | B_ErrNotSubscribed
  | B_ErrChatAlreadyRegistered
  | B_ErrChatNotRegistered
  | B_ErrURLNotSupported
  | B_ErrChatNotRegisteredOrLinkNotFound
  | B_ErrBadSessionState
  | B_ErrSessionNotFound
  | B_ErrNotACommand
  | ErrNoRows
  | ErrDeadlineExceeded
  | ErrCanceled
  | ErrOpenState
  | ErrEOF

text \<open>
  An error is a sentinel, a fresh message, a wrapped error (\<open>fmt.Errorf\<close> with \<open>%w\<close>: the text
  before and after the wrapped one), an error whose text alone is used (\<open>%v\<close>: it does not
  unwrap), a join of errors, an SQLSTATE reported by the database, a failed integer parse, an
  HTTP status kept as an error, a gRPC status, a failure of an external service, or the unwinding of
  a panic (not a value the code sees: handlers let it pass).
\<close>

datatype goerr =
    Sentinel sentinel
  | NewErr string
  | WrapErr string goerr string
  | TextErr string goerr
  | JoinErr "goerr list"
  | PgErr string
  | NumErr bool string
  | BreakerErr int
  | StatusErr nat string
  | ExtErr string
  | PanicErr string

fun errors_is :: "sentinel \<Rightarrow> goerr \<Rightarrow> bool" where
  "errors_is s (Sentinel t) = (s = t)"
| "errors_is s (WrapErr p e q) = errors_is s e"
| "errors_is s (JoinErr es) = list_ex (errors_is s) es"
| "errors_is s _ = False"

text \<open>\<open>errors.As\<close> into a \<open>*pgconn.PgError\<close>: the SQLSTATE of the first one in the chain.\<close>

fun pg_codes :: "goerr \<Rightarrow> string list" where
  "pg_codes (PgErr code) = [code]"
| "pg_codes (WrapErr p e q) = pg_codes e"
| "pg_codes (JoinErr es) = concat (map pg_codes es)"
| "pg_codes _ = []"

definition as_pg_error :: "goerr \<Rightarrow> string option" where
  "as_pg_error e = (case pg_codes e of [] \<Rightarrow> None | c # _ \<Rightarrow> Some c)"

subsection \<open>Programs: state passing with errors\<close>

text \<open>
  An operation takes the state and returns its error or its value with the new state. The state
  survives an error, as it does in the code. \<open>ehandle m h f\<close> is the code's
  \<open>x, err := m(); if err != nil { h } ; f\<close>, \<open>ebind\<close> the case where the error is returned as
  it is.
\<close>

type_synonym ('s, 'a) prog = "'s \<Rightarrow> (goerr + 'a) \<times> 's"

definition eret :: "'a \<Rightarrow> ('s, 'a) prog" where
  "eret x w = (Inr x, w)"

definition efail :: "goerr \<Rightarrow> ('s, 'a) prog" where
  "efail e w = (Inl e, w)"

definition ehandle ::
    "('s, 'a) prog \<Rightarrow> (goerr \<Rightarrow> ('s, 'b) prog) \<Rightarrow> ('a \<Rightarrow> ('s, 'b) prog) \<Rightarrow> ('s, 'b) prog" where
  "ehandle m h f w = (case m w of (Inl e, w') \<Rightarrow> h e w' | (Inr x, w') \<Rightarrow> f x w')"

definition ebind :: "('s, 'a) prog \<Rightarrow> ('a \<Rightarrow> ('s, 'b) prog) \<Rightarrow> ('s, 'b) prog" where
  "ebind m f = ehandle m efail f"

text \<open>A loop over a list that returns at the first error.\<close>

fun efor :: "('a \<Rightarrow> ('s, 'b) prog) \<Rightarrow> 'a list \<Rightarrow> ('s, 'b list) prog" where
  "efor f [] = eret []"
| "efor f (x # xs) = ebind (f x) (\<lambda>y. ebind (efor f xs) (\<lambda>ys. eret (y # ys)))"

lemma eret_run [simp, prog_simps]: "eret x w = (Inr x, w)"
  by (simp add: eret_def)

lemma efail_run [simp, prog_simps]: "efail e w = (Inl e, w)"
  by (simp add: efail_def)

lemma ehandle_Inl [simp]: "m w = (Inl e, w') \<Longrightarrow> ehandle m h f w = h e w'"
  by (simp add: ehandle_def)

lemma ehandle_Inr [simp]: "m w = (Inr x, w') \<Longrightarrow> ehandle m h f w = f x w'"
  by (simp add: ehandle_def)

lemma ebind_Inl [simp]: "m w = (Inl e, w') \<Longrightarrow> ebind m f w = (Inl e, w')"
  by (simp add: ebind_def ehandle_def)

lemma ebind_Inr [simp]: "m w = (Inr x, w') \<Longrightarrow> ebind m f w = f x w'"
  by (simp add: ebind_def ehandle_def)

lemma ehandle_split:
  "P (ehandle m h f w) \<longleftrightarrow>
     (\<forall>e w'. m w = (Inl e, w') \<longrightarrow> P (h e w')) \<and> (\<forall>x w'. m w = (Inr x, w') \<longrightarrow> P (f x w'))"
  by (cases "m w"; cases "fst (m w)") (auto simp: ehandle_def)

lemma ehandle_cases:
  assumes "ehandle m h f w = (r, w'')"
  obtains (fail) e w' where "m w = (Inl e, w')" and "h e w' = (r, w'')"
    | (ok) x w' where "m w = (Inr x, w')" and "f x w' = (r, w'')"
  using assms by (cases "m w"; cases "fst (m w)") (auto simp: ehandle_def)

lemma ebind_cases:
  assumes "ebind m f w = (r, w'')"
  obtains (fail) e where "m w = (Inl e, w'')" and "r = Inl e"
    | (ok) x w' where "m w = (Inr x, w')" and "f x w' = (r, w'')"
  using assms unfolding ebind_def by (rule ehandle_cases) auto

lemma ebind_okE:
  assumes "ebind m f w = (Inr y, w'')"
  obtains x w' where "m w = (Inr x, w')" and "f x w' = (Inr y, w'')"
  using assms by (cases rule: ebind_cases) auto

subsection \<open>Relations kept by a program\<close>

text \<open>
  \<open>keeps Q m\<close>: whatever \<open>m\<close> returns, the state before and the state after are related by \<open>Q\<close>.
  For a reflexive and transitive \<open>Q\<close> the combinators preserve it, so a frame condition or an
  invariant is proved once per statement and carried through every operation built from them.
\<close>

definition keeps :: "('s \<Rightarrow> 's \<Rightarrow> bool) \<Rightarrow> ('s, 'a) prog \<Rightarrow> bool" where
  "keeps Q m \<longleftrightarrow> (\<forall>w. Q w (snd (m w)))"

lemma keepsI: "(\<And>w r w'. m w = (r, w') \<Longrightarrow> Q w w') \<Longrightarrow> keeps Q m"
  by (metis keeps_def prod.collapse)

lemma keepsD: "keeps Q m \<Longrightarrow> m w = (r, w') \<Longrightarrow> Q w w'"
  by (metis keeps_def snd_conv)

locale state_preorder =
  fixes Q :: "'s \<Rightarrow> 's \<Rightarrow> bool"
  assumes Q_refl: "Q w w"
    and Q_trans: "Q u v \<Longrightarrow> Q v w \<Longrightarrow> Q u w"
begin

lemma keeps_Pair: "keeps Q (Pair r)"
  by (simp add: keeps_def Q_refl)

lemma keeps_eret: "keeps Q (eret x)"
  by (simp add: keeps_def Q_refl)

lemma keeps_efail: "keeps Q (efail e)"
  by (simp add: keeps_def Q_refl)

lemma keeps_ehandle:
  assumes "keeps Q m" and "\<And>e. keeps Q (h e)" and "\<And>x. keeps Q (f x)"
  shows "keeps Q (ehandle m h f)"
proof (rule keepsI)
  fix w r w''
  assume "ehandle m h f w = (r, w'')"
  then show "Q w w''"
  proof (cases rule: ehandle_cases)
    case (fail e w')
    from keepsD [OF assms(1) fail(1)] keepsD [OF assms(2) fail(2)] show ?thesis
      by (rule Q_trans)
  next
    case (ok x w')
    from keepsD [OF assms(1) ok(1)] keepsD [OF assms(3) ok(2)] show ?thesis
      by (rule Q_trans)
  qed
qed

lemma keeps_ebind:
  assumes "keeps Q m" and "\<And>x. keeps Q (f x)"
  shows "keeps Q (ebind m f)"
  unfolding ebind_def using assms by (intro keeps_ehandle keeps_efail)

lemma keeps_efor:
  assumes "\<And>x. keeps Q (f x)"
  shows "keeps Q (efor f xs)"
  by (induction xs) (auto intro!: keeps_Pair keeps_eret keeps_ebind assms)

lemma keeps_if: "keeps Q m \<Longrightarrow> keeps Q n \<Longrightarrow> keeps Q (if b then m else n)"
  by simp

lemma keeps_case_option:
  "keeps Q m \<Longrightarrow> (\<And>x. keeps Q (f x)) \<Longrightarrow> keeps Q (case v of None \<Rightarrow> m | Some x \<Rightarrow> f x)"
  by (cases v) auto

lemmas keeps_rules =
  keeps_Pair keeps_eret keeps_efail keeps_ehandle keeps_ebind keeps_efor keeps_if keeps_case_option

end

lemma list_ex_mono_set: "list_ex P xs \<Longrightarrow> (\<And>x. x \<in> set xs \<Longrightarrow> P x \<Longrightarrow> R x) \<Longrightarrow> list_ex R xs"
  by (auto simp: list_ex_iff)

subsection \<open>Runs that are evaluated\<close>

lemma run_okE: "\<not> isl (fst (m w)) \<Longrightarrow> (\<And>x w'. m w = (Inr x, w') \<Longrightarrow> P) \<Longrightarrow> P"
  by (cases "m w"; cases "fst (m w)") auto

lemma run_errE: "isl (fst (m w)) \<Longrightarrow> (\<And>e w'. m w = (Inl e, w') \<Longrightarrow> P) \<Longrightarrow> P"
  by (cases "m w"; cases "fst (m w)") auto

definition is_panic :: "goerr \<Rightarrow> bool" where
  "is_panic e = (case e of PanicErr m \<Rightarrow> True | _ \<Rightarrow> False)"

lemma is_panic_simps [simp]:
  "is_panic (PanicErr m)" "\<not> is_panic (Sentinel s)" "\<not> is_panic (WrapErr p e q)" "\<not> is_panic (TextErr p e)"
  "\<not> is_panic (NewErr m)" "\<not> is_panic (ExtErr m)" "\<not> is_panic (PgErr c)" "\<not> is_panic (JoinErr es)"
  by (simp_all add: is_panic_def)

subsection \<open>Pure steps that may fail\<close>

definition sbind :: "(goerr + 'a) \<Rightarrow> ('a \<Rightarrow> goerr + 'b) \<Rightarrow> goerr + 'b" where
  "sbind r f = (case r of Inl e \<Rightarrow> Inl e | Inr x \<Rightarrow> f x)"

lemma sbind_simps [simp]: "sbind (Inl e) f = Inl e" "sbind (Inr x) f = f x"
  by (simp_all add: sbind_def)

lemma sbind_Inr: "sbind r f = Inr y \<longleftrightarrow> (\<exists>x. r = Inr x \<and> f x = Inr y)"
  by (cases r) auto

text \<open>A pure step run in a program.\<close>

definition lift_sum :: "goerr + 'a \<Rightarrow> ('s, 'a) prog" where
  "lift_sum r w = (r, w)"

lemma lift_sum_run [simp]: "lift_sum r w = (r, w)"
  by (simp add: lift_sum_def)

text \<open>A call whose error is handled while a panic unwinds past the handler.\<close>

definition eguard ::
    "('s, 'a) prog \<Rightarrow> (goerr \<Rightarrow> ('s, 'b) prog) \<Rightarrow> ('a \<Rightarrow> ('s, 'b) prog) \<Rightarrow> ('s, 'b) prog" where
  "eguard m h f = ehandle m (\<lambda>e. if is_panic e then efail e else h e) f"

lemma eguard_Inl [simp]: "m w = (Inl e, w') \<Longrightarrow> \<not> is_panic e \<Longrightarrow> eguard m h f w = h e w'"
  by (simp add: eguard_def)

lemma eguard_panic [simp]: "m w = (Inl e, w') \<Longrightarrow> is_panic e \<Longrightarrow> eguard m h f w = (Inl e, w')"
  by (simp add: eguard_def)

lemma eguard_Inr [simp]: "m w = (Inr x, w') \<Longrightarrow> eguard m h f w = f x w'"
  by (simp add: eguard_def)

lemma eguard_cases:
  assumes "eguard m h f w = (r, w'')"
  obtains (panic) e where "m w = (Inl e, w'')" and "is_panic e" and "r = Inl e"
    | (fail) e w' where "m w = (Inl e, w')" and "\<not> is_panic e" and "h e w' = (r, w'')"
    | (ok) x w' where "m w = (Inr x, w')" and "f x w' = (r, w'')"
  using assms unfolding eguard_def
  by (cases rule: ehandle_cases) (auto split: if_splits)

end
