(* ===== verification/Go_Strings.thy ===== *)
theory Go_Strings
  imports Prelude
begin

text \<open>
  The parts of Go's string library the services use. A Go string is a sequence of bytes, here a
  list of characters; \<open>[]rune(s)\<close> decodes it as UTF-8, with U+FFFD for every byte that does not
  start a well-formed sequence. The lemmas show that decoding inverts encoding, that trimming and
  splitting lose nothing they should keep, and that a decimal number survives formatting and
  parsing. \<open>truncate_text\<close> is the function of that name of \<open>github/updates.go\<close>,
  \<open>stackoverflow/updates.go\<close> and \<open>transformers/cutter.go\<close>.
\<close>

subsection \<open>Prefixes, splitting and joining\<close>

definition has_prefix :: "string \<Rightarrow> string \<Rightarrow> bool" where
  "has_prefix s p \<longleftrightarrow> take (length p) s = p"

definition has_suffix :: "string \<Rightarrow> string \<Rightarrow> bool" where
  "has_suffix s p \<longleftrightarrow> length p \<le> length s \<and> drop (length s - length p) s = p"

definition trim_prefix :: "string \<Rightarrow> string \<Rightarrow> string" where
  "trim_prefix s p = (if has_prefix s p then drop (length p) s else s)"

definition trim_suffix :: "string \<Rightarrow> string \<Rightarrow> string" where
  "trim_suffix s p = (if has_suffix s p then take (length s - length p) s else s)"

text \<open>\<open>strings.Split\<close> with a separator of one byte, \<open>strings.Join\<close>, \<open>strings.Trim\<close> with a cutset
  of one byte.\<close>

fun split_char :: "char \<Rightarrow> string \<Rightarrow> string list" where
  "split_char c [] = [[]]"
| "split_char c (x # xs) =
     (if x = c then [] # split_char c xs
      else (case split_char c xs of [] \<Rightarrow> [[x]] | w # ws \<Rightarrow> (x # w) # ws))"

fun join_with :: "string \<Rightarrow> string list \<Rightarrow> string" where
  "join_with sep [] = []"
| "join_with sep [s] = s"
| "join_with sep (s # t # ss) = s @ sep @ join_with sep (t # ss)"

definition trim_char :: "char \<Rightarrow> string \<Rightarrow> string" where
  "trim_char c s = rev (dropWhile ((=) c) (rev (dropWhile ((=) c) s)))"

lemma has_prefix_append [simp]: "has_prefix (p @ s) p"
  by (simp add: has_prefix_def)

lemma has_prefixE:
  assumes "has_prefix s p"
  obtains t where "s = p @ t"
  using assms by (metis append_take_drop_id has_prefix_def)

lemma trim_prefix_append [simp]: "trim_prefix (p @ s) p = s"
  by (simp add: trim_prefix_def)

lemma split_char_not_Nil [simp]: "split_char c s \<noteq> []"
  by (induction s) (auto split: list.splits)

lemma join_split_char: "join_with [c] (split_char c s) = s"
proof (induction s)
  case Nil
  then show ?case by simp
next
  case (Cons x xs)
  obtain w ws where ws: "split_char c xs = w # ws"
    using split_char_not_Nil by (metis list.exhaust)
  with Cons show ?case by (cases ws) auto
qed

lemma split_char_pieces: "w \<in> set (split_char c s) \<Longrightarrow> c \<notin> set w"
  by (induction s arbitrary: w) (fastforce split: list.splits if_splits)+

lemma split_char_piece: "c \<notin> set p \<Longrightarrow> split_char c (p @ c # s) = p # split_char c s"
  by (induction p) auto

lemma split_char_single: "c \<notin> set p \<Longrightarrow> split_char c p = [p]"
  by (induction p) auto

subsection \<open>UTF-8\<close>

definition rune_error :: nat where
  "rune_error = 0xFFFD"

definition cont :: "nat \<Rightarrow> bool" where
  "cont b \<longleftrightarrow> 0x80 \<le> b \<and> b \<le> 0xBF"

text \<open>The code point at the front of a byte sequence and its width; a byte that starts no
  well-formed sequence (overlong forms and surrogates included) is U+FFFD with width 1.\<close>

fun decode_rune :: "nat list \<Rightarrow> nat \<times> nat" where
  "decode_rune [] = (rune_error, 0)"
| "decode_rune (b0 # bs) =
     (if b0 < 0x80 then (b0, 1)
      else if 0xC2 \<le> b0 \<and> b0 \<le> 0xDF then
        (case bs of
           b1 # _ \<Rightarrow> if cont b1 then ((b0 - 0xC0) * 64 + (b1 - 0x80), 2) else (rune_error, 1)
         | _ \<Rightarrow> (rune_error, 1))
      else if 0xE0 \<le> b0 \<and> b0 \<le> 0xEF then
        (case bs of
           b1 # b2 # _ \<Rightarrow>
             if (if b0 = 0xE0 then 0xA0 else 0x80) \<le> b1
                \<and> b1 \<le> (if b0 = 0xED then 0x9F else 0xBF) \<and> cont b2
             then ((b0 - 0xE0) * 4096 + (b1 - 0x80) * 64 + (b2 - 0x80), 3)
             else (rune_error, 1)
         | _ \<Rightarrow> (rune_error, 1))
      else if 0xF0 \<le> b0 \<and> b0 \<le> 0xF4 then
        (case bs of
           b1 # b2 # b3 # _ \<Rightarrow>
             if (if b0 = 0xF0 then 0x90 else 0x80) \<le> b1
                \<and> b1 \<le> (if b0 = 0xF4 then 0x8F else 0xBF) \<and> cont b2 \<and> cont b3
             then ((b0 - 0xF0) * 262144 + (b1 - 0x80) * 4096 + (b2 - 0x80) * 64 + (b3 - 0x80), 4)
             else (rune_error, 1)
         | _ \<Rightarrow> (rune_error, 1))
      else (rune_error, 1))"

declare decode_rune.simps(2) [simp del]

definition valid_rune :: "nat \<Rightarrow> bool" where
  "valid_rune r \<longleftrightarrow> r < 0xD800 \<or> (0xE000 \<le> r \<and> r \<le> 0x10FFFF)"

text \<open>\<open>utf8.AppendRune\<close>, as bytes.\<close>

definition encode_bytes :: "nat \<Rightarrow> nat list" where
  "encode_bytes r =
     (let r = (if valid_rune r then r else rune_error) in
      if r < 0x80 then [r]
      else if r < 0x800 then [0xC0 + r div 64, 0x80 + r mod 64]
      else if r < 0x10000 then [0xE0 + r div 4096, 0x80 + r div 64 mod 64, 0x80 + r mod 64]
      else [0xF0 + r div 262144, 0x80 + r div 4096 mod 64, 0x80 + r div 64 mod 64, 0x80 + r mod 64])"

definition encode_rune :: "nat \<Rightarrow> string" where
  "encode_rune r = map char_of (encode_bytes r)"

lemma decode_rune_width_pos: "bs \<noteq> [] \<Longrightarrow> 0 < snd (decode_rune bs)"
  by (cases bs) (auto simp: decode_rune.simps(2) split: list.splits)

lemma decode_rune_width_le: "snd (decode_rune bs) \<le> length bs"
  by (cases bs) (auto simp: decode_rune.simps(2) split: list.splits)

function rune_chunks :: "string \<Rightarrow> (nat \<times> string) list" where
  "rune_chunks s =
     (if s = [] then []
      else let (r, n) = decode_rune (map of_char (take 4 s))
           in (r, take n s) # rune_chunks (drop n s))"
  by pat_completeness auto

termination rune_chunks
  by (relation "measure length")
     (auto, metis decode_rune_width_pos map_is_Nil_conv snd_conv take_eq_Nil2 zero_neq_numeral
        diff_less length_greater_0_conv)

declare rune_chunks.simps [simp del]

lemma rune_chunks_Nil [simp]: "rune_chunks [] = []"
  by (simp add: rune_chunks.simps)

definition runes :: "string \<Rightarrow> nat list" where
  "runes s = map fst (rune_chunks s)"

definition string_of_runes :: "nat list \<Rightarrow> string" where
  "string_of_runes rs = concat (map encode_rune rs)"

subsection \<open>Decoding inverts encoding\<close>

lemma three_digits: "(r::nat) = r div 4096 * 4096 + r div 64 mod 64 * 64 + r mod 64"
proof -
  have "r div 4096 = r div 64 div 64"
    using div_mult2_eq [of r 64 64] by simp
  moreover have "r = r div 64 * 64 + r mod 64"
    and "r div 64 = r div 64 div 64 * 64 + r div 64 mod 64" by simp_all
  ultimately show ?thesis by linarith
qed

lemma four_digits:
  "(r::nat) = r div 262144 * 262144 + r div 4096 mod 64 * 4096 + r div 64 mod 64 * 64 + r mod 64"
proof -
  have "r div 262144 = r div 4096 div 64"
    using div_mult2_eq [of r 4096 64] by simp
  moreover have "r div 4096 = r div 4096 div 64 * 64 + r div 4096 mod 64" by simp
  ultimately show ?thesis using three_digits [of r] by linarith
qed

lemma decode_encode_3:
  fixes a b c :: nat
  assumes "b < 64" and "c < 64" and "a < 16" and "a = 0 \<longrightarrow> 32 \<le> b" and "a = 13 \<longrightarrow> b < 32"
  shows "decode_rune ((0xE0 + a) # (0x80 + b) # (0x80 + c) # bs) = (a * 4096 + b * 64 + c, 3)"
  using assms by (auto simp: decode_rune.simps(2) cont_def)

lemma decode_encode_4:
  fixes a b c d :: nat
  assumes "b < 64" and "c < 64" and "d < 64" and "a \<le> 4" and "a = 0 \<longrightarrow> 16 \<le> b"
    and "a = 4 \<longrightarrow> b < 16"
  shows "decode_rune ((0xF0 + a) # (0x80 + b) # (0x80 + c) # (0x80 + d) # bs)
           = (a * 262144 + b * 4096 + c * 64 + d, 4)"
  using assms by (auto simp: decode_rune.simps(2) cont_def)

lemma decode_encode_bytes:
  assumes "valid_rune r"
  shows "decode_rune (encode_bytes r @ bs) = (r, length (encode_bytes r))"
proof -
  consider "r < 0x80" | "0x80 \<le> r" "r < 0x800" | "0x800 \<le> r" "r < 0x10000" | "0x10000 \<le> r"
    by linarith
  then show ?thesis
  proof cases
    case 1
    with assms show ?thesis by (simp add: encode_bytes_def decode_rune.simps(2))
  next
    case 2
    then have "r div 64 < 32" and "2 \<le> r div 64" by simp_all
    moreover have "r = r div 64 * 64 + r mod 64" by simp
    ultimately show ?thesis
      using 2 assms
      by (auto simp: encode_bytes_def decode_rune.simps(2) cont_def)
  next
    case 3
    let ?a = "r div 4096" and ?b = "r div 64 mod 64" and ?c = "r mod 64"
    have r: "r = ?a * 4096 + ?b * 64 + ?c" by (rule three_digits)
    have bounds: "?b < 64" "?c < 64" by simp_all
    have "?a < 16" using 3 by simp
    moreover have "?a = 0 \<longrightarrow> 32 \<le> ?b" using 3 r bounds by linarith
    moreover have "?a = 13 \<longrightarrow> ?b < 32"
      using assms r bounds unfolding valid_rune_def by linarith
    ultimately have "decode_rune ((0xE0 + ?a) # (0x80 + ?b) # (0x80 + ?c) # bs)
        = (?a * 4096 + ?b * 64 + ?c, 3)"
      using bounds by (intro decode_encode_3)
    with r 3 assms show ?thesis by (simp add: encode_bytes_def)
  next
    case 4
    let ?a = "r div 262144" and ?b = "r div 4096 mod 64" and ?c = "r div 64 mod 64"
      and ?d = "r mod 64"
    have r: "r = ?a * 262144 + ?b * 4096 + ?c * 64 + ?d" by (rule four_digits)
    have bounds: "?b < 64" "?c < 64" "?d < 64" by simp_all
    have le: "r \<le> 0x10FFFF" using assms 4 unfolding valid_rune_def by linarith
    have "?a \<le> 4" using le r by linarith
    moreover have "?a = 0 \<longrightarrow> 16 \<le> ?b" using 4 r bounds by linarith
    moreover have "?a = 4 \<longrightarrow> ?b < 16" using le r bounds by linarith
    ultimately have "decode_rune ((0xF0 + ?a) # (0x80 + ?b) # (0x80 + ?c) # (0x80 + ?d) # bs)
        = (?a * 262144 + ?b * 4096 + ?c * 64 + ?d, 4)"
      using bounds by (intro decode_encode_4)
    with r 4 assms show ?thesis by (simp add: encode_bytes_def)
  qed
qed

lemma valid_rune_error [simp]: "valid_rune rune_error"
  by (simp add: rune_error_def valid_rune_def)

lemma valid_rune_3:
  fixes a b c :: nat
  assumes "a \<le> 15" and "a = 13 \<longrightarrow> b < 32" and "b < 64" and "c < 64"
  shows "valid_rune (a * 4096 + b * 64 + c)"
proof -
  consider "a < 13" | "a = 13" | "13 < a" by linarith
  then show ?thesis
    by cases (use assms in \<open>simp_all add: valid_rune_def\<close>)
qed

lemma valid_rune_4:
  fixes a b c d :: nat
  assumes "a \<le> 4" and "a = 0 \<longrightarrow> 16 \<le> b" and "a = 4 \<longrightarrow> b < 16"
    and "b < 64" and "c < 64" and "d < 64"
  shows "valid_rune (a * 262144 + b * 4096 + c * 64 + d)"
proof -
  consider "a = 0" | "a = 4" | "0 < a" "a < 4" using assms(1) by linarith
  then show ?thesis
    by cases (use assms in \<open>simp_all add: valid_rune_def\<close>)
qed

lemma decode_rune_valid: "valid_rune (fst (decode_rune bs))"
proof (cases bs)
  case Nil
  then show ?thesis by simp
next
  case (Cons b0 bs')
  consider "b0 < 0x80" | "0xC2 \<le> b0" "b0 \<le> 0xDF" | "0xE0 \<le> b0" "b0 \<le> 0xEF"
    | "0xF0 \<le> b0" "b0 \<le> 0xF4" | "0x80 \<le> b0" "b0 < 0xC2" | "0xF4 < b0" by linarith
  then show ?thesis
  proof cases
    case 2
    then have "(b0 - 0xC0) * 64 \<le> 31 * 64" by simp
    then have "(b0 - 0xC0) * 64 + (b1 - 0x80) < 0xD800" if "cont b1" for b1
      using that unfolding cont_def by linarith
    with Cons 2 show ?thesis
      by (simp add: decode_rune.simps(2) valid_rune_def rune_error_def split: list.splits)
  next
    case 3
    have v: "valid_rune ((b0 - 0xE0) * 4096 + (b1 - 0x80) * 64 + (b2 - 0x80))"
      if "cont b2" "0x80 \<le> b1" "b1 \<le> 0xBF" "b0 = 0xED \<longrightarrow> b1 \<le> 0x9F" for b1 b2
      using that 3 by (intro valid_rune_3) (auto simp: cont_def)
    show ?thesis
    proof (cases "b0 = 0xE0 \<or> b0 = 0xED")
      case True
      with v Cons show ?thesis
        by (elim disjE) (auto simp: decode_rune.simps(2) split: list.splits)
    next
      case False
      with v Cons 3 show ?thesis
        by (auto simp: decode_rune.simps(2) split: list.splits)
    qed
  next
    case 4
    have v: "valid_rune ((b0 - 0xF0) * 262144 + (b1 - 0x80) * 4096 + (b2 - 0x80) * 64 + (b3 - 0x80))"
      if "cont b2" "cont b3" "0x80 \<le> b1" "b1 \<le> 0xBF" "b0 = 0xF0 \<longrightarrow> 0x90 \<le> b1"
        "b0 = 0xF4 \<longrightarrow> b1 \<le> 0x8F" for b1 b2 b3
      using that 4 by (intro valid_rune_4) (auto simp: cont_def)
    show ?thesis
    proof (cases "b0 = 0xF0 \<or> b0 = 0xF4")
      case True
      with v Cons show ?thesis
        by (elim disjE) (auto simp: decode_rune.simps(2) split: list.splits)
    next
      case False
      with v Cons 4 show ?thesis
        by (auto simp: decode_rune.simps(2) split: list.splits)
    qed
  qed (use Cons in \<open>simp_all add: decode_rune.simps(2) valid_rune_def rune_error_def\<close>)
qed

lemma encode_bytes_nonempty [simp]: "encode_bytes r \<noteq> []"
  by (simp add: encode_bytes_def Let_def)

lemma encode_bytes_length: "length (encode_bytes r) \<le> 4"
  by (simp add: encode_bytes_def Let_def)

lemma encode_bytes_byte: "b \<in> set (encode_bytes r) \<Longrightarrow> b < 256"
proof -
  assume b: "b \<in> set (encode_bytes r)"
  have "r div 262144 \<le> 4" "r div 4096 < 16 \<or> 0x10000 \<le> r" if "valid_rune r"
    using that by (auto simp: valid_rune_def)
  with b show ?thesis
    by (auto simp: encode_bytes_def Let_def rune_error_def split: if_splits)
qed

lemma of_char_encode_rune: "map of_char (encode_rune r) = encode_bytes r"
  by (auto simp: encode_rune_def comp_def encode_bytes_byte intro!: map_idI)

lemma rune_chunks_encode:
  assumes "valid_rune r"
  shows "rune_chunks (encode_rune r @ s) = (r, encode_rune r) # rune_chunks s"
proof -
  let ?n = "length (encode_bytes r)"
  have len: "length (encode_rune r) = ?n" by (simp add: encode_rune_def)
  have ne: "encode_rune r \<noteq> []" by (simp add: encode_rune_def)
  have "map of_char (take 4 (encode_rune r @ s)) = encode_bytes r @ map of_char (take (4 - ?n) s)"
    using encode_bytes_length [of r] by (simp add: len of_char_encode_rune)
  then have "decode_rune (map of_char (take 4 (encode_rune r @ s))) = (r, ?n)"
    using assms by (simp add: decode_encode_bytes)
  with ne len show ?thesis by (subst rune_chunks.simps) simp
qed

lemma runes_encode: "valid_rune r \<Longrightarrow> runes (encode_rune r @ s) = r # runes s"
  by (simp add: runes_def rune_chunks_encode)

lemma runes_string_of_runes_append:
  "list_all valid_rune rs \<Longrightarrow> runes (string_of_runes rs @ s) = rs @ runes s"
  by (induction rs) (simp_all add: string_of_runes_def runes_encode)

lemma runes_string_of_runes: "list_all valid_rune rs \<Longrightarrow> runes (string_of_runes rs) = rs"
  using runes_string_of_runes_append [of rs "[]"] by (simp add: runes_def)

lemma runes_valid: "list_all valid_rune (runes s)"
proof (induction s rule: rune_chunks.induct)
  case (1 s)
  show ?case
  proof (cases "s = []")
    case False
    obtain r n where rn: "decode_rune (map of_char (take 4 s)) = (r, n)" by fastforce
    then have "valid_rune r" using decode_rune_valid by (metis fst_conv)
    with rn False 1 show ?thesis
      unfolding runes_def by (subst rune_chunks.simps) simp
  qed (simp add: runes_def)
qed

lemma rune_chunks_concat: "concat (map snd (rune_chunks s)) = s"
proof (induction s rule: rune_chunks.induct)
  case (1 s)
  then show ?case
    by (cases "s = []") (auto simp: rune_chunks.simps [of s] split: prod.splits)
qed

lemma encode_rune_ascii: "r < 0x80 \<Longrightarrow> encode_rune r = [char_of r]"
  by (simp add: encode_rune_def encode_bytes_def valid_rune_def)

lemma runes_ascii:
  assumes "list_all (\<lambda>c. of_char c < (0x80 :: nat)) s"
  shows "runes (s @ t) = map of_char s @ runes t"
  using assms
proof (induction s)
  case (Cons c s)
  then have c: "(of_char c :: nat) < 0x80" by simp
  then have "[c] = encode_rune (of_char c)" by (simp add: encode_rune_ascii)
  moreover have "valid_rune (of_char c)" using c by (simp add: valid_rune_def)
  ultimately have "runes ([c] @ (s @ t)) = of_char c # runes (s @ t)"
    by (metis runes_encode)
  with Cons show ?case by simp
qed (simp add: runes_def)

subsection \<open>White space\<close>

text \<open>\<open>unicode.IsSpace\<close>.\<close>

definition is_space :: "nat \<Rightarrow> bool" where
  "is_space r \<longleftrightarrow>
     (9 \<le> r \<and> r \<le> 13) \<or> r = 0x20 \<or> r = 0x85 \<or> r = 0xA0 \<or> r = 0x1680
     \<or> (0x2000 \<le> r \<and> r \<le> 0x200A) \<or> r = 0x2028 \<or> r = 0x2029 \<or> r = 0x202F \<or> r = 0x205F
     \<or> r = 0x3000"

definition trim_space :: "string \<Rightarrow> string" where
  "trim_space s =
     (let sp = is_space \<circ> fst
      in concat (map snd (rev (dropWhile sp (rev (dropWhile sp (rune_chunks s)))))))"

fun fields_go :: "string \<Rightarrow> (nat \<times> string) list \<Rightarrow> string list" where
  "fields_go cur [] = (if cur = [] then [] else [cur])"
| "fields_go cur ((r, b) # cs) =
     (if is_space r then (if cur = [] then fields_go [] cs else cur # fields_go [] cs)
      else fields_go (cur @ b) cs)"

definition fields :: "string \<Rightarrow> string list" where
  "fields s = fields_go [] (rune_chunks s)"

lemma fields_nonempty: "w \<in> set (fields s) \<Longrightarrow> w \<noteq> []"
proof -
  have "w \<in> set (fields_go cur cs) \<Longrightarrow> w \<noteq> []" for cur cs
    by (induction cur cs rule: fields_go.induct) (auto split: if_splits)
  then show "w \<in> set (fields s) \<Longrightarrow> w \<noteq> []" by (simp add: fields_def)
qed

lemma trim_space_Nil [simp]: "trim_space [] = []"
  by (simp add: trim_space_def)

text \<open>\<open>strings.ToLower\<close>, exact wherever the result is ASCII: the two code points beyond ASCII whose
  lower case is ASCII are the Kelvin sign and the dotted capital I.\<close>

definition to_lower_rune :: "nat \<Rightarrow> nat" where
  "to_lower_rune r =
     (if 0x41 \<le> r \<and> r \<le> 0x5A then r + 0x20
      else if r = 0x212A then 0x6B else if r = 0x130 then 0x69 else r)"

definition to_lower :: "string \<Rightarrow> string" where
  "to_lower s = string_of_runes (map to_lower_rune (runes s))"

subsection \<open>Truncation\<close>

text \<open>Go's slice \<open>runes[:maxLen-3]\<close> panics for a negative bound: that is \<open>None\<close>.\<close>

definition truncate_text :: "string \<Rightarrow> int \<Rightarrow> string option" where
  "truncate_text s maxLen =
     (let rs = runes s in
      if int (length rs) \<le> maxLen then Some s
      else if maxLen - 3 < 0 then None
      else Some (string_of_runes (take (nat (maxLen - 3)) rs) @ ''...''))"

lemma runes_dots: "runes ''...'' = [46, 46, 46]"
  using runes_ascii [of "''...''" "[]"] by (simp add: runes_def)

lemma truncate_text_total: "3 \<le> maxLen \<Longrightarrow> truncate_text s maxLen \<noteq> None"
  by (simp add: truncate_text_def Let_def)

lemma truncate_text_runes:
  assumes "truncate_text s maxLen = Some t"
  shows "runes t = (if int (length (runes s)) \<le> maxLen then runes s
                    else take (nat (maxLen - 3)) (runes s) @ [46, 46, 46])"
proof -
  have "list_all valid_rune (take n (runes s))" for n
    using runes_valid [of s] by (metis append_take_drop_id list_all_append)
  with assms show ?thesis
    by (auto simp: truncate_text_def Let_def runes_string_of_runes_append runes_dots split: if_splits)
qed

lemma truncate_text_length:
  "truncate_text s maxLen = Some t \<Longrightarrow> int (length (runes t)) \<le> maxLen"
  by (frule truncate_text_runes) (auto simp: truncate_text_def Let_def split: if_splits)

subsection \<open>Decimal integers\<close>

fun show_nat :: "nat \<Rightarrow> string" where
  "show_nat n = (if n < 10 then [char_of (48 + n)] else show_nat (n div 10) @ [char_of (48 + n mod 10)])"

declare show_nat.simps [simp del]

definition show_int :: "int \<Rightarrow> string" where
  "show_int i = (if i < 0 then ''-'' @ show_nat (nat (- i)) else show_nat (nat i))"

text \<open>\<open>strconv.FormatInt(x, 10)\<close> and \<open>%d\<close> of an \<open>int64\<close>.\<close>

definition format_i64 :: "i64 \<Rightarrow> string" where
  "format_i64 x = show_int (sint x)"

text \<open>The loop of \<open>strconv.ParseUint(s, 10, 64)\<close>: the error (\<open>True\<close> for out of range, \<open>False\<close> for
  a syntax error) that is met first from the left.\<close>

fun parse_digits :: "nat \<Rightarrow> string \<Rightarrow> bool + nat" where
  "parse_digits n [] = Inr n"
| "parse_digits n (c # cs) =
     (let d = of_char c :: nat in
      if d < 48 \<or> 57 < d then Inl False
      else if 2 ^ 64 \<le> n * 10 + (d - 48) then Inl True
      else parse_digits (n * 10 + (d - 48)) cs)"

definition parse_uint :: "string \<Rightarrow> bool + nat" where
  "parse_uint s = (if s = [] then Inl False else parse_digits 0 s)"

text \<open>\<open>strconv.ParseInt(s, 10, 64)\<close>.\<close>

definition parse_int :: "string \<Rightarrow> goerr + i64" where
  "parse_int s =
     (let neg = (case s of c # _ \<Rightarrow> c = CHR ''-'' | [] \<Rightarrow> False);
          body = (case s of c # cs \<Rightarrow> if c = CHR ''-'' \<or> c = CHR ''+'' then cs else s | [] \<Rightarrow> s)
      in case parse_uint body of
           Inl oor \<Rightarrow> Inl (NumErr oor s)
         | Inr n \<Rightarrow>
             if \<not> neg \<and> 2 ^ 63 \<le> n then Inl (NumErr True s)
             else if neg \<and> 2 ^ 63 < n then Inl (NumErr True s)
             else Inr (if neg then - of_nat n else of_nat n))"

lemma parse_digits_step:
  assumes "d < 10" and "n * 10 + d < 2 ^ 64"
  shows "parse_digits n (char_of (48 + d) # cs) = parse_digits (n * 10 + d) cs"
proof -
  have "(of_char (char_of (48 + d)) :: nat) = 48 + d" using assms(1) by simp
  with assms show ?thesis by simp
qed

lemma parse_show_nat: "n < 2 ^ 64 \<Longrightarrow> parse_digits 0 (show_nat n @ cs) = parse_digits n cs"
proof (induction n arbitrary: cs rule: show_nat.induct)
  case (1 n)
  show ?case
  proof (cases "n < 10")
    case True
    then show ?thesis using parse_digits_step [of n 0 cs] by (simp add: show_nat.simps [of n])
  next
    case False
    let ?d = "n mod 10"
    have n: "n div 10 * 10 + ?d = n" by simp
    have "show_nat n @ cs = show_nat (n div 10) @ (char_of (48 + ?d) # cs)"
      using False by (simp add: show_nat.simps [of n])
    also have "parse_digits 0 \<dots> = parse_digits (n div 10) (char_of (48 + ?d) # cs)"
      using False "1.prems" by (intro "1.IH") auto
    also have "\<dots> = parse_digits n cs"
      using parse_digits_step [of ?d "n div 10" cs] "1.prems" n by simp
    finally show ?thesis .
  qed
qed

lemma show_nat_first: "\<exists>c cs. show_nat n = c # cs \<and> c \<noteq> CHR ''-'' \<and> c \<noteq> CHR ''+''"
proof (induction n rule: show_nat.induct)
  case (1 n)
  show ?case
  proof (cases "n < 10")
    case True
    have "c \<noteq> CHR ''-'' \<and> c \<noteq> CHR ''+''" if "c = (char_of (48 + n) :: char)" for c
    proof -
      have "(of_char c :: nat) = 48 + n" using True that by simp
      then show ?thesis by auto
    qed
    with True show ?thesis by (simp add: show_nat.simps [of n])
  next
    case False
    with 1 show ?thesis by (subst show_nat.simps) auto
  qed
qed

lemma parse_uint_show_nat: "n < 2 ^ 64 \<Longrightarrow> parse_uint (show_nat n) = Inr n"
  using parse_show_nat [of n "[]"] show_nat_first [of n] by (auto simp: parse_uint_def)

lemma sint_i64_bounds: "- (2 ^ 63) \<le> sint (x :: i64)" "sint (x :: i64) < 2 ^ 63"
  using sint_greater_eq [of x] sint_less [of x] by simp_all

lemma parse_int_nonneg:
  assumes "c \<noteq> CHR ''-''" and "c \<noteq> CHR ''+''" and "parse_uint (c # cs) = Inr n" and "n < 2 ^ 63"
  shows "parse_int (c # cs) = Inr (of_nat n)"
  using assms by (simp add: parse_int_def)

lemma parse_int_neg:
  assumes "parse_uint cs = Inr n" and "n \<le> 2 ^ 63"
  shows "parse_int (CHR ''-'' # cs) = Inr (- of_nat n)"
  using assms by (simp add: parse_int_def)

lemma parse_format_i64: "parse_int (format_i64 x) = Inr x"
proof (cases "sint x < 0")
  case True
  then have neg: "format_i64 x = CHR ''-'' # show_nat (nat (- sint x))"
    by (simp add: format_i64_def show_int_def)
  have le: "nat (- sint x) \<le> 2 ^ 63"
    using sint_i64_bounds(1) [of x] by (simp add: nat_le_iff)
  then have "parse_uint (show_nat (nat (- sint x))) = Inr (nat (- sint x))"
    by (intro parse_uint_show_nat) simp
  from parse_int_neg [OF this le] show ?thesis
    using True unfolding neg by simp
next
  case False
  define n where "n = nat (sint x)"
  have x: "of_nat n = x" using False by (simp add: n_def)
  have lt: "n < 2 ^ 63"
    using sint_i64_bounds(2) [of x] False unfolding n_def by (simp add: nat_less_iff)
  have pos: "format_i64 x = show_nat n"
    using False by (simp add: format_i64_def show_int_def n_def)
  obtain c cs where c: "show_nat n = c # cs" "c \<noteq> CHR ''-''" "c \<noteq> CHR ''+''"
    using show_nat_first by blast
  have "parse_uint (c # cs) = Inr n"
    using lt parse_uint_show_nat [of n] unfolding c(1) by simp
  from parse_int_nonneg [OF c(2,3) this lt] show ?thesis
    unfolding pos c(1) x .
qed

lemma format_i64_inj: "format_i64 x = format_i64 y \<Longrightarrow> x = y"
  by (metis parse_format_i64 sum.inject(2))

lemma format_i64_nonempty [simp]: "format_i64 x \<noteq> []"
proof
  assume "format_i64 x = []"
  moreover have "parse_int [] = Inl (NumErr False [])"
    by (simp add: parse_int_def parse_uint_def)
  ultimately show False using parse_format_i64 [of x] by simp
qed

end
