(* ===== verification/Go_Json.thy ===== *)
theory Go_Json
  imports Go_Strings
begin

text \<open>
  The use the services make of \<open>encoding/json\<close>: a document is its value, a body that is not a
  JSON document is \<open>None\<close>. Decoders follow \<open>json.Unmarshal\<close> into a zero value: \<open>null\<close> leaves the
  target as it is, a member is matched to a field up to case, the last matching member wins, a
  value of the wrong kind or out of the field's range is an error, unknown members are ignored.
  A member that repeats an array field decodes afresh. Strings are written with invalid UTF-8
  replaced by U+FFFD, as \<open>json.Marshal\<close> does.
\<close>

datatype json =
    JNull
  | JBool bool
  | JInt int
  | JOtherNumber
  | JStr string
  | JArr "json list"
  | JObj "(string \<times> json) list"

type_synonym 'a decoder = "json \<Rightarrow> 'a \<Rightarrow> goerr + 'a"

definition type_error :: "goerr" where
  "type_error = NewErr ''json: cannot unmarshal value into Go value''"

definition syntax_error :: "goerr" where
  "syntax_error = NewErr ''invalid character in JSON text''"

subsection \<open>Writing\<close>

definition valid_text :: "string \<Rightarrow> string" where
  "valid_text s = string_of_runes (runes s)"

definition enc_str :: "string \<Rightarrow> json" where
  "enc_str s = JStr (valid_text s)"

definition enc_i64 :: "i64 \<Rightarrow> json" where
  "enc_i64 x = JInt (sint x)"

definition enc_list :: "('a \<Rightarrow> json) \<Rightarrow> 'a list \<Rightarrow> json" where
  "enc_list f xs = JArr (map f xs)"

subsection \<open>Reading\<close>

fun dec_str :: "string decoder" where
  "dec_str JNull old = Inr old"
| "dec_str (JStr s) old = Inr s"
| "dec_str _ old = Inl type_error"

fun dec_bool :: "bool decoder" where
  "dec_bool JNull old = Inr old"
| "dec_bool (JBool b) old = Inr b"
| "dec_bool _ old = Inl type_error"

fun dec_i64 :: "i64 decoder" where
  "dec_i64 JNull old = Inr old"
| "dec_i64 (JInt n) old =
     (if - (2 ^ 63) \<le> n \<and> n < 2 ^ 63 then Inr (of_int n) else Inl type_error)"
| "dec_i64 _ old = Inl type_error"

fun dec_all :: "'a decoder \<Rightarrow> 'a \<Rightarrow> json list \<Rightarrow> goerr + 'a list" where
  "dec_all d z [] = Inr []"
| "dec_all d z (j # js) =
     (case d j z of Inl e \<Rightarrow> Inl e
      | Inr x \<Rightarrow> (case dec_all d z js of Inl e \<Rightarrow> Inl e | Inr xs \<Rightarrow> Inr (x # xs)))"

fun dec_list :: "'a decoder \<Rightarrow> 'a \<Rightarrow> 'a list decoder" where
  "dec_list d z JNull old = Inr old"
| "dec_list d z (JArr js) old = dec_all d z js"
| "dec_list d z _ old = Inl type_error"

text \<open>\<open>encoding/json\<close> folds names by simple case folding; on a name compared with an ASCII field
  name the two code points beyond ASCII that matter are the Kelvin sign and the long s.\<close>

definition fold_rune :: "nat \<Rightarrow> nat" where
  "fold_rune r =
     (if 0x41 \<le> r \<and> r \<le> 0x5A then r + 0x20
      else if r = 0x212A then 0x6B else if r = 0x17F then 0x73 else r)"

definition fold_name :: "string \<Rightarrow> nat list" where
  "fold_name s = map fold_rune (runes s)"

fun dec_members :: "nat list \<Rightarrow> 'a decoder \<Rightarrow> (string \<times> json) list \<Rightarrow> 'a \<Rightarrow> goerr + 'a" where
  "dec_members n d [] old = Inr old"
| "dec_members n d ((k, j) # ms) old =
     (if fold_name k = n
      then (case d j old of Inl e \<Rightarrow> Inl e | Inr x \<Rightarrow> dec_members n d ms x)
      else dec_members n d ms old)"

definition dec_field :: "string \<Rightarrow> 'a decoder \<Rightarrow> (string \<times> json) list \<Rightarrow> 'a \<Rightarrow> goerr + 'a" where
  "dec_field name d ms z = dec_members (fold_name name) d ms z"

text \<open>\<open>json.Unmarshal(body, &x)\<close> into a struct whose fields \<open>fs\<close> decodes.\<close>

definition dec_struct :: "((string \<times> json) list \<Rightarrow> 'a \<Rightarrow> goerr + 'a) \<Rightarrow> 'a decoder" where
  "dec_struct fs j old =
     (case j of JNull \<Rightarrow> Inr old | JObj ms \<Rightarrow> fs ms old | _ \<Rightarrow> Inl type_error)"

definition unmarshal :: "'a decoder \<Rightarrow> 'a \<Rightarrow> json option \<Rightarrow> goerr + 'a" where
  "unmarshal d z body = (case body of None \<Rightarrow> Inl syntax_error | Some j \<Rightarrow> d j z)"

subsection \<open>Reading what was written\<close>

lemma dec_enc_str [simp]: "dec_str (enc_str s) old = Inr (valid_text s)"
  by (simp add: enc_str_def)

lemma dec_enc_i64 [simp]: "dec_i64 (enc_i64 x) old = Inr x"
  using sint_i64_bounds [of x] by (simp add: enc_i64_def)

lemma dec_all_map:
  assumes "\<And>x. x \<in> set xs \<Longrightarrow> d (f x) z = Inr (g x)"
  shows "dec_all d z (map f xs) = Inr (map g xs)"
  using assms by (induction xs) simp_all

lemma dec_enc_list:
  assumes "\<And>x. x \<in> set xs \<Longrightarrow> d (f x) z = Inr (g x)"
  shows "dec_list d z (enc_list f xs) old = Inr (map g xs)"
  using assms by (simp add: enc_list_def dec_all_map)

lemma valid_text_idem [simp]: "valid_text (valid_text s) = valid_text s"
  by (simp add: valid_text_def runes_string_of_runes runes_valid)

lemma valid_text_runes [simp]: "runes (valid_text s) = runes s"
  by (simp add: valid_text_def runes_string_of_runes runes_valid)

lemma valid_text_empty_iff [simp]: "valid_text s = [] \<longleftrightarrow> s = []"
proof
  assume "valid_text s = []"
  then have "runes s = []" by (metis valid_text_runes list.map(1) rune_chunks_Nil runes_def)
  then show "s = []" by (metis concat.simps(1) list.map_disc_iff rune_chunks_concat runes_def)
qed (simp add: valid_text_def runes_def string_of_runes_def)

lemma fold_name_ascii:
  assumes "list_all (\<lambda>c. of_char c < (0x80 :: nat)) s"
  shows "fold_name s = map (\<lambda>c. fold_rune (of_char c)) s"
  using runes_ascii [OF assms, of "[]"] by (simp add: fold_name_def runes_def)

subsection \<open>Documents that are not written by the program\<close>

text \<open>An object whose members are told apart from the fields that are read: no name twice, and no other
  spelling of a field's name.\<close>

definition plain_object :: "string list \<Rightarrow> (string \<times> json) list \<Rightarrow> bool" where
  "plain_object names ms \<longleftrightarrow> distinct (map fst ms) \<and>
     (\<forall>k \<in> set (map fst ms). \<forall>n \<in> set names. fold_name k = fold_name n \<longrightarrow> k = n)"

lemma dec_members_absent: "(\<And>k. k \<in> set (map fst ms) \<Longrightarrow> fold_name k \<noteq> n) \<Longrightarrow> dec_members n d ms old = Inr old"
  by (induction ms) auto

lemma dec_field_plain:
  assumes "plain_object names ms" and "n \<in> set names"
  shows "dec_field n d ms old = (case map_of ms n of None \<Rightarrow> Inr old | Some j \<Rightarrow> d j old)"
  using assms(1)
proof (induction ms)
  case (Cons m ms)
  obtain k j where m: "m = (k, j)" by (cases m)
  have p: "plain_object names ms" using Cons.prems by (simp add: plain_object_def)
  show ?case
  proof (cases "k = n")
    case True
    have "fold_name k' \<noteq> fold_name n" if "k' \<in> set (map fst ms)" for k'
      using Cons.prems that assms(2) unfolding plain_object_def m True by auto
    then have "dec_members (fold_name n) d ms x = Inr x" for x by (rule dec_members_absent)
    then show ?thesis by (simp add: dec_field_def m True split: sum.split)
  next
    case False
    then have "fold_name k \<noteq> fold_name n" using Cons.prems assms(2) unfolding plain_object_def m by auto
    with Cons.IH [OF p] False show ?thesis by (simp add: dec_field_def m)
  qed
qed (simp add: dec_field_def)

text \<open>A member that is a text; one that is left out or \<open>null\<close> reads as the empty text.\<close>

definition text_member :: "(string \<times> json) list \<Rightarrow> string \<Rightarrow> string \<Rightarrow> bool" where
  "text_member ms n t \<longleftrightarrow> (case map_of ms n of None \<Rightarrow> t = '''' | Some j \<Rightarrow> j = JStr t \<or> j = JNull \<and> t = '''')"

lemma text_member_read:
  assumes "plain_object names ms" and "n \<in> set names" and "text_member ms n t"
  shows "dec_field n dec_str ms [] = Inr t"
  using assms(3) by (auto simp: text_member_def dec_field_plain [OF assms(1,2)] split: option.splits)

lemma dec_all_shows:
  assumes "list_all2 P js xs" and "\<And>j x. P j x \<Longrightarrow> d j z = Inr (g x)"
  shows "dec_all d z js = Inr (map g xs)"
  using assms by (induction rule: list_all2_induct) simp_all

end
