(* ===== verification/Go_Http.thy ===== *)
theory Go_Http
  imports Go_Json
begin

text \<open>
  Go's clock text and HTTP messages as the clients and handlers use them: the instants of RFC 3339
  (\<open>time.Time\<close> in JSON), requests and responses, and a client whose \<open>Do\<close> is the remote service.
\<close>

subsection \<open>RFC 3339\<close>

definition dig :: "string \<Rightarrow> nat \<Rightarrow> nat option" where
  "dig s i =
     (if i < length s then (let n = of_char (s ! i) :: nat in if 48 \<le> n \<and> n \<le> 57 then Some (n - 48) else None)
      else None)"

fun digs :: "string \<Rightarrow> nat \<Rightarrow> nat \<Rightarrow> nat option" where
  "digs s i 0 = Some 0"
| "digs s i (Suc n) =
     (case (digs s i n, dig s (i + n)) of (Some a, Some b) \<Rightarrow> Some (10 * a + b) | _ \<Rightarrow> None)"

definition at :: "string \<Rightarrow> nat \<Rightarrow> char \<Rightarrow> bool" where
  "at s i c \<longleftrightarrow> i < length s \<and> s ! i = c"

definition leap :: "nat \<Rightarrow> bool" where
  "leap y \<longleftrightarrow> y mod 4 = 0 \<and> (y mod 100 \<noteq> 0 \<or> y mod 400 = 0)"

definition days_in :: "nat \<Rightarrow> nat \<Rightarrow> nat" where
  "days_in y m = (if m = 2 then (if leap y then 29 else 28) else if m \<in> {4, 6, 9, 11} then 30 else 31)"

text \<open>Days from 1970-01-01 to a date.\<close>

definition epoch_day :: "nat \<Rightarrow> nat \<Rightarrow> nat \<Rightarrow> int" where
  "epoch_day y m d =
     int (365 * y + (y + 3) div 4) - int ((y + 99) div 100) + int ((y + 399) div 400)
     + int (sum_list (map (days_in y) [1..<m])) + int d - 1 - 719528"

text \<open>The nanoseconds of a fraction, and what follows it.\<close>

definition fraction :: "string \<Rightarrow> (nat \<times> string) option" where
  "fraction s =
     (if at s 0 (CHR ''.'') \<and> dig s 1 \<noteq> None then
        (let ds = takeWhile (\<lambda>c. 48 \<le> (of_char c :: nat) \<and> of_char c \<le> (57 :: nat)) (tl s);
             nine = take 9 (ds @ replicate 9 (CHR ''0'')) in
         map_option (\<lambda>n. (n, drop (length ds + 1) s)) (digs nine 0 9))
      else Some (0, s))"

definition zone :: "string \<Rightarrow> int option" where
  "zone s =
     (if s = ''Z'' then Some 0
      else if length s = 6 \<and> (at s 0 (CHR ''+'') \<or> at s 0 (CHR ''-'')) \<and> at s 3 (CHR '':'') then
        (case (digs s 1 2, digs s 4 2) of
           (Some h, Some m) \<Rightarrow>
             if h < 24 \<and> m < 60
             then Some ((if at s 0 (CHR ''-'') then - 1 else 1) * (int h * 3600 + int m * 60)) else None
         | _ \<Rightarrow> None)
      else None)"

definition parse_rfc3339 :: "string \<Rightarrow> instant option" where
  "parse_rfc3339 s =
     (case (digs s 0 4, digs s 5 2, digs s 8 2, digs s 11 2, digs s 14 2, digs s 17 2) of
        (Some y, Some mo, Some d, Some h, Some mi, Some se) \<Rightarrow>
          if at s 4 (CHR ''-'') \<and> at s 7 (CHR ''-'') \<and> at s 10 (CHR ''T'') \<and> at s 13 (CHR '':'') \<and> at s 16 (CHR '':'')
             \<and> 1 \<le> mo \<and> mo \<le> 12 \<and> 1 \<le> d \<and> d \<le> days_in y mo \<and> h < 24 \<and> mi < 60 \<and> se < 60
          then (case fraction (drop 19 s) of
                  None \<Rightarrow> None
                | Some (ns, rest) \<Rightarrow>
                    map_option (\<lambda>z. (epoch_day y mo d * 86400 + int (h * 3600 + mi * 60 + se) - z) * 1000000000 + int ns)
                      (zone rest))
          else None
      | _ \<Rightarrow> None)"

definition zero_time :: instant where
  "zero_time = - 62135596800000000000"

definition unix_seconds :: "int \<Rightarrow> instant" where
  "unix_seconds s = s * 1000000000"

text \<open>\<open>time.Time.Unix\<close> rounds down.\<close>

definition to_unix :: "instant \<Rightarrow> int" where
  "to_unix t = t div 1000000000"

fun dec_time :: "instant decoder" where
  "dec_time JNull old = Inr old"
| "dec_time (JStr s) old =
     (case parse_rfc3339 s of None \<Rightarrow> Inl (NewErr ''parsing time'') | Some t \<Rightarrow> Inr t)"
| "dec_time _ old = Inl (NewErr ''Time.UnmarshalJSON: input is not a JSON string'')"

subsection \<open>Messages\<close>

text \<open>A body is its JSON document, or \<open>None\<close> when it is not one.\<close>

record http_request =
  rq_method :: string
  rq_url :: string
  rq_header :: "(string \<times> string) list"
  rq_body :: "json option"

record http_response =
  rs_status :: nat
  rs_body :: "json option"

definition rq_get :: "string \<Rightarrow> http_request" where
  "rq_get url = \<lparr>rq_method = ''GET'', rq_url = url, rq_header = [], rq_body = None\<rparr>"

text \<open>Making the request and \<open>Do\<close>: what comes back is a response or the error of either step.\<close>

type_synonym 'w http_do = "http_request \<Rightarrow> ('w, http_response) prog"

end
