(* ===== verification/Scrapper_Domain.thy ===== *)
theory Scrapper_Domain
  imports Go_Json
begin

text \<open>
  The data of the scrapper and of the transactional outbox (\<open>internal/scrapper/domain\<close>): links,
  subscriptions, updates, outbox rows; and the interfaces the services call, as records of
  functions over the state they run in. A \<open>nil\<close> slice and an empty one are both the empty list.
\<close>

record link =
  link_ID :: i64
  link_URL :: string
  link_LastUpdated :: instant

record link_update =
  lu_ID :: i64
  lu_URL :: string
  lu_Author :: string
  lu_Description :: string
  lu_TgChatIDs :: "i64 list"

record subscription =
  sub_ChatID :: i64
  sub_LinkID :: i64
  sub_Tags :: "string list"

record tracked_link =
  tl_ID :: i64
  tl_URL :: string
  tl_Tags :: "string list"

datatype outbox_status = PENDING | SENT | FAILED

record outbox =
  ob_ID :: i64
  ob_Topic :: string
  ob_Payload :: json
  ob_Status :: outbox_status
  ob_Retries :: int
  ob_CreatedAt :: instant
  ob_UpdatedAt :: instant

text \<open>\<open>UpdateEvent\<close>: the interface value's three answers; \<open>Description\<close> is \<open>None\<close> when the method
  panics.\<close>

record update_event =
  ev_UpdatedAt :: instant
  ev_Author :: string
  ev_Description :: "string option"

record 'w chat_repo =
  cr_Create :: "i64 \<Rightarrow> ('w, unit) prog"
  cr_GetByID :: "i64 \<Rightarrow> ('w, i64) prog"
  cr_Delete :: "i64 \<Rightarrow> ('w, unit) prog"

record 'w link_repo =
  lr_Save :: "link \<Rightarrow> ('w, link) prog"
  lr_GetByID :: "i64 \<Rightarrow> ('w, link) prog"
  lr_GetByURL :: "string \<Rightarrow> ('w, link) prog"
  lr_Delete :: "i64 \<Rightarrow> ('w, unit) prog"
  lr_GetBatch :: "nat \<Rightarrow> nat \<Rightarrow> ('w, link list) prog"

record 'w sub_repo =
  sr_Save :: "subscription \<Rightarrow> ('w, unit) prog"
  sr_GetByChatID :: "i64 \<Rightarrow> ('w, subscription list) prog"
  sr_GetByLinkID :: "i64 \<Rightarrow> ('w, subscription list) prog"
  sr_Exists :: "i64 \<Rightarrow> i64 \<Rightarrow> ('w, bool) prog"
  sr_Delete :: "i64 \<Rightarrow> i64 \<Rightarrow> ('w, subscription) prog"
  sr_AddTags :: "i64 \<Rightarrow> i64 \<Rightarrow> string list \<Rightarrow> ('w, unit) prog"
  sr_GetTags :: "i64 \<Rightarrow> i64 \<Rightarrow> ('w, string list) prog"
  sr_DeleteTags :: "i64 \<Rightarrow> i64 \<Rightarrow> string list \<Rightarrow> ('w, unit) prog"

record 'w outbox_repo =
  or_Add :: "string \<Rightarrow> json \<Rightarrow> ('w, outbox) prog"
  or_GetPending :: "string \<Rightarrow> nat \<Rightarrow> ('w, outbox list) prog"
  or_GetFailed :: "string \<Rightarrow> nat \<Rightarrow> ('w, outbox list) prog"
  or_UpdateStatus :: "i64 \<Rightarrow> outbox_status \<Rightarrow> ('w, unit) prog"
  or_IncrementRetries :: "i64 \<Rightarrow> ('w, int) prog"

record 'w link_fetcher =
  lf_CanHandle :: "string \<Rightarrow> bool"
  lf_Fetch :: "string \<Rightarrow> instant \<Rightarrow> ('w, update_event list) prog"

end
