(* ===== verification/Fetchers.thy ===== *)
theory Fetchers
  imports Go_Http Scrapper_Domain
begin

text \<open>
  The link fetchers of the scrapper: the GitHub client (\<open>adapter/out/http/github\<close>), the
  StackOverflow client (\<open>adapter/out/http/stackoverflow\<close>) and the service that dispatches to the
  first fetcher that handles a url (\<open>application/fetcher_service.go\<close>). The remote services are the
  parameter \<open>Do\<close> of the clients; \<open>html.UnescapeString\<close> (a table of the standard library) is a
  parameter too.
\<close>

subsection \<open>GitHub\<close>

record 'w github_client =
  gc_Do :: "'w http_do"
  gc_apiURL :: string
  gc_baseURL :: string
  gc_maxDescriptionLen :: int

definition github_BaseURL :: string where
  "github_BaseURL = ''https://github.com/''"

definition github_BaseApiURL :: string where
  "github_BaseApiURL = ''https://api.github.com''"

definition github_NewClient :: "'w http_do \<Rightarrow> string \<Rightarrow> string \<Rightarrow> int \<Rightarrow> 'w github_client" where
  "github_NewClient httpDo baseURL baseApiURL maxDescriptionLen =
     \<lparr>gc_Do = httpDo, gc_apiURL = baseApiURL, gc_baseURL = baseURL, gc_maxDescriptionLen = maxDescriptionLen\<rparr>"

definition github_CanHandle :: "'w github_client \<Rightarrow> string \<Rightarrow> bool" where
  "github_CanHandle client url = has_prefix url (gc_baseURL client)"

text \<open>A pull request or an issue as the API gives it; \<open>gi_is_pr\<close>: \<open>pull_request\<close> is not \<open>null\<close>.\<close>

record gh_item =
  gi_title :: string
  gi_login :: string
  gi_body :: string
  gi_created :: instant
  gi_is_pr :: bool

definition gh_zero :: gh_item where
  "gh_zero = \<lparr>gi_title = '''', gi_login = '''', gi_body = '''', gi_created = zero_time, gi_is_pr = False\<rparr>"

definition dec_gh_pull :: "gh_item decoder" where
  "dec_gh_pull = dec_struct (\<lambda>ms old.
     sbind (dec_field ''title'' dec_str ms (gi_title old)) (\<lambda>t.
     sbind (dec_field ''user'' (dec_struct (dec_field ''login'' dec_str)) ms (gi_login old)) (\<lambda>l.
     sbind (dec_field ''body_text'' dec_str ms (gi_body old)) (\<lambda>b.
     sbind (dec_field ''created_at'' dec_time ms (gi_created old)) (\<lambda>c.
     Inr (old\<lparr>gi_title := t, gi_login := l, gi_body := b, gi_created := c\<rparr>))))))"

fun dec_pointer :: "bool decoder" where
  "dec_pointer JNull old = Inr False"
| "dec_pointer (JObj ms) old = Inr True"
| "dec_pointer _ old = Inl type_error"

definition dec_gh_issue :: "gh_item decoder" where
  "dec_gh_issue = dec_struct (\<lambda>ms old.
     sbind (dec_gh_pull (JObj ms) old) (\<lambda>it.
     sbind (dec_field ''pull_request'' dec_pointer ms (gi_is_pr old)) (\<lambda>p.
     Inr (it\<lparr>gi_is_pr := p\<rparr>))))"

text \<open>\<open>NewPRUpdate\<close> and \<open>NewIssueUpdate\<close> as events.\<close>

definition NewPRUpdate :: "int \<Rightarrow> gh_item \<Rightarrow> update_event" where
  "NewPRUpdate maxLen it =
     \<lparr>ev_UpdatedAt = gi_created it, ev_Author = gi_login it,
      ev_Description = truncate_text
        (''New Pull Request: '' @ gi_title it @ '' by '' @ gi_login it @ [CHR 10] @ gi_body it) maxLen\<rparr>"

definition NewIssueUpdate :: "int \<Rightarrow> gh_item \<Rightarrow> update_event" where
  "NewIssueUpdate maxLen it =
     \<lparr>ev_UpdatedAt = gi_created it, ev_Author = gi_login it,
      ev_Description = truncate_text
        (''New Issue: '' @ gi_title it @ '' by '' @ gi_login it @ [CHR 10] @ gi_body it) maxLen\<rparr>"

definition github_headers :: "(string \<times> string) list" where
  "github_headers = [(''Accept'', ''application/vnd.github.text+json''), (''X-GitHub-Api-Version'', ''2026-03-10'')]"

definition fetchPullRequests :: "'w github_client \<Rightarrow> string \<Rightarrow> instant \<Rightarrow> ('w, update_event list) prog" where
  "fetchPullRequests client repoURL since =
     ebind (gc_Do client ((rq_get (repoURL @ ''/pulls''))\<lparr>rq_header := github_headers\<rparr>)) (\<lambda>response.
     if rs_status response \<noteq> 200
     then efail (NewErr (''github api returned status: '' @ show_nat (rs_status response)))
     else
       ebind (lift_sum (unmarshal (dec_list dec_gh_pull gh_zero) [] (rs_body response))) (\<lambda>pulls.
       eret (map (NewPRUpdate (gc_maxDescriptionLen client)) (filter (\<lambda>p. since < gi_created p) pulls))))"

definition fetchIssues :: "'w github_client \<Rightarrow> string \<Rightarrow> instant \<Rightarrow> ('w, update_event list) prog" where
  "fetchIssues client repoURL since =
     ebind (gc_Do client ((rq_get (repoURL @ ''/issues''))\<lparr>rq_header := github_headers\<rparr>)) (\<lambda>response.
     if rs_status response \<noteq> 200
     then efail (NewErr (''github api returned status: '' @ show_nat (rs_status response)))
     else
       ebind (lift_sum (unmarshal (dec_list dec_gh_issue gh_zero) [] (rs_body response))) (\<lambda>issues.
       eret (map (NewIssueUpdate (gc_maxDescriptionLen client))
              (filter (\<lambda>i. \<not> gi_is_pr i) (filter (\<lambda>i. since < gi_created i) issues)))))"

definition timed_out :: "string \<Rightarrow> string \<Rightarrow> goerr \<Rightarrow> goerr" where
  "timed_out late other e = WrapErr (if errors_is ErrDeadlineExceeded e then late else other) e ''''"

definition github_Fetch :: "'w github_client \<Rightarrow> string \<Rightarrow> instant \<Rightarrow> ('w, update_event list) prog" where
  "github_Fetch client url since =
     (case split_char (CHR ''/'') (trim_char (CHR ''/'') (trim_prefix url (gc_baseURL client))) of
        owner # repo # rest \<Rightarrow>
          (let repoURL = gc_apiURL client @ ''/repos/'' @ owner @ ''/'' @ repo in
           ehandle (fetchPullRequests client repoURL since)
             (\<lambda>e. efail (timed_out ''fetch pull requests timed out: '' ''error fetching pull requests: '' e)) (\<lambda>pulls.
           ehandle (fetchIssues client repoURL since)
             (\<lambda>e. efail (timed_out ''fetch issues timed out: '' ''error fetching issues: '' e)) (\<lambda>issues.
           eret (pulls @ issues))))
      | _ \<Rightarrow> efail (NewErr (''invalid github url: '' @ url)))"

definition github_fetcher :: "'w github_client \<Rightarrow> 'w link_fetcher" where
  "github_fetcher client = \<lparr>lf_CanHandle = github_CanHandle client, lf_Fetch = github_Fetch client\<rparr>"

subsection \<open>StackOverflow\<close>

record 'w so_client =
  sc_Do :: "'w http_do"
  sc_apiURL :: string
  sc_baseURL :: string
  sc_maxDescriptionLen :: int
  sc_keyQuery :: string
  sc_unescape :: "string \<Rightarrow> string"

definition so_BaseURL :: string where
  "so_BaseURL = ''https://stackoverflow.com/questions/''"

definition so_BaseApiURL :: string where
  "so_BaseApiURL = ''https://api.stackexchange.com/2.3''"

definition so_site :: string where
  "so_site = ''stackoverflow.com''"

definition so_NewClient ::
    "'w http_do \<Rightarrow> string \<Rightarrow> string \<Rightarrow> int \<Rightarrow> string \<Rightarrow> (string \<Rightarrow> string) \<Rightarrow> 'w so_client" where
  "so_NewClient httpDo baseURL baseAPIURL maxDescriptionLen key unescape =
     \<lparr>sc_Do = httpDo, sc_apiURL = baseAPIURL, sc_baseURL = baseURL, sc_maxDescriptionLen = maxDescriptionLen,
      sc_keyQuery = (if key \<noteq> '''' then ''&key='' @ key else key), sc_unescape = unescape\<rparr>"

definition so_CanHandle :: "'w so_client \<Rightarrow> string \<Rightarrow> bool" where
  "so_CanHandle client url = has_prefix url (sc_baseURL client)"

text \<open>The regular expression \<open><[^>]*>\<close>: from a \<open><\<close> to the next \<open>>\<close>, when there is one.\<close>

function strip_tags :: "string \<Rightarrow> string" where
  "strip_tags [] = []"
| "strip_tags (c # cs) =
     (if c = CHR ''<'' \<and> CHR ''>'' \<in> set cs
      then strip_tags (tl (dropWhile (\<lambda>x. x \<noteq> CHR ''>'') cs))
      else c # strip_tags cs)"
  by pat_completeness auto
termination strip_tags
proof (relation "measure length", goal_cases)
  case (2 c cs)
  have "length (tl (dropWhile (\<lambda>x. x \<noteq> CHR ''>'') cs)) \<le> length cs"
    using length_dropWhile_le [of "\<lambda>x. x \<noteq> CHR ''>''" cs] by simp
  then show ?case by simp
qed simp_all

definition cleanText :: "(string \<Rightarrow> string) \<Rightarrow> string \<Rightarrow> string" where
  "cleanText unescape text = trim_space (unescape (strip_tags text))"

record so_item =
  si_owner :: string
  si_date :: i64
  si_body :: string

definition so_zero :: so_item where
  "so_zero = \<lparr>si_owner = '''', si_date = 0, si_body = ''''\<rparr>"

definition dec_so_item :: "so_item decoder" where
  "dec_so_item = dec_struct (\<lambda>ms old.
     sbind (dec_field ''owner'' (dec_struct (dec_field ''display_name'' dec_str)) ms (si_owner old)) (\<lambda>ow.
     sbind (dec_field ''creation_date'' dec_i64 ms (si_date old)) (\<lambda>d.
     sbind (dec_field ''body'' dec_str ms (si_body old)) (\<lambda>b.
     Inr \<lparr>si_owner = ow, si_date = d, si_body = b\<rparr>))))"

definition dec_so_items :: "so_item list decoder" where
  "dec_so_items = dec_struct (dec_field ''items'' (dec_list dec_so_item so_zero))"

definition dec_so_titles :: "string list decoder" where
  "dec_so_titles = dec_struct (dec_field ''items'' (dec_list (dec_struct (dec_field ''title'' dec_str)) ''''))"

definition si_time :: "so_item \<Rightarrow> instant" where
  "si_time it = unix_seconds (sint (si_date it))"

definition AnswerUpdate :: "'w so_client \<Rightarrow> string \<Rightarrow> so_item \<Rightarrow> update_event" where
  "AnswerUpdate client title it =
     \<lparr>ev_UpdatedAt = si_time it, ev_Author = si_owner it,
      ev_Description = truncate_text
        (''New answer on question '' @ [CHR 34] @ title @ [CHR 34] @ '' by '' @ si_owner it @ [CHR 10]
         @ cleanText (sc_unescape client) (si_body it)) (sc_maxDescriptionLen client)\<rparr>"

definition CommentUpdate :: "'w so_client \<Rightarrow> string \<Rightarrow> so_item \<Rightarrow> update_event" where
  "CommentUpdate client title it =
     \<lparr>ev_UpdatedAt = si_time it, ev_Author = si_owner it,
      ev_Description = truncate_text
        (''New comment on question '' @ [CHR 34] @ title @ [CHR 34] @ '' by '' @ si_owner it @ [CHR 10]
         @ cleanText (sc_unescape client) (si_body it)) (sc_maxDescriptionLen client)\<rparr>"

definition so_status :: "nat \<Rightarrow> goerr" where
  "so_status n = NewErr (''stackoverflow api returned status: '' @ show_nat n)"

definition fetchQuestionTitle :: "'w so_client \<Rightarrow> string \<Rightarrow> ('w, string) prog" where
  "fetchQuestionTitle client questionID =
     ebind (sc_Do client (rq_get
       (sc_apiURL client @ ''/questions/'' @ questionID @ ''?site='' @ so_site @ sc_keyQuery client))) (\<lambda>response.
     if rs_status response \<noteq> 200 then efail (so_status (rs_status response))
     else
       ebind (lift_sum (unmarshal dec_so_titles [] (rs_body response))) (\<lambda>titles.
       case titles of [] \<Rightarrow> efail (NewErr ''question not found'') | t # ts \<Rightarrow> eret t))"

definition fetchAnswers :: "'w so_client \<Rightarrow> string \<Rightarrow> instant \<Rightarrow> string \<Rightarrow> ('w, update_event list) prog" where
  "fetchAnswers client questionURL since title =
     ebind (sc_Do client (rq_get
       (questionURL @ ''/answers?site='' @ so_site @ ''&filter=withbody&fromdate='' @ show_int (to_unix since)
        @ sc_keyQuery client))) (\<lambda>response.
     if rs_status response \<noteq> 200 then efail (so_status (rs_status response))
     else
       ebind (lift_sum (unmarshal dec_so_items [] (rs_body response))) (\<lambda>answers.
       eret (map (AnswerUpdate client title) (filter (\<lambda>a. since < si_time a) answers))))"

definition fetchComments :: "'w so_client \<Rightarrow> string \<Rightarrow> instant \<Rightarrow> string \<Rightarrow> ('w, update_event list) prog" where
  "fetchComments client questionURL since title =
     ebind (sc_Do client (rq_get
       (questionURL @ ''/comments?site='' @ so_site @ ''&filter=withbody&fromdate='' @ show_int (to_unix since)
        @ sc_keyQuery client))) (\<lambda>response.
     if rs_status response \<noteq> 200 then efail (so_status (rs_status response))
     else
       ebind (lift_sum (unmarshal dec_so_items [] (rs_body response))) (\<lambda>comments.
       eret (map (CommentUpdate client title) comments)))"

definition so_Fetch :: "'w so_client \<Rightarrow> string \<Rightarrow> instant \<Rightarrow> ('w, update_event list) prog" where
  "so_Fetch client url since =
     (let questionID = hd (split_char (CHR ''/'') (trim_prefix url (sc_baseURL client))) in
      if questionID = '''' then efail (NewErr (''invalid stackoverflow url: '' @ url))
      else
        ehandle (fetchQuestionTitle client questionID)
          (\<lambda>e. efail (timed_out ''fetch question title timed out: ''
                 (''error getting title for question with id '' @ questionID @ '': '') e)) (\<lambda>title.
        let questionURL = sc_apiURL client @ ''/questions/'' @ questionID in
        ehandle (fetchAnswers client questionURL since title)
          (\<lambda>e. efail (timed_out ''fetch answers timed out: '' ''error getting question answers: '' e)) (\<lambda>answers.
        ehandle (fetchComments client questionURL since title)
          (\<lambda>e. efail (timed_out ''fetch comments timed out: '' ''error getting question comments: '' e)) (\<lambda>comments.
        eret (answers @ comments)))))"

definition so_fetcher :: "'w so_client \<Rightarrow> 'w link_fetcher" where
  "so_fetcher client = \<lparr>lf_CanHandle = so_CanHandle client, lf_Fetch = so_Fetch client\<rparr>"

subsection \<open>The fetcher service\<close>

fun FetcherService_CanHandle :: "'w link_fetcher list \<Rightarrow> string \<Rightarrow> bool" where
  "FetcherService_CanHandle [] url = False"
| "FetcherService_CanHandle (f # fs) url = (if lf_CanHandle f url then True else FetcherService_CanHandle fs url)"

fun FetcherService_Fetch :: "'w link_fetcher list \<Rightarrow> string \<Rightarrow> instant \<Rightarrow> ('w, update_event list) prog" where
  "FetcherService_Fetch [] url since = efail (Sentinel S_ErrURLNotSupported)"
| "FetcherService_Fetch (f # fs) url since =
     (if lf_CanHandle f url then lf_Fetch f url since else FetcherService_Fetch fs url since)"

definition FetcherService :: "'w link_fetcher list \<Rightarrow> 'w link_fetcher" where
  "FetcherService fs = \<lparr>lf_CanHandle = FetcherService_CanHandle fs, lf_Fetch = FetcherService_Fetch fs\<rparr>"

definition buildFetchers :: "'w http_do \<Rightarrow> 'w http_do \<Rightarrow> int \<Rightarrow> string \<Rightarrow> (string \<Rightarrow> string) \<Rightarrow> 'w link_fetcher list" where
  "buildFetchers githubDo stackoverflowDo descriptionLimit stackOverflowKey unescape =
     [github_fetcher (github_NewClient githubDo github_BaseURL github_BaseApiURL descriptionLimit),
      so_fetcher (so_NewClient stackoverflowDo so_BaseURL so_BaseApiURL descriptionLimit stackOverflowKey unescape)]"

end
