(* ===== verification/Fetchers_Props.thy ===== *)
theory Fetchers_Props
  imports Fetchers
begin

text \<open>
  What the wired fetchers return for a url: which requests are made, which items of the answers are
  reported, in which order and with which text.
\<close>

subsection \<open>Urls\<close>

text \<open>A rest of a path is empty or begins with a slash.\<close>

definition path_rest :: "string \<Rightarrow> bool" where
  "path_rest t \<longleftrightarrow> t = [] \<or> hd t = CHR ''/''"

lemma split_char_rest:
  assumes "CHR ''/'' \<notin> set p" and "path_rest t"
  shows "\<exists>ps. split_char (CHR ''/'') (p @ t) = p # ps"
proof (cases t)
  case (Cons c s)
  with assms show ?thesis by (simp add: path_rest_def split_char_piece)
qed (use assms in \<open>simp add: split_char_single\<close>)

lemma trim_slash:
  assumes "p \<noteq> []" and "CHR ''/'' \<notin> set p" and "q \<noteq> []" and "CHR ''/'' \<notin> set q" and "path_rest t"
  shows "\<exists>t'. trim_char (CHR ''/'') (p @ CHR ''/'' # q @ t) = p @ CHR ''/'' # q @ t' \<and> path_rest t'"
proof -
  let ?sl = "\<lambda>c. CHR ''/'' = c"
  let ?s = "p @ CHR ''/'' # q @ t"
  have q: "last q \<noteq> CHR ''/''" using assms(3,4) last_in_set by metis
  then have dq: "dropWhile ?sl (rev q @ xs) = rev q @ xs" for xs
    using assms(3) by (cases q rule: rev_cases) auto
  have "dropWhile ?sl ?s = ?s"
    using assms(1,2) by (cases p) auto
  moreover have "\<exists>t'. rev (dropWhile ?sl (rev t @ rev q @ CHR ''/'' # rev p)) = p @ CHR ''/'' # q @ t' \<and> path_rest t'"
  proof (cases "\<forall>c \<in> set t. c = CHR ''/''")
    case True
    then have "dropWhile ?sl (rev t @ xs) = dropWhile ?sl xs" for xs
      by (subst dropWhile_append2) auto
    then show ?thesis by (intro exI [of _ "[]"]) (simp add: dq path_rest_def)
  next
    case False
    then obtain x where x: "x \<in> set (rev t)" "\<not> ?sl x" by auto
    let ?d = "dropWhile ?sl (rev t)"
    have "?d \<noteq> []" using x by (meson dropWhile_eq_Nil_conv)
    moreover have "rev t = takeWhile ?sl (rev t) @ ?d" by simp
    then have "t = rev ?d @ rev (takeWhile ?sl (rev t))" by (metis rev_append rev_rev_ident)
    ultimately have "hd t = hd (rev ?d)" by (metis hd_append2 rev_is_Nil_conv)
    moreover have "t \<noteq> []" using x by auto
    ultimately have "path_rest (rev ?d)" using assms(5) by (simp add: path_rest_def)
    moreover have "dropWhile ?sl (rev t @ xs) = ?d @ xs" for xs using x by (rule dropWhile_append1)
    ultimately show ?thesis by (intro exI [of _ "rev ?d"]) simp
  qed
  ultimately show ?thesis by (simp add: trim_char_def)
qed

text \<open>The two prefixes exclude each other.\<close>

lemma prefixes:
  "has_prefix (''https://github.com/'' @ s) github_BaseURL" "\<not> has_prefix (''https://stackoverflow.com/questions/'' @ s) github_BaseURL"
  "has_prefix (''https://stackoverflow.com/questions/'' @ s) so_BaseURL"
  by (simp_all add: github_BaseURL_def so_BaseURL_def has_prefix_def)

lemma service_dispatch:
  "has_prefix url github_BaseURL \<Longrightarrow> lf_Fetch (FetcherService (buildFetchers gh so limit key unescape)) url =
     github_Fetch (github_NewClient gh github_BaseURL github_BaseApiURL limit) url"
  "\<not> has_prefix url github_BaseURL \<Longrightarrow> has_prefix url so_BaseURL \<Longrightarrow>
     lf_Fetch (FetcherService (buildFetchers gh so limit key unescape)) url =
     so_Fetch (so_NewClient so so_BaseURL so_BaseApiURL limit key unescape) url"
  by (rule ext, simp add: FetcherService_def buildFetchers_def github_fetcher_def so_fetcher_def github_CanHandle_def
      so_CanHandle_def github_NewClient_def so_NewClient_def)+

subsection \<open>Documents\<close>

text \<open>A pull request or an issue in the answers of GitHub.\<close>

definition gh_document :: "json \<Rightarrow> gh_item \<Rightarrow> bool" where
  "gh_document j it \<longleftrightarrow> (\<exists>ms us t.
     j = JObj ms \<and> plain_object [''title'', ''user'', ''body_text'', ''created_at'', ''pull_request''] ms
     \<and> text_member ms ''title'' (gi_title it) \<and> text_member ms ''body_text'' (gi_body it)
     \<and> map_of ms ''user'' = Some (JObj us) \<and> plain_object [''login''] us \<and> text_member us ''login'' (gi_login it)
     \<and> map_of ms ''created_at'' = Some (JStr t) \<and> parse_rfc3339 t = Some (gi_created it)
     \<and> (case map_of ms ''pull_request'' of None \<Rightarrow> \<not> gi_is_pr it | Some p \<Rightarrow>
          p = JNull \<and> \<not> gi_is_pr it \<or> (\<exists>ps. p = JObj ps) \<and> gi_is_pr it))"

lemma gh_pull_read:
  assumes "gh_document j it"
  shows "dec_gh_pull j gh_zero = Inr (it\<lparr>gi_is_pr := False\<rparr>)"
proof -
  from assms obtain ms us t where j: "j = JObj ms"
      and p: "plain_object [''title'', ''user'', ''body_text'', ''created_at'', ''pull_request''] ms"
      and t: "text_member ms ''title'' (gi_title it)" "text_member ms ''body_text'' (gi_body it)"
      and u: "map_of ms ''user'' = Some (JObj us)" "plain_object [''login''] us" "text_member us ''login'' (gi_login it)"
      and c: "map_of ms ''created_at'' = Some (JStr t)" "parse_rfc3339 t = Some (gi_created it)"
    unfolding gh_document_def by blast
  show ?thesis
    using text_member_read [OF p _ t(1)] text_member_read [OF p _ t(2)] text_member_read [OF u(2) _ u(3)]
    by (simp add: j dec_gh_pull_def dec_struct_def gh_zero_def dec_field_plain [OF p] u(1) c)
qed

lemma gh_issue_read:
  assumes "gh_document j it"
  shows "dec_gh_issue j gh_zero = Inr it"
proof -
  from assms obtain ms where j: "j = JObj ms"
      and p: "plain_object [''title'', ''user'', ''body_text'', ''created_at'', ''pull_request''] ms"
      and q: "case map_of ms ''pull_request'' of None \<Rightarrow> \<not> gi_is_pr it | Some p \<Rightarrow>
          p = JNull \<and> \<not> gi_is_pr it \<or> (\<exists>ps. p = JObj ps) \<and> gi_is_pr it"
    unfolding gh_document_def by blast
  have "dec_field ''pull_request'' dec_pointer ms False = Inr (gi_is_pr it)"
    using q by (auto simp: dec_field_plain [OF p] split: option.splits)
  then show ?thesis
    using gh_pull_read [OF assms] by (simp add: j dec_gh_issue_def dec_struct_def gh_zero_def)
qed

text \<open>An answer of the GitHub API that holds these items.\<close>

definition gh_page :: "http_response \<Rightarrow> gh_item list \<Rightarrow> bool" where
  "gh_page r its \<longleftrightarrow> rs_status r = 200 \<and> (\<exists>js. rs_body r = Some (JArr js) \<and> list_all2 gh_document js its)"

subsection \<open>GitHub\<close>

text \<open>What is asked, and what is reported of the answers.\<close>

definition github_get :: "string \<Rightarrow> string \<Rightarrow> string \<Rightarrow> http_request" where
  "github_get owner repo page =
     \<lparr>rq_method = ''GET'', rq_url = ''https://api.github.com/repos/'' @ owner @ ''/'' @ repo @ page,
      rq_header = [(''Accept'', ''application/vnd.github.text+json''), (''X-GitHub-Api-Version'', ''2026-03-10'')], rq_body = None\<rparr>"

definition gh_event :: "int \<Rightarrow> string \<Rightarrow> gh_item \<Rightarrow> update_event" where
  "gh_event limit title it =
     \<lparr>ev_UpdatedAt = gi_created it, ev_Author = gi_login it,
      ev_Description = truncate_text (title @ gi_title it @ '' by '' @ gi_login it @ [CHR 10] @ gi_body it) limit\<rparr>"

definition gh_events :: "int \<Rightarrow> instant \<Rightarrow> gh_item list \<Rightarrow> gh_item list \<Rightarrow> update_event list" where
  "gh_events limit since pulls issues =
     [gh_event limit ''New Pull Request: '' p. p \<leftarrow> pulls, since < gi_created p] @
     [gh_event limit ''New Issue: '' i. i \<leftarrow> issues, since < gi_created i, \<not> gi_is_pr i]"

lemma concat_if: "concat (map (\<lambda>x. if P x then [f x] else []) xs) = map f (filter P xs)"
  by (induction xs) auto

lemma concat_if2:
  "concat (map (\<lambda>x. if P x then if Q x then [f x] else [] else []) xs) = map f (filter (\<lambda>x. P x \<and> Q x) xs)"
  by (induction xs) auto

lemma gh_events_code:
  "gh_events limit since pulls issues =
     map (NewPRUpdate limit) (filter (\<lambda>p. since < gi_created p) pulls) @
     map (NewIssueUpdate limit) (filter (\<lambda>i. \<not> gi_is_pr i) (filter (\<lambda>i. since < gi_created i) issues))"
  by (simp add: gh_events_def gh_event_def concat_if concat_if2 filter_filter conj_commute NewPRUpdate_def NewIssueUpdate_def)

lemma gh_events_pulls: "gh_events limit since (map (\<lambda>p. p\<lparr>gi_is_pr := b\<rparr>) ps) is = gh_events limit since ps is"
  by (simp add: gh_events_code filter_map comp_def NewPRUpdate_def)

lemma gh_page_read:
  assumes "gh_page r its"
  shows "rs_status r = 200" and "unmarshal (dec_list dec_gh_pull gh_zero) [] (rs_body r) = Inr (map (\<lambda>p. p\<lparr>gi_is_pr := False\<rparr>) its)"
    and "unmarshal (dec_list dec_gh_issue gh_zero) [] (rs_body r) = Inr its"
proof -
  from assms obtain js where r: "rs_status r = 200" "rs_body r = Some (JArr js)" and js: "list_all2 gh_document js its"
    unfolding gh_page_def by blast
  show "rs_status r = 200" by (rule r)
  show "unmarshal (dec_list dec_gh_pull gh_zero) [] (rs_body r) = Inr (map (\<lambda>p. p\<lparr>gi_is_pr := False\<rparr>) its)"
    using dec_all_shows [OF js, where d = dec_gh_pull and z = gh_zero and g = "\<lambda>p. p\<lparr>gi_is_pr := False\<rparr>"] gh_pull_read
    by (simp add: r unmarshal_def)
  show "unmarshal (dec_list dec_gh_issue gh_zero) [] (rs_body r) = Inr its"
    using dec_all_shows [OF js, where d = dec_gh_issue and z = gh_zero and g = "\<lambda>it. it"] gh_issue_read
    by (simp add: r unmarshal_def)
qed

text \<open>A repository's url, as its owner and its name.\<close>

definition github_url :: "string \<Rightarrow> string \<Rightarrow> string \<Rightarrow> bool" where
  "github_url url owner repo \<longleftrightarrow> owner \<noteq> [] \<and> CHR ''/'' \<notin> set owner \<and> repo \<noteq> [] \<and> CHR ''/'' \<notin> set repo \<and>
     (\<exists>rest. path_rest rest \<and> url = ''https://github.com/'' @ owner @ ''/'' @ repo @ rest)"

lemma github_url_parts:
  assumes "github_url url owner repo"
  shows "has_prefix url github_BaseURL"
    and "\<exists>ps. split_char (CHR ''/'') (trim_char (CHR ''/'') (trim_prefix url github_BaseURL)) = owner # repo # ps"
proof -
  from assms obtain rest where o: "owner \<noteq> []" "CHR ''/'' \<notin> set owner" and r: "repo \<noteq> []" "CHR ''/'' \<notin> set repo"
      and rest: "path_rest rest" and url: "url = github_BaseURL @ owner @ CHR ''/'' # repo @ rest"
    unfolding github_url_def github_BaseURL_def by auto
  show "has_prefix url github_BaseURL" unfolding url by simp
  obtain t where t: "trim_char (CHR ''/'') (owner @ CHR ''/'' # repo @ rest) = owner @ CHR ''/'' # repo @ t" "path_rest t"
    using trim_slash [OF o r rest] by blast
  obtain ps where "split_char (CHR ''/'') (repo @ t) = repo # ps" using split_char_rest [OF r(2) t(2)] by blast
  then show "\<exists>ps. split_char (CHR ''/'') (trim_char (CHR ''/'') (trim_prefix url github_BaseURL)) = owner # repo # ps"
    unfolding url trim_prefix_append t(1) by (simp add: split_char_piece [OF o(2)])
qed

lemma description_bound:
  assumes "3 \<le> limit"
  shows "\<exists>d. truncate_text s limit = Some d \<and> int (length (runes d)) \<le> limit"
  using truncate_text_total [OF assms, of s] truncate_text_length by (cases "truncate_text s limit") auto

text \<open>One page: the request, its status, and what is read of it.\<close>

lemma page_ok_iff:
  "ebind m (\<lambda>response. if rs_status response \<noteq> 200 then efail (e response)
      else ebind (lift_sum (unmarshal d z (rs_body response))) (\<lambda>xs. eret (f xs))) w = (Inr evs, w') \<longleftrightarrow>
   (\<exists>r xs. m w = (Inr r, w') \<and> rs_status r = 200 \<and> unmarshal d z (rs_body r) = Inr xs \<and> evs = f xs)"
  by (cases "m w"; cases "fst (m w)")
     (auto simp: ebind_def ehandle_def split: sum.splits)

lemma efail_mapped_iff: "ehandle m (\<lambda>e. efail (g e)) f w = (Inr x, w') \<longleftrightarrow> (\<exists>y w1. m w = (Inr y, w1) \<and> f y w1 = (Inr x, w'))"
  by (auto simp: ehandle_def split: prod.splits sum.splits)

lemma fetchPullRequests_iff:
  "fetchPullRequests (github_NewClient Do base api limit) u since w = (Inr evs, w') \<longleftrightarrow>
   (\<exists>r ps. Do ((rq_get (u @ ''/pulls''))\<lparr>rq_header := github_headers\<rparr>) w = (Inr r, w') \<and> rs_status r = 200
      \<and> unmarshal (dec_list dec_gh_pull gh_zero) [] (rs_body r) = Inr ps
      \<and> evs = map (NewPRUpdate limit) (filter (\<lambda>p. since < gi_created p) ps))"
  unfolding fetchPullRequests_def page_ok_iff by (simp add: github_NewClient_def)

lemma fetchIssues_iff:
  "fetchIssues (github_NewClient Do base api limit) u since w = (Inr evs, w') \<longleftrightarrow>
   (\<exists>r is. Do ((rq_get (u @ ''/issues''))\<lparr>rq_header := github_headers\<rparr>) w = (Inr r, w') \<and> rs_status r = 200
      \<and> unmarshal (dec_list dec_gh_issue gh_zero) [] (rs_body r) = Inr is
      \<and> evs = map (NewIssueUpdate limit) (filter (\<lambda>i. \<not> gi_is_pr i) (filter (\<lambda>i. since < gi_created i) is)))"
  unfolding fetchIssues_def page_ok_iff by (simp add: github_NewClient_def)

lemma github_Fetch_iff:
  assumes "github_url url owner repo"
  shows "github_Fetch (github_NewClient Do github_BaseURL github_BaseApiURL limit) url since w = (Inr evs, w') \<longleftrightarrow>
    (\<exists>r1 w1 ps r2 is. Do (github_get owner repo ''/pulls'') w = (Inr r1, w1) \<and> rs_status r1 = 200
       \<and> unmarshal (dec_list dec_gh_pull gh_zero) [] (rs_body r1) = Inr ps
       \<and> Do (github_get owner repo ''/issues'') w1 = (Inr r2, w') \<and> rs_status r2 = 200
       \<and> unmarshal (dec_list dec_gh_issue gh_zero) [] (rs_body r2) = Inr is \<and> evs = gh_events limit since ps is)"
proof -
  obtain rest where parts: "split_char (CHR ''/'') (trim_char (CHR ''/'') (trim_prefix url github_BaseURL)) = owner # repo # rest"
    using github_url_parts(2) [OF assms] by blast
  let ?u = "github_BaseApiURL @ ''/repos/'' @ owner @ ''/'' @ repo"
  let ?c = "github_NewClient Do github_BaseURL github_BaseApiURL limit"
  have rq: "(rq_get (?u @ page))\<lparr>rq_header := github_headers\<rparr> = github_get owner repo page"
    for page by (simp add: rq_get_def github_BaseApiURL_def github_headers_def github_get_def)
  have sel: "gc_baseURL ?c = github_BaseURL" "gc_apiURL ?c = github_BaseApiURL" by (simp_all add: github_NewClient_def)
  have "github_Fetch ?c url since w = (Inr evs, w') \<longleftrightarrow>
      (\<exists>ps w1. fetchPullRequests ?c ?u since w = (Inr ps, w1) \<and> (\<exists>is w2. fetchIssues ?c ?u since w1 = (Inr is, w2)
         \<and> eret (ps @ is) w2 = (Inr evs, w')))"
    unfolding github_Fetch_def sel parts Let_def list.case efail_mapped_iff ..
  then show ?thesis
    unfolding fetchPullRequests_iff fetchIssues_iff rq gh_events_code eret_run by (auto; blast)
qed

text \<open>C9. What the wired fetchers report of a GitHub repository. For the url of a repository they ask the API
  for its pull requests and then for its issues. If it answers both with documents of these items, they report
  the pull requests and then the issues that are no pull requests, those created strictly after the given time,
  in the order of the API, with their time, author and text; and nothing is reported unless both pages
  were answered with status 200. With a limit of at least 3 every text exists and keeps the limit.\<close>

theorem github_Fetch_newer:
  assumes "github_url url owner repo" and "fetch = lf_Fetch (FetcherService (buildFetchers gh so limit key unescape)) url since"
  shows "(gh (github_get owner repo ''/pulls'') w = (Inr r1, w1) \<and> gh_page r1 pulls
      \<and> gh (github_get owner repo ''/issues'') w1 = (Inr r2, w2) \<and> gh_page r2 issues
      \<longrightarrow> fetch w = (Inr (gh_events limit since pulls issues), w2))
    \<and> (fetch w = (Inr evs, w') \<longrightarrow>
        (\<exists>r1 w1 r2. gh (github_get owner repo ''/pulls'') w = (Inr r1, w1) \<and> rs_status r1 = 200
           \<and> gh (github_get owner repo ''/issues'') w1 = (Inr r2, w') \<and> rs_status r2 = 200)
      \<and> (\<forall>ev \<in> set evs. since < ev_UpdatedAt ev \<and>
          (3 \<le> limit \<longrightarrow> (\<exists>d. ev_Description ev = Some d \<and> int (length (runes d)) \<le> limit))))"
proof -
  note iff = github_Fetch_iff [OF assms(1), of gh limit since]
  have fetch: "fetch = github_Fetch (github_NewClient gh github_BaseURL github_BaseApiURL limit) url since"
    by (simp add: assms(2) service_dispatch(1) [OF github_url_parts(1) [OF assms(1)]])
  have 1: "fetch w = (Inr (gh_events limit since pulls issues), w2)"
    if "gh (github_get owner repo ''/pulls'') w = (Inr r1, w1)" "gh_page r1 pulls"
      "gh (github_get owner repo ''/issues'') w1 = (Inr r2, w2)" "gh_page r2 issues"
    unfolding fetch iff
    using that gh_page_read [OF that(2)] gh_page_read [OF that(4)] by (auto simp: gh_events_pulls)
  have 2: "since < ev_UpdatedAt ev \<and> (3 \<le> limit \<longrightarrow> (\<exists>d. ev_Description ev = Some d \<and> int (length (runes d)) \<le> limit))"
    if "ev \<in> set (gh_events limit since ps is)" for ev ps "is"
    using that description_bound by (auto simp: gh_events_def gh_event_def split: if_splits)
  have 3: "(\<exists>r1 w1 r2. gh (github_get owner repo ''/pulls'') w = (Inr r1, w1) \<and> rs_status r1 = 200
        \<and> gh (github_get owner repo ''/issues'') w1 = (Inr r2, w') \<and> rs_status r2 = 200)
      \<and> (\<exists>ps is. evs = gh_events limit since ps is)" if "fetch w = (Inr evs, w')"
    using that unfolding fetch iff by blast
  show ?thesis using 1 2 3 by auto
qed


definition sample_instant :: instant where
  "sample_instant = the (parse_rfc3339 ''2026-03-10T12:00:00Z'')"

definition sample_gh_json :: json where
  "sample_gh_json = JObj [(''title'', JStr ''Fix''), (''user'', JObj [(''login'', JStr ''ann'')]),
     (''created_at'', JStr ''2026-03-10T12:00:00Z''), (''pull_request'', JObj [])]"

definition sample_gh_item :: gh_item where
  "sample_gh_item = \<lparr>gi_title = ''Fix'', gi_login = ''ann'', gi_body = '''', gi_created = sample_instant, gi_is_pr = True\<rparr>"

text \<open>An API whose one pull request is listed among the issues too.\<close>

definition sample_gh :: "unit http_do" where
  "sample_gh rq w = (if rq_url rq \<in> {''https://api.github.com/repos/a/b/pulls'', ''https://api.github.com/repos/a/b/issues''}
     then (Inr \<lparr>rs_status = 200, rs_body = Some (JArr [sample_gh_json])\<rparr>, w) else (Inl (ExtErr ''no such page''), w))"

lemma sample_parse: "parse_rfc3339 ''2026-03-10T12:00:00Z'' = Some sample_instant"
proof -
  have "parse_rfc3339 ''2026-03-10T12:00:00Z'' \<noteq> None" by code_simp
  then show ?thesis by (auto simp: sample_instant_def)
qed

lemma sample_names:
  "plain_object [''title'', ''user'', ''body_text'', ''created_at'', ''pull_request''] [(''title'', a), (''user'', b), (''created_at'', c), (''pull_request'', d)]"
  "plain_object [''login''] [(''login'', a)]"
  by (simp_all add: plain_object_def fold_name_ascii fold_rune_def)

lemma sample_gh_page: "gh_page \<lparr>rs_status = 200, rs_body = Some (JArr [sample_gh_json])\<rparr> [sample_gh_item]"
proof -
  have "gh_document sample_gh_json sample_gh_item"
    unfolding gh_document_def sample_gh_json_def
    by (rule exI, rule exI [of _ "[(''login'', JStr ''ann'')]"], rule exI [of _ "''2026-03-10T12:00:00Z''"], intro conjI, rule refl)
       (use sample_names sample_parse in \<open>simp_all add: sample_gh_item_def text_member_def\<close>)
  then show ?thesis by (simp add: gh_page_def)
qed

lemma github_Fetch_newer_witness:
  "fst (lf_Fetch (FetcherService (buildFetchers sample_gh sample_gh 500 '''' id)) ''https://github.com/a/b/'' 0 ())
   = Inr [\<lparr>ev_UpdatedAt = sample_instant, ev_Author = ''ann'',
           ev_Description = truncate_text (''New Pull Request: Fix by ann'' @ [CHR 10]) 500\<rparr>]"
proof -
  have url: "github_url ''https://github.com/a/b/'' ''a'' ''b''"
    by (simp add: github_url_def path_rest_def)
  have pos: "0 < sample_instant" by code_simp
  have run: "sample_gh (github_get ''a'' ''b'' page) () = (Inr \<lparr>rs_status = 200, rs_body = Some (JArr [sample_gh_json])\<rparr>, ())"
    if "page = ''/pulls'' \<or> page = ''/issues''" for page
    using that by (auto simp: sample_gh_def github_get_def)
  have "lf_Fetch (FetcherService (buildFetchers sample_gh sample_gh 500 '''' id)) ''https://github.com/a/b/'' 0 ()
      = (Inr (gh_events 500 0 [sample_gh_item] [sample_gh_item]), ())"
    using github_Fetch_newer [OF url refl, of sample_gh "()" _ "()" "[sample_gh_item]" _ "()" "[sample_gh_item]" sample_gh 500 "''''" id 0]
      run sample_gh_page by blast
  then show ?thesis by (simp add: gh_events_def gh_event_def sample_gh_item_def pos)
qed


subsection \<open>StackOverflow\<close>

definition so_document :: "json \<Rightarrow> so_item \<Rightarrow> bool" where
  "so_document j it \<longleftrightarrow> (\<exists>ms os.
     j = JObj ms \<and> plain_object [''owner'', ''creation_date'', ''body''] ms
     \<and> map_of ms ''owner'' = Some (JObj os) \<and> plain_object [''display_name''] os \<and> text_member os ''display_name'' (si_owner it)
     \<and> map_of ms ''creation_date'' = Some (JInt (sint (si_date it))) \<and> text_member ms ''body'' (si_body it))"

definition so_title_document :: "json \<Rightarrow> string \<Rightarrow> bool" where
  "so_title_document j t \<longleftrightarrow> (\<exists>ms. j = JObj ms \<and> plain_object [''title''] ms \<and> text_member ms ''title'' t)"

text \<open>An answer whose \<open>items\<close> are these.\<close>

definition so_page :: "(json \<Rightarrow> 'i \<Rightarrow> bool) \<Rightarrow> http_response \<Rightarrow> 'i list \<Rightarrow> bool" where
  "so_page shows r its \<longleftrightarrow> rs_status r = 200 \<and> (\<exists>ms js. rs_body r = Some (JObj ms) \<and> plain_object [''items''] ms
     \<and> map_of ms ''items'' = Some (JArr js) \<and> list_all2 shows js its)"

lemma so_item_read:
  assumes "so_document j it"
  shows "dec_so_item j so_zero = Inr it"
proof -
  from assms obtain ms os where j: "j = JObj ms" and p: "plain_object [''owner'', ''creation_date'', ''body''] ms"
      and u: "map_of ms ''owner'' = Some (JObj os)" "plain_object [''display_name''] os" "text_member os ''display_name'' (si_owner it)"
      and c: "map_of ms ''creation_date'' = Some (JInt (sint (si_date it)))" and b: "text_member ms ''body'' (si_body it)"
    unfolding so_document_def by blast
  have "dec_i64 (JInt (sint (si_date it))) 0 = Inr (si_date it)" using dec_enc_i64 [of "si_date it" 0] by (simp add: enc_i64_def)
  then show ?thesis
    using text_member_read [OF p _ b] text_member_read [OF u(2) _ u(3)]
    by (simp add: j dec_so_item_def dec_struct_def so_zero_def dec_field_plain [OF p] u(1) c del: dec_i64.simps)
qed

lemma so_title_read: "so_title_document j t \<Longrightarrow> dec_struct (dec_field ''title'' dec_str) j '''' = Inr t"
  by (auto simp: so_title_document_def dec_struct_def text_member_read)

lemma so_page_read:
  assumes "so_page shows r its" and "\<And>j it. shows j it \<Longrightarrow> d j z = Inr it"
  shows "rs_status r = 200" and "unmarshal (dec_struct (dec_field ''items'' (dec_list d z))) [] (rs_body r) = Inr its"
proof -
  from assms(1) obtain ms js where r: "rs_status r = 200" "rs_body r = Some (JObj ms)" and p: "plain_object [''items''] ms"
      and js: "map_of ms ''items'' = Some (JArr js)" "list_all2 shows js its"
    unfolding so_page_def by blast
  show "rs_status r = 200" by (rule r)
  have "dec_all d z js = Inr its"
    using dec_all_shows [OF js(2), where d = d and z = z and g = "\<lambda>it. it"] assms(2) by simp
  then show "unmarshal (dec_struct (dec_field ''items'' (dec_list d z))) [] (rs_body r) = Inr its"
    by (simp add: r unmarshal_def dec_struct_def dec_field_plain [OF p] js(1))
qed

lemma so_items_read:
  assumes "so_page so_document r its"
  shows "rs_status r = 200" and "unmarshal dec_so_items [] (rs_body r) = Inr its"
  unfolding dec_so_items_def
  using so_page_read [OF assms, where d = dec_so_item and z = so_zero] so_item_read by blast+

lemma so_titles_read:
  assumes "so_page so_title_document r ts"
  shows "rs_status r = 200" and "unmarshal dec_so_titles [] (rs_body r) = Inr ts"
  unfolding dec_so_titles_def
  using so_page_read [OF assms, where d = "dec_struct (dec_field ''title'' dec_str)" and z = "''''"] so_title_read by blast+

text \<open>What is asked: \<open>path\<close> follows the number of the question.\<close>

definition so_get :: "string \<Rightarrow> string \<Rightarrow> string \<Rightarrow> http_request" where
  "so_get key qid path =
     \<lparr>rq_method = ''GET'', rq_url = ''https://api.stackexchange.com/2.3/questions/'' @ qid @ path
        @ (if key = '''' then '''' else ''&key='' @ key), rq_header = [], rq_body = None\<rparr>"

definition so_list_path :: "string \<Rightarrow> instant \<Rightarrow> string" where
  "so_list_path kind since = ''/'' @ kind @ ''?site=stackoverflow.com&filter=withbody&fromdate='' @ show_int (since div 1000000000)"

definition so_event :: "(string \<Rightarrow> string) \<Rightarrow> int \<Rightarrow> string \<Rightarrow> string \<Rightarrow> so_item \<Rightarrow> update_event" where
  "so_event unescape limit kind title it =
     \<lparr>ev_UpdatedAt = sint (si_date it) * 1000000000, ev_Author = si_owner it,
      ev_Description = truncate_text
        (''New '' @ kind @ '' on question '' @ [CHR 34] @ title @ [CHR 34] @ '' by '' @ si_owner it @ [CHR 10]
         @ cleanText unescape (si_body it)) limit\<rparr>"

definition so_events :: "(string \<Rightarrow> string) \<Rightarrow> int \<Rightarrow> instant \<Rightarrow> string \<Rightarrow> so_item list \<Rightarrow> so_item list \<Rightarrow> update_event list" where
  "so_events unescape limit since title answers comments =
     [so_event unescape limit ''answer'' title a. a \<leftarrow> answers, since < sint (si_date a) * 1000000000] @
     map (so_event unescape limit ''comment'' title) comments"

lemma so_events_code:
  "so_events unescape limit since title answers comments =
     map (AnswerUpdate (so_NewClient Do base api limit key unescape) title) (filter (\<lambda>a. since < si_time a) answers) @
     map (CommentUpdate (so_NewClient Do base api limit key unescape) title) comments"
  by (simp add: so_events_def so_event_def concat_if AnswerUpdate_def CommentUpdate_def si_time_def unix_seconds_def so_NewClient_def)

text \<open>A question's url and its number.\<close>

definition so_url :: "string \<Rightarrow> string \<Rightarrow> bool" where
  "so_url url qid \<longleftrightarrow> qid \<noteq> [] \<and> CHR ''/'' \<notin> set qid \<and>
     (\<exists>rest. path_rest rest \<and> url = ''https://stackoverflow.com/questions/'' @ qid @ rest)"

lemma so_url_parts:
  assumes "so_url url qid"
  shows "\<not> has_prefix url github_BaseURL" "has_prefix url so_BaseURL"
    and "hd (split_char (CHR ''/'') (trim_prefix url so_BaseURL)) = qid"
proof -
  from assms obtain rest where q: "CHR ''/'' \<notin> set qid" and rest: "path_rest rest" and url: "url = so_BaseURL @ qid @ rest"
    unfolding so_url_def so_BaseURL_def by auto
  show "\<not> has_prefix url github_BaseURL" "has_prefix url so_BaseURL"
    using prefixes(2,3) [of "qid @ rest"] by (simp_all add: url so_BaseURL_def)
  show "hd (split_char (CHR ''/'') (trim_prefix url so_BaseURL)) = qid"
    using split_char_rest [OF q rest] by (auto simp: url)
qed

lemma fetchQuestionTitle_iff:
  "fetchQuestionTitle (so_NewClient Do so_BaseURL so_BaseApiURL limit key unescape) qid w = (Inr t, w') \<longleftrightarrow>
   (\<exists>r ts. Do (so_get key qid ''?site=stackoverflow.com'') w = (Inr r, w') \<and> rs_status r = 200
      \<and> unmarshal dec_so_titles [] (rs_body r) = Inr (t # ts))"
proof -
  let ?c = "so_NewClient Do so_BaseURL so_BaseApiURL limit key unescape"
  have rq: "rq_get (sc_apiURL ?c @ ''/questions/'' @ qid @ ''?site='' @ so_site @ sc_keyQuery ?c) = so_get key qid ''?site=stackoverflow.com''"
    and Do: "sc_Do ?c = Do"
    by (simp_all add: so_NewClient_def rq_get_def so_get_def so_BaseApiURL_def so_site_def)
  show ?thesis
    unfolding fetchQuestionTitle_def rq Do
    by (cases "Do (so_get key qid ''?site=stackoverflow.com'') w"; cases "fst (Do (so_get key qid ''?site=stackoverflow.com'') w)")
       (auto simp: ebind_def ehandle_def split: sum.splits list.splits)
qed

lemma so_list_iff:
  "fetchAnswers (so_NewClient Do so_BaseURL so_BaseApiURL limit key unescape) (so_BaseApiURL @ ''/questions/'' @ qid) since t w = (Inr evs, w') \<longleftrightarrow>
   (\<exists>r ans. Do (so_get key qid (so_list_path ''answers'' since)) w = (Inr r, w') \<and> rs_status r = 200
      \<and> unmarshal dec_so_items [] (rs_body r) = Inr ans
      \<and> evs = map (AnswerUpdate (so_NewClient Do so_BaseURL so_BaseApiURL limit key unescape) t) (filter (\<lambda>a. since < si_time a) ans))"
  "fetchComments (so_NewClient Do so_BaseURL so_BaseApiURL limit key unescape) (so_BaseApiURL @ ''/questions/'' @ qid) since t w = (Inr evs, w') \<longleftrightarrow>
   (\<exists>r cs. Do (so_get key qid (so_list_path ''comments'' since)) w = (Inr r, w') \<and> rs_status r = 200
      \<and> unmarshal dec_so_items [] (rs_body r) = Inr cs
      \<and> evs = map (CommentUpdate (so_NewClient Do so_BaseURL so_BaseApiURL limit key unescape) t) cs)"
proof -
  let ?c = "so_NewClient Do so_BaseURL so_BaseApiURL limit key unescape"
  have rq: "rq_get ((so_BaseApiURL @ ''/questions/'' @ qid) @ ''/answers?site='' @ so_site @ ''&filter=withbody&fromdate='' @ show_int (to_unix since) @ sc_keyQuery ?c)
      = so_get key qid (so_list_path ''answers'' since)"
    "rq_get ((so_BaseApiURL @ ''/questions/'' @ qid) @ ''/comments?site='' @ so_site @ ''&filter=withbody&fromdate='' @ show_int (to_unix since) @ sc_keyQuery ?c)
      = so_get key qid (so_list_path ''comments'' since)"
    and Do: "sc_Do ?c = Do"
    by (simp_all add: so_NewClient_def rq_get_def so_get_def so_BaseApiURL_def so_site_def so_list_path_def to_unix_def)
  show "fetchAnswers ?c (so_BaseApiURL @ ''/questions/'' @ qid) since t w = (Inr evs, w') \<longleftrightarrow>
   (\<exists>r ans. Do (so_get key qid (so_list_path ''answers'' since)) w = (Inr r, w') \<and> rs_status r = 200
      \<and> unmarshal dec_so_items [] (rs_body r) = Inr ans \<and> evs = map (AnswerUpdate ?c t) (filter (\<lambda>a. since < si_time a) ans))"
    unfolding fetchAnswers_def rq Do page_ok_iff ..
  show "fetchComments ?c (so_BaseApiURL @ ''/questions/'' @ qid) since t w = (Inr evs, w') \<longleftrightarrow>
   (\<exists>r cs. Do (so_get key qid (so_list_path ''comments'' since)) w = (Inr r, w') \<and> rs_status r = 200
      \<and> unmarshal dec_so_items [] (rs_body r) = Inr cs \<and> evs = map (CommentUpdate ?c t) cs)"
    unfolding fetchComments_def rq Do page_ok_iff ..
qed

lemma so_Fetch_iff:
  assumes "so_url url qid"
  shows "so_Fetch (so_NewClient Do so_BaseURL so_BaseApiURL limit key unescape) url since w = (Inr evs, w') \<longleftrightarrow>
    (\<exists>r1 w1 t ts r2 w2 ans r3 cs. Do (so_get key qid ''?site=stackoverflow.com'') w = (Inr r1, w1) \<and> rs_status r1 = 200
       \<and> unmarshal dec_so_titles [] (rs_body r1) = Inr (t # ts)
       \<and> Do (so_get key qid (so_list_path ''answers'' since)) w1 = (Inr r2, w2) \<and> rs_status r2 = 200
       \<and> unmarshal dec_so_items [] (rs_body r2) = Inr ans
       \<and> Do (so_get key qid (so_list_path ''comments'' since)) w2 = (Inr r3, w') \<and> rs_status r3 = 200
       \<and> unmarshal dec_so_items [] (rs_body r3) = Inr cs \<and> evs = so_events unescape limit since t ans cs)"
proof -
  let ?c = "so_NewClient Do so_BaseURL so_BaseApiURL limit key unescape"
  let ?u = "so_BaseApiURL @ ''/questions/'' @ qid"
  have sel: "sc_baseURL ?c = so_BaseURL" "sc_apiURL ?c = so_BaseApiURL" by (simp_all add: so_NewClient_def)
  have "qid \<noteq> []" using assms by (simp add: so_url_def)
  then have "so_Fetch ?c url since w = (Inr evs, w') \<longleftrightarrow>
      (\<exists>t w1. fetchQuestionTitle ?c qid w = (Inr t, w1) \<and> (\<exists>as w2. fetchAnswers ?c ?u since t w1 = (Inr as, w2)
         \<and> (\<exists>cs w3. fetchComments ?c ?u since t w2 = (Inr cs, w3) \<and> eret (as @ cs) w3 = (Inr evs, w'))))"
    unfolding so_Fetch_def Let_def sel so_url_parts(3) [OF assms] efail_mapped_iff by (simp add: efail_mapped_iff)
  then show ?thesis
    unfolding fetchQuestionTitle_iff so_list_iff so_events_code [where Do = Do and base = so_BaseURL and api = so_BaseApiURL and key = key] eret_run
      prod.inject sum.inject
    by (simp only:) (rule iffI; elim exE conjE; hypsubst; intro exI conjI; (assumption | rule refl))
qed


text \<open>C10. What the wired fetchers report of a StackOverflow question. For the url of a question they ask the API
  for the question, its answers and its comments, the lists from the given second on. If it answers with documents of
  these items, they report the answers created strictly after the given time and then every comment of the page, also
  those that are not newer, in the order of the API, under the title of the question, with the key of the
  configuration in every request; and nothing is reported unless all three were answered with status 200. With a
  limit of at least 3 every text exists and keeps the limit.\<close>

theorem so_Fetch_events:
  assumes "so_url url qid" and "fetch = lf_Fetch (FetcherService (buildFetchers gh so limit key unescape)) url since"
  shows "(so (so_get key qid ''?site=stackoverflow.com'') w = (Inr ra, wa) \<and> so_page so_title_document ra (title # titles)
      \<and> so (so_get key qid (so_list_path ''answers'' since)) wa = (Inr rb, wb) \<and> so_page so_document rb answers
      \<and> so (so_get key qid (so_list_path ''comments'' since)) wb = (Inr rc, wc) \<and> so_page so_document rc comments
      \<longrightarrow> fetch w = (Inr (so_events unescape limit since title answers comments), wc))
    \<and> (fetch w = (Inr evs, w') \<longrightarrow>
        (\<exists>ra wa rb wb rc. so (so_get key qid ''?site=stackoverflow.com'') w = (Inr ra, wa) \<and> rs_status ra = 200
           \<and> so (so_get key qid (so_list_path ''answers'' since)) wa = (Inr rb, wb) \<and> rs_status rb = 200
           \<and> so (so_get key qid (so_list_path ''comments'' since)) wb = (Inr rc, w') \<and> rs_status rc = 200)
      \<and> (3 \<le> limit \<longrightarrow> (\<forall>ev \<in> set evs. \<exists>d. ev_Description ev = Some d \<and> int (length (runes d)) \<le> limit)))"
proof -
  note iff = so_Fetch_iff [OF assms(1), of so limit key unescape since]
  have fetch: "fetch = so_Fetch (so_NewClient so so_BaseURL so_BaseApiURL limit key unescape) url since"
    by (simp add: assms(2) service_dispatch(2) [OF so_url_parts(1,2) [OF assms(1)]])
  have 1: "fetch w = (Inr (so_events unescape limit since title answers comments), wc)"
    if "so (so_get key qid ''?site=stackoverflow.com'') w = (Inr ra, wa)" "so_page so_title_document ra (title # titles)"
      "so (so_get key qid (so_list_path ''answers'' since)) wa = (Inr rb, wb)" "so_page so_document rb answers"
      "so (so_get key qid (so_list_path ''comments'' since)) wb = (Inr rc, wc)" "so_page so_document rc comments"
    unfolding fetch iff
    using that so_titles_read [OF that(2)] so_items_read [OF that(4)] so_items_read [OF that(6)] by blast
  have 2: "\<exists>d. ev_Description ev = Some d \<and> int (length (runes d)) \<le> limit"
    if "ev \<in> set (so_events unescape limit since t ans cs)" "3 \<le> limit" for ev t ans cs
    using that description_bound by (auto simp: so_events_def so_event_def split: if_splits)
  have 3: "(\<exists>ra wa rb wb rc. so (so_get key qid ''?site=stackoverflow.com'') w = (Inr ra, wa) \<and> rs_status ra = 200
        \<and> so (so_get key qid (so_list_path ''answers'' since)) wa = (Inr rb, wb) \<and> rs_status rb = 200
        \<and> so (so_get key qid (so_list_path ''comments'' since)) wb = (Inr rc, w') \<and> rs_status rc = 200)
      \<and> (\<exists>t ans cs. evs = so_events unescape limit since t ans cs)" if "fetch w = (Inr evs, w')"
    using that unfolding fetch iff by blast
  show ?thesis using 1 2 3 by auto
qed

definition sample_so_json :: json where
  "sample_so_json = JObj [(''title'', JStr ''Why''), (''owner'', JObj [(''display_name'', JStr ''ann'')]),
     (''creation_date'', JInt 1700000000), (''body'', JStr ''<p>Because</p>'')]"

definition sample_so_item :: so_item where
  "sample_so_item = \<lparr>si_owner = ''ann'', si_date = 1700000000, si_body = ''<p>Because</p>''\<rparr>"

definition sample_so_response :: http_response where
  "sample_so_response = \<lparr>rs_status = 200, rs_body = Some (JObj [(''items'', JArr [sample_so_json])])\<rparr>"

text \<open>A question with one answer and one comment, both of the second that is asked from.\<close>

definition sample_so :: "unit http_do" where
  "sample_so rq w = (if rq_url rq \<in> (\<lambda>path. ''https://api.stackexchange.com/2.3/questions/42'' @ path @ ''&key=k'') `
       {''?site=stackoverflow.com'', ''/answers?site=stackoverflow.com&filter=withbody&fromdate=1700000000'',
        ''/comments?site=stackoverflow.com&filter=withbody&fromdate=1700000000''}
     then (Inr sample_so_response, w) else (Inl (ExtErr ''no such page''), w))"

lemma sample_so_names:
  "plain_object [''owner'', ''creation_date'', ''body''] [(''title'', a), (''owner'', b), (''creation_date'', c), (''body'', d)]"
  "plain_object [''title''] [(''title'', a), (''owner'', b), (''creation_date'', c), (''body'', d)]"
  "plain_object [''display_name''] [(''display_name'', a)]" "plain_object [''items''] [(''items'', a)]"
  by (simp_all add: plain_object_def fold_name_ascii fold_rune_def)

lemma sample_so_pages: "so_page so_document sample_so_response [sample_so_item]" "so_page so_title_document sample_so_response [''Why'']"
proof -
  have "so_document sample_so_json sample_so_item"
    unfolding so_document_def sample_so_json_def
    by (rule exI, rule exI [of _ "[(''display_name'', JStr ''ann'')]"], intro conjI, rule refl)
       (use sample_so_names in \<open>simp_all add: sample_so_item_def text_member_def\<close>)
  moreover have "so_title_document sample_so_json ''Why''"
    unfolding so_title_document_def sample_so_json_def
    by (rule exI, intro conjI, rule refl) (use sample_so_names in \<open>simp_all add: text_member_def\<close>)
  ultimately show "so_page so_document sample_so_response [sample_so_item]" "so_page so_title_document sample_so_response [''Why'']"
    unfolding so_page_def sample_so_response_def using sample_so_names(4) by fastforce+
qed

lemma so_Fetch_events_witness:
  "fst (lf_Fetch (FetcherService (buildFetchers sample_so sample_so 500 ''k'' id)) ''https://stackoverflow.com/questions/42/why'' 1700000000000000000 ())
   = Inr [\<lparr>ev_UpdatedAt = 1700000000000000000, ev_Author = ''ann'',
           ev_Description = truncate_text (''New comment on question '' @ [CHR 34] @ ''Why'' @ [CHR 34] @ '' by ann'' @ [CHR 10] @ ''Because'') 500\<rparr>]"
proof -
  have url: "so_url ''https://stackoverflow.com/questions/42/why'' ''42''"
    by (simp add: so_url_def path_rest_def)
  have path: "so_list_path kind 1700000000000000000 = ''/'' @ kind @ ''?site=stackoverflow.com&filter=withbody&fromdate=1700000000''" for kind
  proof -
    have "show_int 1700000000 = ''1700000000''" by code_simp
    then show ?thesis by (simp add: so_list_path_def)
  qed
  have run: "sample_so (so_get ''k'' ''42'' p) () = (Inr sample_so_response, ())"
    if "p \<in> {''?site=stackoverflow.com'', so_list_path ''answers'' 1700000000000000000, so_list_path ''comments'' 1700000000000000000}" for p
    using that by (auto simp: sample_so_def so_get_def path)
  have "lf_Fetch (FetcherService (buildFetchers sample_so sample_so 500 ''k'' id)) ''https://stackoverflow.com/questions/42/why'' 1700000000000000000 ()
      = (Inr (so_events id 500 1700000000000000000 ''Why'' [sample_so_item] [sample_so_item]), ())"
    using so_Fetch_events [OF url refl, where gh = sample_so and so = sample_so and key = "''k''" and since = 1700000000000000000 and w = "()" and wa = "()"
      and wb = "()" and wc = "()" and ra = sample_so_response and rb = sample_so_response and rc = sample_so_response
      and title = "''Why''" and titles = "[]" and answers = "[sample_so_item]" and comments = "[sample_so_item]" and limit = 500 and unescape = id]
      run sample_so_pages by blast
  moreover have "cleanText id ''<p>Because</p>'' = ''Because''" by code_simp
  ultimately show ?thesis by (simp add: so_events_def so_event_def sample_so_item_def)
qed

end
