(* ===== verification/Kafka_Wire.thy ===== *)
theory Kafka_Wire
  imports Go_Http Scrapper_Domain
begin

text \<open>
  The messages between the services: the JSON payload of the outbox, the native value given to the
  Avro codec, the Confluent wire format (a zero byte, the schema id in four bytes, the Avro bytes),
  and the way back in the consumers (\<open>adapter/out/*/kafka\<close>, \<open>adapter/in/**/kafka\<close> with their
  \<open>mapper\<close>s). The Avro codec and the schema registry are parameters.
\<close>

unbundle bit_operations_syntax

type_synonym byte = "8 word"

text \<open>What \<open>goavro\<close> takes and gives: \<open>int64\<close>, \<open>string\<close>, \<open>[]any\<close>, \<open>map[string]any\<close>.\<close>

datatype native = NLong i64 | NText string | NArr "native list" | NMap "(string \<times> native) list" | NOther

record codec =
  BinaryFromNative :: "native \<Rightarrow> goerr + byte list"
  NativeFromBinary :: "byte list \<Rightarrow> goerr + native"

text \<open>What is relied on: what the codec writes is not empty and reads back as it was.\<close>

definition codec_ok :: "codec \<Rightarrow> bool" where
  "codec_ok c \<longleftrightarrow> (\<forall>n b. BinaryFromNative c n = Inr b \<longrightarrow> b \<noteq> [] \<and> NativeFromBinary c b = Inr n)"

subsection \<open>The wire format\<close>

definition put_uint32 :: "32 word \<Rightarrow> byte list" where
  "put_uint32 v = [ucast (drop_bit 24 v), ucast (drop_bit 16 v), ucast (drop_bit 8 v), ucast v]"

fun get_uint32 :: "byte list \<Rightarrow> 32 word" where
  "get_uint32 (a # b # c # d # bs) =
     push_bit 24 (ucast a) OR push_bit 16 (ucast b) OR push_bit 8 (ucast c) OR ucast d"
| "get_uint32 bs = 0"

record topic_serializer =
  ts_schemaID :: i64
  ts_codec :: codec
  ts_parse :: "json \<Rightarrow> goerr + native"

definition eventToBytes :: "topic_serializer \<Rightarrow> outbox \<Rightarrow> goerr + byte list" where
  "eventToBytes serializer event =
     (case ts_parse serializer (ob_Payload event) of
        Inl e \<Rightarrow> Inl (TextErr ''failed to parse payload: '' e)
      | Inr nativeData \<Rightarrow>
          (case BinaryFromNative (ts_codec serializer) nativeData of
             Inl e \<Rightarrow> Inl (TextErr ''failed to encode avro: '' e)
           | Inr avroBinary \<Rightarrow> Inr (0 # put_uint32 (ucast (ts_schemaID serializer)) @ avroBinary)))"

text \<open>\<open>bytesToLinkUpdate\<close> of both consumers; \<open>getSchema\<close> asks the registry.\<close>

definition avroMagicByte :: byte where
  "avroMagicByte = 0"

definition bytesToUpdate ::
    "(int \<Rightarrow> ('w, codec) prog) \<Rightarrow> (native \<Rightarrow> goerr + 'u) \<Rightarrow> byte list \<Rightarrow> ('w, 'u) prog" where
  "bytesToUpdate getSchema fromNative value =
     (if length value \<le> 5 \<or> hd value \<noteq> avroMagicByte
      then efail (NewErr ''invalid link update serialization'')
      else
        let schemaID = get_uint32 (take 4 (drop 1 value)) in
        ehandle (getSchema (uint schemaID))
          (\<lambda>e. efail (WrapErr ''error getting the schema: '' e '''')) (\<lambda>schema.
        ehandle (lift_sum (NativeFromBinary schema (drop 5 value)))
          (\<lambda>e. efail (WrapErr ''error decoding native from bytes: '' e '''')) (\<lambda>native.
        ehandle (lift_sum (fromNative native))
          (\<lambda>e. efail (WrapErr ''error mapping native to domain LinkUpdate: '' e '''')) eret)))"

subsection \<open>Raw updates: scrapper to agent\<close>

definition linkUpdate_json :: "link_update \<Rightarrow> json" where
  "linkUpdate_json u = JObj
     [(''id'', enc_i64 (lu_ID u)), (''url'', enc_str (lu_URL u)), (''author'', enc_str (lu_Author u)),
      (''description'', enc_str (lu_Description u)), (''tgChatIds'', enc_list enc_i64 (lu_TgChatIDs u))]"

definition zero_update :: link_update where
  "zero_update = \<lparr>lu_ID = 0, lu_URL = '''', lu_Author = '''', lu_Description = '''', lu_TgChatIDs = []\<rparr>"

definition dec_raw_update :: "link_update decoder" where
  "dec_raw_update = dec_struct (\<lambda>ms old.
     sbind (dec_field ''id'' dec_i64 ms (lu_ID old)) (\<lambda>i.
     sbind (dec_field ''url'' dec_str ms (lu_URL old)) (\<lambda>u.
     sbind (dec_field ''author'' dec_str ms (lu_Author old)) (\<lambda>a.
     sbind (dec_field ''description'' dec_str ms (lu_Description old)) (\<lambda>d.
     sbind (dec_field ''tgChatIds'' (dec_list dec_i64 0) ms (lu_TgChatIDs old)) (\<lambda>ids.
     Inr \<lparr>lu_ID = i, lu_URL = u, lu_Author = a, lu_Description = d, lu_TgChatIDs = ids\<rparr>))))))"

definition RawLinkUpdateToNative :: "json \<Rightarrow> goerr + native" where
  "RawLinkUpdateToNative payload =
     sbind (unmarshal dec_raw_update zero_update (Some payload)) (\<lambda>update.
     Inr (NMap [(''id'', NLong (lu_ID update)), (''url'', NText (lu_URL update)),
       (''author'', NText (lu_Author update)), (''description'', NText (lu_Description update)),
       (''tgChatIds'', NArr (map NLong (lu_TgChatIDs update)))]))"

text \<open>Type assertions on the entries of a record.\<close>

fun as_long :: "native \<Rightarrow> i64 option" where
  "as_long (NLong i) = Some i"
| "as_long _ = None"

fun as_text :: "native \<Rightarrow> string option" where
  "as_text (NText s) = Some s"
| "as_text _ = None"

fun as_array :: "native \<Rightarrow> native list option" where
  "as_array (NArr xs) = Some xs"
| "as_array _ = None"

definition entry :: "(native \<Rightarrow> 'a option) \<Rightarrow> string \<Rightarrow> string \<Rightarrow> (string \<times> native) list \<Rightarrow> goerr + 'a" where
  "entry f key msg record =
     (case Option.bind (map_of record key) f of Some x \<Rightarrow> Inr x | None \<Rightarrow> Inl (NewErr msg))"

fun chat_ids :: "nat \<Rightarrow> native list \<Rightarrow> goerr + i64 list" where
  "chat_ids i [] = Inr []"
| "chat_ids i (v # vs) =
     (case as_long v of
        None \<Rightarrow> Inl (NewErr (''failed to cast tgChatIds['' @ show_nat i @ ''] to int64''))
      | Some x \<Rightarrow> sbind (chat_ids (i + 1) vs) (\<lambda>xs. Inr (x # xs)))"

definition LinkUpdateFromNative :: "native \<Rightarrow> goerr + link_update" where
  "LinkUpdateFromNative native =
     (case native of
        NMap record \<Rightarrow>
          sbind (entry as_long ''id'' ''failed to cast native to int64 id'' record) (\<lambda>i.
          sbind (entry as_text ''url'' ''failed to cast native to string url'' record) (\<lambda>u.
          sbind (entry as_text ''author'' ''failed to cast native to string author'' record) (\<lambda>a.
          sbind (entry as_text ''description'' ''failed to cast native to string description'' record) (\<lambda>d.
          sbind (entry as_array ''tgChatIds'' ''failed to cast tgChatIds to []any'' record) (\<lambda>vs.
          sbind (chat_ids 0 vs) (\<lambda>ids.
          Inr \<lparr>lu_ID = i, lu_URL = u, lu_Author = a, lu_Description = d, lu_TgChatIDs = ids\<rparr>))))))
      | _ \<Rightarrow> Inl (NewErr ''failed to cast native to map[string]any''))"

definition agent_bytesToLinkUpdate :: "(int \<Rightarrow> ('w, codec) prog) \<Rightarrow> byte list \<Rightarrow> ('w, link_update) prog" where
  "agent_bytesToLinkUpdate getSchema = bytesToUpdate getSchema LinkUpdateFromNative"

subsection \<open>Processed updates: agent to bot\<close>

text \<open>The agent's \<open>ProcessedLinkUpdate\<close>, which is the bot's \<open>LinkUpdate\<close>. A priority is its text.\<close>

record processed_update =
  pu_URL :: string
  pu_Description :: string
  pu_Priority :: string
  pu_TgChatIDs :: "i64 list"

definition PriorityHigh :: string where "PriorityHigh = ''HIGH''"
definition PriorityMedium :: string where "PriorityMedium = ''MEDIUM''"
definition PriorityLow :: string where "PriorityLow = ''LOW''"

definition processedUpdate_json :: "processed_update \<Rightarrow> json" where
  "processedUpdate_json u = JObj
     [(''url'', enc_str (pu_URL u)), (''description'', enc_str (pu_Description u)),
      (''priority'', enc_str (pu_Priority u)), (''tgChatIds'', enc_list enc_i64 (pu_TgChatIDs u))]"

definition zero_processed :: processed_update where
  "zero_processed = \<lparr>pu_URL = '''', pu_Description = '''', pu_Priority = '''', pu_TgChatIDs = []\<rparr>"

definition dec_processed_update :: "processed_update decoder" where
  "dec_processed_update = dec_struct (\<lambda>ms old.
     sbind (dec_field ''url'' dec_str ms (pu_URL old)) (\<lambda>u.
     sbind (dec_field ''description'' dec_str ms (pu_Description old)) (\<lambda>d.
     sbind (dec_field ''priority'' dec_str ms (pu_Priority old)) (\<lambda>p.
     sbind (dec_field ''tgChatIds'' (dec_list dec_i64 0) ms (pu_TgChatIDs old)) (\<lambda>ids.
     Inr \<lparr>pu_URL = u, pu_Description = d, pu_Priority = p, pu_TgChatIDs = ids\<rparr>)))))"

definition ProcessedLinkUpdateToNative :: "json \<Rightarrow> goerr + native" where
  "ProcessedLinkUpdateToNative payload =
     sbind (unmarshal dec_processed_update zero_processed (Some payload)) (\<lambda>update.
     Inr (NMap [(''url'', NText (pu_URL update)), (''description'', NText (pu_Description update)),
       (''priority'', NText (pu_Priority update)),
       (''tgChatIds'', NArr (map NLong (pu_TgChatIDs update)))]))"

definition ProcessedLinkUpdateFromNative :: "native \<Rightarrow> goerr + processed_update" where
  "ProcessedLinkUpdateFromNative native =
     (case native of
        NMap record \<Rightarrow>
          sbind (entry as_text ''url'' ''failed to cast native to string url'' record) (\<lambda>u.
          sbind (entry as_text ''description'' ''failed to cast native to string description'' record) (\<lambda>d.
          sbind (entry as_text ''priority'' ''failed to cast native to string priority'' record) (\<lambda>p.
          sbind (entry as_array ''tgChatIds'' ''failed to cast tgChatIds to []any'' record) (\<lambda>vs.
          sbind (chat_ids 0 vs) (\<lambda>ids.
          Inr \<lparr>pu_URL = u, pu_Description = d, pu_Priority = p, pu_TgChatIDs = ids\<rparr>)))))
      | _ \<Rightarrow> Inl (NewErr ''failed to cast native to map[string]any''))"

definition bot_bytesToLinkUpdate ::
    "(int \<Rightarrow> ('w, codec) prog) \<Rightarrow> byte list \<Rightarrow> ('w, processed_update) prog" where
  "bot_bytesToLinkUpdate getSchema = bytesToUpdate getSchema ProcessedLinkUpdateFromNative"

subsection \<open>Reading what was written\<close>

lemma get_put_uint32 [simp]: "get_uint32 (put_uint32 v) = v"
  unfolding put_uint32_def get_uint32.simps
proof (rule bit_word_eqI)
  fix n :: nat
  assume "n < LENGTH(32)"
  then consider "n < 8" | "8 \<le> n" "n < 16" | "16 \<le> n" "n < 24" | "24 \<le> n" "n < 32"
    by fastforce
  then show "bit (push_bit 24 (ucast (ucast (drop_bit 24 v) :: byte)) OR push_bit 16 (ucast (ucast (drop_bit 16 v) :: byte))
      OR push_bit 8 (ucast (ucast (drop_bit 8 v) :: byte)) OR (ucast (ucast v :: byte) :: 32 word)) n = bit v n"
    by cases (auto simp: bit_simps not_le)
qed

lemma length_put_uint32 [simp]: "length (put_uint32 v) = 4"
  by (simp add: put_uint32_def)

lemma chat_ids_longs [simp]: "chat_ids i (map NLong xs) = Inr xs"
  by (induction xs arbitrary: i) simp_all

lemma bytesToUpdate_written:
  assumes "codec_ok c" and "BinaryFromNative c n = Inr b"
    and "getSchema (uint (ucast sid :: 32 word)) w = (Inr c, w')" and "fromNative n = Inr u"
  shows "bytesToUpdate getSchema fromNative (0 # put_uint32 (ucast (sid :: i64)) @ b) w = (Inr u, w')"
proof -
  have "b \<noteq> []" "NativeFromBinary c b = Inr n" using assms(1,2) by (auto simp: codec_ok_def)
  moreover from this have "\<not> length (0 # put_uint32 (ucast sid) @ b) \<le> 5" by (cases b) auto
  moreover have "take 4 (put_uint32 (ucast sid)) = put_uint32 (ucast sid)"
    "drop 4 (put_uint32 (ucast sid)) = []" by simp_all
  ultimately show ?thesis
    using assms(3,4) by (simp add: bytesToUpdate_def avroMagicByte_def Let_def)
qed

end
