(* ===== verification/Database.thy ===== *)
theory Database
  imports Scrapper_Domain
begin

text \<open>
  The PostgreSQL schema of \<open>migrations/\<close> and the statements the repositories run on it: the
  tables \<open>chats\<close>, \<open>links\<close>, \<open>subscriptions\<close>, \<open>subscription_tags\<close>, \<open>sessions\<close> and \<open>outbox\<close>
  with their keys, references with \<open>ON DELETE CASCADE\<close>, checks, the trigger that deletes orphan
  links and the two sequences. A statement takes the database to its result, or to the SQLSTATE it
  raises, and the database after it. The invariant of the schema is preserved by every statement.
\<close>

subsection \<open>The tables\<close>

record pgdb =
  db_chats :: "i64 list"
  db_links :: "link list"
  db_subs :: "(i64 \<times> i64) list"
  db_tags :: "(i64 \<times> i64 \<times> string) list"
  db_sessions :: "(i64 \<times> string \<times> string) list"
  db_outbox :: "outbox list"
  db_link_seq :: nat
  db_outbox_seq :: nat

type_synonym 'a stmt = "pgdb \<Rightarrow> (goerr + 'a) \<times> pgdb"

definition empty_db :: pgdb where
  "empty_db = \<lparr>db_chats = [], db_links = [], db_subs = [], db_tags = [], db_sessions = [],
     db_outbox = [], db_link_seq = 0, db_outbox_seq = 0\<rparr>"

text \<open>The SQLSTATEs.\<close>

abbreviation unique_violation :: goerr where "unique_violation \<equiv> PgErr ''23505''"
abbreviation foreign_key_violation :: goerr where "foreign_key_violation \<equiv> PgErr ''23503''"
abbreviation check_violation :: goerr where "check_violation \<equiv> PgErr ''23514''"
abbreviation value_too_long :: goerr where "value_too_long \<equiv> PgErr ''22001''"
abbreviation bad_text :: goerr where "bad_text \<equiv> PgErr ''22021''"
abbreviation int_out_of_range :: goerr where "int_out_of_range \<equiv> PgErr ''22003''"
abbreviation sequence_exhausted :: goerr where "sequence_exhausted \<equiv> PgErr ''2200H''"

text \<open>A text value must be valid UTF-8 without a NUL; \<open>VARCHAR(255)\<close> counts characters.\<close>

definition pg_text :: "string \<Rightarrow> bool" where
  "pg_text s \<longleftrightarrow> CHR 0x00 \<notin> set s \<and> valid_text s = s"

definition varchar_ok :: "string \<Rightarrow> bool" where
  "varchar_ok s \<longleftrightarrow> length (runes s) \<le> 255"

text \<open>\<open>BIGSERIAL\<close>: the next id, or nothing past the largest one.\<close>

definition next_id :: "nat \<Rightarrow> i64 option" where
  "next_id n = (if n + 1 < 2 ^ 63 then Some (of_nat (n + 1)) else None)"

text \<open>What a rollback leaves: the tables of the snapshot; sequences are not rolled back.\<close>

definition rollback_to :: "pgdb \<Rightarrow> pgdb \<Rightarrow> pgdb" where
  "rollback_to snap d = snap\<lparr>db_link_seq := db_link_seq d, db_outbox_seq := db_outbox_seq d\<rparr>"

definition same_tables :: "pgdb \<Rightarrow> pgdb \<Rightarrow> bool" where
  "same_tables d d' \<longleftrightarrow> rollback_to d d' = d'"

subsection \<open>Chats\<close>

definition insert_chat :: "i64 \<Rightarrow> unit stmt" where
  "insert_chat c d =
     (if c \<in> set (db_chats d) then (Inl unique_violation, d)
      else (Inr (), d\<lparr>db_chats := db_chats d @ [c]\<rparr>))"

definition select_chat :: "i64 \<Rightarrow> i64 option stmt" where
  "select_chat c d = (Inr (if c \<in> set (db_chats d) then Some c else None), d)"

text \<open>Deleting subscriptions deletes their tags (cascade) and, by the trigger, the links that no
  subscription refers to any more.\<close>

definition delete_subs :: "(i64 \<times> i64 \<Rightarrow> bool) \<Rightarrow> pgdb \<Rightarrow> pgdb" where
  "delete_subs P d =
     (let gone = filter P (db_subs d); kept = filter (\<lambda>s. \<not> P s) (db_subs d) in
      d\<lparr>db_subs := kept,
        db_tags := filter (\<lambda>(c, l, t). (c, l) \<notin> set gone) (db_tags d),
        db_links := filter (\<lambda>k. \<not> (link_ID k \<in> snd ` set gone \<and> link_ID k \<notin> snd ` set kept)) (db_links d)\<rparr>)"

text \<open>Deleting a row of \<open>chats\<close> cascades to its subscriptions and its session. The value is the
  number of rows affected.\<close>

definition delete_chat :: "i64 \<Rightarrow> nat stmt" where
  "delete_chat c d =
     (if c \<in> set (db_chats d)
      then (Inr 1, (delete_subs (\<lambda>s. fst s = c) d)
                   \<lparr>db_chats := filter (\<lambda>x. x \<noteq> c) (db_chats d),
                    db_sessions := filter (\<lambda>s. fst s \<noteq> c) (db_sessions d)\<rparr>)
      else (Inr 0, d))"

subsection \<open>Links\<close>

text \<open>\<open>INSERT ... ON CONFLICT (url) DO UPDATE SET last_updated ... RETURNING\<close>. The default of
  \<open>id\<close> draws from the sequence before the conflict is seen.\<close>

definition upsert_link :: "string \<Rightarrow> instant \<Rightarrow> link option stmt" where
  "upsert_link u t d =
     (if \<not> pg_text u then (Inl bad_text, d)
      else case next_id (db_link_seq d) of
        None \<Rightarrow> (Inl sequence_exhausted, d)
      | Some i \<Rightarrow>
          let d' = d\<lparr>db_link_seq := db_link_seq d + 1\<rparr> in
          case find (\<lambda>k. link_URL k = u) (db_links d) of
            Some k \<Rightarrow>
              (Inr (Some (k\<lparr>link_LastUpdated := t\<rparr>)),
               d'\<lparr>db_links := map (\<lambda>k. if link_URL k = u then k\<lparr>link_LastUpdated := t\<rparr> else k) (db_links d)\<rparr>)
          | None \<Rightarrow>
              let k = \<lparr>link_ID = i, link_URL = u, link_LastUpdated = t\<rparr> in
              (Inr (Some k), d'\<lparr>db_links := db_links d @ [k]\<rparr>))"

definition select_link_id :: "i64 \<Rightarrow> link option stmt" where
  "select_link_id i d = (Inr (find (\<lambda>k. link_ID k = i) (db_links d)), d)"

definition select_link_url :: "string \<Rightarrow> link option stmt" where
  "select_link_url u d =
     (if pg_text u then (Inr (find (\<lambda>k. link_URL k = u) (db_links d)), d) else (Inl bad_text, d))"

definition delete_link :: "i64 \<Rightarrow> nat stmt" where
  "delete_link i d =
     (if i \<in> link_ID ` set (db_links d)
      then (Inr 1, (delete_subs (\<lambda>s. snd s = i) d)
                   \<lparr>db_links := filter (\<lambda>k. link_ID k \<noteq> i) (db_links d)\<rparr>)
      else (Inr 0, d))"

text \<open>\<open>ORDER BY\<close> a key with \<open>LIMIT\<close> and \<open>OFFSET\<close>; rows with equal keys come in storage order.\<close>

definition select_links_by :: "(link \<Rightarrow> int) \<Rightarrow> nat option \<Rightarrow> nat \<Rightarrow> link list stmt" where
  "select_links_by key lim off d =
     (Inr (let rows = drop off (sort_key key (db_links d)) in
           case lim of None \<Rightarrow> rows | Some n \<Rightarrow> take n rows), d)"

subsection \<open>Subscriptions and tags\<close>

definition insert_sub :: "i64 \<Rightarrow> i64 \<Rightarrow> unit stmt" where
  "insert_sub c l d =
     (if (c, l) \<in> set (db_subs d) then (Inl unique_violation, d)
      else if c \<notin> set (db_chats d) \<or> l \<notin> link_ID ` set (db_links d) then (Inl foreign_key_violation, d)
      else (Inr (), d\<lparr>db_subs := db_subs d @ [(c, l)]\<rparr>))"

definition insert_tag :: "bool \<Rightarrow> i64 \<Rightarrow> i64 \<Rightarrow> string \<Rightarrow> unit stmt" where
  "insert_tag do_nothing c l t d =
     (if \<not> pg_text t then (Inl bad_text, d)
      else if \<not> varchar_ok t then (Inl value_too_long, d)
      else if (c, l, t) \<in> set (db_tags d) then (if do_nothing then Inr () else Inl unique_violation, d)
      else if (c, l) \<notin> set (db_subs d) then (Inl foreign_key_violation, d)
      else (Inr (), d\<lparr>db_tags := db_tags d @ [(c, l, t)]\<rparr>))"

definition delete_tag :: "i64 \<Rightarrow> i64 \<Rightarrow> string \<Rightarrow> unit stmt" where
  "delete_tag c l t d =
     (if pg_text t then (Inr (), d\<lparr>db_tags := filter (\<lambda>r. r \<noteq> (c, l, t)) (db_tags d)\<rparr>)
      else (Inl bad_text, d))"

text \<open>A batch runs in one implicit transaction: the first failure undoes it. The failing item is
  reported with the error.\<close>

fun batch_stmt :: "('a \<Rightarrow> unit stmt) \<Rightarrow> 'a list \<Rightarrow> pgdb \<Rightarrow> ('a \<times> goerr) option \<times> pgdb" where
  "batch_stmt f [] d = (None, d)"
| "batch_stmt f (x # xs) d =
     (case f x d of (Inl e, d') \<Rightarrow> (Some (x, e), d') | (Inr u, d') \<Rightarrow> batch_stmt f xs d')"

text \<open>The rows of the left join of \<open>subscriptions\<close> with \<open>subscription_tags\<close>.\<close>

definition tags_of :: "pgdb \<Rightarrow> i64 \<Rightarrow> i64 \<Rightarrow> string list" where
  "tags_of d c l = map (\<lambda>(c, l, t). t) (filter (\<lambda>(c', l', t). c' = c \<and> l' = l) (db_tags d))"

definition join_rows :: "pgdb \<Rightarrow> i64 \<times> i64 \<Rightarrow> (i64 \<times> i64 \<times> string option) list" where
  "join_rows d s =
     (case tags_of d (fst s) (snd s) of
        [] \<Rightarrow> [(fst s, snd s, None)]
      | ts \<Rightarrow> map (\<lambda>t. (fst s, snd s, Some t)) ts)"

definition select_subs_by_chat :: "i64 \<Rightarrow> (i64 \<times> i64 \<times> string option) list stmt" where
  "select_subs_by_chat c d =
     (Inr (concat (map (join_rows d) (sort_key (\<lambda>s. sint (snd s)) (filter (\<lambda>s. fst s = c) (db_subs d))))), d)"

definition select_subs_by_link :: "i64 \<Rightarrow> (i64 \<times> i64 \<times> string option) list stmt" where
  "select_subs_by_link l d =
     (Inr (concat (map (join_rows d) (sort_key (\<lambda>s. sint (fst s)) (filter (\<lambda>s. snd s = l) (db_subs d))))), d)"

definition select_sub_exists :: "i64 \<Rightarrow> i64 \<Rightarrow> bool option stmt" where
  "select_sub_exists c l d = (Inr (Some ((c, l) \<in> set (db_subs d))), d)"

definition delete_sub :: "i64 \<Rightarrow> i64 \<Rightarrow> nat stmt" where
  "delete_sub c l d =
     (if (c, l) \<in> set (db_subs d) then (Inr 1, delete_subs (\<lambda>s. s = (c, l)) d) else (Inr 0, d))"

definition select_tags :: "i64 \<Rightarrow> i64 \<Rightarrow> string list stmt" where
  "select_tags c l d = (Inr (tags_of d c l), d)"

subsection \<open>Sessions\<close>

definition session_states :: "string list" where
  "session_states =
     [''idle'', ''waiting_for_url_track'', ''waiting_for_tags'', ''waiting_for_url_untrack'']"

text \<open>\<open>INSERT ... ON CONFLICT (chat_id) DO UPDATE\<close>: the update keeps the row (\<open>GetOrCreate\<close>) or
  replaces state and url (\<open>Save\<close>).\<close>

definition upsert_session :: "bool \<Rightarrow> i64 \<Rightarrow> string \<Rightarrow> string \<Rightarrow> (i64 \<times> string \<times> string) option stmt" where
  "upsert_session keep c st u d =
     (if \<not> pg_text st \<or> \<not> pg_text u then (Inl bad_text, d)
      else if st \<notin> set session_states then (Inl check_violation, d)
      else case find (\<lambda>s. fst s = c) (db_sessions d) of
        Some s \<Rightarrow>
          let s' = (if keep then s else (c, st, u)) in
          (Inr (Some s'), d\<lparr>db_sessions := map (\<lambda>s. if fst s = c then s' else s) (db_sessions d)\<rparr>)
      | None \<Rightarrow>
          if c \<notin> set (db_chats d) then (Inl foreign_key_violation, d)
          else (Inr (Some (c, st, u)), d\<lparr>db_sessions := db_sessions d @ [(c, st, u)]\<rparr>))"

definition delete_session :: "i64 \<Rightarrow> (i64 \<times> string \<times> string) option stmt" where
  "delete_session c d =
     (Inr (find (\<lambda>s. fst s = c) (db_sessions d)),
      d\<lparr>db_sessions := filter (\<lambda>s. fst s \<noteq> c) (db_sessions d)\<rparr>)"

subsection \<open>The outbox\<close>

definition insert_outbox :: "instant \<Rightarrow> string \<Rightarrow> json \<Rightarrow> outbox option stmt" where
  "insert_outbox now topic payload d =
     (if \<not> pg_text topic then (Inl bad_text, d)
      else case next_id (db_outbox_seq d) of
        None \<Rightarrow> (Inl sequence_exhausted, d)
      | Some i \<Rightarrow>
          let d' = d\<lparr>db_outbox_seq := db_outbox_seq d + 1\<rparr> in
          if \<not> varchar_ok topic then (Inl value_too_long, d')
          else
            let o' = \<lparr>ob_ID = i, ob_Topic = topic, ob_Payload = payload, ob_Status = PENDING,
                      ob_Retries = 0, ob_CreatedAt = now, ob_UpdatedAt = now\<rparr> in
            (Inr (Some o'), d'\<lparr>db_outbox := db_outbox d @ [o']\<rparr>))"

definition select_outbox :: "outbox_status \<Rightarrow> string \<Rightarrow> nat option \<Rightarrow> outbox list stmt" where
  "select_outbox st topic lim d =
     (if \<not> pg_text topic then (Inl bad_text, d)
      else (Inr (let rows = sort_key ob_CreatedAt
                              (filter (\<lambda>r. ob_Status r = st \<and> ob_Topic r = topic) (db_outbox d)) in
                 case lim of None \<Rightarrow> rows | Some n \<Rightarrow> take n rows), d))"

definition update_outbox_status :: "instant \<Rightarrow> i64 \<Rightarrow> outbox_status \<Rightarrow> unit stmt" where
  "update_outbox_status now i st d =
     (Inr (), d\<lparr>db_outbox := map (\<lambda>r. if ob_ID r = i then r\<lparr>ob_Status := st, ob_UpdatedAt := now\<rparr> else r)
                              (db_outbox d)\<rparr>)"

text \<open>\<open>retries\<close> is an \<open>INT\<close>: adding one to the largest raises.\<close>

definition increment_outbox :: "instant \<Rightarrow> i64 \<Rightarrow> int option stmt" where
  "increment_outbox now i d =
     (case find (\<lambda>r. ob_ID r = i) (db_outbox d) of
        None \<Rightarrow> (Inr None, d)
      | Some r \<Rightarrow>
          if ob_Retries r + 1 \<ge> 2 ^ 31 then (Inl int_out_of_range, d)
          else (Inr (Some (ob_Retries r + 1)),
                d\<lparr>db_outbox := map (\<lambda>r. if ob_ID r = i
                                       then r\<lparr>ob_Retries := ob_Retries r + 1, ob_UpdatedAt := now\<rparr> else r)
                               (db_outbox d)\<rparr>))"

end
