(* ===== verification/Database_Wf.thy ===== *)
theory Database_Wf
  imports Database
begin

text \<open>
  The invariant of the schema: keys are unique, references have their target, checks hold, ids come
  from the sequences. Every statement of \<open>Database\<close> preserves it, and a failed statement leaves
  the tables as they were.
\<close>

definition chats_wf :: "pgdb \<Rightarrow> bool" where
  "chats_wf d \<longleftrightarrow> distinct (db_chats d)"

definition links_wf :: "pgdb \<Rightarrow> bool" where
  "links_wf d \<longleftrightarrow> distinct (map link_ID (db_links d)) \<and> distinct (map link_URL (db_links d))
     \<and> db_link_seq d < 2 ^ 63
     \<and> list_all (\<lambda>k. 0 < sint (link_ID k) \<and> sint (link_ID k) \<le> int (db_link_seq d)) (db_links d)"

definition subs_wf :: "pgdb \<Rightarrow> bool" where
  "subs_wf d \<longleftrightarrow> distinct (db_subs d)
     \<and> list_all (\<lambda>s. fst s \<in> set (db_chats d) \<and> snd s \<in> link_ID ` set (db_links d)) (db_subs d)"

definition tags_wf :: "pgdb \<Rightarrow> bool" where
  "tags_wf d \<longleftrightarrow> distinct (db_tags d)
     \<and> list_all (\<lambda>(c, l, t). (c, l) \<in> set (db_subs d) \<and> varchar_ok t) (db_tags d)"

definition sessions_wf :: "pgdb \<Rightarrow> bool" where
  "sessions_wf d \<longleftrightarrow> distinct (map fst (db_sessions d))
     \<and> list_all (\<lambda>(c, st, u). c \<in> set (db_chats d) \<and> st \<in> set session_states) (db_sessions d)"

definition outbox_wf :: "pgdb \<Rightarrow> bool" where
  "outbox_wf d \<longleftrightarrow> distinct (map ob_ID (db_outbox d)) \<and> db_outbox_seq d < 2 ^ 63
     \<and> list_all (\<lambda>r. 0 < sint (ob_ID r) \<and> sint (ob_ID r) \<le> int (db_outbox_seq d)
          \<and> 0 \<le> ob_Retries r \<and> ob_Retries r < 2 ^ 31) (db_outbox d)"

definition db_wf :: "pgdb \<Rightarrow> bool" where
  "db_wf d \<longleftrightarrow> chats_wf d \<and> links_wf d \<and> subs_wf d \<and> tags_wf d \<and> sessions_wf d \<and> outbox_wf d"

lemmas db_wf_defs =
  chats_wf_def links_wf_def subs_wf_def tags_wf_def sessions_wf_def outbox_wf_def

text \<open>No link without a subscription: what the trigger is for.\<close>

definition no_orphans :: "pgdb \<Rightarrow> bool" where
  "no_orphans d \<longleftrightarrow> list_all (\<lambda>k. link_ID k \<in> snd ` set (db_subs d)) (db_links d)"

lemma db_wf_empty: "db_wf empty_db"
  by (simp add: db_wf_def db_wf_defs empty_db_def)

subsection \<open>Ids\<close>

lemma sint_of_nat_small: "n < 2 ^ 63 \<Longrightarrow> sint (of_nat n :: i64) = int n"
  using int_word_sint [of "int n", where 'a = 64] by simp

lemma next_id_sint: "next_id n = Some i \<Longrightarrow> sint i = int n + 1 \<and> n + 1 < 2 ^ 63"
  using sint_of_nat_small [of "n + 1"] by (auto simp: next_id_def split: if_splits)

lemma next_id_fresh:
  assumes "next_id n = Some i" and "list_all (\<lambda>k. sint (f k) \<le> int n) ks"
  shows "i \<notin> f ` set ks"
  using next_id_sint [OF assms(1)] assms(2) by (fastforce simp: list_all_iff)

subsection \<open>Finding rows by a unique column\<close>

lemma find_key_Some:
  "distinct (map f xs) \<Longrightarrow> x \<in> set xs \<Longrightarrow> f x = v \<Longrightarrow> find (\<lambda>k. f k = v) xs = Some x"
proof (induction xs)
  case (Cons y xs)
  then show ?case by (cases "x = y") (auto simp: image_iff)
qed simp

lemma find_append: "find P (xs @ ys) = (case find P xs of None \<Rightarrow> find P ys | Some x \<Rightarrow> Some x)"
  by (induction xs) auto

lemma find_key_None: "find (\<lambda>k. f k = v) xs = None \<longleftrightarrow> v \<notin> f ` set xs"
  by (auto simp: find_None_iff)

lemma map_if_same:
  assumes "\<And>k. g (u k) = g k"
  shows "map g (map (\<lambda>k. if P k then u k else k) xs) = map g xs"
    and "g ` set (map (\<lambda>k. if P k then u k else k) xs) = g ` set xs"
  by (induction xs) (simp_all add: assms)

lemma list_all_map_if:
  "list_all R xs \<Longrightarrow> R y \<Longrightarrow> list_all R (map (\<lambda>x. if P x then y else x) xs)"
  by (induction xs) auto

lemma find_key_D: "find (\<lambda>k. f k = v) xs = Some x \<Longrightarrow> x \<in> set xs \<and> f x = v"
  by (auto simp: find_Some_iff)

subsection \<open>Deleting subscriptions\<close>

lemma delete_subs_fields [simp]:
  "db_chats (delete_subs P d) = db_chats d"
  "db_subs (delete_subs P d) = filter (\<lambda>s. \<not> P s) (db_subs d)"
  "db_sessions (delete_subs P d) = db_sessions d"
  "db_outbox (delete_subs P d) = db_outbox d"
  "db_link_seq (delete_subs P d) = db_link_seq d"
  "db_outbox_seq (delete_subs P d) = db_outbox_seq d"
  by (simp_all add: delete_subs_def Let_def)

lemma delete_subs_links:
  "k \<in> set (db_links (delete_subs P d)) \<longleftrightarrow>
     k \<in> set (db_links d) \<and>
     ((\<exists>s \<in> set (db_subs d). P s \<and> snd s = link_ID k) \<longrightarrow> (\<exists>s \<in> set (db_subs d). \<not> P s \<and> snd s = link_ID k))"
  by (auto simp: delete_subs_def Let_def image_iff) (metis snd_conv)+

lemma delete_subs_tags:
  "(c, l, t) \<in> set (db_tags (delete_subs P d)) \<longleftrightarrow>
     (c, l, t) \<in> set (db_tags d) \<and> \<not> ((c, l) \<in> set (db_subs d) \<and> P (c, l))"
  by (auto simp: delete_subs_def Let_def)

lemma delete_subs_links_wf: "links_wf d \<Longrightarrow> links_wf (delete_subs P d)"
  by (auto simp: links_wf_def delete_subs_def Let_def distinct_map_filter list_all_iff)

lemma delete_subs_subs_wf: "subs_wf d \<Longrightarrow> subs_wf (delete_subs P d)"
  by (fastforce simp: subs_wf_def list_all_iff delete_subs_links)

lemma delete_subs_tags_wf: "tags_wf d \<Longrightarrow> tags_wf (delete_subs P d)"
  by (auto simp: tags_wf_def list_all_iff delete_subs_tags)
     (auto simp: delete_subs_def Let_def)

lemma delete_subs_wf: "db_wf d \<Longrightarrow> db_wf (delete_subs P d)"
  by (simp add: db_wf_def delete_subs_links_wf delete_subs_subs_wf delete_subs_tags_wf)
     (simp add: chats_wf_def sessions_wf_def outbox_wf_def)

lemma delete_subs_no_orphans: "no_orphans d \<Longrightarrow> no_orphans (delete_subs P d)"
  by (force simp: no_orphans_def list_all_iff delete_subs_links image_iff)

subsection \<open>Statements are sound\<close>

text \<open>A sound statement preserves the invariant and changes no table when it fails.\<close>

definition sound_stmt :: "'a stmt \<Rightarrow> bool" where
  "sound_stmt f \<longleftrightarrow> (\<forall>d. (db_wf d \<longrightarrow> db_wf (snd (f d))) \<and>
     (case fst (f d) of Inl e \<Rightarrow> same_tables d (snd (f d)) | Inr x \<Rightarrow> True))"

lemma same_tables_refl [simp]: "same_tables d d"
  by (simp add: same_tables_def rollback_to_def)

lemma same_tables_seq [simp]:
  "same_tables d (d\<lparr>db_link_seq := n\<rparr>)" "same_tables d (d\<lparr>db_outbox_seq := n\<rparr>)"
  by (simp_all add: same_tables_def rollback_to_def)

lemma same_tables_rollback [simp]: "same_tables snap (rollback_to snap d)"
  by (simp add: same_tables_def rollback_to_def)

lemma same_tables_iff:
  "same_tables d d' \<longleftrightarrow> db_chats d = db_chats d' \<and> db_links d = db_links d' \<and> db_subs d = db_subs d'
     \<and> db_tags d = db_tags d' \<and> db_sessions d = db_sessions d' \<and> db_outbox d = db_outbox d'"
  by (cases d; cases d') (auto simp: same_tables_def rollback_to_def)

lemma sound_stmtI:
  assumes "\<And>d. db_wf d \<Longrightarrow> db_wf (snd (f d))"
    and "\<And>d e d'. f d = (Inl e, d') \<Longrightarrow> same_tables d d'"
  shows "sound_stmt f"
  using assms by (auto simp: sound_stmt_def split: sum.splits) (metis prod.collapse)

lemma sound_read: "(\<And>d. snd (f d) = d) \<Longrightarrow> sound_stmt f"
  by (simp add: sound_stmt_def split: sum.splits)

lemma sound_insert_chat: "sound_stmt (insert_chat c)"
  by (rule sound_stmtI)
     (auto simp: insert_chat_def db_wf_def db_wf_defs list_all_iff split: if_splits)

lemma sound_delete_chat: "sound_stmt (delete_chat c)"
proof (rule sound_stmtI)
  fix d
  assume wf: "db_wf d"
  let ?d = "delete_subs (\<lambda>s. fst s = c) d"
  from wf have "db_wf ?d" by (rule delete_subs_wf)
  then show "db_wf (snd (delete_chat c d))"
    using wf
    by (auto simp: delete_chat_def db_wf_def db_wf_defs list_all_iff distinct_map_filter)
qed (auto simp: delete_chat_def split: if_splits)

lemma db_wf_link_seq:
  assumes "db_wf d" and "db_link_seq d \<le> n" and "n < 2 ^ 63"
  shows "db_wf (d\<lparr>db_link_seq := n\<rparr>)"
proof -
  have "links_wf (d\<lparr>db_link_seq := n\<rparr>)"
    using assms by (fastforce simp: db_wf_def links_wf_def list_all_iff)
  with assms(1) show ?thesis
    by (simp add: db_wf_def chats_wf_def subs_wf_def tags_wf_def sessions_wf_def outbox_wf_def)
qed

lemma db_wf_outbox_seq:
  assumes "db_wf d" and "db_outbox_seq d \<le> n" and "n < 2 ^ 63"
  shows "db_wf (d\<lparr>db_outbox_seq := n\<rparr>)"
proof -
  have "outbox_wf (d\<lparr>db_outbox_seq := n\<rparr>)"
    using assms by (fastforce simp: db_wf_def outbox_wf_def list_all_iff)
  with assms(1) show ?thesis
    by (simp add: db_wf_def chats_wf_def subs_wf_def tags_wf_def sessions_wf_def links_wf_def)
qed

lemma db_wf_links_update:
  assumes "db_wf d" and "\<And>k. link_ID (u k) = link_ID k" and "\<And>k. link_URL (u k) = link_URL k"
  shows "db_wf (d\<lparr>db_links := map (\<lambda>k. if P k then u k else k) (db_links d)\<rparr>)" (is "db_wf ?d")
proof -
  note same = map_if_same(1) [of link_ID u P "db_links d"] map_if_same(2) [of link_ID u P "db_links d"]
    map_if_same(1) [of link_URL u P "db_links d"]
  have "links_wf ?d"
    using assms(1) same
    by (simp add: db_wf_def links_wf_def assms(2,3) del: map_map)
       (auto simp: list_all_iff assms(2,3))
  moreover have "subs_wf ?d"
    using assms(1) same by (simp add: db_wf_def subs_wf_def assms(2) del: set_map)
  ultimately show ?thesis
    using assms(1) by (simp add: db_wf_def chats_wf_def tags_wf_def sessions_wf_def outbox_wf_def)
qed

lemma db_wf_outbox_update:
  assumes "db_wf d" and "\<And>r. ob_ID (u r) = ob_ID r"
    and "\<And>r. r \<in> set (db_outbox d) \<Longrightarrow> P r \<Longrightarrow> 0 \<le> ob_Retries (u r) \<and> ob_Retries (u r) < 2 ^ 31"
  shows "db_wf (d\<lparr>db_outbox := map (\<lambda>r. if P r then u r else r) (db_outbox d)\<rparr>)" (is "db_wf ?d")
proof -
  note same = map_if_same(1) [of ob_ID u P "db_outbox d"]
  have "distinct (map ob_ID (db_outbox ?d))"
    using assms(1) same by (simp add: db_wf_def outbox_wf_def assms(2) del: map_map)
  then have "outbox_wf ?d"
    using assms unfolding db_wf_def outbox_wf_def list_all_iff by auto
  then show ?thesis
    using assms(1) by (simp add: db_wf_def chats_wf_def tags_wf_def sessions_wf_def links_wf_def subs_wf_def)
qed

lemma sound_upsert_link: "sound_stmt (upsert_link u t)"
proof (rule sound_stmtI)
  fix d
  assume wf: "db_wf d"
  then have lw: "links_wf d" by (simp add: db_wf_def)
  show "db_wf (snd (upsert_link u t d))"
  proof (cases "pg_text u \<and> next_id (db_link_seq d) \<noteq> None")
    case False
    then show ?thesis using wf by (auto simp: upsert_link_def)
  next
    case True
    then obtain i where i: "next_id (db_link_seq d) = Some i" by auto
    have si: "sint i = int (db_link_seq d) + 1" "db_link_seq d + 1 < 2 ^ 63"
      using next_id_sint [OF i] by auto
    show ?thesis
    proof (cases "find (\<lambda>k. link_URL k = u) (db_links d)")
      case None
      have "i \<notin> link_ID ` set (db_links d)"
        using lw by (intro next_id_fresh [OF i]) (auto simp: links_wf_def list_all_iff)
      moreover have "u \<notin> link_URL ` set (db_links d)"
        using None by (simp add: find_key_None)
      ultimately have "db_wf (d\<lparr>db_link_seq := db_link_seq d + 1,
          db_links := db_links d @ [\<lparr>link_ID = i, link_URL = u, link_LastUpdated = t\<rparr>]\<rparr>)"
        using si wf by (auto simp: db_wf_def db_wf_defs list_all_iff)
      then show ?thesis using None True i by (simp add: upsert_link_def Let_def)
    next
      case (Some k)
      let ?d = "d\<lparr>db_link_seq := db_link_seq d + 1\<rparr>"
      have "db_wf ?d" using wf si by (intro db_wf_link_seq) auto
      then have "db_wf (?d\<lparr>db_links :=
          map (\<lambda>k. if link_URL k = u then k\<lparr>link_LastUpdated := t\<rparr> else k) (db_links ?d)\<rparr>)"
        by (rule db_wf_links_update) auto
      with Some True i show ?thesis by (simp add: upsert_link_def Let_def)
    qed
  qed
qed (auto simp: upsert_link_def Let_def split: if_splits option.splits)

lemma sound_delete_link: "sound_stmt (delete_link i)"
proof (rule sound_stmtI)
  fix d
  assume wf: "db_wf d"
  let ?d = "delete_subs (\<lambda>s. snd s = i) d"
  let ?r = "?d\<lparr>db_links := filter (\<lambda>k. link_ID k \<noteq> i) (db_links d)\<rparr>"
  have wf': "db_wf ?d" using wf by (rule delete_subs_wf)
  have "links_wf ?r"
    using wf by (auto simp: db_wf_def links_wf_def list_all_iff distinct_map_filter)
  moreover have "subs_wf ?r"
    using wf unfolding db_wf_def subs_wf_def list_all_iff by fastforce
  moreover have "tags_wf ?r"
    using wf' by (simp add: db_wf_def tags_wf_def)
  moreover have "chats_wf ?r \<and> sessions_wf ?r \<and> outbox_wf ?r"
    using wf' by (simp add: db_wf_def chats_wf_def sessions_wf_def outbox_wf_def)
  ultimately show "db_wf (snd (delete_link i d))"
    using wf by (simp add: delete_link_def db_wf_def)
qed (auto simp: delete_link_def split: if_splits)

lemma sound_insert_sub: "sound_stmt (insert_sub c l)"
  by (rule sound_stmtI)
     (auto simp: insert_sub_def db_wf_def db_wf_defs list_all_iff split: if_splits)

lemma sound_insert_tag: "sound_stmt (insert_tag b c l t)"
  by (rule sound_stmtI)
     (auto simp: insert_tag_def db_wf_def db_wf_defs list_all_iff split: if_splits)

lemma sound_delete_tag: "sound_stmt (delete_tag c l t)"
  by (rule sound_stmtI)
     (auto simp: delete_tag_def db_wf_def db_wf_defs list_all_iff split: if_splits)

lemma sound_delete_sub: "sound_stmt (delete_sub c l)"
  by (rule sound_stmtI) (auto simp: delete_sub_def delete_subs_wf split: if_splits)

lemma sound_upsert_session: "sound_stmt (upsert_session keep c st u)"
proof (rule sound_stmtI)
  fix d
  assume wf: "db_wf d"
  show "db_wf (snd (upsert_session keep c st u d))"
  proof (cases "pg_text st \<and> pg_text u \<and> st \<in> set session_states")
    case False
    then show ?thesis using wf by (auto simp: upsert_session_def)
  next
    case True
    show ?thesis
    proof (cases "find (\<lambda>s. fst s = c) (db_sessions d)")
      case None
      then have "c \<notin> fst ` set (db_sessions d)" by (simp add: find_key_None)
      with wf True None show ?thesis
        by (auto simp: upsert_session_def db_wf_def chats_wf_def links_wf_def subs_wf_def tags_wf_def
            outbox_wf_def sessions_wf_def)
    next
      case (Some s)
      let ?s' = "if keep then s else (c, st, u)"
      have s: "s \<in> set (db_sessions d)" "fst s = c" using find_key_D [OF Some] by auto
      have f: "map fst (map (\<lambda>s. if fst s = c then ?s' else s) (db_sessions d)) = map fst (db_sessions d)"
        using s by (auto simp: comp_def)
      let ?ok = "\<lambda>(c, st, u). c \<in> set (db_chats d) \<and> st \<in> set session_states"
      have old: "distinct (map fst (db_sessions d))" "list_all ?ok (db_sessions d)"
        using wf by (simp_all add: db_wf_def sessions_wf_def)
      have "?ok ?s'" using old(2) s True by (cases s) (auto simp: list_all_iff)
      then have "list_all ?ok (map (\<lambda>s. if fst s = c then ?s' else s) (db_sessions d))"
        by (rule list_all_map_if [OF old(2)])
      then have "sessions_wf (d\<lparr>db_sessions := map (\<lambda>s. if fst s = c then ?s' else s) (db_sessions d)\<rparr>)"
        using f old(1) by (simp add: sessions_wf_def del: map_map)
      then have "db_wf (d\<lparr>db_sessions := map (\<lambda>s. if fst s = c then ?s' else s) (db_sessions d)\<rparr>)"
        using wf by (simp add: db_wf_def chats_wf_def links_wf_def subs_wf_def tags_wf_def outbox_wf_def)
      then show ?thesis using True Some by (simp add: upsert_session_def Let_def)
    qed
  qed
qed (auto simp: upsert_session_def Let_def split: if_splits option.splits)

lemma sound_delete_session: "sound_stmt (delete_session c)"
  by (rule sound_stmtI)
     (auto simp: delete_session_def db_wf_def db_wf_defs list_all_iff distinct_map_filter)

lemma sound_insert_outbox: "sound_stmt (insert_outbox now topic p)"
proof (rule sound_stmtI)
  fix d
  assume wf: "db_wf d"
  show "db_wf (snd (insert_outbox now topic p d))"
  proof (cases "pg_text topic \<and> next_id (db_outbox_seq d) \<noteq> None")
    case False
    then show ?thesis using wf by (auto simp: insert_outbox_def)
  next
    case True
    then obtain i where i: "next_id (db_outbox_seq d) = Some i" by auto
    let ?d = "d\<lparr>db_outbox_seq := db_outbox_seq d + 1\<rparr>"
    have si: "sint i = int (db_outbox_seq d) + 1" "db_outbox_seq d + 1 < 2 ^ 63"
      using next_id_sint [OF i] by auto
    have wf': "db_wf ?d" using wf si by (intro db_wf_outbox_seq) auto
    have "i \<notin> ob_ID ` set (db_outbox d)"
      using wf by (intro next_id_fresh [OF i]) (auto simp: db_wf_def outbox_wf_def list_all_iff)
    then have "db_wf (?d\<lparr>db_outbox := db_outbox d @ [\<lparr>ob_ID = i, ob_Topic = topic, ob_Payload = p,
        ob_Status = PENDING, ob_Retries = 0, ob_CreatedAt = now, ob_UpdatedAt = now\<rparr>]\<rparr>)"
      using wf' si
      by (simp add: db_wf_def chats_wf_def links_wf_def subs_wf_def tags_wf_def sessions_wf_def
          outbox_wf_def)
    then show ?thesis using True i wf' by (simp add: insert_outbox_def Let_def)
  qed
qed (auto simp: insert_outbox_def Let_def split: if_splits option.splits)

lemma sound_update_outbox_status: "sound_stmt (update_outbox_status now i st)"
proof (rule sound_stmtI)
  fix d
  assume wf: "db_wf d"
  then show "db_wf (snd (update_outbox_status now i st d))"
    unfolding update_outbox_status_def snd_conv
    by (intro db_wf_outbox_update) (auto simp: db_wf_def outbox_wf_def list_all_iff)
qed (simp add: update_outbox_status_def)

lemma sound_increment_outbox: "sound_stmt (increment_outbox now i)"
proof (rule sound_stmtI)
  fix d
  assume wf: "db_wf d"
  show "db_wf (snd (increment_outbox now i d))"
  proof (cases "find (\<lambda>r. ob_ID r = i) (db_outbox d)")
    case None
    then show ?thesis using wf by (simp add: increment_outbox_def)
  next
    case (Some r)
    then have r: "r \<in> set (db_outbox d)" "ob_ID r = i" using find_key_D [OF Some] by auto
    have ow: "outbox_wf d" using wf by (simp add: db_wf_def)
    have inj: "r' = r" if "r' \<in> set (db_outbox d)" "ob_ID r' = i" for r'
      using that r ow by (auto simp: outbox_wf_def distinct_map inj_on_def)
    have "db_wf (d\<lparr>db_outbox := map (\<lambda>r. if ob_ID r = i
        then r\<lparr>ob_Retries := ob_Retries r + 1, ob_UpdatedAt := now\<rparr> else r) (db_outbox d)\<rparr>)"
      if "ob_Retries r + 1 < 2 ^ 31"
    proof (rule db_wf_outbox_update [OF wf])
      fix r' assume "r' \<in> set (db_outbox d)" and "ob_ID r' = i"
      then have "r' = r" by (rule inj)
      then show "0 \<le> ob_Retries (r'\<lparr>ob_Retries := ob_Retries r' + 1, ob_UpdatedAt := now\<rparr>)
          \<and> ob_Retries (r'\<lparr>ob_Retries := ob_Retries r' + 1, ob_UpdatedAt := now\<rparr>) < 2 ^ 31"
        using r ow that by (simp add: outbox_wf_def list_all_iff)
    qed simp
    then show ?thesis using Some wf by (simp add: increment_outbox_def)
  qed
qed (auto simp: increment_outbox_def split: if_splits option.splits)

lemma sound_reads:
  "sound_stmt (select_chat c)" "sound_stmt (select_link_id i)" "sound_stmt (select_link_url u)"
  "sound_stmt (select_links_by key lim off)" "sound_stmt (select_subs_by_chat c)"
  "sound_stmt (select_subs_by_link i)" "sound_stmt (select_sub_exists c i)" "sound_stmt (select_tags c i)"
  "sound_stmt (select_outbox st u lim)"
  by (rule sound_read; simp add: select_chat_def select_link_id_def select_link_url_def
      select_links_by_def select_subs_by_chat_def select_subs_by_link_def select_sub_exists_def
      select_tags_def select_outbox_def)+

lemma batch_stmt_wf: "(\<And>x. sound_stmt (f x)) \<Longrightarrow> db_wf d \<Longrightarrow> db_wf (snd (batch_stmt f xs d))"
proof (induction xs arbitrary: d)
  case (Cons x xs)
  have "db_wf (snd (f x d))" using Cons.prems by (auto simp: sound_stmt_def)
  with Cons show ?case by (cases "f x d"; cases "fst (f x d)") auto
qed simp

lemmas sound_stmts =
  sound_insert_chat sound_delete_chat sound_upsert_link sound_delete_link sound_insert_sub
  sound_insert_tag sound_delete_tag sound_delete_sub sound_upsert_session sound_delete_session
  sound_insert_outbox sound_update_outbox_status sound_increment_outbox sound_reads

lemma rollback_wf:
  assumes "db_wf snap" and "db_link_seq snap \<le> db_link_seq d" and "db_outbox_seq snap \<le> db_outbox_seq d"
    and "db_link_seq d < 2 ^ 63" and "db_outbox_seq d < 2 ^ 63"
  shows "db_wf (rollback_to snap d)"
  unfolding rollback_to_def using assms by (intro db_wf_outbox_seq db_wf_link_seq) simp_all

end
