(* ===== verification/Pg_World.thy ===== *)
theory Pg_World
  imports Database_Wf
begin

text \<open>
  The database connection: statements run through a pool or a transaction, faults of the network
  around every call, and \<open>Transactor.WithinTransaction\<close>
  (\<open>repository/sql/transactor.go\<close>, \<open>repository/sqlbuilder/transactor.go\<close>). Faults are a list
  consumed call by call: a call may be lost before the server runs it, or its reply may be lost
  after the server ran it. The empty list is the run without faults.
\<close>

subsection \<open>The world\<close>

datatype fault = No_fault | Lost_request | Lost_reply

text \<open>
  \<open>w_tx\<close>: the open transaction, as the tables at its start and whether it is aborted.
  \<open>w_stamp\<close>: the instant a \<open>TIMESTAMPTZ\<close> column keeps of a \<open>time.Time\<close> (microseconds).
  \<open>w_map_order\<close>: the order in which Go ranges over a map with the given keys.
\<close>

record world =
  w_db :: pgdb
  w_tx :: "(pgdb \<times> bool) option"
  w_now :: instant
  w_faults :: "fault list"
  w_stamp :: "instant \<Rightarrow> instant"
  w_map_order :: "i64 list \<Rightarrow> i64 list"

definition map_order_ok :: "'a world_scheme \<Rightarrow> bool" where
  "map_order_ok w \<longleftrightarrow> (\<forall>ks. mset (w_map_order w ks) = mset ks)"

definition aborted :: "'a world_scheme \<Rightarrow> bool" where
  "aborted w \<longleftrightarrow> (case w_tx w of Some (snap, a) \<Rightarrow> a | None \<Rightarrow> False)"

definition in_tx :: "'a world_scheme \<Rightarrow> bool" where
  "in_tx w \<longleftrightarrow> w_tx w \<noteq> None"

definition set_aborted :: "'a world_scheme \<Rightarrow> 'a world_scheme" where
  "set_aborted w = w\<lparr>w_tx := map_option (\<lambda>(snap, a). (snap, True)) (w_tx w)\<rparr>"

definition next_fault :: "'a world_scheme \<Rightarrow> fault" where
  "next_fault w = (case w_faults w of [] \<Rightarrow> No_fault | f # fs \<Rightarrow> f)"

definition pop_fault :: "'a world_scheme \<Rightarrow> 'a world_scheme" where
  "pop_fault w = w\<lparr>w_faults := tl (w_faults w)\<rparr>"

definition no_faults :: "'a world_scheme \<Rightarrow> 'a world_scheme" where
  "no_faults w = w\<lparr>w_faults := []\<rparr>"

definition conn_error :: goerr where
  "conn_error = ExtErr ''connection lost''"

abbreviation tx_aborted_error :: goerr where
  "tx_aborted_error \<equiv> PgErr ''25P02''"

subsection \<open>Statements\<close>

text \<open>A failed statement, and a lost one, abort the open transaction; in an aborted one every
  statement fails.\<close>

definition run_with :: "(goerr \<Rightarrow> goerr) \<Rightarrow> 'b stmt \<Rightarrow> ('a world_scheme, 'b) prog" where
  "run_with wrap f w =
     (if aborted w then (Inl (wrap tx_aborted_error), w)
      else case next_fault w of
        No_fault \<Rightarrow>
          (case f (w_db w) of
             (Inr x, d) \<Rightarrow> (Inr x, pop_fault w\<lparr>w_db := d\<rparr>)
           | (Inl e, d) \<Rightarrow> (Inl e, set_aborted (pop_fault w\<lparr>w_db := d\<rparr>)))
      | Lost_request \<Rightarrow> (Inl (wrap conn_error), set_aborted (pop_fault w))
      | Lost_reply \<Rightarrow> (Inl (wrap conn_error), set_aborted (pop_fault w\<lparr>w_db := snd (f (w_db w))\<rparr>)))"

definition run_stmt :: "'b stmt \<Rightarrow> ('a world_scheme, 'b) prog" where
  "run_stmt f = run_with (\<lambda>e. e) f"

text \<open>\<open>QueryRow(...).Scan\<close>: no row is the error \<open>pgx.ErrNoRows\<close>, which aborts nothing.\<close>

definition query_row :: "'b option stmt \<Rightarrow> ('a world_scheme, 'b) prog" where
  "query_row f = ebind (run_stmt f)
     (\<lambda>r. case r of None \<Rightarrow> efail (Sentinel ErrNoRows) | Some x \<Rightarrow> eret x)"

text \<open>\<open>SendBatch\<close> with one \<open>Exec\<close> per queued statement: \<open>wrap x e\<close> is the error that the code makes
  when item \<open>x\<close> fails with \<open>e\<close>.\<close>

definition batch_as_stmt :: "('b \<Rightarrow> unit stmt) \<Rightarrow> 'b list \<Rightarrow> ('b \<Rightarrow> goerr \<Rightarrow> goerr) \<Rightarrow> unit stmt" where
  "batch_as_stmt f xs wrap d =
     (case batch_stmt f xs d of
        (None, d') \<Rightarrow> (Inr (), d')
      | (Some (x, e), d') \<Rightarrow> (Inl (wrap x e), rollback_to d d'))"

definition send_batch ::
    "('b \<Rightarrow> unit stmt) \<Rightarrow> 'b list \<Rightarrow> ('b \<Rightarrow> goerr \<Rightarrow> goerr) \<Rightarrow> ('a world_scheme, unit) prog" where
  "send_batch f xs wrap = run_with (wrap (hd xs)) (batch_as_stmt f xs wrap)"

text \<open>\<open>ToSQL\<close> of the query builder, which may fail before anything is sent.\<close>

definition to_sql :: "string \<Rightarrow> ('a world_scheme, unit) prog" where
  "to_sql msg w =
     (case next_fault w of
        No_fault \<Rightarrow> (Inr (), pop_fault w)
      | _ \<Rightarrow> (Inl (WrapErr msg (ExtErr ''goqu'') ''''), pop_fault w))"

subsection \<open>Transactions\<close>

definition end_rollback :: "'a world_scheme \<Rightarrow> 'a world_scheme" where
  "end_rollback w =
     (case w_tx w of
        None \<Rightarrow> w
      | Some (snap, a) \<Rightarrow> w\<lparr>w_db := rollback_to snap (w_db w), w_tx := None\<rparr>)"

definition begin_tx :: "('a world_scheme, unit) prog" where
  "begin_tx w =
     (if next_fault w = No_fault then (Inr (), pop_fault w\<lparr>w_tx := Some (w_db w, False)\<rparr>)
      else (Inl conn_error, pop_fault w))"

definition commit_tx :: "('a world_scheme, unit) prog" where
  "commit_tx w =
     (if aborted w then (Inl (ExtErr ''commit unexpectedly resulted in rollback''), end_rollback w)
      else case next_fault w of
        No_fault \<Rightarrow> (Inr (), pop_fault w\<lparr>w_tx := None\<rparr>)
      | Lost_request \<Rightarrow> (Inl conn_error, end_rollback (pop_fault w))
      | Lost_reply \<Rightarrow> (Inl conn_error, pop_fault w\<lparr>w_tx := None\<rparr>))"

definition WithinTransaction :: "('a world_scheme, 'b) prog \<Rightarrow> ('a world_scheme, 'b) prog" where
  "WithinTransaction fn w =
     (if in_tx w then fn w
      else
        ehandle begin_tx (\<lambda>e. efail (TextErr ''error creating transaction: '' e)) (\<lambda>_.
        ehandle fn (\<lambda>e w. (Inl e, end_rollback w)) (\<lambda>x.
        ehandle commit_tx (\<lambda>e. efail (TextErr ''error committing transaction: '' e)) (\<lambda>_.
        eret x))) w)"

subsection \<open>The frame of a program\<close>

text \<open>
  What every program keeps: the environment, the snapshot of the open transaction, the rest of
  an extended world; faults are only consumed; an aborted transaction stays aborted and its tables
  untouched; the sequences only grow; the invariant of the schema is preserved.
\<close>

definition same_env :: "'a world_scheme \<Rightarrow> 'a world_scheme \<Rightarrow> bool" where
  "same_env w w' \<longleftrightarrow> w_now w' = w_now w \<and> w_stamp w' = w_stamp w \<and> w_map_order w' = w_map_order w
     \<and> world.more w' = world.more w"

definition frame :: "'a world_scheme \<Rightarrow> 'a world_scheme \<Rightarrow> bool" where
  "frame w w' \<longleftrightarrow> same_env w w'
     \<and> map_option fst (w_tx w') = map_option fst (w_tx w)
     \<and> (aborted w \<longrightarrow> aborted w' \<and> w_db w' = w_db w)
     \<and> db_link_seq (w_db w) \<le> db_link_seq (w_db w') \<and> db_outbox_seq (w_db w) \<le> db_outbox_seq (w_db w')
     \<and> (w_faults w = [] \<longrightarrow> w_faults w' = [])
     \<and> (db_wf (w_db w) \<longrightarrow> db_wf (w_db w'))"

lemma frame_refl: "frame w w"
  by (simp add: frame_def same_env_def)

lemma frame_trans: "frame u v \<Longrightarrow> frame v w \<Longrightarrow> frame u w"
  unfolding frame_def same_env_def by auto

interpretation frames: state_preorder frame
  by unfold_locales (fact frame_refl, erule (1) frame_trans)

definition stmt_ok :: "'b stmt \<Rightarrow> bool" where
  "stmt_ok f \<longleftrightarrow> sound_stmt f \<and> (\<forall>d. db_link_seq d \<le> db_link_seq (snd (f d))
     \<and> db_outbox_seq d \<le> db_outbox_seq (snd (f d)))"

lemma aborted_simps [simp]:
  "aborted (w\<lparr>w_db := d\<rparr>) = aborted w" "aborted (w\<lparr>w_faults := fs\<rparr>) = aborted w"
  "aborted (pop_fault w) = aborted w" "aborted (no_faults w) = aborted w"
  "aborted (w\<lparr>w_tx := None\<rparr>) = False" "aborted (w\<lparr>w_tx := Some (snap, b)\<rparr>) = b"
  by (auto simp: aborted_def pop_fault_def no_faults_def)

lemma pop_fault_simps [simp]:
  "w_db (pop_fault w) = w_db w" "w_tx (pop_fault w) = w_tx w" "w_now (pop_fault w) = w_now w"
  "w_stamp (pop_fault w) = w_stamp w" "w_map_order (pop_fault w) = w_map_order w"
  "world.more (pop_fault w) = world.more w" "w_faults (pop_fault w) = tl (w_faults w)"
  by (simp_all add: pop_fault_def)

lemma no_faults_simps [simp]:
  "w_db (no_faults w) = w_db w" "w_tx (no_faults w) = w_tx w" "w_now (no_faults w) = w_now w"
  "w_stamp (no_faults w) = w_stamp w" "w_map_order (no_faults w) = w_map_order w"
  "w_faults (no_faults w) = []" "next_fault (no_faults w) = No_fault"
  "pop_fault (no_faults w) = no_faults w" "no_faults (no_faults w) = no_faults w"
  "no_faults (pop_fault w) = no_faults w"
  by (simp_all add: no_faults_def next_fault_def pop_fault_def)

lemma set_aborted_simps [simp]:
  "w_db (set_aborted w) = w_db w" "w_now (set_aborted w) = w_now w" "w_faults (set_aborted w) = w_faults w"
  "w_stamp (set_aborted w) = w_stamp w" "w_map_order (set_aborted w) = w_map_order w"
  "world.more (set_aborted w) = world.more w"
  "map_option fst (w_tx (set_aborted w)) = map_option fst (w_tx w)"
  "aborted (set_aborted w) = in_tx w" "in_tx (set_aborted w) = in_tx w"
  by (auto simp: set_aborted_def aborted_def in_tx_def option.map_comp comp_def case_prod_unfold
      split: option.splits)

lemma in_tx_simps [simp]:
  "in_tx (w\<lparr>w_db := d\<rparr>) = in_tx w" "in_tx (pop_fault w) = in_tx w" "in_tx (no_faults w) = in_tx w"
  "in_tx (w\<lparr>w_tx := None\<rparr>) = False" "in_tx (w\<lparr>w_tx := Some s\<rparr>)"
  by (simp_all add: in_tx_def)

lemma aborted_in_tx: "aborted w \<Longrightarrow> in_tx w"
  by (auto simp: aborted_def in_tx_def split: option.splits)

lemma frame_in_tx: "frame w w' \<Longrightarrow> in_tx w' = in_tx w"
  unfolding frame_def in_tx_def by (metis option.map_disc_iff)

lemma frame_env: "frame w w' \<Longrightarrow> same_env w w'"
  by (simp add: frame_def)

lemma frame_wf: "frame w w' \<Longrightarrow> db_wf (w_db w) \<Longrightarrow> db_wf (w_db w')"
  by (simp add: frame_def)

lemma same_env_refl [simp]: "same_env w w"
  by (simp add: same_env_def)

lemma same_env_trans: "same_env u v \<Longrightarrow> same_env v w \<Longrightarrow> same_env u w"
  by (simp add: same_env_def)

lemma next_fault_Nil [simp]: "w_faults w = [] \<Longrightarrow> next_fault w = No_fault"
  by (simp add: next_fault_def)

lemma set_aborted_noop: "\<not> in_tx w \<Longrightarrow> set_aborted w = w"
  by (cases w; cases "w_tx w") (auto simp: set_aborted_def in_tx_def)

lemma sound_stmt_wf: "stmt_ok f \<Longrightarrow> db_wf d \<Longrightarrow> db_wf (snd (f d))"
  by (simp add: stmt_ok_def sound_stmt_def)

lemma stmt_ok_seq:
  "stmt_ok f \<Longrightarrow> db_link_seq d \<le> db_link_seq (snd (f d))"
  "stmt_ok f \<Longrightarrow> db_outbox_seq d \<le> db_outbox_seq (snd (f d))"
  by (simp_all add: stmt_ok_def)

lemma frame_run_with:
  assumes "stmt_ok f"
  shows "keeps frame (run_with wrap f)"
proof (rule keepsI)
  fix w r w'
  assume r: "run_with wrap f w = (r, w')"
  show "frame w w'"
  proof (cases "aborted w")
    case True
    with r show ?thesis by (simp add: run_with_def frame_refl)
  next
    case False
    then have "w_db w' = w_db w \<or> w_db w' = snd (f (w_db w))"
      and "same_env w w'" and "map_option fst (w_tx w') = map_option fst (w_tx w)"
      and "w_faults w = [] \<longrightarrow> w_faults w' = []"
      using r by (auto simp: run_with_def same_env_def split: fault.splits prod.splits sum.splits)
    with False sound_stmt_wf [OF assms] stmt_ok_seq [OF assms] show ?thesis
      by (auto simp: frame_def)
  qed
qed

lemma frame_run_stmt: "stmt_ok f \<Longrightarrow> keeps frame (run_stmt f)"
  by (simp add: run_stmt_def frame_run_with)

lemma frame_query_row: "stmt_ok f \<Longrightarrow> keeps frame (query_row f)"
  unfolding query_row_def by (intro frames.keeps_rules frame_run_stmt)

lemma frame_to_sql: "keeps frame (to_sql msg)"
  by (rule keepsI) (auto simp: to_sql_def frame_def same_env_def split: fault.splits)

lemma end_rollback_top: "\<not> in_tx (end_rollback w)"
  by (auto simp: end_rollback_def in_tx_def split: option.splits)

text \<open>What a transaction leaves when its body respects the frame.\<close>

definition begun :: "'a world_scheme \<Rightarrow> 'a world_scheme" where
  "begun w = pop_fault w\<lparr>w_tx := Some (w_db w, False)\<rparr>"

lemma frame_begun_D:
  assumes "frame (begun w) w1"
  obtains a where "w_tx w1 = Some (w_db w, a)"
  using assms by (cases "w_tx w1") (auto simp: frame_def begun_def)

lemma within_cases:
  assumes "\<not> in_tx w" and "keeps frame fn" and "WithinTransaction fn w = (r, w')"
  obtains (no_begin) "next_fault w \<noteq> No_fault" and "r = Inl (TextErr ''error creating transaction: '' conn_error)"
      and "w' = pop_fault w"
    | (failed) e w1 where "next_fault w = No_fault" and "fn (begun w) = (Inl e, w1)" and "r = Inl e"
      and "w' = w1\<lparr>w_db := rollback_to (w_db w) (w_db w1), w_tx := None\<rparr>"
    | (no_commit) x w1 fs e where "next_fault w = No_fault" and "fn (begun w) = (Inr x, w1)"
      and "r = Inl (TextErr ''error committing transaction: '' e)"
      and "aborted w1 \<or> next_fault w1 = Lost_request"
      and "w' = w1\<lparr>w_db := rollback_to (w_db w) (w_db w1), w_tx := None, w_faults := fs\<rparr>"
      and "w_faults w1 = [] \<longrightarrow> fs = []"
    | (lost_reply) x w1 where "next_fault w = No_fault" and "fn (begun w) = (Inr x, w1)" and "\<not> aborted w1"
      and "next_fault w1 = Lost_reply"
      and "r = Inl (TextErr ''error committing transaction: '' conn_error)"
      and "w' = pop_fault w1\<lparr>w_tx := None\<rparr>"
    | (committed) x w1 where "next_fault w = No_fault" and "fn (begun w) = (Inr x, w1)" and "\<not> aborted w1"
      and "next_fault w1 = No_fault" and "r = Inr x" and "w' = pop_fault w1\<lparr>w_tx := None\<rparr>"
proof (cases "next_fault w = No_fault")
  case False
  then show thesis
    using assms by (intro no_begin) (auto simp: WithinTransaction_def begin_tx_def ehandle_def)
next
  case True
  obtain r1 w1 where b: "fn (begun w) = (r1, w1)" by (cases "fn (begun w)")
  then have "frame (begun w) w1" by (rule keepsD [OF assms(2)])
  then obtain a where tx: "w_tx w1 = Some (w_db w, a)" by (rule frame_begun_D)
  have beg: "begin_tx w = (Inr (), begun w)" using True by (simp add: begin_tx_def begun_def)
  show thesis
  proof (cases r1)
    case (Inl e)
    with True b beg tx assms(1,3) show thesis
      by (intro failed [of e w1])
        (auto simp: WithinTransaction_def ehandle_def end_rollback_def)
  next
    case (Inr x)
    show thesis
    proof (cases "aborted w1 \<or> next_fault w1 = Lost_request")
      case True
      then show thesis
        using \<open>next_fault w = No_fault\<close> b beg tx assms(1,3) Inr
          no_commit [of x w1 "if aborted w1 then ExtErr ''commit unexpectedly resulted in rollback'' else conn_error"
            "if aborted w1 then w_faults w1 else tl (w_faults w1)"]
        by (auto simp: WithinTransaction_def ehandle_def end_rollback_def commit_tx_def pop_fault_def
            split: if_splits)
    next
      case False
      show thesis
      proof (cases "next_fault w1")
        case No_fault
        with False True b beg assms(1,3) Inr show thesis
          by (intro committed [of x w1]) (auto simp: WithinTransaction_def ehandle_def commit_tx_def)
      next
        case Lost_request
        with False show thesis by simp
      next
        case Lost_reply
        with False True b beg assms(1,3) Inr show thesis
          by (intro lost_reply [of x w1]) (auto simp: WithinTransaction_def ehandle_def commit_tx_def)
      qed
    qed
  qed
qed

end
