(* ===== verification/Refinement.thy ===== *)
theory Refinement
  imports Pg_World
begin

text \<open>
  When a program on a faulty connection implements a statement on the tables. A success is the
  statement's success; an error that carries a meaning (a sentinel of the code, a unique violation)
  is the statement's error and never comes from a fault; without faults the program and the statement
  always agree. The rules follow the shape of the repositories' code; a transaction around an
  implementation makes it all or nothing.
\<close>

subsection \<open>Errors with a meaning\<close>

definition meaningful :: "goerr \<Rightarrow> bool" where
  "meaningful e \<longleftrightarrow> (\<exists>s. errors_is s e) \<or> as_pg_error e = Some ''23505''"

definition err_rel :: "goerr \<Rightarrow> goerr \<Rightarrow> bool" where
  "err_rel e e' \<longleftrightarrow> (\<forall>s. errors_is s e = errors_is s e')
     \<and> (as_pg_error e = Some ''23505'' \<longleftrightarrow> as_pg_error e' = Some ''23505'')"

lemma as_pg_error_simps [simp]:
  "as_pg_error (PgErr c) = Some c" "as_pg_error (WrapErr p e q) = as_pg_error e"
  "as_pg_error (Sentinel s) = None" "as_pg_error (TextErr p e) = None" "as_pg_error (ExtErr m) = None"
  by (simp_all add: as_pg_error_def)

lemma err_rel_refl [simp]: "err_rel e e"
  by (simp add: err_rel_def)

lemma err_rel_wrap [simp]: "err_rel (WrapErr p e q) e' = err_rel e e'" "err_rel e (WrapErr p e' q) = err_rel e e'"
  by (simp_all add: err_rel_def)

lemma meaningful_simps [simp]:
  "meaningful (WrapErr p e q) = meaningful e" "meaningful (Sentinel s)" "\<not> meaningful (TextErr p e)"
  "\<not> meaningful (ExtErr m)" "meaningful (PgErr c) \<longleftrightarrow> c = ''23505''" "\<not> meaningful conn_error"
  by (auto simp: meaningful_def conn_error_def)

lemma err_rel_meaningful: "err_rel e e' \<Longrightarrow> meaningful e = meaningful e'"
  by (simp add: meaningful_def err_rel_def)

lemma err_rel_trans: "err_rel e e' \<Longrightarrow> err_rel e' e'' \<Longrightarrow> err_rel e e''"
  by (simp add: err_rel_def)

subsection \<open>Implementations\<close>

definition outcome_ok ::
    "'b stmt \<Rightarrow> 'a world_scheme \<Rightarrow> (goerr + 'b) \<Rightarrow> 'a world_scheme \<Rightarrow> bool" where
  "outcome_ok a w r w' \<longleftrightarrow>
     (case r of
        Inr x \<Rightarrow> \<not> aborted w' \<and> a (w_db w) = (Inr x, w_db w')
      | Inl e \<Rightarrow> meaningful e \<or> w_faults w = [] \<longrightarrow>
          (\<exists>e'. a (w_db w) = (Inl e', w_db w') \<and> err_rel e e'))"

definition ready :: "'a world_scheme \<Rightarrow> 'a world_scheme \<Rightarrow> bool" where
  "ready W w \<longleftrightarrow> same_env W w \<and> \<not> aborted w \<and> db_wf (w_db w)"

lemma ready_frame: "ready W w \<Longrightarrow> frame w w' \<Longrightarrow> \<not> aborted w' \<Longrightarrow> ready W w'"
  unfolding ready_def frame_def by (auto intro: same_env_trans)

definition implements :: "'a world_scheme \<Rightarrow> ('a world_scheme, 'b) prog \<Rightarrow> 'b stmt \<Rightarrow> bool" where
  "implements W m a \<longleftrightarrow> keeps frame m \<and>
     (\<forall>w r w'. ready W w \<longrightarrow> m w = (r, w') \<longrightarrow> outcome_ok a w r w')"

lemma implementsI:
  assumes "keeps frame m"
    and "\<And>w r w'. ready W w \<Longrightarrow> m w = (r, w') \<Longrightarrow> outcome_ok a w r w'"
  shows "implements W m a"
  using assms by (simp add: implements_def)

lemma implements_frame: "implements W m a \<Longrightarrow> keeps frame m"
  by (simp add: implements_def)

lemma implementsD:
  "implements W m a \<Longrightarrow> ready W w \<Longrightarrow> m w = (r, w') \<Longrightarrow> outcome_ok a w r w'"
  by (simp add: implements_def)

lemma implements_okD:
  assumes "implements W m a" and "ready W w" and "m w = (Inr x, w')"
  shows "\<not> aborted w'" and "a (w_db w) = (Inr x, w_db w')"
  using implementsD [OF assms] by (simp_all add: outcome_ok_def)

lemma implements_errD:
  assumes "implements W m a" and "ready W w" and "m w = (Inl e, w')"
    and "meaningful e \<or> w_faults w = []"
  obtains e' where "a (w_db w) = (Inl e', w_db w')" and "err_rel e e'"
  using implementsD [OF assms(1-3)] assms(4) by (auto simp: outcome_ok_def)

text \<open>Two statements that agree up to related errors are implemented by the same programs.\<close>

definition stmt_eq :: "'b stmt \<Rightarrow> 'b stmt \<Rightarrow> bool" where
  "stmt_eq a b \<longleftrightarrow> (\<forall>d. db_wf d \<longrightarrow> (case (a d, b d) of
     ((Inr x, d1), (Inr y, d2)) \<Rightarrow> x = y \<and> d1 = d2
   | ((Inl e, d1), (Inl e', d2)) \<Rightarrow> err_rel e e' \<and> d1 = d2
   | _ \<Rightarrow> False))"

lemma stmt_eqI:
  assumes "\<And>d. db_wf d \<Longrightarrow> (\<exists>x d'. a d = (Inr x, d') \<and> b d = (Inr x, d'))
     \<or> (\<exists>e e' d'. a d = (Inl e, d') \<and> b d = (Inl e', d') \<and> err_rel e e')"
  shows "stmt_eq a b"
  unfolding stmt_eq_def
proof (intro allI impI)
  fix d
  assume "db_wf d"
  then show "case (a d, b d) of ((Inr x, d1), (Inr y, d2)) \<Rightarrow> x = y \<and> d1 = d2
   | ((Inl e, d1), (Inl e', d2)) \<Rightarrow> err_rel e e' \<and> d1 = d2 | _ \<Rightarrow> False"
    using assms [of d] by auto
qed

lemma outcome_ok_eq:
  assumes "stmt_eq a b" and "db_wf (w_db w)" and "outcome_ok a w r w'"
  shows "outcome_ok b w r w'"
proof -
  have "case (a (w_db w), b (w_db w)) of ((Inr x, d1), (Inr y, d2)) \<Rightarrow> x = y \<and> d1 = d2
      | ((Inl e, d1), (Inl e', d2)) \<Rightarrow> err_rel e e' \<and> d1 = d2 | _ \<Rightarrow> False"
    using assms(1,2) by (simp add: stmt_eq_def)
  moreover obtain rb db where b: "b (w_db w) = (rb, db)" by (cases "b (w_db w)")
  ultimately show ?thesis
    using assms(3) by (cases r; cases rb) (auto simp: outcome_ok_def split: sum.splits intro: err_rel_trans)
qed

lemma implements_eq: "implements W m a \<Longrightarrow> stmt_eq a b \<Longrightarrow> implements W m b"
  by (auto simp: implements_def ready_def intro: outcome_ok_eq)

lemma implements_run_with:
  assumes "stmt_ok f" and "\<not> meaningful (wrap conn_error)"
  shows "implements W (run_with wrap f) f"
  using assms
  by (intro implementsI frame_run_with)
     (auto simp: run_with_def outcome_ok_def ready_def split: fault.splits prod.splits sum.splits if_splits)

lemma implements_run_stmt: "stmt_ok f \<Longrightarrow> implements W (run_stmt f) f"
  unfolding run_stmt_def by (rule implements_run_with) auto

lemma implements_eret: "implements W (eret x) (eret x)"
  by (rule implementsI) (auto simp: outcome_ok_def ready_def intro: frames.keeps_rules)

lemma implements_efail: "implements W (efail e) (efail e)"
  by (rule implementsI) (auto simp: outcome_ok_def ready_def intro: frames.keeps_rules)

lemma implements_ehandle_fail:
  assumes m: "implements W m a"
    and rel: "\<And>e e'. err_rel e e' \<Longrightarrow> err_rel (g e) (g' e')"
    and mean: "\<And>e. meaningful (g e) \<Longrightarrow> meaningful e"
    and f: "\<And>x. implements W (f x) (b x)"
  shows "implements W (ehandle m (\<lambda>e. efail (g e)) f) (ehandle a (\<lambda>e. efail (g' e)) b)"
proof (rule implementsI)
  show "keeps frame (ehandle m (\<lambda>e. efail (g e)) f)"
    by (intro frames.keeps_rules implements_frame [OF m] implements_frame [OF f])
next
  fix w r w'
  assume env: "ready W w" and r: "ehandle m (\<lambda>e. efail (g e)) f w = (r, w')"
  from r show "outcome_ok (ehandle a (\<lambda>e. efail (g' e)) b) w r w'"
  proof (cases rule: ehandle_cases)
    case (fail e w1)
    then have r: "r = Inl (g e)" "w' = w1" by simp_all
    show ?thesis unfolding outcome_ok_def r sum.case
    proof
      assume "meaningful (g e) \<or> w_faults w = []"
      then have "meaningful e \<or> w_faults w = []" using mean by auto
      then obtain e' where "a (w_db w) = (Inl e', w_db w1)" and "err_rel e e'"
        by (rule implements_errD [OF m env fail(1)])
      then show "\<exists>e'. ehandle a (\<lambda>e. efail (g' e)) b (w_db w) = (Inl e', w_db w1) \<and> err_rel (g e) e'"
        using rel by (auto simp: ehandle_def)
    qed
  next
    case (ok x w1)
    note a = implements_okD [OF m env ok(1)]
    have fr: "frame w w1" by (rule keepsD [OF implements_frame [OF m] ok(1)])
    have "ready W w1" by (rule ready_frame [OF env fr a(1)])
    then have "outcome_ok (b x) w1 r w'" by (rule implementsD [OF f _ ok(2)])
    moreover have "ehandle a (\<lambda>e. efail (g' e)) b (w_db w) = b x (w_db w1)" using a(2) by simp
    moreover have "w_faults w = [] \<longrightarrow> w_faults w1 = []" using fr by (simp add: frame_def)
    ultimately show ?thesis by (cases r) (auto simp: outcome_ok_def)
  qed
qed

lemma implements_op:
  assumes "implements W m a"
    and "\<And>e e'. err_rel e e' \<Longrightarrow> err_rel (g e) (g e')"
    and "\<And>e. meaningful (g e) \<Longrightarrow> meaningful e"
    and "\<And>x. implements W (f x) (b x)"
    and "stmt_eq (ehandle a (\<lambda>e. efail (g e)) b) c"
  shows "implements W (ehandle m (\<lambda>e. efail (g e)) f) c"
proof (rule implements_eq [OF _ assms(5)])
  show "implements W (ehandle m (\<lambda>e. efail (g e)) f) (ehandle a (\<lambda>e. efail (g e)) b)"
    by (rule implements_ehandle_fail [where g = g and g' = g]) (fact assms)+
qed

lemma implements_ebind:
  assumes "implements W m a" and "\<And>x. implements W (f x) (b x)"
  shows "implements W (ebind m f) (ebind a b)"
  unfolding ebind_def
  by (rule implements_ehandle_fail [OF assms(1), where g = "\<lambda>e. e" and g' = "\<lambda>e. e"])
     (auto intro: assms(2))

lemma implements_query_row: "stmt_ok f \<Longrightarrow>
   implements W (query_row f)
     (ebind f (\<lambda>r. case r of None \<Rightarrow> efail (Sentinel ErrNoRows) | Some x \<Rightarrow> eret x))"
  unfolding query_row_def
  by (intro implements_ebind implements_run_stmt)
     (auto split: option.split intro!: implements_eret implements_efail)

lemma to_sql_step: "to_sql msg w = (Inr x, w') \<Longrightarrow> w' = pop_fault w"
  by (auto simp: to_sql_def split: fault.splits)

lemma implements_to_sql:
  assumes m: "implements W m a"
  shows "implements W (ebind (to_sql msg) (\<lambda>_. m)) a"
proof (rule implementsI)
  show "keeps frame (ebind (to_sql msg) (\<lambda>_. m))"
    by (intro frames.keeps_rules frame_to_sql implements_frame [OF m])
next
  fix w r w'
  assume env: "ready W w" and r: "ebind (to_sql msg) (\<lambda>_. m) w = (r, w')"
  from r show "outcome_ok a w r w'"
  proof (cases rule: ebind_cases)
    case (fail e)
    then show ?thesis by (auto simp: outcome_ok_def to_sql_def split: fault.splits)
  next
    case (ok x w1)
    then have w1: "w1 = pop_fault w" by (simp add: to_sql_step)
    then have "ready W w1" using env by (simp add: ready_def same_env_def)
    from implementsD [OF m this ok(2)] w1
    show ?thesis by (auto simp: outcome_ok_def split: sum.splits)
  qed
qed

lemma implements_if:
  "(b \<Longrightarrow> implements W m a) \<Longrightarrow> (\<not> b \<Longrightarrow> implements W n c) \<Longrightarrow>
   implements W (if b then m else n) (if b then a else c)"
  by simp

lemma implements_case_option:
  "implements W m a \<Longrightarrow> (\<And>x. implements W (f x) (b x)) \<Longrightarrow>
   implements W (case v of None \<Rightarrow> m | Some x \<Rightarrow> f x) (case v of None \<Rightarrow> a | Some x \<Rightarrow> b x)"
  by (cases v) auto

lemma implements_efor:
  assumes "\<And>x. implements W (f x) (b x)"
  shows "implements W (efor f xs) (efor b xs)"
proof (induction xs)
  case (Cons x xs)
  then show ?case
    unfolding efor.simps by (intro implements_ebind implements_eret assms)
qed (simp only: efor.simps implements_eret)

subsection \<open>Transactions are all or nothing\<close>

text \<open>
  \<open>tx_outcome a w r w'\<close>: what a transaction around an implementation of \<open>a\<close> may do. It returns
  the value of \<open>a\<close> with its tables; or an error with the tables as before; only when the reply of
  the commit is lost does it report an error although \<open>a\<close> was done in full. An error with a
  meaning, and any error in the run without faults, is the error of \<open>a\<close>.
\<close>

definition tx_outcome :: "'b stmt \<Rightarrow> 'a world_scheme \<Rightarrow> (goerr + 'b) \<Rightarrow> 'a world_scheme \<Rightarrow> bool" where
  "tx_outcome a w r w' \<longleftrightarrow> frame w w' \<and> \<not> in_tx w' \<and>
     (case r of
        Inr x \<Rightarrow> a (w_db w) = (Inr x, w_db w')
      | Inl e \<Rightarrow>
          (same_tables (w_db w) (w_db w') \<or> (\<exists>x. a (w_db w) = (Inr x, w_db w') \<and> \<not> meaningful e))
          \<and> (meaningful e \<or> w_faults w = [] \<longrightarrow>
               same_tables (w_db w) (w_db w') \<and> (\<exists>e'. fst (a (w_db w)) = Inl e' \<and> err_rel e e')))"

lemma within_frame:
  assumes "\<not> in_tx w" and "keeps frame fn" and "WithinTransaction fn w = (r, w')"
  shows "frame w w' \<and> \<not> in_tx w'"
proof -
  have fr: "frame (begun w) w1" if "fn (begun w) = (r1, w1)" for r1 w1
    by (rule keepsD [OF assms(2) that])
  have top: "w_tx w = None" "\<not> aborted w"
    using assms(1) by (cases "w_tx w"; simp add: in_tx_def aborted_def)+
  have rb: "frame w (w1\<lparr>w_db := rollback_to (w_db w) (w_db w1), w_tx := None, w_faults := fs\<rparr>)"
    if "fn (begun w) = (r1, w1)" and "w_faults w1 = [] \<longrightarrow> fs = []" for r1 w1 fs
  proof -
    note f = fr [OF that(1)]
    have "db_wf (rollback_to (w_db w) (w_db w1))" if "db_wf (w_db w)"
    proof (rule rollback_wf [OF that])
      have "db_wf (w_db w1)" using f that by (simp add: frame_def begun_def)
      then show "db_link_seq (w_db w1) < 2 ^ 63" "db_outbox_seq (w_db w1) < 2 ^ 63"
        by (simp_all add: db_wf_def links_wf_def outbox_wf_def)
    qed (use f in \<open>simp_all add: frame_def begun_def\<close>)
    with f top that(2) show ?thesis
      by (auto simp: frame_def begun_def same_env_def rollback_to_def)
  qed
  from assms show ?thesis
  proof (cases rule: within_cases)
    case no_begin
    with top show ?thesis by (simp add: frame_def same_env_def in_tx_def)
  next
    case (failed e w1)
    with rb [OF failed(2), of "w_faults w1"] show ?thesis
      by (simp add: in_tx_def)
  next
    case (no_commit x w1 fs e)
    with rb [OF no_commit(2), of fs] show ?thesis by (simp add: in_tx_def)
  next
    case (lost_reply x w1)
    with fr [OF lost_reply(2)] top show ?thesis by (simp add: frame_def same_env_def begun_def)
  next
    case (committed x w1)
    with fr [OF committed(2)] top show ?thesis by (simp add: frame_def same_env_def begun_def)
  qed
qed

theorem within_outcome:
  assumes m: "implements w fn a" and wf: "db_wf (w_db w)" and top: "\<not> in_tx w" and r: "WithinTransaction fn w = (r, w')"
  shows "tx_outcome a w r w'"
proof -
  have fr: "frame w w' \<and> \<not> in_tx w'"
    by (rule within_frame [OF top implements_frame [OF m] r])
  have beg: "ready w (begun w)" "w_db (begun w) = w_db w"
    using wf by (simp_all add: ready_def begun_def same_env_def)
  note okD = implements_okD [OF m beg(1), unfolded beg(2)]
  note errD = implements_errD [OF m beg(1), unfolded beg(2)]
  have begf: "w_faults w = [] \<longrightarrow> w_faults (begun w) = []" by (simp add: begun_def)
  have frb: "frame (begun w) w1" if "fn (begun w) = (r1, w1)" for r1 w1
    by (rule keepsD [OF implements_frame [OF m] that])
  from top implements_frame [OF m] r show ?thesis
  proof (cases rule: within_cases)
    case no_begin
    with fr show ?thesis by (auto simp: tx_outcome_def)
  next
    case (failed e w1)
    have "\<exists>e'. fst (a (w_db w)) = Inl e' \<and> err_rel e e'" if "meaningful e \<or> w_faults w = []"
      using errD [OF failed(2)] that begf by (metis fst_conv)
    with failed fr show ?thesis by (auto simp: tx_outcome_def)
  next
    case (no_commit x w1 fs e)
    have "w_faults w \<noteq> []"
      using no_commit(4) okD(1) [OF no_commit(2)] frb [OF no_commit(2)] begf
      by (auto simp: frame_def next_fault_def)
    with no_commit fr show ?thesis by (auto simp: tx_outcome_def)
  next
    case (lost_reply x w1)
    have "w_faults w \<noteq> []"
      using lost_reply(4) frb [OF lost_reply(2)] begf by (auto simp: frame_def next_fault_def)
    with lost_reply fr okD(2) [OF lost_reply(2)] show ?thesis by (auto simp: tx_outcome_def)
  next
    case (committed x w1)
    with fr okD(2) [OF committed(2)] show ?thesis by (auto simp: tx_outcome_def)
  qed
qed

end
