(* ===== verification/Repo_Contracts.thy ===== *)
theory Repo_Contracts
  imports Refinement
begin

text \<open>
  What the repository interfaces of \<open>internal/scrapper/domain\<close> promise, as statements on the
  tables, and the locales that state the promise of each interface. The two implementations
  (\<open>repository/sql\<close> and \<open>repository/sqlbuilder\<close>) interpret them in \<open>Repo_Sql\<close> and
  \<open>Repo_Builder\<close>; the subscription service is verified once against them.
\<close>

subsection \<open>Every statement respects the frame\<close>

lemma delete_subs_seqs: "db_link_seq (delete_subs P d) = db_link_seq d"
  "db_outbox_seq (delete_subs P d) = db_outbox_seq d"
  by simp_all

lemma stmt_ok_chats: "stmt_ok (insert_chat c)" "stmt_ok (select_chat c)" "stmt_ok (delete_chat c)"
  by (simp_all add: stmt_ok_def sound_stmts insert_chat_def select_chat_def delete_chat_def)

lemma stmt_ok_links:
  "stmt_ok (upsert_link u t)" "stmt_ok (select_link_id i)" "stmt_ok (select_link_url u)"
  "stmt_ok (delete_link i)" "stmt_ok (select_links_by key lim off)"
  by (auto simp: stmt_ok_def sound_stmts upsert_link_def select_link_id_def select_link_url_def
      delete_link_def select_links_by_def Let_def split: option.split)

lemma stmt_ok_subs:
  "stmt_ok (insert_sub c l)" "stmt_ok (insert_tag b c l t)" "stmt_ok (delete_tag c l t)"
  "stmt_ok (select_subs_by_chat c)" "stmt_ok (select_subs_by_link l)" "stmt_ok (select_sub_exists c l)"
  "stmt_ok (delete_sub c l)" "stmt_ok (select_tags c l)"
  by (simp_all add: stmt_ok_def sound_stmts insert_sub_def insert_tag_def delete_tag_def
      select_subs_by_chat_def select_subs_by_link_def select_sub_exists_def delete_sub_def select_tags_def)

lemma stmt_ok_sessions: "stmt_ok (upsert_session keep c st u)" "stmt_ok (delete_session c)"
  by (auto simp: stmt_ok_def sound_stmts upsert_session_def delete_session_def Let_def split: option.split)

lemma stmt_ok_outbox:
  "stmt_ok (insert_outbox now topic p)" "stmt_ok (select_outbox st topic lim)"
  "stmt_ok (update_outbox_status now i st)" "stmt_ok (increment_outbox now i)"
  by (auto simp: stmt_ok_def sound_stmts insert_outbox_def select_outbox_def update_outbox_status_def
      increment_outbox_def Let_def split: option.split)

lemma batch_seqs:
  assumes "\<And>x. stmt_ok (f x)"
  shows "db_link_seq d \<le> db_link_seq (snd (batch_stmt f xs d)) \<and>
         db_outbox_seq d \<le> db_outbox_seq (snd (batch_stmt f xs d))"
proof (induction xs arbitrary: d)
  case (Cons x xs)
  obtain r d' where f: "f x d = (r, d')" by (cases "f x d")
  then have "db_link_seq d \<le> db_link_seq d'" "db_outbox_seq d \<le> db_outbox_seq d'"
    using stmt_ok_seq [OF assms [of x], of d] by simp_all
  with Cons [of d'] f show ?case by (cases r) auto
qed simp

lemma stmt_ok_batch:
  assumes "\<And>x. stmt_ok (f x)"
  shows "stmt_ok (batch_as_stmt f xs wrap)"
proof -
  have snd: "sound_stmt (f x)" for x using assms by (simp add: stmt_ok_def)
  have seq: "db_link_seq d \<le> db_link_seq d'" "db_outbox_seq d \<le> db_outbox_seq d'"
    if "batch_stmt f xs d = (r, d')" for d r d'
    using batch_seqs [of f, OF assms, where d = d and xs = xs] that by simp_all
  have wf: "db_wf d'" if "batch_stmt f xs d = (r, d')" and "db_wf d" for d r d'
    using batch_stmt_wf [of f, OF snd that(2), where xs = xs] that(1) by simp
  have rb: "db_wf (rollback_to d d')" if "batch_stmt f xs d = (r, d')" and "db_wf d" for d r d'
    using wf [OF that] seq [OF that(1)] that(2)
    by (intro rollback_wf) (simp_all add: db_wf_def links_wf_def outbox_wf_def)
  have "sound_stmt (batch_as_stmt f xs wrap)"
    using wf rb by (intro sound_stmtI) (auto simp: batch_as_stmt_def split: prod.splits option.splits)
  then show ?thesis
    using seq by (auto simp: stmt_ok_def batch_as_stmt_def rollback_to_def split: prod.splits option.splits)
qed

lemmas stmt_oks = stmt_ok_chats stmt_ok_links stmt_ok_subs stmt_ok_sessions stmt_ok_outbox stmt_ok_batch

subsection \<open>The promised effects\<close>

definition chat_create :: "i64 \<Rightarrow> unit stmt" where
  "chat_create c d =
     (if c \<in> set (db_chats d) then (Inl (Sentinel S_ErrChatAlreadyRegistered), d)
      else (Inr (), d\<lparr>db_chats := db_chats d @ [c]\<rparr>))"

definition chat_get :: "i64 \<Rightarrow> i64 stmt" where
  "chat_get c d =
     (if c \<in> set (db_chats d) then Inr c else Inl (Sentinel S_ErrChatNotRegistered), d)"

definition chat_delete :: "i64 \<Rightarrow> unit stmt" where
  "chat_delete c d =
     (if c \<in> set (db_chats d) then (Inr (), snd (delete_chat c d))
      else (Inl (Sentinel S_ErrChatNotRegistered), d))"

definition link_save :: "(instant \<Rightarrow> instant) \<Rightarrow> link \<Rightarrow> link stmt" where
  "link_save stamp k d =
     (case upsert_link (link_URL k) (stamp (link_LastUpdated k)) d of
        (Inl e, d') \<Rightarrow> (Inl e, d')
      | (Inr r, d') \<Rightarrow> (Inr (the r), d'))"

definition link_get :: "i64 \<Rightarrow> link stmt" where
  "link_get i d =
     (case find (\<lambda>k. link_ID k = i) (db_links d) of
        None \<Rightarrow> Inl (Sentinel S_ErrLinkNotFound) | Some k \<Rightarrow> Inr k, d)"

definition link_by_url :: "string \<Rightarrow> link stmt" where
  "link_by_url u d =
     (if \<not> pg_text u then Inl bad_text
      else case find (\<lambda>k. link_URL k = u) (db_links d) of
        None \<Rightarrow> Inl (Sentinel S_ErrLinkNotFound) | Some k \<Rightarrow> Inr k, d)"

definition link_delete :: "i64 \<Rightarrow> unit stmt" where
  "link_delete i d =
     (if i \<in> link_ID ` set (db_links d) then (Inr (), snd (delete_link i d))
      else (Inl (Sentinel S_ErrLinkNotFound), d))"

definition insert_tags :: "bool \<Rightarrow> i64 \<Rightarrow> i64 \<Rightarrow> string list \<Rightarrow> unit stmt" where
  "insert_tags do_nothing c l ts =
     (if ts = [] then eret () else batch_as_stmt (insert_tag do_nothing c l) ts (\<lambda>t e. e))"

definition delete_tags :: "i64 \<Rightarrow> i64 \<Rightarrow> string list \<Rightarrow> unit stmt" where
  "delete_tags c l ts = (if ts = [] then eret () else batch_as_stmt (delete_tag c l) ts (\<lambda>t e. e))"

definition sub_save :: "subscription \<Rightarrow> unit stmt" where
  "sub_save s =
     ehandle (insert_sub (sub_ChatID s) (sub_LinkID s))
       (\<lambda>e. efail (if e = unique_violation then Sentinel S_ErrAlreadySubscribed else e))
       (\<lambda>_. insert_tags False (sub_ChatID s) (sub_LinkID s) (sub_Tags s))"

definition mk_sub :: "pgdb \<Rightarrow> i64 \<Rightarrow> i64 \<Rightarrow> subscription" where
  "mk_sub d c l = \<lparr>sub_ChatID = c, sub_LinkID = l, sub_Tags = tags_of d c l\<rparr>"

definition subs_by_chat :: "(i64 list \<Rightarrow> i64 list) \<Rightarrow> i64 \<Rightarrow> subscription list stmt" where
  "subs_by_chat order c d =
     (Inr (map (mk_sub d c)
        (order (map snd (sort_key (\<lambda>s. sint (snd s)) (filter (\<lambda>s. fst s = c) (db_subs d)))))), d)"

definition subs_by_link :: "(i64 list \<Rightarrow> i64 list) \<Rightarrow> i64 \<Rightarrow> subscription list stmt" where
  "subs_by_link order l d =
     (Inr (map (\<lambda>c. mk_sub d c l)
        (order (map fst (sort_key (\<lambda>s. sint (fst s)) (filter (\<lambda>s. snd s = l) (db_subs d)))))), d)"

definition sub_exists :: "i64 \<Rightarrow> i64 \<Rightarrow> bool stmt" where
  "sub_exists c l d = (Inr ((c, l) \<in> set (db_subs d)), d)"

text \<open>\<open>Delete\<close> returns the keys of the deleted row only: its tags are not read.\<close>

definition sub_delete :: "i64 \<Rightarrow> i64 \<Rightarrow> subscription stmt" where
  "sub_delete c l d =
     (if (c, l) \<in> set (db_subs d)
      then (Inr \<lparr>sub_ChatID = c, sub_LinkID = l, sub_Tags = []\<rparr>, delete_subs (\<lambda>s. s = (c, l)) d)
      else (Inl (Sentinel S_ErrNotSubscribed), d))"

subsection \<open>The interfaces\<close>

locale chat_store =
  fixes C :: "'a world_scheme chat_repo"
  assumes Create: "implements W (cr_Create C c) (chat_create c)"
    and GetByID: "implements W (cr_GetByID C c) (chat_get c)"
    and Delete: "implements W (cr_Delete C c) (chat_delete c)"

text \<open>\<open>page_key\<close>: the column that \<open>GetBatch\<close> orders its pages by.\<close>

locale link_store =
  fixes L :: "'a world_scheme link_repo"
    and page_key :: "link \<Rightarrow> int"
  assumes Save: "implements W (lr_Save L k) (link_save (w_stamp W) k)"
    and GetByID: "implements W (lr_GetByID L i) (link_get i)"
    and GetByURL: "implements W (lr_GetByURL L u) (link_by_url u)"
    and GetByURL_not_found: "lr_GetByURL L u w = (Inl e, w') \<Longrightarrow> errors_is S_ErrLinkNotFound e \<Longrightarrow>
           aborted w' = aborted w"
    and Delete: "implements W (lr_Delete L i) (link_delete i)"
    and GetBatch: "0 < lim \<Longrightarrow> implements W (lr_GetBatch L lim off) (select_links_by page_key (Some lim) off)"

text \<open>\<open>order\<close>: the order in which the subscriptions of a chat, or of a link, are returned.\<close>

locale sub_store =
  fixes S :: "'a world_scheme sub_repo"
    and order :: "'a world_scheme \<Rightarrow> i64 list \<Rightarrow> i64 list"
  assumes order: "map_order_ok W \<Longrightarrow> mset (order W ks) = mset ks"
    and Save: "implements W (sr_Save S s) (sub_save s)"
    and Save_aborted: "aborted w \<Longrightarrow> sr_Save S s w = (r, w') \<Longrightarrow> \<exists>e. r = Inl e \<and> \<not> meaningful e"
    and GetByChatID: "map_order_ok W \<Longrightarrow> implements W (sr_GetByChatID S c) (subs_by_chat (order W) c)"
    and GetByLinkID: "map_order_ok W \<Longrightarrow> implements W (sr_GetByLinkID S l) (subs_by_link (order W) l)"
    and Exists: "implements W (sr_Exists S c l) (sub_exists c l)"
    and Exists_error: "sr_Exists S c l w = (Inl e, w') \<Longrightarrow> \<not> meaningful e \<and> w_db w' = w_db w"
    and Delete: "implements W (sr_Delete S c l) (sub_delete c l)"
    and AddTags: "implements W (sr_AddTags S l c ts) (insert_tags True c l ts)"
    and GetTags: "implements W (sr_GetTags S l c) (select_tags c l)"
    and DeleteTags: "implements W (sr_DeleteTags S l c ts) (delete_tags c l ts)"

locale outbox_store =
  fixes O' :: "'a world_scheme outbox_repo"
  assumes Add: "implements W (or_Add O' topic p)
        (ebind (insert_outbox (w_now W div 1000 * 1000) topic p) (\<lambda>r. eret (the r)))"
    and GetPending: "0 < lim \<Longrightarrow> implements W (or_GetPending O' topic lim) (select_outbox PENDING topic (Some lim))"
    and GetFailed: "0 < lim \<Longrightarrow> implements W (or_GetFailed O' topic lim) (select_outbox FAILED topic (Some lim))"
    and UpdateStatus: "implements W (or_UpdateStatus O' i st) (update_outbox_status (w_now W div 1000 * 1000) i st)"
    and IncrementRetries: "implements W (or_IncrementRetries O' i)
        (ebind (increment_outbox (w_now W div 1000 * 1000) i)
           (\<lambda>r. case r of None \<Rightarrow> efail (Sentinel ErrNoRows) | Some n \<Rightarrow> eret n))"

subsection \<open>Grouping the joined rows\<close>

text \<open>
  The loop over the rows of the join: \<open>subsMap\<close> as the association list of its keys in order of
  insertion; a row of a new key adds a subscription, a row with a tag appends it.
\<close>

definition group_step ::
    "(i64 \<Rightarrow> i64 \<Rightarrow> i64) \<Rightarrow> (i64 \<times> subscription) list \<Rightarrow> i64 \<times> i64 \<times> string option \<Rightarrow> (i64 \<times> subscription) list" where
  "group_step keyFn subsMap row =
     (case row of (chatID, linkID, tag) \<Rightarrow>
        let key = keyFn chatID linkID;
            subsMap = (if map_of subsMap key = None
                       then subsMap @ [(key, \<lparr>sub_ChatID = chatID, sub_LinkID = linkID, sub_Tags = []\<rparr>)]
                       else subsMap) in
        case tag of
          None \<Rightarrow> subsMap
        | Some t \<Rightarrow> map (\<lambda>(k, s). (k, if k = key then s\<lparr>sub_Tags := sub_Tags s @ [t]\<rparr> else s)) subsMap)"

definition group_rows ::
    "(i64 \<Rightarrow> i64 \<Rightarrow> i64) \<Rightarrow> (i64 \<times> i64 \<times> string option) list \<Rightarrow> (i64 \<times> subscription) list" where
  "group_rows keyFn rows = foldl (group_step keyFn) [] rows"

lemma map_other_keys:
  "k \<notin> fst ` set m \<Longrightarrow> map (\<lambda>(k', s). (k', if k' = k then f s else s)) m = m"
  by (induction m) auto

lemma group_tags:
  "k \<notin> fst ` set m \<Longrightarrow> keyFn c l = k \<Longrightarrow>
   foldl (group_step keyFn) (m @ [(k, \<lparr>sub_ChatID = c, sub_LinkID = l, sub_Tags = ts0\<rparr>)])
     (map (\<lambda>t. (c, l, Some t)) ts)
   = m @ [(k, \<lparr>sub_ChatID = c, sub_LinkID = l, sub_Tags = ts0 @ ts\<rparr>)]"
proof (induction ts arbitrary: ts0)
  case (Cons t ts)
  have "group_step keyFn (m @ [(k, \<lparr>sub_ChatID = c, sub_LinkID = l, sub_Tags = ts0\<rparr>)]) (c, l, Some t)
      = m @ [(k, \<lparr>sub_ChatID = c, sub_LinkID = l, sub_Tags = ts0 @ [t]\<rparr>)]"
    using Cons.prems by (auto simp: group_step_def Let_def map_other_keys map_of_eq_None_iff)
  with Cons show ?case by simp
qed simp

lemma group_join_rows:
  assumes "keyFn (fst s) (snd s) \<notin> fst ` set m"
  shows "foldl (group_step keyFn) m (join_rows d s)
       = m @ [(keyFn (fst s) (snd s), mk_sub d (fst s) (snd s))]"
proof (cases "tags_of d (fst s) (snd s)")
  case Nil
  with assms show ?thesis
    by (simp add: join_rows_def group_step_def mk_sub_def map_of_eq_None_iff)
next
  case (Cons t ts)
  let ?k = "keyFn (fst s) (snd s)"
  have none: "map_of m ?k = None" using assms by (simp add: map_of_eq_None_iff)
  have "group_step keyFn m (fst s, snd s, Some t)
      = m @ [(?k, \<lparr>sub_ChatID = fst s, sub_LinkID = snd s, sub_Tags = [t]\<rparr>)]"
    using none assms by (simp add: group_step_def Let_def map_other_keys)
  with Cons group_tags [of ?k m keyFn "fst s" "snd s" "[t]" ts, OF assms refl] show ?thesis
    by (simp add: join_rows_def mk_sub_def)
qed

lemma group_rows_join:
  assumes "distinct (map (\<lambda>s. keyFn (fst s) (snd s)) ss)"
  shows "group_rows keyFn (concat (map (join_rows d) ss))
       = map (\<lambda>s. (keyFn (fst s) (snd s), mk_sub d (fst s) (snd s))) ss"
proof -
  have "foldl (group_step keyFn) m (concat (map (join_rows d) ss))
      = m @ map (\<lambda>s. (keyFn (fst s) (snd s), mk_sub d (fst s) (snd s))) ss"
    if "distinct (map fst m @ map (\<lambda>s. keyFn (fst s) (snd s)) ss)" for m
    using that
  proof (induction ss arbitrary: m)
    case (Cons s ss)
    then show ?case by (simp add: group_join_rows)
  qed simp
  from this [of "[]"] assms show ?thesis by (simp add: group_rows_def)
qed

lemma distinct_sorted_subs:
  assumes "db_wf d"
  shows "distinct (map snd (sort_key (\<lambda>s. sint (snd s)) (filter (\<lambda>s. fst s = c) (db_subs d))))"
    and "distinct (map fst (sort_key (\<lambda>s. sint (fst s)) (filter (\<lambda>s. snd s = l) (db_subs d))))"
proof -
  have "distinct (db_subs d)" using assms by (simp add: db_wf_def subs_wf_def)
  then show "distinct (map snd (sort_key (\<lambda>s. sint (snd s)) (filter (\<lambda>s. fst s = c) (db_subs d))))"
    "distinct (map fst (sort_key (\<lambda>s. sint (fst s)) (filter (\<lambda>s. snd s = l) (db_subs d))))"
    by (auto simp: distinct_map inj_on_def)
qed

text \<open>Reading the groups in any order of their keys gives each subscription of the chat, or of the
  link, once.\<close>

lemma map_of_keyed:
  "distinct (map f ss) \<Longrightarrow> s \<in> set ss \<Longrightarrow> map_of (map (\<lambda>s. (f s, g s)) ss) (f s) = Some (g s)"
  by (rule map_of_is_SomeI) (auto simp: comp_def)

lemma grouped_by_chat:
  fixes d c
  defines "ss \<equiv> sort_key (\<lambda>s. sint (snd s)) (filter (\<lambda>s. fst s = c) (db_subs d))"
  defines "m \<equiv> group_rows (\<lambda>chatID linkID. linkID) (concat (map (join_rows d) ss))"
  assumes "db_wf d"
  shows "map fst m = map snd ss" and "map snd m = map (mk_sub d c) (map snd ss)"
    and "set ks \<subseteq> set (map snd ss) \<Longrightarrow> map (\<lambda>k. the (map_of m k)) ks = map (mk_sub d c) ks"
proof -
  have dist: "distinct (map snd ss)" unfolding ss_def by (rule distinct_sorted_subs(1) [OF assms(3)])
  have fst_c: "fst s = c" if "s \<in> set ss" for s using that by (auto simp: ss_def)
  have m: "m = map (\<lambda>s. (snd s, mk_sub d (fst s) (snd s))) ss"
    unfolding m_def by (rule group_rows_join [OF dist])
  then show "map fst m = map snd ss" "map snd m = map (mk_sub d c) (map snd ss)"
    using fst_c by simp_all
  have "the (map_of m k) = mk_sub d c k" if "k \<in> set (map snd ss)" for k
  proof -
    from that obtain s where s: "s \<in> set ss" "snd s = k" by auto
    with map_of_keyed [OF dist s(1), of "\<lambda>s. mk_sub d (fst s) (snd s)"] fst_c [OF s(1)] m
    show ?thesis by simp
  qed
  then show "map (\<lambda>k. the (map_of m k)) ks = map (mk_sub d c) ks" if "set ks \<subseteq> set (map snd ss)"
    using that by (meson list.map_cong0 subsetD)
qed

lemma grouped_by_link:
  fixes d l
  defines "ss \<equiv> sort_key (\<lambda>s. sint (fst s)) (filter (\<lambda>s. snd s = l) (db_subs d))"
  defines "m \<equiv> group_rows (\<lambda>chatID linkID. chatID) (concat (map (join_rows d) ss))"
  assumes "db_wf d"
  shows "map fst m = map fst ss" and "map snd m = map (\<lambda>c. mk_sub d c l) (map fst ss)"
    and "set ks \<subseteq> set (map fst ss) \<Longrightarrow> map (\<lambda>k. the (map_of m k)) ks = map (\<lambda>c. mk_sub d c l) ks"
proof -
  have dist: "distinct (map fst ss)" unfolding ss_def by (rule distinct_sorted_subs(2) [OF assms(3)])
  have snd_l: "snd s = l" if "s \<in> set ss" for s using that by (auto simp: ss_def)
  have m: "m = map (\<lambda>s. (fst s, mk_sub d (fst s) (snd s))) ss"
    unfolding m_def by (rule group_rows_join [OF dist])
  then show "map fst m = map fst ss" "map snd m = map (\<lambda>c. mk_sub d c l) (map fst ss)"
    using snd_l by simp_all
  have "the (map_of m k) = mk_sub d k l" if "k \<in> set (map fst ss)" for k
  proof -
    from that obtain s where s: "s \<in> set ss" "fst s = k" by auto
    with map_of_keyed [OF dist s(1), of "\<lambda>s. mk_sub d (fst s) (snd s)"] snd_l [OF s(1)] m
    show ?thesis by simp
  qed
  then show "map (\<lambda>k. the (map_of m k)) ks = map (\<lambda>c. mk_sub d c l) ks" if "set ks \<subseteq> set (map fst ss)"
    using that by (meson list.map_cong0 subsetD)
qed

lemma map_order_subset: "map_order_ok W \<Longrightarrow> set (w_map_order W ks) \<subseteq> set ks"
  by (metis map_order_ok_def mset_eq_setD order_refl)

end
