(* ===== verification/Repo_Sql.thy ===== *)
theory Repo_Sql
  imports Repo_Contracts
begin

text \<open>
  The repositories written in SQL (\<open>repository/sql\<close>) and the proof that they keep the promises of
  their interfaces. \<open>GetByChatID\<close> and \<open>GetByLinkID\<close> return the subscriptions in the order in which
  Go ranges over a map, although the query orders them.
\<close>

definition is_unique_violation :: "goerr \<Rightarrow> bool" where
  "is_unique_violation e \<longleftrightarrow> as_pg_error e = Some ''23505''"

subsection \<open>Chats\<close>

definition sql_chat_Create :: "i64 \<Rightarrow> ('a world_scheme, unit) prog" where
  "sql_chat_Create c =
     ehandle (run_stmt (insert_chat c))
       (\<lambda>e. efail
          (if is_unique_violation e
           then WrapErr '''' (Sentinel S_ErrChatAlreadyRegistered) ('': id = '' @ format_i64 c)
           else WrapErr ''failed to register chat: '' e ''''))
       (\<lambda>_. eret ())"

definition sql_chat_GetByID :: "i64 \<Rightarrow> ('a world_scheme, i64) prog" where
  "sql_chat_GetByID c =
     ehandle (query_row (select_chat c))
       (\<lambda>e. efail
          (if errors_is ErrNoRows e
           then WrapErr '''' (Sentinel S_ErrChatNotRegistered) ('': chat with id '' @ format_i64 c @ '' not found'')
           else WrapErr '''' e ('': failed to retrieve chat with id '' @ format_i64 c)))
       eret"

definition sql_chat_Delete :: "i64 \<Rightarrow> ('a world_scheme, unit) prog" where
  "sql_chat_Delete c =
     ehandle (run_stmt (delete_chat c))
       (\<lambda>e. efail (WrapErr (''failed to delete chat with id '' @ format_i64 c @ '': '') e ''''))
       (\<lambda>n. if n = 0
            then efail (WrapErr '''' (Sentinel S_ErrChatNotRegistered) ('': chat with id '' @ format_i64 c @ '' not found''))
            else eret ())"

subsection \<open>Links\<close>

definition sql_link_Save :: "link \<Rightarrow> ('a world_scheme, link) prog" where
  "sql_link_Save k w =
     ehandle (query_row (upsert_link (link_URL k) (w_stamp w (link_LastUpdated k))))
       (\<lambda>e. efail (WrapErr ''failed to save link: '' e ''''))
       eret w"

definition sql_link_GetByID :: "i64 \<Rightarrow> ('a world_scheme, link) prog" where
  "sql_link_GetByID i =
     ehandle (query_row (select_link_id i))
       (\<lambda>e. efail
          (if errors_is ErrNoRows e
           then WrapErr '''' (Sentinel S_ErrLinkNotFound) ('': link with id '' @ format_i64 i @ '' not found: no rows in result set'')
           else WrapErr '''' e ('': failed to get link by id '' @ format_i64 i)))
       eret"

definition sql_link_GetByURL :: "string \<Rightarrow> ('a world_scheme, link) prog" where
  "sql_link_GetByURL u =
     ehandle (query_row (select_link_url u))
       (\<lambda>e. efail
          (if errors_is ErrNoRows e
           then WrapErr '''' (Sentinel S_ErrLinkNotFound) ('': link with url '' @ u @ '' not found: no rows in result set'')
           else WrapErr ''failed to get link by url: '' e ''''))
       eret"

definition sql_link_Delete :: "i64 \<Rightarrow> ('a world_scheme, unit) prog" where
  "sql_link_Delete i =
     ehandle (run_stmt (delete_link i))
       (\<lambda>e. efail (WrapErr ''failed to delete link: '' e ''''))
       (\<lambda>n. if n = 0
            then efail (WrapErr '''' (Sentinel S_ErrLinkNotFound) ('': link with id '' @ format_i64 i @ '' did not exist''))
            else eret ())"

definition sql_link_GetBatch :: "nat \<Rightarrow> nat \<Rightarrow> ('a world_scheme, link list) prog" where
  "sql_link_GetBatch limit offset =
     ehandle (run_stmt (select_links_by link_LastUpdated (Some limit) offset))
       (\<lambda>e. efail (WrapErr ''failed to get batch of links: '' e ''''))
       eret"

subsection \<open>Subscriptions\<close>

definition sql_sub_Save :: "subscription \<Rightarrow> ('a world_scheme, unit) prog" where
  "sql_sub_Save s =
     ehandle (run_stmt (insert_sub (sub_ChatID s) (sub_LinkID s)))
       (\<lambda>e. efail
          (if is_unique_violation e
           then WrapErr '''' (Sentinel S_ErrAlreadySubscribed)
                  ('': chat id = '' @ format_i64 (sub_ChatID s) @ '', link id = '' @ format_i64 (sub_LinkID s))
           else WrapErr ''failed to insert subscription: '' e ''''))
       (\<lambda>_. if sub_Tags s = [] then eret ()
            else send_batch (insert_tag False (sub_ChatID s) (sub_LinkID s)) (sub_Tags s)
                   (\<lambda>t e. WrapErr (''failed to insert tag '' @ t @ '': '') e ''''))"

definition ranged :: "(i64 \<times> subscription) list \<Rightarrow> ('a world_scheme, subscription list) prog" where
  "ranged subsMap w = (Inr (map (\<lambda>k. the (map_of subsMap k)) (w_map_order w (map fst subsMap))), w)"

definition sql_sub_GetByChatID :: "i64 \<Rightarrow> ('a world_scheme, subscription list) prog" where
  "sql_sub_GetByChatID c =
     ehandle (run_stmt (select_subs_by_chat c))
       (\<lambda>e. efail (WrapErr (''failed to query subscriptions for chat '' @ format_i64 c @ '': '') e ''''))
       (\<lambda>rows. ranged (group_rows (\<lambda>chatID linkID. linkID) rows))"

definition sql_sub_GetByLinkID :: "i64 \<Rightarrow> ('a world_scheme, subscription list) prog" where
  "sql_sub_GetByLinkID l =
     ehandle (run_stmt (select_subs_by_link l))
       (\<lambda>e. efail (WrapErr (''failed to query subscriptions for link '' @ format_i64 l @ '': '') e ''''))
       (\<lambda>rows. ranged (group_rows (\<lambda>chatID linkID. chatID) rows))"

definition sql_sub_Exists :: "i64 \<Rightarrow> i64 \<Rightarrow> ('a world_scheme, bool) prog" where
  "sql_sub_Exists c l =
     ehandle (query_row (select_sub_exists c l))
       (\<lambda>e. efail (WrapErr (''failed to check subscription for link '' @ format_i64 l @ '' in chat ''
                            @ format_i64 c @ '': '') e ''''))
       eret"

definition sql_sub_Delete :: "i64 \<Rightarrow> i64 \<Rightarrow> ('a world_scheme, subscription) prog" where
  "sql_sub_Delete c l =
     ehandle (run_stmt (delete_sub c l))
       (\<lambda>e. efail (WrapErr ''failed to delete subscription: '' e ''''))
       (\<lambda>n. if n = 0
            then efail (WrapErr '''' (Sentinel S_ErrNotSubscribed)
                   ('': link id = '' @ format_i64 l @ '', chat id = '' @ format_i64 c))
            else eret \<lparr>sub_ChatID = c, sub_LinkID = l, sub_Tags = []\<rparr>)"

definition sql_sub_AddTags :: "i64 \<Rightarrow> i64 \<Rightarrow> string list \<Rightarrow> ('a world_scheme, unit) prog" where
  "sql_sub_AddTags l c ts =
     (if ts = [] then eret ()
      else send_batch (insert_tag True c l) ts (\<lambda>t e. WrapErr (''failed to insert tag '' @ t @ '': '') e ''''))"

definition sql_sub_GetTags :: "i64 \<Rightarrow> i64 \<Rightarrow> ('a world_scheme, string list) prog" where
  "sql_sub_GetTags l c =
     ehandle (run_stmt (select_tags c l))
       (\<lambda>e. efail (WrapErr (''failed to query tags for link '' @ format_i64 l @ '': '') e ''''))
       eret"

definition sql_sub_DeleteTags :: "i64 \<Rightarrow> i64 \<Rightarrow> string list \<Rightarrow> ('a world_scheme, unit) prog" where
  "sql_sub_DeleteTags l c ts =
     (if ts = [] then eret ()
      else send_batch (delete_tag c l) ts (\<lambda>t e. WrapErr (''failed to delete tag '' @ t @ '': '') e ''''))"

subsection \<open>The outbox\<close>

definition sql_now :: "'a world_scheme \<Rightarrow> instant" where
  "sql_now w = w_now w div 1000 * 1000"

definition sql_outbox_Add :: "string \<Rightarrow> json \<Rightarrow> ('a world_scheme, outbox) prog" where
  "sql_outbox_Add topic payload w =
     ehandle (query_row (insert_outbox (sql_now w) topic payload))
       (\<lambda>e. efail (WrapErr ''failed to save outbox: '' e ''''))
       eret w"

fun show_status :: "outbox_status \<Rightarrow> string" where
  "show_status PENDING = ''PENDING''"
| "show_status SENT = ''SENT''"
| "show_status FAILED = ''FAILED''"

definition sql_outbox_getByStatus :: "outbox_status \<Rightarrow> string \<Rightarrow> nat \<Rightarrow> ('a world_scheme, outbox list) prog" where
  "sql_outbox_getByStatus st topic limit =
     ehandle (run_stmt (select_outbox st topic (Some limit)))
       (\<lambda>e. efail (WrapErr (''failed to get outboxes with status '' @ show_status st @ '': '') e ''''))
       eret"

definition sql_outbox_GetPending :: "string \<Rightarrow> nat \<Rightarrow> ('a world_scheme, outbox list) prog" where
  "sql_outbox_GetPending topic limit = sql_outbox_getByStatus PENDING topic limit"

definition sql_outbox_GetFailed :: "string \<Rightarrow> nat \<Rightarrow> ('a world_scheme, outbox list) prog" where
  "sql_outbox_GetFailed topic limit = sql_outbox_getByStatus FAILED topic limit"

definition sql_outbox_UpdateStatus :: "i64 \<Rightarrow> outbox_status \<Rightarrow> ('a world_scheme, unit) prog" where
  "sql_outbox_UpdateStatus i st w =
     ehandle (run_stmt (update_outbox_status (sql_now w) i st))
       (\<lambda>e. efail (WrapErr ''failed to update outbox status: '' e ''''))
       (\<lambda>_. eret ()) w"

definition sql_outbox_IncrementRetries :: "i64 \<Rightarrow> ('a world_scheme, int) prog" where
  "sql_outbox_IncrementRetries i w =
     ehandle (query_row (increment_outbox (sql_now w) i))
       (\<lambda>e. efail (WrapErr ''failed to increment outbox retries: '' e ''''))
       eret w"

definition sql_chat_repo :: "'a world_scheme chat_repo" where
  "sql_chat_repo = \<lparr>cr_Create = sql_chat_Create, cr_GetByID = sql_chat_GetByID, cr_Delete = sql_chat_Delete\<rparr>"

definition sql_link_repo :: "'a world_scheme link_repo" where
  "sql_link_repo = \<lparr>lr_Save = sql_link_Save, lr_GetByID = sql_link_GetByID, lr_GetByURL = sql_link_GetByURL,
     lr_Delete = sql_link_Delete, lr_GetBatch = sql_link_GetBatch\<rparr>"

definition sql_sub_repo :: "'a world_scheme sub_repo" where
  "sql_sub_repo = \<lparr>sr_Save = sql_sub_Save, sr_GetByChatID = sql_sub_GetByChatID,
     sr_GetByLinkID = sql_sub_GetByLinkID, sr_Exists = sql_sub_Exists, sr_Delete = sql_sub_Delete,
     sr_AddTags = sql_sub_AddTags, sr_GetTags = sql_sub_GetTags, sr_DeleteTags = sql_sub_DeleteTags\<rparr>"

definition sql_outbox_repo :: "'a world_scheme outbox_repo" where
  "sql_outbox_repo = \<lparr>or_Add = sql_outbox_Add, or_GetPending = sql_outbox_GetPending,
     or_GetFailed = sql_outbox_GetFailed, or_UpdateStatus = sql_outbox_UpdateStatus,
     or_IncrementRetries = sql_outbox_IncrementRetries\<rparr>"

lemmas sql_repo_defs = sql_chat_repo_def sql_link_repo_def sql_sub_repo_def sql_outbox_repo_def

subsection \<open>They keep the promises\<close>

text \<open>A repository method is one statement with its errors mapped: the errors of the method and of
  the statement correspond.\<close>

lemma unique_rel: "err_rel e e' \<Longrightarrow> is_unique_violation e = is_unique_violation e'"
  by (simp add: err_rel_def is_unique_violation_def)

lemma no_rows_rel: "err_rel e e' \<Longrightarrow> errors_is s e = errors_is s e'"
  by (simp add: err_rel_def)

lemma meaningful_unique: "is_unique_violation e \<Longrightarrow> meaningful e"
  by (simp add: is_unique_violation_def meaningful_def)

lemma meaningful_is: "errors_is s e \<Longrightarrow> meaningful e"
  by (auto simp: meaningful_def)

lemmas method_simps = unique_rel no_rows_rel is_unique_violation_def

lemma implements_env: "(\<And>w. same_env W w \<Longrightarrow> m w = n w) \<Longrightarrow> keeps frame m \<Longrightarrow> implements W n a \<Longrightarrow> implements W m a"
  unfolding implements_def ready_def by metis

lemma keeps_env: "(\<And>v. keeps Q (f v)) \<Longrightarrow> keeps Q (\<lambda>w. f (g w) w)"
  by (simp add: keeps_def)


lemma implements_ranged:
  "implements W (ranged subsMap) (eret (map (\<lambda>k. the (map_of subsMap k)) (w_map_order W (map fst subsMap))))"
  by (rule implementsI)
     (auto simp: ranged_def outcome_ok_def ready_def same_env_def keeps_def frame_refl)

lemma sql_Create: "implements W (sql_chat_Create c) (chat_create c)"
  unfolding sql_chat_Create_def
proof (rule implements_op [OF implements_run_stmt])
  show "stmt_ok (insert_chat c)" by (rule stmt_oks)
qed (auto simp: method_simps meaningful_def insert_chat_def chat_create_def ehandle_def
    intro!: implements_eret stmt_eqI dest: unique_rel)

lemma sql_GetByID: "implements W (sql_chat_GetByID c) (chat_get c)"
  unfolding sql_chat_GetByID_def
  by (rule implements_op [OF implements_query_row])
     (auto simp: method_simps stmt_oks select_chat_def chat_get_def ehandle_def ebind_def
      stmt_eq_def split: if_splits intro: meaningful_is implements_eret)

lemma implements_efail_rel: "err_rel e e' \<Longrightarrow> implements W (efail e) (efail e')"
  by (rule implementsI) (auto simp: outcome_ok_def intro: frames.keeps_rules)

lemma sql_Delete: "implements W (sql_chat_Delete c) (chat_delete c)"
  unfolding sql_chat_Delete_def
  by (rule implements_op [OF implements_run_stmt, where b =
        "\<lambda>n. if n = 0 then efail (Sentinel S_ErrChatNotRegistered) else eret ()"])
     (auto simp: stmt_oks delete_chat_def chat_delete_def ehandle_def
        stmt_eq_def split: if_splits intro: implements_eret implements_efail_rel)

lemma sql_link_Save_ok: "implements W (sql_link_Save k) (link_save (w_stamp W) k)"
proof -
  let ?m = "\<lambda>stamp. ehandle (query_row (upsert_link (link_URL k) (stamp (link_LastUpdated k))))
       (\<lambda>e. efail (WrapErr ''failed to save link: '' e '''')) eret"
  have "implements W (?m (w_stamp W)) (link_save (w_stamp W) k)"
    by (rule implements_op [OF implements_query_row])
       (auto simp: stmt_oks upsert_link_def link_save_def ehandle_def ebind_def Let_def
        stmt_eq_def split: option.splits if_splits intro: meaningful_is implements_eret)
  moreover have "keeps frame (sql_link_Save k)"
    unfolding sql_link_Save_def
    by (rule keeps_env [where f = ?m and g = w_stamp]) (intro frames.keeps_rules frame_query_row stmt_oks)
  ultimately show ?thesis
    by (intro implements_env [of W "sql_link_Save k" "?m (w_stamp W)"])
       (auto simp: sql_link_Save_def same_env_def)
qed

lemma sql_link_GetByID_ok: "implements W (sql_link_GetByID i) (link_get i)"
  unfolding sql_link_GetByID_def
  by (rule implements_op [OF implements_query_row])
     (auto simp: method_simps stmt_oks select_link_id_def link_get_def ehandle_def ebind_def
      stmt_eq_def split: option.splits if_splits intro: meaningful_is implements_eret)

lemma sql_link_GetByURL_ok: "implements W (sql_link_GetByURL u) (link_by_url u)"
  unfolding sql_link_GetByURL_def
  by (rule implements_op [OF implements_query_row])
     (auto simp: method_simps stmt_oks select_link_url_def link_by_url_def ehandle_def ebind_def
      stmt_eq_def split: option.splits if_splits intro: meaningful_is implements_eret)

lemma query_row_no_rows:
  assumes "query_row f w = (Inl e, w')" and "meaningful e" and "\<And>d e d'. f d = (Inl e, d') \<Longrightarrow> \<not> meaningful e"
  shows "aborted w' = aborted w"
  using assms
  by (auto simp: query_row_def run_stmt_def run_with_def ebind_def ehandle_def
      split: if_splits fault.splits prod.splits sum.splits option.splits)

lemma sql_link_GetByURL_tx:
  assumes "sql_link_GetByURL u w = (Inl e, w')" and "errors_is S_ErrLinkNotFound e"
  shows "aborted w' = aborted w"
  using assms(1) unfolding sql_link_GetByURL_def
proof (cases rule: ehandle_cases)
  case (fail e0 w1)
  with assms(2) have "meaningful e0" "w1 = w'"
    by (auto split: if_splits intro: meaningful_is)
  moreover have "\<not> meaningful e" if "select_link_url u d = (Inl e, d')" for d e d'
    using that by (auto simp: select_link_url_def split: if_splits)
  ultimately show ?thesis
    using query_row_no_rows [OF fail(1)] by simp
qed simp

lemma sql_link_Delete_ok: "implements W (sql_link_Delete i) (link_delete i)"
  unfolding sql_link_Delete_def
  by (rule implements_op [OF implements_run_stmt, where b =
        "\<lambda>n. if n = 0 then efail (Sentinel S_ErrLinkNotFound) else eret ()"])
     (auto simp: stmt_oks delete_link_def link_delete_def ehandle_def
        stmt_eq_def split: if_splits intro: implements_eret implements_efail_rel)

lemma sql_link_GetBatch_ok:
  "implements W (sql_link_GetBatch lim off) (select_links_by link_LastUpdated (Some lim) off)"
  unfolding sql_link_GetBatch_def
  by (rule implements_op [OF implements_run_stmt])
     (auto simp: stmt_oks select_links_by_def ehandle_def stmt_eq_def intro: implements_eret)

interpretation sql_chats: chat_store sql_chat_repo
  by unfold_locales (simp_all add: sql_repo_defs sql_Create sql_GetByID sql_Delete)

interpretation sql_links: link_store sql_link_repo link_LastUpdated
  by unfold_locales
     (simp_all add: sql_repo_defs sql_link_Save_ok sql_link_GetByID_ok sql_link_GetByURL_ok
      sql_link_Delete_ok sql_link_GetBatch_ok, metis sql_link_GetByURL_tx)

lemma batch_wrap:
  "batch_as_stmt f xs wrap d =
     (case batch_as_stmt f xs (\<lambda>x e. e) d of
        (Inr u, d') \<Rightarrow> (Inr (), d')
      | (Inl e, d') \<Rightarrow> (Inl (case batch_stmt f xs d of (Some (x, e), d'') \<Rightarrow> wrap x e), d'))"
  by (auto simp: batch_as_stmt_def split: prod.splits option.splits)

lemma batch_wrap_eq:
  assumes "\<And>x e. err_rel (wrap x e) e"
  shows "stmt_eq (batch_as_stmt f xs wrap) (batch_as_stmt f xs (\<lambda>x e. e))"
  by (auto simp: stmt_eq_def batch_as_stmt_def assms split: prod.splits option.splits)

lemma implements_send_batch:
  assumes "\<And>x. stmt_ok (f x)" and "\<And>x e. err_rel (wrap x e) e"
  shows "implements W (send_batch f xs wrap) (batch_as_stmt f xs (\<lambda>x e. e))"
proof (rule implements_eq [OF _ batch_wrap_eq [of wrap, OF assms(2)]])
  have "\<not> meaningful (wrap (hd xs) conn_error)"
    using err_rel_meaningful [OF assms(2)] by simp
  then show "implements W (send_batch f xs wrap) (batch_as_stmt f xs wrap)"
    unfolding send_batch_def by (intro implements_run_with stmt_ok_batch assms)
qed

lemma insert_sub_unique:
  "insert_sub c l d = (Inl e, d') \<Longrightarrow> as_pg_error e = Some ''23505'' \<longleftrightarrow> e = unique_violation"
  by (auto simp: insert_sub_def split: if_splits)

lemma sql_sub_Save_ok: "implements W (sql_sub_Save s) (sub_save s)"
  unfolding sql_sub_Save_def
proof (rule implements_op [OF implements_run_stmt])
  show "implements W
      (if sub_Tags s = [] then eret ()
       else send_batch (insert_tag False (sub_ChatID s) (sub_LinkID s)) (sub_Tags s)
              (\<lambda>t e. WrapErr (''failed to insert tag '' @ t @ '': '') e ''''))
      (insert_tags False (sub_ChatID s) (sub_LinkID s) (sub_Tags s))" for u :: unit
    unfolding insert_tags_def
    by (intro implements_if implements_eret implements_send_batch stmt_oks) simp
qed (auto simp: method_simps stmt_oks stmt_eq_def sub_save_def ehandle_def insert_sub_def
    split: if_splits prod.splits sum.splits intro: meaningful_unique [unfolded is_unique_violation_def]
    dest: unique_rel [unfolded is_unique_violation_def])

lemma run_with_aborted: "aborted w \<Longrightarrow> run_with wrap f w = (Inl (wrap tx_aborted_error), w)"
  by (simp add: run_with_def)

lemma sql_sub_Save_aborted: "aborted w \<Longrightarrow> sql_sub_Save s w = (r, w') \<Longrightarrow> \<exists>e. r = Inl e \<and> \<not> meaningful e"
  by (auto simp: sql_sub_Save_def ehandle_def run_stmt_def run_with_aborted is_unique_violation_def)

lemma sql_sub_GetByChatID_ok:
  assumes "map_order_ok W"
  shows "implements W (sql_sub_GetByChatID c) (subs_by_chat (w_map_order W) c)"
  unfolding sql_sub_GetByChatID_def
proof (rule implements_op [OF implements_run_stmt])
  show "implements W (ranged (group_rows (\<lambda>chatID linkID. linkID) rows))
      (eret (map (\<lambda>k. the (map_of (group_rows (\<lambda>chatID linkID. linkID) rows) k))
        (w_map_order W (map fst (group_rows (\<lambda>chatID linkID. linkID) rows)))))" for rows
    by (rule implements_ranged)
qed (auto simp: stmt_oks stmt_eq_def ehandle_def select_subs_by_chat_def subs_by_chat_def
    grouped_by_chat(1) grouped_by_chat(3) [OF _ map_order_subset [OF assms]] simp del: map_map)

lemma sql_sub_GetByLinkID_ok:
  assumes "map_order_ok W"
  shows "implements W (sql_sub_GetByLinkID l) (subs_by_link (w_map_order W) l)"
  unfolding sql_sub_GetByLinkID_def
proof (rule implements_op [OF implements_run_stmt])
  show "implements W (ranged (group_rows (\<lambda>chatID linkID. chatID) rows))
      (eret (map (\<lambda>k. the (map_of (group_rows (\<lambda>chatID linkID. chatID) rows) k))
        (w_map_order W (map fst (group_rows (\<lambda>chatID linkID. chatID) rows)))))" for rows
    by (rule implements_ranged)
qed (auto simp: stmt_oks stmt_eq_def ehandle_def select_subs_by_link_def subs_by_link_def
    grouped_by_link(1) grouped_by_link(3) [OF _ map_order_subset [OF assms]] simp del: map_map)

lemma sql_sub_Exists_ok: "implements W (sql_sub_Exists c l) (sub_exists c l)"
  unfolding sql_sub_Exists_def
  by (rule implements_op [OF implements_query_row])
     (auto simp: stmt_oks select_sub_exists_def sub_exists_def ehandle_def ebind_def
      stmt_eq_def intro: implements_eret)

lemma read_error:
  assumes "query_row f w = (Inl e, w')" and "\<And>d. fst (f d) = Inr (Some x) \<and> snd (f d) = d \<or> fst (f d) = Inr (Some y) \<and> snd (f d) = d"
  shows "\<not> meaningful e \<and> w_db w' = w_db w"
  using assms(1) assms(2) [of "w_db w"]
  by (cases "f (w_db w)")
     (auto simp: query_row_def run_stmt_def run_with_def ebind_def ehandle_def split: if_splits fault.splits)

lemma sql_sub_Exists_error:
  assumes "sql_sub_Exists c l w = (Inl e, w')"
  shows "\<not> meaningful e \<and> w_db w' = w_db w"
  using assms unfolding sql_sub_Exists_def
  by (cases rule: ehandle_cases)
     (auto dest: read_error [where x = True and y = False and f = "select_sub_exists c l"]
      simp: select_sub_exists_def)

lemma sql_sub_Delete_ok: "implements W (sql_sub_Delete c l) (sub_delete c l)"
  unfolding sql_sub_Delete_def
  by (rule implements_op [OF implements_run_stmt, where b =
        "\<lambda>n. if n = 0 then efail (Sentinel S_ErrNotSubscribed)
             else eret \<lparr>sub_ChatID = c, sub_LinkID = l, sub_Tags = []\<rparr>"])
     (auto simp: stmt_oks delete_sub_def sub_delete_def ehandle_def
        stmt_eq_def split: if_splits intro: implements_eret implements_efail_rel)

lemma sql_sub_AddTags_ok: "implements W (sql_sub_AddTags l c ts) (insert_tags True c l ts)"
  unfolding sql_sub_AddTags_def insert_tags_def
  by (intro implements_if implements_eret implements_send_batch stmt_oks) simp

lemma sql_sub_GetTags_ok: "implements W (sql_sub_GetTags l c) (select_tags c l)"
  unfolding sql_sub_GetTags_def
  by (rule implements_op [OF implements_run_stmt])
     (auto simp: stmt_oks select_tags_def ehandle_def stmt_eq_def intro: implements_eret)

lemma sql_sub_DeleteTags_ok: "implements W (sql_sub_DeleteTags l c ts) (delete_tags c l ts)"
  unfolding sql_sub_DeleteTags_def delete_tags_def
  by (intro implements_if implements_eret implements_send_batch stmt_oks) simp

interpretation sql_subs: sub_store sql_sub_repo w_map_order
  by unfold_locales
     (simp_all add: sql_repo_defs map_order_ok_def sql_sub_Save_ok sql_sub_Save_aborted sql_sub_GetByChatID_ok
      sql_sub_GetByLinkID_ok sql_sub_Exists_ok sql_sub_Exists_error sql_sub_Delete_ok sql_sub_AddTags_ok
      sql_sub_GetTags_ok sql_sub_DeleteTags_ok)

text \<open>The statements of the outbox take the time of the transaction.\<close>

lemma implements_timed:
  assumes "implements W (f (sql_now W)) a" and "\<And>t. keeps frame (f t)"
  shows "implements W (\<lambda>w. f (sql_now w) w) a"
proof (rule implements_env [OF _ _ assms(1)])
  show "f (sql_now w) w = f (sql_now W) w" if "same_env W w" for w
    using that by (simp add: sql_now_def same_env_def)
  show "keeps frame (\<lambda>w. f (sql_now w) w)"
    using assms(2) by (simp add: keeps_def)
qed

lemma sql_outbox_Add_ok:
  "implements W (sql_outbox_Add topic p)
     (ebind (insert_outbox (w_now W div 1000 * 1000) topic p) (\<lambda>r. eret (the r)))"
  unfolding sql_outbox_Add_def [abs_def]
proof (rule implements_timed)
  show "implements W (ehandle (query_row (insert_outbox (sql_now W) topic p))
      (\<lambda>e. efail (WrapErr ''failed to save outbox: '' e '''')) eret)
      (ebind (insert_outbox (w_now W div 1000 * 1000) topic p) (\<lambda>r. eret (the r)))"
    by (rule implements_op [OF implements_query_row])
       (auto simp: stmt_oks insert_outbox_def ehandle_def ebind_def Let_def sql_now_def stmt_eq_def
        intro: implements_eret split: option.split)
qed (intro frames.keeps_rules frame_query_row stmt_oks)

lemma sql_outbox_getByStatus_ok:
  "implements W (sql_outbox_getByStatus st topic lim) (select_outbox st topic (Some lim))"
  unfolding sql_outbox_getByStatus_def
  by (rule implements_op [OF implements_run_stmt])
     (auto simp: stmt_oks select_outbox_def ehandle_def stmt_eq_def intro: implements_eret)

lemma sql_outbox_UpdateStatus_ok:
  "implements W (sql_outbox_UpdateStatus i st) (update_outbox_status (w_now W div 1000 * 1000) i st)"
  unfolding sql_outbox_UpdateStatus_def [abs_def]
proof (rule implements_timed)
  show "implements W (ehandle (run_stmt (update_outbox_status (sql_now W) i st))
      (\<lambda>e. efail (WrapErr ''failed to update outbox status: '' e '''')) (\<lambda>_. eret ()))
      (update_outbox_status (w_now W div 1000 * 1000) i st)"
    by (rule implements_op [OF implements_run_stmt])
       (auto simp: stmt_oks update_outbox_status_def ehandle_def sql_now_def stmt_eq_def
        intro: implements_eret)
qed (intro frames.keeps_rules frame_run_stmt stmt_oks)

lemma sql_outbox_IncrementRetries_ok:
  "implements W (sql_outbox_IncrementRetries i)
     (ebind (increment_outbox (w_now W div 1000 * 1000) i)
        (\<lambda>r. case r of None \<Rightarrow> efail (Sentinel ErrNoRows) | Some n \<Rightarrow> eret n))"
  unfolding sql_outbox_IncrementRetries_def [abs_def]
proof (rule implements_timed)
  show "implements W (ehandle (query_row (increment_outbox (sql_now W) i))
      (\<lambda>e. efail (WrapErr ''failed to increment outbox retries: '' e '''')) eret)
      (ebind (increment_outbox (w_now W div 1000 * 1000) i)
        (\<lambda>r. case r of None \<Rightarrow> efail (Sentinel ErrNoRows) | Some n \<Rightarrow> eret n))"
    by (rule implements_op [OF implements_query_row])
       (auto simp: stmt_oks increment_outbox_def ehandle_def ebind_def sql_now_def stmt_eq_def
        intro: implements_eret split: option.split)
qed (intro frames.keeps_rules frame_query_row stmt_oks)

interpretation sql_outboxes: outbox_store sql_outbox_repo
  by unfold_locales
     (simp_all add: sql_repo_defs sql_outbox_Add_ok sql_outbox_GetPending_def sql_outbox_GetFailed_def
      sql_outbox_getByStatus_ok sql_outbox_UpdateStatus_ok sql_outbox_IncrementRetries_ok)

end
