(* ===== verification/Repo_Builder.thy ===== *)
theory Repo_Builder
  imports Repo_Sql
begin

text \<open>
  The repositories written with the query builder (\<open>repository/sqlbuilder\<close>): the same statements
  behind a call of \<open>ToSQL\<close> that may fail. They keep the same promises, and return the subscriptions
  in the order of the query. A page of links is ordered by id.
\<close>

abbreviation build :: "('a world_scheme, 'b) prog \<Rightarrow> ('a world_scheme, 'b) prog" where
  "build m \<equiv> ebind (to_sql ''failed to build query: '') (\<lambda>_. m)"

subsection \<open>Chats\<close>

definition qb_chat_Create :: "i64 \<Rightarrow> ('a world_scheme, unit) prog" where
  "qb_chat_Create c = build
     (ehandle (run_stmt (insert_chat c))
       (\<lambda>e. efail
          (if is_unique_violation e
           then WrapErr '''' (Sentinel S_ErrChatAlreadyRegistered) ('': id = '' @ format_i64 c)
           else WrapErr ''failed to register chat: '' e ''''))
       (\<lambda>_. eret ()))"

definition qb_chat_GetByID :: "i64 \<Rightarrow> ('a world_scheme, i64) prog" where
  "qb_chat_GetByID c = build
     (ehandle (query_row (select_chat c))
       (\<lambda>e. efail
          (if errors_is ErrNoRows e
           then WrapErr '''' (Sentinel S_ErrChatNotRegistered) ('': chat with id '' @ format_i64 c @ '' not found'')
           else WrapErr '''' e ('': failed to retrieve chat with id '' @ format_i64 c)))
       eret)"

definition qb_chat_Delete :: "i64 \<Rightarrow> ('a world_scheme, unit) prog" where
  "qb_chat_Delete c = build
     (ehandle (run_stmt (delete_chat c))
       (\<lambda>e. efail (WrapErr (''failed to delete chat with id '' @ format_i64 c @ '': '') e ''''))
       (\<lambda>n. if n = 0
            then efail (WrapErr '''' (Sentinel S_ErrChatNotRegistered) ('': chat with id '' @ format_i64 c @ '' not found''))
            else eret ()))"

subsection \<open>Links\<close>

definition qb_link_Save :: "link \<Rightarrow> ('a world_scheme, link) prog" where
  "qb_link_Save k = build (\<lambda>w.
     ehandle (query_row (upsert_link (link_URL k) (w_stamp w (link_LastUpdated k))))
       (\<lambda>e. efail (WrapErr ''failed to save link: '' e ''''))
       eret w)"

definition qb_link_GetByID :: "i64 \<Rightarrow> ('a world_scheme, link) prog" where
  "qb_link_GetByID i = build
     (ehandle (query_row (select_link_id i))
       (\<lambda>e. efail
          (if errors_is ErrNoRows e
           then WrapErr '''' (Sentinel S_ErrLinkNotFound) ('': link with id '' @ format_i64 i @ '' not found'')
           else WrapErr (''failed to get link by id '' @ format_i64 i @ '': '') e ''''))
       eret)"

definition qb_link_GetByURL :: "string \<Rightarrow> ('a world_scheme, link) prog" where
  "qb_link_GetByURL u = build
     (ehandle (query_row (select_link_url u))
       (\<lambda>e. efail
          (if errors_is ErrNoRows e
           then WrapErr '''' (Sentinel S_ErrLinkNotFound) ('': link with url '' @ u @ '' not found'')
           else WrapErr ''failed to get link by url: '' e ''''))
       eret)"

definition qb_link_Delete :: "i64 \<Rightarrow> ('a world_scheme, unit) prog" where
  "qb_link_Delete i = build
     (ehandle (run_stmt (delete_link i))
       (\<lambda>e. efail (WrapErr ''failed to delete link: '' e ''''))
       (\<lambda>n. if n = 0
            then efail (WrapErr '''' (Sentinel S_ErrLinkNotFound) ('': link with id '' @ format_i64 i @ '' did not exist''))
            else eret ()))"

text \<open>The builder's \<open>Limit(0)\<close> sets no limit.\<close>

definition goqu_limit :: "nat \<Rightarrow> nat option" where
  "goqu_limit n = (if n = 0 then None else Some n)"

definition qb_link_GetBatch :: "nat \<Rightarrow> nat \<Rightarrow> ('a world_scheme, link list) prog" where
  "qb_link_GetBatch limit offset = build
     (ehandle (run_stmt (select_links_by (\<lambda>k. sint (link_ID k)) (goqu_limit limit) offset))
       (\<lambda>e. efail (WrapErr ''failed to get batch of links: '' e ''''))
       eret)"

subsection \<open>Subscriptions\<close>

text \<open>The queries of a batch are built one by one before any is sent.\<close>

fun build_batch :: "('b \<Rightarrow> string) \<Rightarrow> 'b list \<Rightarrow> ('a world_scheme, unit) prog" where
  "build_batch msg [] = eret ()"
| "build_batch msg (x # xs) = ebind (to_sql (msg x)) (\<lambda>_. build_batch msg xs)"

definition insertTagsBatch :: "i64 \<Rightarrow> i64 \<Rightarrow> string list \<Rightarrow> bool \<Rightarrow> ('a world_scheme, unit) prog" where
  "insertTagsBatch c l ts onConflictDoNothing =
     ebind (build_batch (\<lambda>t. ''failed to build insert tag query for '' @ t @ '': '') ts) (\<lambda>_.
     send_batch (insert_tag onConflictDoNothing c l) ts
       (\<lambda>t e. WrapErr (''failed to insert tag '' @ t @ '': '') e ''''))"

definition qb_sub_Save :: "subscription \<Rightarrow> ('a world_scheme, unit) prog" where
  "qb_sub_Save s =
     ebind (to_sql ''failed to build sub query: '') (\<lambda>_.
     ehandle (run_stmt (insert_sub (sub_ChatID s) (sub_LinkID s)))
       (\<lambda>e. efail
          (if is_unique_violation e
           then WrapErr '''' (Sentinel S_ErrAlreadySubscribed)
                  ('': chat id = '' @ format_i64 (sub_ChatID s) @ '', link id = '' @ format_i64 (sub_LinkID s))
           else WrapErr ''failed to insert subscription: '' e ''''))
       (\<lambda>_. if sub_Tags s = [] then eret ()
            else insertTagsBatch (sub_ChatID s) (sub_LinkID s) (sub_Tags s) False))"

definition scanSubscriptions ::
    "(i64 \<times> i64 \<times> string option) list stmt \<Rightarrow> (i64 \<Rightarrow> i64 \<Rightarrow> i64) \<Rightarrow> ('a world_scheme, subscription list) prog" where
  "scanSubscriptions query keyFn =
     ehandle (run_stmt query)
       (\<lambda>e. efail (WrapErr ''failed to query subscriptions: '' e ''''))
       (\<lambda>rows. eret (map snd (group_rows keyFn rows)))"

definition qb_sub_GetByChatID :: "i64 \<Rightarrow> ('a world_scheme, subscription list) prog" where
  "qb_sub_GetByChatID c = build (scanSubscriptions (select_subs_by_chat c) (\<lambda>chatID linkID. linkID))"

definition qb_sub_GetByLinkID :: "i64 \<Rightarrow> ('a world_scheme, subscription list) prog" where
  "qb_sub_GetByLinkID l = build (scanSubscriptions (select_subs_by_link l) (\<lambda>chatID linkID. chatID))"

definition qb_sub_Exists :: "i64 \<Rightarrow> i64 \<Rightarrow> ('a world_scheme, bool) prog" where
  "qb_sub_Exists c l =
     ebind (to_sql ''failed to build exists query: '') (\<lambda>_.
     ehandle (query_row (select_sub_exists c l))
       (\<lambda>e. efail (WrapErr (''failed to check subscription for link '' @ format_i64 l @ '' in chat ''
                            @ format_i64 c @ '': '') e ''''))
       eret)"

definition qb_sub_Delete :: "i64 \<Rightarrow> i64 \<Rightarrow> ('a world_scheme, subscription) prog" where
  "qb_sub_Delete c l =
     ebind (to_sql ''failed to build delete sub query: '') (\<lambda>_.
     ehandle (run_stmt (delete_sub c l))
       (\<lambda>e. efail (WrapErr ''failed to delete subscription: '' e ''''))
       (\<lambda>n. if n = 0
            then efail (WrapErr '''' (Sentinel S_ErrNotSubscribed)
                   ('': link id = '' @ format_i64 l @ '', chat id = '' @ format_i64 c))
            else eret \<lparr>sub_ChatID = c, sub_LinkID = l, sub_Tags = []\<rparr>))"

definition qb_sub_AddTags :: "i64 \<Rightarrow> i64 \<Rightarrow> string list \<Rightarrow> ('a world_scheme, unit) prog" where
  "qb_sub_AddTags l c ts = (if ts = [] then eret () else insertTagsBatch c l ts True)"

definition qb_sub_GetTags :: "i64 \<Rightarrow> i64 \<Rightarrow> ('a world_scheme, string list) prog" where
  "qb_sub_GetTags l c =
     ebind (to_sql (''failed to build get tags SQL for link '' @ format_i64 l @ '': '')) (\<lambda>_.
     ehandle (run_stmt (select_tags c l))
       (\<lambda>e. efail (WrapErr (''failed to query tags for link '' @ format_i64 l @ '': '') e ''''))
       eret)"

definition qb_sub_DeleteTags :: "i64 \<Rightarrow> i64 \<Rightarrow> string list \<Rightarrow> ('a world_scheme, unit) prog" where
  "qb_sub_DeleteTags l c ts =
     (if ts = [] then eret ()
      else ebind (build_batch (\<lambda>t. ''failed to build delete tag query for '' @ t @ '': '') ts) (\<lambda>_.
           send_batch (delete_tag c l) ts (\<lambda>t e. WrapErr (''failed to delete tag '' @ t @ '': '') e '''')))"

subsection \<open>The outbox\<close>

definition qb_outbox_Add :: "string \<Rightarrow> json \<Rightarrow> ('a world_scheme, outbox) prog" where
  "qb_outbox_Add topic payload = build (\<lambda>w.
     ehandle (query_row (insert_outbox (sql_now w) topic payload))
       (\<lambda>e. efail (WrapErr ''failed to save outbox: '' e ''''))
       eret w)"

definition qb_outbox_getByStatus :: "outbox_status \<Rightarrow> string \<Rightarrow> nat \<Rightarrow> ('a world_scheme, outbox list) prog" where
  "qb_outbox_getByStatus st topic limit = build
     (ehandle (run_stmt (select_outbox st topic (goqu_limit limit)))
       (\<lambda>e. efail (WrapErr (''failed to get outboxes with status '' @ show_status st @ '': '') e ''''))
       eret)"

definition qb_outbox_GetPending :: "string \<Rightarrow> nat \<Rightarrow> ('a world_scheme, outbox list) prog" where
  "qb_outbox_GetPending topic limit = qb_outbox_getByStatus PENDING topic limit"

definition qb_outbox_GetFailed :: "string \<Rightarrow> nat \<Rightarrow> ('a world_scheme, outbox list) prog" where
  "qb_outbox_GetFailed topic limit = qb_outbox_getByStatus FAILED topic limit"

definition qb_outbox_UpdateStatus :: "i64 \<Rightarrow> outbox_status \<Rightarrow> ('a world_scheme, unit) prog" where
  "qb_outbox_UpdateStatus i st = build (\<lambda>w.
     ehandle (run_stmt (update_outbox_status (sql_now w) i st))
       (\<lambda>e. efail (WrapErr ''failed to update outbox status: '' e ''''))
       (\<lambda>_. eret ()) w)"

definition qb_outbox_IncrementRetries :: "i64 \<Rightarrow> ('a world_scheme, int) prog" where
  "qb_outbox_IncrementRetries i = build (\<lambda>w.
     ehandle (query_row (increment_outbox (sql_now w) i))
       (\<lambda>e. efail (WrapErr ''failed to increment outbox retries: '' e ''''))
       eret w)"

definition qb_chat_repo :: "'a world_scheme chat_repo" where
  "qb_chat_repo = \<lparr>cr_Create = qb_chat_Create, cr_GetByID = qb_chat_GetByID, cr_Delete = qb_chat_Delete\<rparr>"

definition qb_link_repo :: "'a world_scheme link_repo" where
  "qb_link_repo = \<lparr>lr_Save = qb_link_Save, lr_GetByID = qb_link_GetByID, lr_GetByURL = qb_link_GetByURL,
     lr_Delete = qb_link_Delete, lr_GetBatch = qb_link_GetBatch\<rparr>"

definition qb_sub_repo :: "'a world_scheme sub_repo" where
  "qb_sub_repo = \<lparr>sr_Save = qb_sub_Save, sr_GetByChatID = qb_sub_GetByChatID,
     sr_GetByLinkID = qb_sub_GetByLinkID, sr_Exists = qb_sub_Exists, sr_Delete = qb_sub_Delete,
     sr_AddTags = qb_sub_AddTags, sr_GetTags = qb_sub_GetTags, sr_DeleteTags = qb_sub_DeleteTags\<rparr>"

definition qb_outbox_repo :: "'a world_scheme outbox_repo" where
  "qb_outbox_repo = \<lparr>or_Add = qb_outbox_Add, or_GetPending = qb_outbox_GetPending,
     or_GetFailed = qb_outbox_GetFailed, or_UpdateStatus = qb_outbox_UpdateStatus,
     or_IncrementRetries = qb_outbox_IncrementRetries\<rparr>"

lemmas qb_repo_defs = qb_chat_repo_def qb_link_repo_def qb_sub_repo_def qb_outbox_repo_def

subsection \<open>They keep the promises\<close>

text \<open>Where a method is the SQL one behind \<open>ToSQL\<close>, it keeps the promise with it.\<close>

lemma qb_behind:
  "qb_chat_Create c = build (sql_chat_Create c)" "qb_chat_GetByID c = build (sql_chat_GetByID c)"
  "qb_chat_Delete c = build (sql_chat_Delete c)" "qb_link_Save k = build (sql_link_Save k)"
  "qb_link_Delete i = build (sql_link_Delete i)"
  "qb_outbox_Add topic p = build (sql_outbox_Add topic p)"
  "qb_outbox_UpdateStatus i st = build (sql_outbox_UpdateStatus i st)"
  "qb_outbox_IncrementRetries i = build (sql_outbox_IncrementRetries i)"
  "qb_sub_Exists c l = ebind (to_sql ''failed to build exists query: '') (\<lambda>_. sql_sub_Exists c l)"
  "qb_sub_Delete c l = ebind (to_sql ''failed to build delete sub query: '') (\<lambda>_. sql_sub_Delete c l)"
  "qb_sub_GetTags l c =
     ebind (to_sql (''failed to build get tags SQL for link '' @ format_i64 l @ '': '')) (\<lambda>_. sql_sub_GetTags l c)"
  by (simp_all only: qb_chat_Create_def sql_chat_Create_def qb_chat_GetByID_def sql_chat_GetByID_def
      qb_chat_Delete_def sql_chat_Delete_def qb_link_Save_def sql_link_Save_def [abs_def] qb_link_Delete_def
      sql_link_Delete_def qb_outbox_Add_def sql_outbox_Add_def [abs_def] qb_outbox_UpdateStatus_def
      sql_outbox_UpdateStatus_def [abs_def] qb_outbox_IncrementRetries_def
      sql_outbox_IncrementRetries_def [abs_def] qb_sub_Exists_def sql_sub_Exists_def qb_sub_Delete_def
      sql_sub_Delete_def qb_sub_GetTags_def sql_sub_GetTags_def)

lemma qb_link_GetByID_ok: "implements W (qb_link_GetByID i) (link_get i)"
  unfolding qb_link_GetByID_def
  by (rule implements_to_sql, rule implements_op [OF implements_query_row])
     (auto simp: method_simps stmt_oks select_link_id_def link_get_def ehandle_def ebind_def
      stmt_eq_def split: option.splits if_splits intro: meaningful_is implements_eret)

lemma qb_link_GetByURL_ok: "implements W (qb_link_GetByURL u) (link_by_url u)"
  unfolding qb_link_GetByURL_def
  by (rule implements_to_sql, rule implements_op [OF implements_query_row])
     (auto simp: method_simps stmt_oks select_link_url_def link_by_url_def ehandle_def ebind_def
      stmt_eq_def split: option.splits if_splits intro: meaningful_is implements_eret)

lemma to_sql_aborted: "to_sql msg w = (r, w') \<Longrightarrow> aborted w' = aborted w \<and> w_db w' = w_db w"
  by (auto simp: to_sql_def split: fault.splits)

lemma to_sql_error: "to_sql msg w = (Inl e, w') \<Longrightarrow> \<not> meaningful e"
  by (auto simp: to_sql_def split: fault.splits)

lemma qb_link_GetByURL_tx:
  assumes "qb_link_GetByURL u w = (Inl e, w')" and "errors_is S_ErrLinkNotFound e"
  shows "aborted w' = aborted w"
  using assms(1) unfolding qb_link_GetByURL_def
proof (cases rule: ebind_cases)
  case (fail e0)
  then show ?thesis by (simp add: to_sql_aborted)
next
  case (ok x w1)
  from ok(2) show ?thesis
  proof (cases rule: ehandle_cases)
    case (fail e0 w2)
    with assms(2) have "meaningful e0" "w2 = w'" by (auto split: if_splits intro: meaningful_is)
    moreover have "\<not> meaningful e" if "select_link_url u d = (Inl e, d')" for d e d'
      using that by (auto simp: select_link_url_def split: if_splits)
    ultimately show ?thesis
      using query_row_no_rows [OF fail(1)] to_sql_aborted [OF ok(1)] by simp
  qed simp
qed

lemma qb_link_GetBatch_ok:
  "0 < lim \<Longrightarrow> implements W (qb_link_GetBatch lim off) (select_links_by (\<lambda>k. sint (link_ID k)) (Some lim) off)"
  unfolding qb_link_GetBatch_def
  by (rule implements_to_sql, rule implements_op [OF implements_run_stmt])
     (auto simp: stmt_oks select_links_by_def goqu_limit_def ehandle_def stmt_eq_def intro: implements_eret)

interpretation qb_chats: chat_store qb_chat_repo
  by unfold_locales
     (simp_all add: qb_repo_defs qb_behind implements_to_sql sql_Create sql_GetByID sql_Delete)

interpretation qb_links: link_store qb_link_repo "\<lambda>k. sint (link_ID k)"
  by unfold_locales
     (simp_all add: qb_repo_defs qb_behind implements_to_sql sql_link_Save_ok qb_link_GetByID_ok
      qb_link_GetByURL_ok sql_link_Delete_ok qb_link_GetBatch_ok, metis qb_link_GetByURL_tx)

lemma implements_build_batch:
  assumes "implements W m a"
  shows "implements W (ebind (build_batch msg xs) (\<lambda>_. m)) a"
proof (induction xs)
  case Nil
  have "ebind (build_batch msg []) (\<lambda>_. m) = m"
    by (rule ext) simp
  with assms show ?case by simp
next
  case (Cons x xs)
  have "ebind (build_batch msg (x # xs)) (\<lambda>_. m)
      = ebind (to_sql (msg x)) (\<lambda>_. ebind (build_batch msg xs) (\<lambda>_. m))"
    by (rule ext) (simp add: ebind_def ehandle_def split: prod.split sum.split)
  with implements_to_sql [OF Cons] show ?case by simp
qed

lemma insertTagsBatch_ok:
  "ts \<noteq> [] \<Longrightarrow> implements W (insertTagsBatch c l ts b) (insert_tags b c l ts)"
  unfolding insertTagsBatch_def insert_tags_def
  by (simp, intro implements_build_batch implements_send_batch stmt_oks) simp

lemma qb_sub_Save_ok: "implements W (qb_sub_Save s) (sub_save s)"
  unfolding qb_sub_Save_def
proof (rule implements_to_sql, rule implements_op [OF implements_run_stmt])
  show "implements W
      (if sub_Tags s = [] then eret () else insertTagsBatch (sub_ChatID s) (sub_LinkID s) (sub_Tags s) False)
      (insert_tags False (sub_ChatID s) (sub_LinkID s) (sub_Tags s))" for u :: unit
    using insertTagsBatch_ok by (auto simp: insert_tags_def intro: implements_eret)
qed (auto simp: method_simps stmt_oks stmt_eq_def sub_save_def ehandle_def insert_sub_def
    split: if_splits prod.splits sum.splits intro: meaningful_unique [unfolded is_unique_violation_def]
    dest: unique_rel [unfolded is_unique_violation_def])

lemma qb_sub_Save_aborted:
  assumes "aborted w" and "qb_sub_Save s w = (r, w')"
  shows "\<exists>e. r = Inl e \<and> \<not> meaningful e"
  using assms(2) unfolding qb_sub_Save_def
proof (cases rule: ebind_cases)
  case (ok x w1)
  with to_sql_aborted [OF ok(1)] assms(1) show ?thesis
    by (auto simp: ehandle_def run_stmt_def run_with_aborted is_unique_violation_def)
qed (auto dest: to_sql_error)

lemma qb_sub_GetByChatID_ok: "implements W (qb_sub_GetByChatID c) (subs_by_chat (\<lambda>ks. ks) c)"
  unfolding qb_sub_GetByChatID_def scanSubscriptions_def
  by (rule implements_to_sql, rule implements_op [OF implements_run_stmt])
     (auto simp: stmt_oks stmt_eq_def ehandle_def select_subs_by_chat_def subs_by_chat_def
      grouped_by_chat(2) simp del: map_map intro: implements_eret)

lemma qb_sub_GetByLinkID_ok: "implements W (qb_sub_GetByLinkID l) (subs_by_link (\<lambda>ks. ks) l)"
  unfolding qb_sub_GetByLinkID_def scanSubscriptions_def
  by (rule implements_to_sql, rule implements_op [OF implements_run_stmt])
     (auto simp: stmt_oks stmt_eq_def ehandle_def select_subs_by_link_def subs_by_link_def
      grouped_by_link(2) simp del: map_map intro: implements_eret)

lemma qb_sub_Exists_error:
  assumes "qb_sub_Exists c l w = (Inl e, w')"
  shows "\<not> meaningful e \<and> w_db w' = w_db w"
  using assms unfolding qb_behind
proof (cases rule: ebind_cases)
  case (ok x w1)
  with to_sql_aborted [OF ok(1)] sql_sub_Exists_error [OF ok(2)] show ?thesis by simp
qed (auto dest: to_sql_error to_sql_aborted)

lemma qb_sub_AddTags_ok: "implements W (qb_sub_AddTags l c ts) (insert_tags True c l ts)"
  using insertTagsBatch_ok by (auto simp: qb_sub_AddTags_def insert_tags_def intro: implements_eret)

lemma qb_sub_DeleteTags_ok: "implements W (qb_sub_DeleteTags l c ts) (delete_tags c l ts)"
  unfolding qb_sub_DeleteTags_def delete_tags_def
  by (intro implements_if implements_eret implements_build_batch implements_send_batch stmt_oks) simp

interpretation qb_subs: sub_store qb_sub_repo "\<lambda>W ks. ks"
  by unfold_locales
     (simp_all add: qb_repo_defs qb_behind implements_to_sql qb_sub_Save_ok qb_sub_Save_aborted
      qb_sub_GetByChatID_ok qb_sub_GetByLinkID_ok sql_sub_Exists_ok qb_sub_Exists_error [unfolded qb_behind]
      sql_sub_Delete_ok qb_sub_AddTags_ok sql_sub_GetTags_ok qb_sub_DeleteTags_ok)

lemma qb_outbox_getByStatus_ok:
  "0 < lim \<Longrightarrow> implements W (qb_outbox_getByStatus st topic lim) (select_outbox st topic (Some lim))"
  unfolding qb_outbox_getByStatus_def
  by (rule implements_to_sql, rule implements_op [OF implements_run_stmt])
     (auto simp: stmt_oks select_outbox_def goqu_limit_def ehandle_def stmt_eq_def intro: implements_eret)

interpretation qb_outboxes: outbox_store qb_outbox_repo
  by unfold_locales
     (simp_all add: qb_repo_defs qb_behind implements_to_sql sql_outbox_Add_ok qb_outbox_GetPending_def
      qb_outbox_GetFailed_def qb_outbox_getByStatus_ok sql_outbox_UpdateStatus_ok sql_outbox_IncrementRetries_ok)

end
