(* ===== verification/Outbox.thy ===== *)
theory Outbox
  imports Kafka_Wire Repo_Builder
begin

text \<open>
  The transactional outbox: the Kafka notifier that writes a row instead of sending
  (\<open>adapter/out/notifier/kafka/notifier.go\<close>), the producer whose workers send the pending rows
  (\<open>producer.go\<close>, \<open>worker.go\<close>), the fallback from one notifier to another, and the agent's copies
  of them (\<open>agent/infrastructure/adapter/out/kafka\<close>). The Kafka client is the parameter
  \<open>SendMessage\<close>.
\<close>

type_synonym 'w update_notifier = "link_update \<Rightarrow> ('w, unit) prog"

subsection \<open>Notifiers\<close>

text \<open>\<open>json.Marshal\<close> of this struct cannot fail.\<close>

definition Notifier_SendUpdate :: "'w outbox_repo \<Rightarrow> string \<Rightarrow> 'w update_notifier" where
  "Notifier_SendUpdate outRepo topic update =
     ehandle (or_Add outRepo topic (linkUpdate_json update))
       (\<lambda>e. efail (WrapErr ''failed to send update: '' e ''''))
       (\<lambda>_. eret ())"

definition agent_Notifier_SendUpdate :: "'w outbox_repo \<Rightarrow> string \<Rightarrow> processed_update \<Rightarrow> ('w, unit) prog" where
  "agent_Notifier_SendUpdate outRepo topic update =
     ehandle (or_Add outRepo topic (processedUpdate_json update))
       (\<lambda>e. efail (WrapErr ''failed to send update: '' e ''''))
       (\<lambda>_. eret ())"

definition fallback_SendUpdate :: "'w update_notifier \<Rightarrow> 'w update_notifier \<Rightarrow> 'w update_notifier" where
  "fallback_SendUpdate primary secondary update =
     ehandle (primary update)
       (\<lambda>err1. ehandle (secondary update) (\<lambda>err2. efail (JoinErr [err1, err2])) (\<lambda>_. eret ()))
       (\<lambda>_. eret ())"

subsection \<open>The producer\<close>

record kafka_message =
  km_Topic :: string
  km_Key :: string
  km_Value :: "byte list"
  km_Headers :: "(string \<times> string) list"

record 'w producer =
  pr_SendMessage :: "kafka_message \<Rightarrow> ('w, unit) prog"
  pr_outRepo :: "'w outbox_repo"
  pr_topic :: string
  pr_serializer :: topic_serializer
  pr_limit :: nat
  pr_maxRetries :: int

text \<open>Errors of the status updates are logged only.\<close>

definition logged :: "('w, 'a) prog \<Rightarrow> ('w, unit) prog" where
  "logged m = ehandle m (\<lambda>_. eret ()) (\<lambda>_. eret ())"

definition markSent :: "'w producer \<Rightarrow> outbox \<Rightarrow> ('w, unit) prog" where
  "markSent p event = logged (or_UpdateStatus (pr_outRepo p) (ob_ID event) SENT)"

definition markFailed :: "'w producer \<Rightarrow> outbox \<Rightarrow> ('w, unit) prog" where
  "markFailed p event = logged (or_UpdateStatus (pr_outRepo p) (ob_ID event) FAILED)"

definition incrementRetries :: "'w producer \<Rightarrow> outbox \<Rightarrow> ('w, unit) prog" where
  "incrementRetries p event =
     ehandle (or_IncrementRetries (pr_outRepo p) (ob_ID event)) (\<lambda>_. eret ()) (\<lambda>retries.
       if pr_maxRetries p \<le> retries
       then logged (or_UpdateStatus (pr_outRepo p) (ob_ID event) FAILED)
       else eret ())"

definition event_message :: "outbox \<Rightarrow> byte list \<Rightarrow> kafka_message" where
  "event_message event value =
     \<lparr>km_Topic = ob_Topic event, km_Key = format_i64 (ob_ID event), km_Value = value, km_Headers = []\<rparr>"

definition send_event :: "'w producer \<Rightarrow> outbox \<Rightarrow> ('w, unit) prog" where
  "send_event p event =
     (case eventToBytes (pr_serializer p) event of
        Inl e \<Rightarrow> markFailed p event
      | Inr value \<Rightarrow>
          ehandle (pr_SendMessage p (event_message event value))
            (\<lambda>_. incrementRetries p event)
            (\<lambda>_. markSent p event))"

definition SendEvents :: "'w producer \<Rightarrow> ('w, unit) prog" where
  "SendEvents p =
     ehandle (or_GetPending (pr_outRepo p) (pr_topic p) (pr_limit p))
       (\<lambda>e. efail (WrapErr ''cannot get pending messages: '' e ''''))
       (\<lambda>events. ebind (efor (send_event p) events) (\<lambda>_. eret ()))"

text \<open>\<open>Worker.Start\<close>, from its start until its context is done: one run per tick; an error of a run is logged
  and the next tick runs again.\<close>

definition Worker_Start :: "'w producer \<Rightarrow> nat \<Rightarrow> 'w \<Rightarrow> 'w" where
  "Worker_Start p ticks w = ((\<lambda>w. snd (SendEvents p w)) ^^ ticks) w"

text \<open>\<open>getSchema\<close> of \<open>NewProducer\<close>: the latest schema of the topic, registered when there is none.\<close>

definition getSchema ::
    "(string \<Rightarrow> ('w, (i64 \<times> codec) option) prog) \<Rightarrow> (string \<Rightarrow> string \<Rightarrow> ('w, i64 \<times> codec) prog) \<Rightarrow>
     string \<Rightarrow> string \<Rightarrow> ('w, i64 \<times> codec) prog" where
  "getSchema GetLatestSchema CreateSchema topic schemaString =
     ehandle (ehandle (GetLatestSchema topic) (\<lambda>_. eret None) eret) efail (\<lambda>schema.
       case schema of
         Some s \<Rightarrow> eret s
       | None \<Rightarrow>
           ehandle (CreateSchema topic schemaString)
             (\<lambda>e. efail (WrapErr (''failed to register schema for topic '' @ topic @ '': '') e ''''))
             eret)"

definition NewProducer ::
    "(string \<Rightarrow> ('w, (i64 \<times> codec) option) prog) \<Rightarrow> (string \<Rightarrow> string \<Rightarrow> ('w, i64 \<times> codec) prog) \<Rightarrow>
     ('w, kafka_message \<Rightarrow> ('w, unit) prog) prog \<Rightarrow> string \<Rightarrow> string \<Rightarrow> (json \<Rightarrow> goerr + native) \<Rightarrow>
     'w outbox_repo \<Rightarrow> nat \<Rightarrow> int \<Rightarrow> ('w, 'w producer) prog" where
  "NewProducer GetLatestSchema CreateSchema NewSyncProducer topic schemaString ParseFunc outRepo limit maxRetries =
     ehandle (getSchema GetLatestSchema CreateSchema topic schemaString)
       (\<lambda>e. efail (WrapErr (''failed to get schema for topic '' @ topic @ '': '') e '''')) (\<lambda>schema.
     ebind NewSyncProducer (\<lambda>SendMessage.
     eret \<lparr>pr_SendMessage = SendMessage, pr_outRepo = outRepo, pr_topic = topic,
       pr_serializer = \<lparr>ts_schemaID = fst schema, ts_codec = snd schema, ts_parse = ParseFunc\<rparr>,
       pr_limit = limit, pr_maxRetries = maxRetries\<rparr>))"

subsection \<open>The workers' steps\<close>

text \<open>
  Several workers run \<open>SendEvents\<close> on the same table. A worker's remaining work is a list of tasks, one
  call to the broker or the database each; \<open>task_step\<close> does the first and gives what follows from it.
\<close>

datatype task = Send outbox | Mark outbox outbox_status | Retry outbox

definition task_step :: "'w producer \<Rightarrow> task \<Rightarrow> 'w \<Rightarrow> task list \<times> 'w" where
  "task_step p t w =
     (case t of
        Send event \<Rightarrow>
          (case eventToBytes (pr_serializer p) event of
             Inl e \<Rightarrow> ([Mark event FAILED], w)
           | Inr value \<Rightarrow>
               (case pr_SendMessage p (event_message event value) w of
                  (Inl e, w') \<Rightarrow> ([Retry event], w')
                | (Inr _, w') \<Rightarrow> ([Mark event SENT], w')))
      | Mark event st \<Rightarrow> ([], snd (or_UpdateStatus (pr_outRepo p) (ob_ID event) st w))
      | Retry event \<Rightarrow>
          (case or_IncrementRetries (pr_outRepo p) (ob_ID event) w of
             (Inl e, w') \<Rightarrow> ([], w')
           | (Inr retries, w') \<Rightarrow> (if pr_maxRetries p \<le> retries then [Mark event FAILED] else [], w')))"

text \<open>A worker that runs alone does what \<open>send_event\<close> does: three steps are enough for one event.\<close>

fun run_tasks :: "nat \<Rightarrow> 'w producer \<Rightarrow> task list \<Rightarrow> 'w \<Rightarrow> task list \<times> 'w" where
  "run_tasks n p [] w = ([], w)"
| "run_tasks n p (t # ts) w =
     (if n = 0 then (t # ts, w)
      else case task_step p t w of (follow, w') \<Rightarrow> run_tasks (n - 1) p (follow @ ts) w')"

lemma logged_run: "logged m w = (Inr (), snd (m w))"
  by (cases "m w"; cases "fst (m w)") (auto simp: logged_def ehandle_def)

lemma send_event_run: "send_event p e w = (Inr (), snd (send_event p e w))"
  by (auto simp: send_event_def markFailed_def markSent_def incrementRetries_def logged_run ehandle_def
      split: sum.splits prod.splits)

lemma run_one_event:
  "\<exists>k \<le> 3. \<forall>n. run_tasks (k + n) p (Send e # ts) w = run_tasks n p ts (snd (send_event p e w))"
proof -
  have mark: "run_tasks (Suc n) p (Mark e st # ts) w = run_tasks n p ts (snd (or_UpdateStatus (pr_outRepo p) (ob_ID e) st w))"
    for n st w by (simp add: task_step_def)
  show ?thesis
  proof (cases "eventToBytes (pr_serializer p) e")
    case (Inl err)
    then have "run_tasks (2 + n) p (Send e # ts) w = run_tasks n p ts (snd (send_event p e w))" for n
      using mark [of n FAILED w]
      by (simp add: task_step_def send_event_def markFailed_def logged_run)
    then show ?thesis by (intro exI [of _ 2]) simp
  next
    case (Inr v)
    obtain r w1 where s: "pr_SendMessage p (event_message e v) w = (r, w1)" by fastforce
    show ?thesis
    proof (cases r)
      case (Inr u)
      then have "run_tasks (2 + n) p (Send e # ts) w = run_tasks n p ts (snd (send_event p e w))" for n
        using mark [of n SENT w1] \<open>eventToBytes (pr_serializer p) e = Inr v\<close> s
        by (simp add: task_step_def send_event_def markSent_def logged_run)
      then show ?thesis by (intro exI [of _ 2]) simp
    next
      case (Inl err)
      obtain r2 w2 where i: "or_IncrementRetries (pr_outRepo p) (ob_ID e) w1 = (r2, w2)" by fastforce
      have "run_tasks ((if (\<exists>n. r2 = Inr n \<and> pr_maxRetries p \<le> n) then 3 else 2) + n) p (Send e # ts) w
          = run_tasks n p ts (snd (send_event p e w))" for n
        using mark [of n FAILED w2] \<open>eventToBytes (pr_serializer p) e = Inr v\<close> s Inl i
        by (cases r2) (auto simp: task_step_def send_event_def incrementRetries_def logged_run)
      then show ?thesis by (intro exI [of _ "if (\<exists>n. r2 = Inr n \<and> pr_maxRetries p \<le> n) then 3 else 2"]) auto
    qed
  qed
qed

lemma efor_sends:
  "\<exists>k \<le> 3 * length es. run_tasks k p (map Send es) w = ([], snd (efor (send_event p) es w))
     \<and> efor (send_event p) es w = (Inr (replicate (length es) ()), snd (efor (send_event p) es w))"
proof (induction es arbitrary: w)
  case (Cons e es)
  obtain k1 where k1: "k1 \<le> 3" "\<forall>n. run_tasks (k1 + n) p (Send e # map Send es) w
      = run_tasks n p (map Send es) (snd (send_event p e w))"
    using run_one_event [of p e "map Send es" w] by auto
  obtain k2 where k2: "k2 \<le> 3 * length es"
      "run_tasks k2 p (map Send es) (snd (send_event p e w)) = ([], snd (efor (send_event p) es (snd (send_event p e w))))"
      "efor (send_event p) es (snd (send_event p e w))
        = (Inr (replicate (length es) ()), snd (efor (send_event p) es (snd (send_event p e w))))"
    using Cons.IH [of "snd (send_event p e w)"] by auto
  have step: "efor (send_event p) (e # es) w
      = (Inr (replicate (length (e # es)) ()), snd (efor (send_event p) es (snd (send_event p e w))))"
    by (simp only: efor.simps ebind_Inr [where m = "send_event p e" and w = w, OF send_event_run]
        ebind_Inr [where m = "efor (send_event p) es" and w = "snd (send_event p e w)", OF k2(3)] eret_run) simp
  show ?case
    using k1 k2 step by (intro exI [of _ "k1 + k2"]) simp
qed simp

end
