(* ===== verification/Outbox_Queue.thy ===== *)
theory Outbox_Queue
  imports Outbox
begin

text \<open>
  The outbox as a queue: what its operations may leave in the tables when the connection fails, the
  broker, and the steps of the workers interleaved with those of the services that add rows.
\<close>

subsection \<open>Operations that fail\<close>

text \<open>An operation on the outbox that reports an error has had its effect or none.\<close>

locale outbox_queue = outbox_store O' for O' :: "'a world_scheme outbox_repo" +
  assumes Add_once: "or_Add O' topic p w = (r, w') \<Longrightarrow>
        w_db w' = w_db w \<or> w_db w' = snd (insert_outbox (w_now w div 1000 * 1000) topic p (w_db w))"
    and GetPending_same: "or_GetPending O' topic lim w = (s, w') \<Longrightarrow> w_db w' = w_db w"
    and UpdateStatus_once: "or_UpdateStatus O' i st w = (u, w') \<Longrightarrow>
        w_db w' = w_db w \<or> w_db w' = snd (update_outbox_status (w_now w div 1000 * 1000) i st (w_db w))"
    and IncrementRetries_once: "or_IncrementRetries O' i w = (n, w') \<Longrightarrow>
        w_db w' = w_db w \<or> w_db w' = snd (increment_outbox (w_now w div 1000 * 1000) i (w_db w))"

lemma run_stmt_once: "w_db (snd (run_stmt f w)) = w_db w \<or> w_db (snd (run_stmt f w)) = snd (f (w_db w))"
  by (auto simp: run_stmt_def run_with_def split: fault.splits sum.splits prod.splits)

lemma query_row_once: "w_db (snd (query_row f w)) = w_db w \<or> w_db (snd (query_row f w)) = snd (f (w_db w))"
proof -
  have "snd (query_row f w) = snd (run_stmt f w)"
    by (auto simp: query_row_def ebind_def ehandle_def split: sum.splits prod.splits option.splits)
  then show ?thesis using run_stmt_once [of f w] by simp
qed

lemma ehandle_keeps_state: "snd (ehandle m (\<lambda>e. efail (g e)) (\<lambda>x. eret (f x)) w) = snd (m w)"
  by (auto simp: ehandle_def split: sum.splits prod.splits)

lemma ehandle_keeps_state': "snd (ehandle m (\<lambda>e. efail (g e)) eret w) = snd (m w)"
  by (auto simp: ehandle_def split: sum.splits prod.splits)

lemma build_once:
  assumes "\<And>w. w_db (snd (m w)) = w_db w \<or> w_db (snd (m w)) = g (w_now w) (w_db w)"
  shows "w_db (snd (build m w)) = w_db w \<or> w_db (snd (build m w)) = g (w_now w) (w_db w)"
  using assms [of "pop_fault w"]
  by (auto simp: to_sql_def ebind_def ehandle_def split: fault.splits)

lemma sql_outbox_once:
  "w_db (snd (sql_outbox_Add topic p w)) = w_db w
     \<or> w_db (snd (sql_outbox_Add topic p w)) = snd (insert_outbox (w_now w div 1000 * 1000) topic p (w_db w))"
  "w_db (snd (sql_outbox_UpdateStatus i st w)) = w_db w
     \<or> w_db (snd (sql_outbox_UpdateStatus i st w)) = snd (update_outbox_status (w_now w div 1000 * 1000) i st (w_db w))"
  "w_db (snd (sql_outbox_IncrementRetries i w)) = w_db w
     \<or> w_db (snd (sql_outbox_IncrementRetries i w)) = snd (increment_outbox (w_now w div 1000 * 1000) i (w_db w))"
  unfolding sql_outbox_Add_def sql_outbox_UpdateStatus_def sql_outbox_IncrementRetries_def
    ehandle_keeps_state ehandle_keeps_state' sql_now_def
  by (rule query_row_once run_stmt_once)+

lemma select_outbox_same: "snd (select_outbox st topic lim d) = d"
  by (simp add: select_outbox_def)

lemma getByStatus_same:
  "w_db (snd (sql_outbox_getByStatus st topic lim w)) = w_db w"
  "w_db (snd (qb_outbox_getByStatus st topic lim w)) = w_db w"
proof -
  have run: "w_db (snd (run_stmt (select_outbox st topic lim) w)) = w_db w" for lim and w :: "'a world_scheme"
    using run_stmt_once [of "select_outbox st topic lim" w] by (simp add: select_outbox_same)
  then show "w_db (snd (sql_outbox_getByStatus st topic lim w)) = w_db w"
    by (simp add: sql_outbox_getByStatus_def ehandle_keeps_state')
  show "w_db (snd (qb_outbox_getByStatus st topic lim w)) = w_db w"
    using build_once [where w = w and g = "\<lambda>n d. d" and m = "ehandle (run_stmt (select_outbox st topic (goqu_limit lim)))
       (\<lambda>e. efail (WrapErr (''failed to get outboxes with status '' @ show_status st @ '': '') e ''''))
       eret"] run
    by (simp add: qb_outbox_getByStatus_def ehandle_keeps_state')
qed

interpretation sql_queue: outbox_queue sql_outbox_repo
proof (unfold_locales, goal_cases)
  case (1 topic p w r w')
  then show ?case using sql_outbox_once(1) [of topic p w] by (simp add: sql_repo_defs)
next
  case (2 topic lim w s w')
  then show ?case using getByStatus_same(1) [of PENDING topic lim w]
    by (simp add: sql_repo_defs sql_outbox_GetPending_def)
next
  case (3 i st w u w')
  then show ?case using sql_outbox_once(2) [of i st w] by (simp add: sql_repo_defs)
next
  case (4 i w n w')
  then show ?case using sql_outbox_once(3) [of i w] by (simp add: sql_repo_defs)
qed

interpretation qb_queue: outbox_queue qb_outbox_repo
proof (unfold_locales, goal_cases)
  case (1 topic p w r w')
  then show ?case
    using build_once [where g = "\<lambda>n d. snd (insert_outbox (n div 1000 * 1000) topic p d)" and w = w, OF sql_outbox_once(1)]
    by (simp add: qb_repo_defs qb_behind)
next
  case (2 topic lim w s w')
  then show ?case using getByStatus_same(2) [of PENDING topic lim w]
    by (simp add: qb_repo_defs qb_outbox_GetPending_def)
next
  case (3 i st w u w')
  then show ?case
    using build_once [where g = "\<lambda>n d. snd (update_outbox_status (n div 1000 * 1000) i st d)" and w = w, OF sql_outbox_once(2)]
    by (simp add: qb_repo_defs qb_behind)
next
  case (4 i w n w')
  then show ?case
    using build_once [where g = "\<lambda>n d. snd (increment_outbox (n div 1000 * 1000) i d)" and w = w, OF sql_outbox_once(3)]
    by (simp add: qb_repo_defs qb_behind)
qed

subsection \<open>The broker\<close>

text \<open>
  \<open>log\<close>: the messages the topic holds, part of the world around the database. A send that is
  acknowledged appended its message; one that fails may have.
\<close>

definition same_connection :: "'a world_scheme \<Rightarrow> 'a world_scheme \<Rightarrow> bool" where
  "same_connection w w' \<longleftrightarrow> w_db w' = w_db w \<and> w_tx w' = w_tx w \<and> w_now w' = w_now w
     \<and> w_faults w' = w_faults w \<and> w_stamp w' = w_stamp w \<and> w_map_order w' = w_map_order w"

definition broker_ok ::
    "(kafka_message \<Rightarrow> ('a world_scheme, unit) prog) \<Rightarrow> ('a \<Rightarrow> kafka_message list) \<Rightarrow> bool" where
  "broker_ok send log \<longleftrightarrow> (\<forall>m w. same_connection w (snd (send m w))
     \<and> (case fst (send m w) of
          Inr _ \<Rightarrow> log (world.more (snd (send m w))) = log (world.more w) @ [m]
        | Inl _ \<Rightarrow> log (world.more (snd (send m w))) \<in> {log (world.more w), log (world.more w) @ [m]}))"

lemma broker_okD:
  assumes "broker_ok send log" and "send m w = (r, w')"
  shows "same_connection w w'"
    and "log (world.more w') \<in> {log (world.more w), log (world.more w) @ [m]}"
    and "r = Inr u \<Longrightarrow> log (world.more w') = log (world.more w) @ [m]"
  using assms(1)[unfolded broker_ok_def, rule_format, where m = m and w = w] assms(2)
  by (auto split: sum.splits)

subsection \<open>Rows and tasks\<close>

definition same_event :: "outbox \<Rightarrow> outbox \<Rightarrow> bool" where
  "same_event e r \<longleftrightarrow> ob_ID e = ob_ID r \<and> ob_Topic e = ob_Topic r \<and> ob_Payload e = ob_Payload r"

definition delivered :: "'w producer \<Rightarrow> kafka_message list \<Rightarrow> outbox \<Rightarrow> bool" where
  "delivered p L r \<longleftrightarrow> (\<exists>v. eventToBytes (pr_serializer p) r = Inr v \<and> event_message r v \<in> set L)"

definition unreadable :: "'w producer \<Rightarrow> outbox \<Rightarrow> bool" where
  "unreadable p r \<longleftrightarrow> isl (eventToBytes (pr_serializer p) r)"

definition row_ok :: "'w producer \<Rightarrow> kafka_message list \<Rightarrow> outbox \<Rightarrow> bool" where
  "row_ok p L r \<longleftrightarrow> (ob_Status r = SENT \<longrightarrow> delivered p L r)
     \<and> (ob_Status r = FAILED \<longrightarrow> unreadable p r \<or> pr_maxRetries p \<le> ob_Retries r)"

fun task_event :: "task \<Rightarrow> outbox" where
  "task_event (Send e) = e"
| "task_event (Mark e st) = e"
| "task_event (Retry e) = e"

definition task_ok :: "'w producer \<Rightarrow> kafka_message list \<Rightarrow> outbox list \<Rightarrow> task \<Rightarrow> bool" where
  "task_ok p L rs t \<longleftrightarrow> (\<exists>r \<in> set rs. same_event (task_event t) r)
     \<and> (\<forall>e. t = Mark e SENT \<longrightarrow> delivered p L e)
     \<and> (\<forall>e. t = Mark e FAILED \<longrightarrow> unreadable p e \<or> (\<exists>r \<in> set rs. same_event e r \<and> pr_maxRetries p \<le> ob_Retries r))
     \<and> (\<forall>e. t \<noteq> Mark e PENDING)"

definition rows_kept :: "outbox list \<Rightarrow> outbox list \<Rightarrow> bool" where
  "rows_kept rs rs' \<longleftrightarrow> (\<forall>r \<in> set rs. \<exists>r' \<in> set rs'. same_event r r' \<and> ob_Retries r \<le> ob_Retries r')"

lemma same_event_refl [simp]: "same_event r r"
  by (simp add: same_event_def)

lemma same_event_trans: "same_event a b \<Longrightarrow> same_event b c \<Longrightarrow> same_event a c"
  by (simp add: same_event_def)

lemma same_event_sym: "same_event a b \<Longrightarrow> same_event b a"
  by (simp add: same_event_def)

lemma same_event_bytes:
  assumes "same_event a b"
  shows "eventToBytes s a = eventToBytes s b" and "event_message a v = event_message b v"
    and "delivered p L a = delivered p L b" and "unreadable p a = unreadable p b"
  using assms by (simp_all add: same_event_def eventToBytes_def event_message_def delivered_def unreadable_def)

lemma rows_kept_refl [simp]: "rows_kept rs rs"
  unfolding rows_kept_def by (meson order_refl same_event_refl)

lemma rows_kept_append [simp]: "rows_kept rs (rs @ new)"
  unfolding rows_kept_def by (metis Un_iff order_refl same_event_refl set_append)

lemma rows_kept_map:
  "(\<And>r. same_event r (f r) \<and> ob_Retries r \<le> ob_Retries (f r)) \<Longrightarrow> rows_kept rs (map f rs)"
  unfolding rows_kept_def by auto

lemma delivered_mono: "delivered p L r \<Longrightarrow> set L \<subseteq> set L' \<Longrightarrow> delivered p L' r"
  by (auto simp: delivered_def)

lemma row_ok_mono: "row_ok p L r \<Longrightarrow> set L \<subseteq> set L' \<Longrightarrow> row_ok p L' r"
  by (auto simp: row_ok_def intro: delivered_mono)

lemma task_ok_mono:
  assumes ok: "task_ok p L rs t" and kept: "rows_kept rs rs'" and more: "set L \<subseteq> set L'"
  shows "task_ok p L' rs' t"
proof -
  have "\<exists>r' \<in> set rs'. same_event e r' \<and> ob_Retries r \<le> ob_Retries r'" if "r \<in> set rs" "same_event e r" for e r
    using kept that by (meson rows_kept_def same_event_trans)
  note step = this
  show ?thesis unfolding task_ok_def
  proof (intro conjI allI impI)
    show "\<exists>r \<in> set rs'. same_event (task_event t) r" using ok step by (meson task_ok_def)
    show "delivered p L' e" if "t = Mark e SENT" for e
      using ok that more by (auto simp: task_ok_def intro: delivered_mono)
    show "unreadable p e \<or> (\<exists>r \<in> set rs'. same_event e r \<and> pr_maxRetries p \<le> ob_Retries r)" if "t = Mark e FAILED" for e
      using ok that step by (meson order_trans task_ok_def)
    show "t \<noteq> Mark e PENDING" for e using ok by (auto simp: task_ok_def)
  qed
qed

text \<open>Setting the status of a row, and counting a retry.\<close>

lemma row_by_id: "db_wf d \<Longrightarrow> r \<in> set (db_outbox d) \<Longrightarrow> r' \<in> set (db_outbox d) \<Longrightarrow> ob_ID r = ob_ID r' \<Longrightarrow> r = r'"
  by (auto simp: db_wf_def outbox_wf_def distinct_map inj_on_def)

lemma mark_rows:
  fixes t' :: instant
  assumes wf: "db_wf d" and ok: "\<forall>r \<in> set (db_outbox d). row_ok p L r" and t: "task_ok p L (db_outbox d) (Mark e st)"
  defines "rs' \<equiv> db_outbox (snd (update_outbox_status t' (ob_ID e) st d))"
  shows "\<forall>r \<in> set rs'. row_ok p L r" and "rows_kept (db_outbox d) rs'"
proof -
  show "rows_kept (db_outbox d) rs'"
    unfolding rs'_def by (auto simp: update_outbox_status_def same_event_def intro!: rows_kept_map)
  show "\<forall>r \<in> set rs'. row_ok p L r"
  proof
    fix r'
    assume "r' \<in> set rs'"
    then obtain r where r: "r \<in> set (db_outbox d)"
        "r' = (if ob_ID r = ob_ID e then r\<lparr>ob_Status := st, ob_UpdatedAt := t'\<rparr> else r)"
      by (auto simp: rs'_def update_outbox_status_def)
    show "row_ok p L r'"
    proof (cases "ob_ID r = ob_ID e")
      case False
      with r ok show ?thesis by simp
    next
      case True
      obtain re where "re \<in> set (db_outbox d)" "same_event e re" using t by (auto simp: task_ok_def)
      with row_by_id [OF wf r(1)] True have e: "same_event e r" by (auto simp: same_event_def)
      have ev: "same_event e r'" using e r(2) True by (simp add: same_event_def)
      have max: "pr_maxRetries p \<le> ob_Retries r" if "r0 \<in> set (db_outbox d)" "same_event e r0" "pr_maxRetries p \<le> ob_Retries r0" for r0
        using that row_by_id [OF wf r(1) that(1)] True by (auto simp: same_event_def)
      have "ob_Status r' = st" "ob_Retries r' = ob_Retries r" using r(2) True by simp_all
      with t max show ?thesis
        unfolding row_ok_def task_ok_def same_event_bytes(3,4) [OF ev, symmetric] by auto
    qed
  qed
qed

lemma increment_rows:
  assumes "\<forall>r \<in> set (db_outbox d). row_ok p L r"
  shows "\<forall>r \<in> set (db_outbox (snd (increment_outbox t i d))). row_ok p L r"
    and "rows_kept (db_outbox d) (db_outbox (snd (increment_outbox t i d)))"
proof -
  have r: "row_ok p L (r\<lparr>ob_Retries := ob_Retries r + 1, ob_UpdatedAt := t\<rparr>)" if "row_ok p L r" for r
    using that unfolding row_ok_def
    by (auto simp: delivered_def unreadable_def eventToBytes_def event_message_def)
  with assms show "\<forall>r \<in> set (db_outbox (snd (increment_outbox t i d))). row_ok p L r"
    by (auto simp: increment_outbox_def split: option.splits)
  show "rows_kept (db_outbox d) (db_outbox (snd (increment_outbox t i d)))"
    by (auto simp: increment_outbox_def same_event_def split: option.splits intro!: rows_kept_map)
qed

lemma insert_rows:
  assumes "\<forall>r \<in> set (db_outbox d). row_ok p L r"
  shows "\<forall>r \<in> set (db_outbox (snd (insert_outbox t topic j d))). row_ok p L r"
    and "rows_kept (db_outbox d) (db_outbox (snd (insert_outbox t topic j d)))"
  using assms
  by (auto simp: insert_outbox_def Let_def row_ok_def split: option.splits)

lemma increment_value:
  assumes "increment_outbox t i d = (Inr (Some n), d')"
  shows "\<exists>r \<in> set (db_outbox d'). ob_ID r = i \<and> ob_Retries r = n"
proof -
  obtain r where "find (\<lambda>r. ob_ID r = i) (db_outbox d) = Some r" "n = ob_Retries r + 1"
      "d' = d\<lparr>db_outbox := map (\<lambda>r. if ob_ID r = i then r\<lparr>ob_Retries := ob_Retries r + 1, ob_UpdatedAt := t\<rparr> else r)
                               (db_outbox d)\<rparr>"
    using assms by (auto simp: increment_outbox_def split: option.splits if_splits)
  moreover from this(1) have "r \<in> set (db_outbox d)" "ob_ID r = i" by (auto simp: find_Some_iff)
  ultimately show ?thesis
    by (intro bexI [of _ "r\<lparr>ob_Retries := ob_Retries r + 1, ob_UpdatedAt := t\<rparr>"]) auto
qed

subsection \<open>Runs of services and workers\<close>

text \<open>
  The state: the world, and what is left to do for each worker. A service adds a row; an idle worker
  reads a batch; a worker does its next task; a worker is restarted and forgets its batch; time
  passes and other faults lie ahead.
\<close>

inductive outbox_reach ::
    "('a world_scheme) producer \<Rightarrow> 'a world_scheme \<Rightarrow> 'a world_scheme \<times> (nat \<Rightarrow> task list) \<Rightarrow> bool"
  for p :: "('a world_scheme) producer" and w0 :: "'a world_scheme" where
  start: "outbox_reach p w0 (w0, \<lambda>_. [])"
| enqueue: "outbox_reach p w0 (w, pool) \<Longrightarrow> or_Add (pr_outRepo p) topic payload w = (r, w')
     \<Longrightarrow> outbox_reach p w0 (w', pool)"
| fetch: "outbox_reach p w0 (w, pool) \<Longrightarrow> pool i = []
     \<Longrightarrow> or_GetPending (pr_outRepo p) (pr_topic p) (pr_limit p) w = (Inr es, w')
     \<Longrightarrow> outbox_reach p w0 (w', pool(i := map Send es))"
| fetch_error: "outbox_reach p w0 (w, pool)
     \<Longrightarrow> or_GetPending (pr_outRepo p) (pr_topic p) (pr_limit p) w = (Inl e, w')
     \<Longrightarrow> outbox_reach p w0 (w', pool)"
| work: "outbox_reach p w0 (w, pool) \<Longrightarrow> pool i = t # ts \<Longrightarrow> task_step p t w = (follow, w')
     \<Longrightarrow> outbox_reach p w0 (w', pool(i := follow @ ts))"
| restart: "outbox_reach p w0 (w, pool) \<Longrightarrow> outbox_reach p w0 (w, pool(i := []))"
| tick: "outbox_reach p w0 (w, pool) \<Longrightarrow> w_now w \<le> now
     \<Longrightarrow> outbox_reach p w0 (w\<lparr>w_now := now, w_faults := fs\<rparr>, pool)"

definition outbox_inv ::
    "('a world_scheme) producer \<Rightarrow> ('a \<Rightarrow> kafka_message list) \<Rightarrow> 'a world_scheme \<times> (nat \<Rightarrow> task list) \<Rightarrow> bool" where
  "outbox_inv p log s \<longleftrightarrow> (case s of (w, pool) \<Rightarrow> db_wf (w_db w) \<and> \<not> in_tx w
     \<and> (\<forall>r \<in> set (db_outbox (w_db w)). row_ok p (log (world.more w)) r)
     \<and> (\<forall>i. \<forall>t \<in> set (pool i). task_ok p (log (world.more w)) (db_outbox (w_db w)) t))"

lemma outbox_inv_step:
  assumes inv: "outbox_inv p log (w, pool)" and wf: "db_wf (w_db w')" and top: "\<not> in_tx w'"
    and rows: "\<forall>r \<in> set (db_outbox (w_db w')). row_ok p (log (world.more w')) r"
    and kept: "rows_kept (db_outbox (w_db w)) (db_outbox (w_db w'))"
    and more: "set (log (world.more w)) \<subseteq> set (log (world.more w'))"
    and new: "\<And>i t. t \<in> set (pool' i) \<Longrightarrow> t \<in> set (pool i) \<or> task_ok p (log (world.more w')) (db_outbox (w_db w')) t"
  shows "outbox_inv p log (w', pool')"
  using assms task_ok_mono [OF _ kept more]
  unfolding outbox_inv_def prod.case by blast

lemma top_not_aborted: "\<not> in_tx w \<Longrightarrow> \<not> aborted w"
  using aborted_in_tx by blast

context outbox_queue
begin

lemma op_frames:
  "or_Add O' topic j w = (r1, w') \<Longrightarrow> frame w w'"
  "or_UpdateStatus O' i st w = (r2, w') \<Longrightarrow> frame w w'"
  "or_IncrementRetries O' i w = (r3, w') \<Longrightarrow> frame w w'"
  "0 < lim \<Longrightarrow> or_GetPending O' topic lim w = (r4, w') \<Longrightarrow> frame w w'"
  using keepsD [OF implements_frame [OF Add]] keepsD [OF implements_frame [OF UpdateStatus]]
    keepsD [OF implements_frame [OF IncrementRetries]] keepsD [OF implements_frame [OF GetPending]]
  by blast+

lemma frame_more: "frame w w' \<Longrightarrow> world.more w' = world.more w"
  by (simp add: frame_def same_env_def)

lemma inv_after_op:
  assumes inv: "outbox_inv p log (w, pool)" and fr: "frame w w'"
    and rows: "\<forall>r \<in> set (db_outbox (w_db w')). row_ok p (log (world.more w)) r"
    and kept: "rows_kept (db_outbox (w_db w)) (db_outbox (w_db w'))"
    and new: "\<And>i t. t \<in> set (pool' i) \<Longrightarrow> t \<in> set (pool i) \<or> task_ok p (log (world.more w)) (db_outbox (w_db w')) t"
  shows "outbox_inv p log (w', pool')"
proof (rule outbox_inv_step [OF inv])
  show "db_wf (w_db w')" "\<not> in_tx w'"
    using inv frame_wf [OF fr] frame_in_tx [OF fr] by (auto simp: outbox_inv_def)
qed (use rows kept new frame_more [OF fr] in auto)

lemma inv_enqueue:
  assumes inv: "outbox_inv p log (w, pool)" and op: "or_Add O' topic payload w = (r, w')"
  shows "outbox_inv p log (w', pool)"
proof (rule inv_after_op [OF inv op_frames(1) [OF op]])
  have ok: "\<forall>r \<in> set (db_outbox (w_db w)). row_ok p (log (world.more w)) r" using inv by (simp add: outbox_inv_def)
  then show "\<forall>r \<in> set (db_outbox (w_db w')). row_ok p (log (world.more w)) r"
    using Add_once [OF op] insert_rows(1) [OF ok] by metis
  show "rows_kept (db_outbox (w_db w)) (db_outbox (w_db w'))"
    using Add_once [OF op] insert_rows(2) [OF ok] by (metis rows_kept_refl)
qed simp

lemma inv_mark:
  assumes inv: "outbox_inv p log (w, pool)" and t: "task_ok p (log (world.more w)) (db_outbox (w_db w)) (Mark e st)"
    and op: "or_UpdateStatus O' (ob_ID e) st w = (r, w')" and sub: "\<And>i. set (pool' i) \<subseteq> set (pool i)"
  shows "outbox_inv p log (w', pool')"
proof (rule inv_after_op [OF inv op_frames(2) [OF op]])
  have wf: "db_wf (w_db w)" and ok: "\<forall>r \<in> set (db_outbox (w_db w)). row_ok p (log (world.more w)) r"
    using inv by (simp_all add: outbox_inv_def)
  show "\<forall>r \<in> set (db_outbox (w_db w')). row_ok p (log (world.more w)) r"
    using UpdateStatus_once [OF op] mark_rows(1) [OF wf ok t] ok by metis
  show "rows_kept (db_outbox (w_db w)) (db_outbox (w_db w'))"
    using UpdateStatus_once [OF op] mark_rows(2) [OF wf ok t] by (metis rows_kept_refl)
qed (use sub in blast)

lemma ready_top: "db_wf (w_db w) \<Longrightarrow> \<not> in_tx w \<Longrightarrow> ready w w"
  by (simp add: ready_def top_not_aborted)

lemma inv_retry:
  assumes inv: "outbox_inv p log (w, pool)" and t: "task_ok p (log (world.more w)) (db_outbox (w_db w)) (Retry e)"
    and op: "or_IncrementRetries O' (ob_ID e) w = (r, w')"
    and sub: "\<And>i t. t \<in> set (pool' i) \<Longrightarrow> t \<in> set (pool i) \<or> (\<exists>n. r = Inr n \<and> pr_maxRetries p \<le> n \<and> t = Mark e FAILED)"
  shows "outbox_inv p log (w', pool')"
proof (rule inv_after_op [OF inv op_frames(3) [OF op]])
  have wf: "db_wf (w_db w)" and ok: "\<forall>r \<in> set (db_outbox (w_db w)). row_ok p (log (world.more w)) r"
    and top: "\<not> in_tx w" using inv by (simp_all add: outbox_inv_def)
  show "\<forall>r \<in> set (db_outbox (w_db w')). row_ok p (log (world.more w)) r"
    using IncrementRetries_once [OF op] increment_rows(1) [OF ok] ok by metis
  show kept: "rows_kept (db_outbox (w_db w)) (db_outbox (w_db w'))"
    using IncrementRetries_once [OF op] increment_rows(2) [OF ok] by (metis rows_kept_refl)
  fix i t'
  assume "t' \<in> set (pool' i)"
  with sub consider "t' \<in> set (pool i)" | n where "r = Inr n" "pr_maxRetries p \<le> n" "t' = Mark e FAILED" by blast
  then show "t' \<in> set (pool i) \<or> task_ok p (log (world.more w)) (db_outbox (w_db w')) t'"
  proof cases
    case (2 n)
    have "ebind (increment_outbox (w_now w div 1000 * 1000) (ob_ID e))
        (\<lambda>r. case r of None \<Rightarrow> efail (Sentinel ErrNoRows) | Some n \<Rightarrow> eret n) (w_db w) = (Inr n, w_db w')"
      using implements_okD(2) [OF IncrementRetries ready_top [OF wf top]] op 2(1) by simp
    then have "increment_outbox (w_now w div 1000 * 1000) (ob_ID e) (w_db w) = (Inr (Some n), w_db w')"
      by (auto elim!: ebind_okE split: option.splits)
    then obtain r1 where r1: "r1 \<in> set (db_outbox (w_db w'))" "ob_ID r1 = ob_ID e" "ob_Retries r1 = n"
      using increment_value by blast
    have "db_wf (w_db w')" using frame_wf [OF op_frames(3) [OF op] wf] .
    moreover obtain r2 where "r2 \<in> set (db_outbox (w_db w'))" "same_event e r2"
      using t kept unfolding task_ok_def rows_kept_def task_event.simps by (meson same_event_trans)
    ultimately have "same_event e r1" using row_by_id r1 by (metis same_event_def)
    with 2 r1 show ?thesis by (auto simp: task_ok_def)
  qed simp
qed

lemma inv_send:
  assumes inv: "outbox_inv p log (w, pool)" and send: "broker_ok (pr_SendMessage p) log"
    and t: "task_ok p (log (world.more w)) (db_outbox (w_db w)) (Send e)"
    and st: "task_step p (Send e) w = (follow, w')"
    and sub: "\<And>i. set (pool' i) \<subseteq> set (pool i) \<union> set follow"
  shows "outbox_inv p log (w', pool')"
proof (cases "eventToBytes (pr_serializer p) e")
  case (Inl err)
  with st have f: "follow = [Mark e FAILED]" "w' = w" by (simp_all add: task_step_def)
  have "task_ok p (log (world.more w)) (db_outbox (w_db w)) (Mark e FAILED)"
    using t Inl by (simp add: task_ok_def unreadable_def)
  with inv sub f show ?thesis by (fastforce simp: outbox_inv_def)
next
  case (Inr v)
  obtain r w1 where s: "pr_SendMessage p (event_message e v) w = (r, w1)" by fastforce
  note b = broker_okD [OF send s]
  have w: "w' = w1" and f: "follow = (if isl r then [Retry e] else [Mark e SENT])"
    using st s Inr by (auto simp: task_step_def split: sum.splits)
  have db: "w_db w1 = w_db w" "in_tx w1 = in_tx w" using b(1) by (simp_all add: same_connection_def in_tx_def)
  have more: "set (log (world.more w)) \<subseteq> set (log (world.more w1))" using b(2) by auto
  have new: "task_ok p (log (world.more w1)) (db_outbox (w_db w)) t'" if "t' \<in> set follow" for t'
  proof (cases r)
    case (Inl e')
    then show ?thesis using that f t by (auto simp: task_ok_def)
  next
    case (Inr u)
    then have "event_message e v \<in> set (log (world.more w1))" using b(3) [of u] by simp
    then have "delivered p (log (world.more w1)) e" using \<open>eventToBytes (pr_serializer p) e = Inr v\<close> by (auto simp: delivered_def)
    with Inr that f t show ?thesis by (auto simp: task_ok_def)
  qed
  show ?thesis unfolding w
    by (rule outbox_inv_step [OF inv])
       (use inv db more new sub in \<open>auto simp: outbox_inv_def intro: row_ok_mono dest: subsetD\<close>)
qed

end

context outbox_queue
begin

lemma reach_inv:
  assumes "outbox_reach p w0 s" and "pr_outRepo p = O'" and "broker_ok (pr_SendMessage p) log" and "0 < pr_limit p"
    and "db_wf (w_db w0)" and "\<not> in_tx w0" and "\<forall>r \<in> set (db_outbox (w_db w0)). ob_Status r = PENDING"
  shows "outbox_inv p log s"
  using assms(1)
proof induction
  case start
  with assms(5-) show ?case by (auto simp: outbox_inv_def row_ok_def)
next
  case (enqueue w pool topic payload r w')
  with inv_enqueue assms(2) show ?case by metis
next
  case (fetch w pool i es w')
  then have inv: "outbox_inv p log (w, pool)" and op: "or_GetPending O' (pr_topic p) (pr_limit p) w = (Inr es, w')"
    using assms(2) by simp_all
  have "select_outbox PENDING (pr_topic p) (Some (pr_limit p)) (w_db w) = (Inr es, w_db w')"
    using implements_okD(2) [OF GetPending [OF assms(4)] ready_top op] inv by (simp add: outbox_inv_def)
  then have es: "set es \<subseteq> set (db_outbox (w_db w))"
    by (auto simp: select_outbox_def Let_def split: if_splits dest: in_set_takeD)
  then have here: "\<exists>r \<in> set (db_outbox (w_db w)). same_event e r" if "e \<in> set es" for e
    using that by (meson same_event_refl subsetD)
  show ?case
  proof (rule inv_after_op [OF inv op_frames(4) [OF assms(4) op]])
    fix j t
    assume "t \<in> set ((pool(i := map Send es)) j)"
    with es show "t \<in> set (pool j) \<or> task_ok p (log (world.more w)) (db_outbox (w_db w')) t"
      using GetPending_same [OF op] here by (auto simp: task_ok_def split: if_splits)
  qed (use inv GetPending_same [OF op] in \<open>simp_all add: outbox_inv_def\<close>)
next
  case (fetch_error w pool e w')
  then have inv: "outbox_inv p log (w, pool)" and op: "or_GetPending O' (pr_topic p) (pr_limit p) w = (Inl e, w')"
    using assms(2) by simp_all
  show ?case
    by (rule inv_after_op [OF inv op_frames(4) [OF assms(4) op]])
       (use inv GetPending_same [OF op] in \<open>simp_all add: outbox_inv_def\<close>)
next
  case (work w pool i t ts follow w')
  then have inv: "outbox_inv p log (w, pool)" and mem: "t \<in> set (pool i)"
    and rest: "\<And>j. set (if j = i then ts else pool j) \<subseteq> set (pool j)"
    by auto
  from inv mem have t: "task_ok p (log (world.more w)) (db_outbox (w_db w)) t"
    unfolding outbox_inv_def by blast
  show ?case
  proof (cases t)
    case (Send e)
    show ?thesis
      by (rule inv_send [OF inv assms(3) t[unfolded Send]]) (use work Send rest in auto)
  next
    case (Mark e st)
    obtain r where "or_UpdateStatus O' (ob_ID e) st w = (r, w')"
      using work Mark assms(2) by (auto simp: task_step_def) (metis eq_snd_iff)
    then show ?thesis
      by (rule inv_mark [OF inv t[unfolded Mark]]) (use work Mark rest in \<open>auto simp: task_step_def\<close>)
  next
    case (Retry e)
    obtain r where op: "or_IncrementRetries O' (ob_ID e) w = (r, w')"
      using work Retry assms(2) by (auto simp: task_step_def split: prod.splits sum.splits)
    show ?thesis
      by (rule inv_retry [OF inv t[unfolded Retry] op])
         (use op work Retry rest assms(2) in \<open>auto simp: task_step_def split: if_splits sum.splits\<close>)
  qed
next
  case (restart w pool i)
  then show ?case by (auto simp: outbox_inv_def)
next
  case (tick w pool now fs)
  then show ?case by (auto simp: outbox_inv_def in_tx_def)
qed

end

end
