(* ===== verification/Outbox_Drain.thy ===== *)
theory Outbox_Drain
  imports Outbox_Queue "HOL-Library.Sublist"
begin

text \<open>
  One run of \<open>SendEvents\<close> without faults of the connection: what becomes of every row, what the topic
  gains, and the outbox seen as a queue that the runs take from the front.
\<close>

definition send_fails :: "'w producer \<Rightarrow> kafka_message \<Rightarrow> bool" where
  "send_fails p m \<longleftrightarrow> (\<exists>w e w'. pr_SendMessage p m w = (Inl e, w'))"

text \<open>An unreadable row is given up; a sent one is marked; a failed send is counted, and given up at the
  last try (a count that would overflow its column is not stored).\<close>

definition row_outcome :: "'w producer \<Rightarrow> instant \<Rightarrow> kafka_message list \<Rightarrow> outbox \<Rightarrow> outbox \<Rightarrow> bool" where
  "row_outcome p now new r r' \<longleftrightarrow>
     (case eventToBytes (pr_serializer p) r of
        Inl e \<Rightarrow> r' = r\<lparr>ob_Status := FAILED, ob_UpdatedAt := now\<rparr>
      | Inr v \<Rightarrow>
          r' = r\<lparr>ob_Status := SENT, ob_UpdatedAt := now\<rparr> \<and> event_message r v \<in> set new
          \<or> send_fails p (event_message r v)
            \<and> r' = (if 2 ^ 31 \<le> ob_Retries r + 1 then r
                   else r\<lparr>ob_Status := (if pr_maxRetries p \<le> ob_Retries r + 1 then FAILED else ob_Status r),
                          ob_Retries := ob_Retries r + 1, ob_UpdatedAt := now\<rparr>))"

definition event_messages :: "'w producer \<Rightarrow> outbox \<Rightarrow> kafka_message list" where
  "event_messages p e = (case eventToBytes (pr_serializer p) e of Inl _ \<Rightarrow> [] | Inr v \<Rightarrow> [event_message e v])"

definition batch_messages :: "'w producer \<Rightarrow> outbox list \<Rightarrow> kafka_message list" where
  "batch_messages p es = concat (map (event_messages p) es)"

definition quiet :: "'a world_scheme \<Rightarrow> bool" where
  "quiet w \<longleftrightarrow> db_wf (w_db w) \<and> \<not> in_tx w \<and> w_faults w = []"

lemma row_outcome_mono: "row_outcome p now new r r' \<Longrightarrow> set new \<subseteq> set new' \<Longrightarrow> row_outcome p now new' r r'"
  by (auto simp: row_outcome_def split: sum.splits)

lemma batch_messages_simps [simp]:
  "batch_messages p [] = []" "batch_messages p (e # es) = event_messages p e @ batch_messages p es"
  "batch_messages p (es @ fs) = batch_messages p es @ batch_messages p fs"
  by (simp_all add: batch_messages_def)

lemma quiet_frame: "quiet w \<Longrightarrow> frame w w' \<Longrightarrow> quiet w'"
  using frame_in_tx frame_wf by (auto simp: quiet_def frame_def)

lemma quiet_send: "quiet w \<Longrightarrow> same_connection w w' \<Longrightarrow> quiet w'"
  by (simp add: quiet_def same_connection_def in_tx_def)

definition sql_time :: "'a world_scheme \<Rightarrow> instant" where
  "sql_time w = w_now w div 1000 * 1000"

definition replace_row :: "outbox \<Rightarrow> outbox \<Rightarrow> outbox list \<Rightarrow> outbox list" where
  "replace_row e e' rs = map (\<lambda>r. if r = e then e' else r) rs"

lemma replace_by_id:
  assumes "db_wf d" and "e \<in> set (db_outbox d)"
  shows "map (\<lambda>r. if ob_ID r = ob_ID e then f r else r) (db_outbox d) = replace_row e (f e) (db_outbox d)"
  unfolding replace_row_def
proof (intro map_cong refl)
  fix r
  assume "r \<in> set (db_outbox d)"
  then have "ob_ID r = ob_ID e \<longleftrightarrow> r = e" using row_by_id [OF assms(1) _ assms(2)] by auto
  then show "(if ob_ID r = ob_ID e then f r else r) = (if r = e then f e else r)" by simp
qed

lemma find_by_id:
  assumes "db_wf d" and "e \<in> set (db_outbox d)"
  shows "find (\<lambda>r. ob_ID r = ob_ID e) (db_outbox d) = Some e"
proof -
  have "find (\<lambda>r. ob_ID r = ob_ID e) (db_outbox d) \<noteq> None" using assms(2) by (auto simp: find_None_iff)
  then obtain r where r: "find (\<lambda>r. ob_ID r = ob_ID e) (db_outbox d) = Some r" by auto
  then have "r \<in> set (db_outbox d)" "ob_ID r = ob_ID e" by (auto simp: find_Some_iff)
  with row_by_id [OF assms(1) _ assms(2)] r show ?thesis by simp
qed

lemma increment_row:
  assumes "db_wf d" and "e \<in> set (db_outbox d)"
  shows "ebind (increment_outbox t (ob_ID e)) (\<lambda>r. case r of None \<Rightarrow> efail (Sentinel ErrNoRows) | Some n \<Rightarrow> eret n) d
    = (if 2 ^ 31 \<le> ob_Retries e + 1 then (Inl int_out_of_range, d)
       else (Inr (ob_Retries e + 1), d\<lparr>db_outbox :=
         replace_row e (e\<lparr>ob_Retries := ob_Retries e + 1, ob_UpdatedAt := t\<rparr>) (db_outbox d)\<rparr>))"
  using find_by_id [OF assms] replace_by_id [OF assms, of "\<lambda>r. r\<lparr>ob_Retries := ob_Retries r + 1, ob_UpdatedAt := t\<rparr>"]
  by (simp add: increment_outbox_def ebind_def ehandle_def)

context outbox_queue
begin

lemma quiet_ready: "quiet w \<Longrightarrow> ready w w"
  by (simp add: quiet_def ready_top)

lemma UpdateStatus_run:
  assumes "quiet w" and "e \<in> set (db_outbox (w_db w))" and "or_UpdateStatus O' (ob_ID e) st w = (r, w')"
  shows "db_outbox (w_db w') = replace_row e (e\<lparr>ob_Status := st, ob_UpdatedAt := sql_time w\<rparr>) (db_outbox (w_db w))"
    and "frame w w'"
proof -
  show "frame w w'" by (rule op_frames(2) [OF assms(3)])
  have "w_db w' = snd (update_outbox_status (sql_time w) (ob_ID e) st (w_db w))"
    using implementsD [OF UpdateStatus quiet_ready [OF assms(1)] assms(3)] assms(1)
    by (cases r) (auto simp: outcome_ok_def quiet_def update_outbox_status_def sql_time_def)
  with replace_by_id [OF _ assms(2)] assms(1)
  show "db_outbox (w_db w') = replace_row e (e\<lparr>ob_Status := st, ob_UpdatedAt := sql_time w\<rparr>) (db_outbox (w_db w))"
    by (simp add: update_outbox_status_def quiet_def)
qed

lemma IncrementRetries_run:
  assumes "quiet w" and "e \<in> set (db_outbox (w_db w))" and "or_IncrementRetries O' (ob_ID e) w = (r, w')"
  shows "2 ^ 31 \<le> ob_Retries e + 1 \<and> isl r \<and> w_db w' = w_db w
     \<or> ob_Retries e + 1 < 2 ^ 31 \<and> r = Inr (ob_Retries e + 1)
       \<and> db_outbox (w_db w') = replace_row e (e\<lparr>ob_Retries := ob_Retries e + 1, ob_UpdatedAt := sql_time w\<rparr>)
                                (db_outbox (w_db w))"
    and "frame w w'"
proof -
  show "frame w w'" by (rule op_frames(3) [OF assms(3)])
  have wf: "db_wf (w_db w)" using assms(1) by (simp add: quiet_def)
  show "2 ^ 31 \<le> ob_Retries e + 1 \<and> isl r \<and> w_db w' = w_db w
     \<or> ob_Retries e + 1 < 2 ^ 31 \<and> r = Inr (ob_Retries e + 1)
       \<and> db_outbox (w_db w') = replace_row e (e\<lparr>ob_Retries := ob_Retries e + 1, ob_UpdatedAt := sql_time w\<rparr>)
                                (db_outbox (w_db w))"
    using implementsD [OF IncrementRetries quiet_ready [OF assms(1)] assms(3), unfolded sql_time_def [symmetric]
        increment_row [OF wf assms(2)] outcome_ok_def] assms(1)
    by (cases r) (auto simp: quiet_def split: if_splits dest!: arg_cong [where f = db_outbox])
qed

end

lemma logE:
  assumes "broker_ok send log" and "send m w = (r, w')"
  obtains new where "log (world.more w') = log (world.more w) @ new" and "new = [] \<or> new = [m]" and "\<not> isl r \<longrightarrow> new = [m]"
  using broker_okD(2,3) [OF assms] by (cases r) auto

lemma row_same_time: "frame w w' \<Longrightarrow> sql_time w' = sql_time w" "same_connection w w' \<Longrightarrow> sql_time w' = sql_time w"
  by (simp_all add: sql_time_def frame_def same_env_def same_connection_def)

context outbox_queue
begin

lemma send_event_outcome:
  assumes q: "quiet w" and e: "e \<in> set (db_outbox (w_db w))" and p: "pr_outRepo p = O'"
    and b: "broker_ok (pr_SendMessage p) log" and run: "send_event p e w = (r, w')"
  obtains new e' where "quiet w'" and "sql_time w' = sql_time w"
    and "db_outbox (w_db w') = replace_row e e' (db_outbox (w_db w))"
    and "row_outcome p (sql_time w) new e e'" and "log (world.more w') = log (world.more w) @ new"
    and "new = [] \<or> new = event_messages p e" and "(\<And>m. \<not> send_fails p m) \<Longrightarrow> new = event_messages p e"
proof (cases "eventToBytes (pr_serializer p) e")
  case (Inl err)
  obtain u where u: "or_UpdateStatus O' (ob_ID e) FAILED w = (u, w')"
    using run Inl p by (cases "or_UpdateStatus O' (ob_ID e) FAILED w") (auto simp: send_event_def markFailed_def logged_run)
  note f = UpdateStatus_run [OF q e u]
  show thesis
    by (rule that [OF quiet_frame [OF q f(2)] row_same_time(1) [OF f(2)] f(1), of "[]"])
       (use Inl frame_more [OF f(2)] in \<open>auto simp: row_outcome_def event_messages_def\<close>)
next
  case (Inr v)
  obtain s w1 where s: "pr_SendMessage p (event_message e v) w = (s, w1)" by fastforce
  note c = broker_okD(1) [OF b s]
  obtain new where new: "log (world.more w1) = log (world.more w) @ new" "new = [] \<or> new = [event_message e v]"
      "\<not> isl s \<longrightarrow> new = [event_message e v]" by (rule logE [OF b s])
  have q1: "quiet w1" "sql_time w1 = sql_time w" using quiet_send [OF q c] row_same_time(2) [OF c] by simp_all
  have db1: "w_db w1 = w_db w" using c by (simp add: same_connection_def)
  have e1: "e \<in> set (db_outbox (w_db w1))" using e db1 by simp
  have ev: "event_messages p e = [event_message e v]" using Inr by (simp add: event_messages_def)
  show thesis
  proof (cases s)
    case (Inr x)
    obtain u where u: "or_UpdateStatus O' (ob_ID e) SENT w1 = (u, w')"
      using run \<open>eventToBytes _ e = Inr v\<close> s Inr p
      by (cases "or_UpdateStatus O' (ob_ID e) SENT w1") (auto simp: send_event_def markSent_def logged_run)
    note f = UpdateStatus_run [OF q1(1) e1 u]
    show thesis
      by (rule that [OF quiet_frame [OF q1(1) f(2)] _ f(1) [unfolded db1 q1(2)], of new])
         (use \<open>eventToBytes _ e = Inr v\<close> Inr new ev frame_more [OF f(2)] row_same_time(1) [OF f(2)] q1 in
          \<open>auto simp: row_outcome_def\<close>)
  next
    case (Inl err)
    then have fails: "send_fails p (event_message e v)" using s by (auto simp: send_fails_def)
    obtain i w2 where i: "or_IncrementRetries O' (ob_ID e) w1 = (i, w2)" by fastforce
    note g = IncrementRetries_run [OF q1(1) e1 i, unfolded db1 q1(2)]
    have q2: "quiet w2" "sql_time w2 = sql_time w" "world.more w2 = world.more w1"
      using quiet_frame [OF q1(1) g(2)] row_same_time(1) [OF g(2)] q1(2) frame_more [OF g(2)] by simp_all
    have run2: "incrementRetries p e w1 = (r, w')"
      using run \<open>eventToBytes _ e = Inr v\<close> s Inl by (simp add: send_event_def)
    let ?n = "ob_Retries e + 1"
    let ?e2 = "e\<lparr>ob_Retries := ?n, ob_UpdatedAt := sql_time w\<rparr>"
    consider (over) "2 ^ 31 \<le> ?n" "isl i" "w_db w2 = w_db w" "w' = w2"
      | (again) "?n < 2 ^ 31" "\<not> pr_maxRetries p \<le> ?n" "db_outbox (w_db w2) = replace_row e ?e2 (db_outbox (w_db w))" "w' = w2"
      | (last) u where "?n < 2 ^ 31" "pr_maxRetries p \<le> ?n" "db_outbox (w_db w2) = replace_row e ?e2 (db_outbox (w_db w))"
          "or_UpdateStatus O' (ob_ID e) FAILED w2 = (u, w')"
    proof -
      have w': "w' = (case i of Inl _ \<Rightarrow> w2 | Inr n \<Rightarrow>
          if pr_maxRetries p \<le> n then snd (or_UpdateStatus O' (ob_ID e) FAILED w2) else w2)"
        using run2 i p by (cases i) (auto simp: incrementRetries_def logged_run split: if_splits)
      obtain u w3 where u: "or_UpdateStatus O' (ob_ID e) FAILED w2 = (u, w3)" by fastforce
      from g(1) show ?thesis
      proof (elim disjE conjE)
        assume "2 ^ 31 \<le> ?n" "isl i" "w_db w2 = w_db w"
        with w' show ?thesis by (intro over) (auto simp: isl_def)
      next
        assume a: "?n < 2 ^ 31" "i = Inr ?n" "db_outbox (w_db w2) = replace_row e ?e2 (db_outbox (w_db w))"
        then show ?thesis
          using w' u by (cases "pr_maxRetries p \<le> ?n") (auto intro: again last)
      qed
    qed
    then show thesis
    proof cases
      case over
      then have "db_outbox (w_db w') = replace_row e e (db_outbox (w_db w))" by (simp add: replace_row_def)
      then show thesis
        by (rule that [rotated 2, of _ new])
           (use over q2 new fails Inl ev \<open>eventToBytes _ e = Inr v\<close> in \<open>auto simp: row_outcome_def send_fails_def\<close>)
    next
      case again
      then have "db_outbox (w_db w') = replace_row e ?e2 (db_outbox (w_db w))" by simp
      then show thesis
        by (rule that [rotated 2, of _ new])
           (use again q2 new fails Inl ev \<open>eventToBytes _ e = Inr v\<close> in \<open>auto simp: row_outcome_def send_fails_def\<close>)
    next
      case last
      have mem: "?e2 \<in> set (db_outbox (w_db w2))" using e last(3) by (force simp: replace_row_def)
      have u: "or_UpdateStatus O' (ob_ID ?e2) FAILED w2 = (u, w')" using last(4) by simp
      note f = UpdateStatus_run [OF q2(1) mem u]
      have "?e2 \<notin> set (db_outbox (w_db w))"
      proof
        assume "?e2 \<in> set (db_outbox (w_db w))"
        with row_by_id [OF _ e] q have "e = ?e2" by (simp add: quiet_def)
        then have "ob_Retries e = ob_Retries ?e2" by (rule arg_cong)
        then show False by simp
      qed
      then have "replace_row ?e2 e3 (replace_row e ?e2 (db_outbox (w_db w))) = replace_row e e3 (db_outbox (w_db w))" for e3
        by (auto simp: replace_row_def)
      with f(1) last(3) q2(2)
      have "db_outbox (w_db w') = replace_row e (?e2\<lparr>ob_Status := FAILED, ob_UpdatedAt := sql_time w\<rparr>) (db_outbox (w_db w))"
        by simp
      then show thesis
        by (rule that [rotated 2, of _ new])
           (use last new fails Inl ev \<open>eventToBytes _ e = Inr v\<close> quiet_frame [OF q2(1) f(2)] row_same_time(1) [OF f(2)]
              q2 frame_more [OF f(2)] in \<open>auto simp: row_outcome_def send_fails_def\<close>)
    qed
  qed
qed

end

definition row_after :: "'w producer \<Rightarrow> instant \<Rightarrow> kafka_message list \<Rightarrow> outbox list \<Rightarrow> outbox \<Rightarrow> outbox \<Rightarrow> bool" where
  "row_after p now new es r r' \<longleftrightarrow> (if r \<in> set es then row_outcome p now new r r' else r' = r)"

lemma row_outcome_id: "row_outcome p now new r r' \<Longrightarrow> ob_ID r' = ob_ID r"
  by (auto simp: row_outcome_def split: sum.splits if_splits)

lemma row_after_step:
  assumes "db_wf d" and "e \<in> set (db_outbox d)" and "set es \<subseteq> set (db_outbox d)" and "e \<notin> set es"
    and o: "row_outcome p now new1 e e'" and rest: "list_all2 (row_after p now new2 es) (replace_row e e' (db_outbox d)) rs"
  shows "list_all2 (row_after p now (new1 @ new2) (e # es)) (db_outbox d) rs"
proof -
  have e': "e' \<notin> set es"
  proof
    assume "e' \<in> set es"
    with assms(3) have "e' = e"
      using row_by_id [OF assms(1) _ assms(2)] row_outcome_id [OF o] by blast
    with \<open>e' \<in> set es\<close> assms(4) show False by simp
  qed
  have "row_after p now (new1 @ new2) (e # es) r r'"
    if "row_after p now new2 es (if r = e then e' else r) r'" for r r'
    using that assms(4) e' row_outcome_mono [OF o, of "new1 @ new2"] row_outcome_mono [of p now new2 r r' "new1 @ new2"]
    by (auto simp: row_after_def split: if_splits)
  then show ?thesis
    using rest by (auto simp: replace_row_def list_all2_map1 elim: list_all2_mono)
qed

text \<open>The pending rows of the producer's topic, oldest first.\<close>

definition queue :: "'w producer \<Rightarrow> pgdb \<Rightarrow> outbox list" where
  "queue p d = sort_key ob_CreatedAt (filter (\<lambda>r. ob_Status r = PENDING \<and> ob_Topic r = pr_topic p) (db_outbox d))"

context outbox_queue
begin

lemma batch_outcome:
  assumes "quiet w" and "distinct es" and "set es \<subseteq> set (db_outbox (w_db w))" and "pr_outRepo p = O'"
    and "broker_ok (pr_SendMessage p) log"
  shows "\<exists>us w' new. efor (send_event p) es w = (Inr us, w') \<and> quiet w' \<and> sql_time w' = sql_time w
     \<and> log (world.more w') = log (world.more w) @ new
     \<and> list_all2 (row_after p (sql_time w) new es) (db_outbox (w_db w)) (db_outbox (w_db w'))
     \<and> subseq new (batch_messages p es) \<and> ((\<forall>m. \<not> send_fails p m) \<longrightarrow> new = batch_messages p es)"
  using assms(1-3)
proof (induction es arbitrary: w)
  case Nil
  have "list_all2 (row_after p t [] []) rs rs" for t rs by (rule list_all2_refl) (simp add: row_after_def)
  with Nil show ?case by simp
next
  case (Cons e es)
  then have e: "e \<in> set (db_outbox (w_db w))" by simp
  obtain w1 where w1: "send_event p e w = (Inr (), w1)" using send_event_run by metis
  obtain new1 e' where s: "quiet w1" "sql_time w1 = sql_time w"
      "db_outbox (w_db w1) = replace_row e e' (db_outbox (w_db w))" "row_outcome p (sql_time w) new1 e e'"
      "log (world.more w1) = log (world.more w) @ new1" "new1 = [] \<or> new1 = event_messages p e"
      "(\<And>m. \<not> send_fails p m) \<Longrightarrow> new1 = event_messages p e"
    by (rule send_event_outcome [OF Cons.prems(1) e assms(4,5) w1]) blast
  have "set es \<subseteq> set (db_outbox (w_db w1))"
    using Cons.prems(2,3) s(3) by (auto simp: replace_row_def image_iff)
  then obtain us w' new2 where IH: "efor (send_event p) es w1 = (Inr us, w')" "quiet w'" "sql_time w' = sql_time w1"
      "log (world.more w') = log (world.more w1) @ new2"
      "list_all2 (row_after p (sql_time w) new2 es) (replace_row e e' (db_outbox (w_db w))) (db_outbox (w_db w'))"
      "subseq new2 (batch_messages p es)" "(\<forall>m. \<not> send_fails p m) \<longrightarrow> new2 = batch_messages p es"
    using Cons.IH [OF s(1)] Cons.prems(2) s(2,3) by auto
  have "efor (send_event p) (e # es) w = (Inr (() # us), w')" using w1 IH(1) by simp
  moreover have "list_all2 (row_after p (sql_time w) (new1 @ new2) (e # es)) (db_outbox (w_db w)) (db_outbox (w_db w'))"
    using Cons.prems by (intro row_after_step [OF _ e _ _ s(4) IH(5)]) (auto simp: quiet_def)
  moreover have "subseq (new1 @ new2) (batch_messages p (e # es))"
    using s(6) IH(6) by (auto intro: list_emb_append_mono)
  moreover have "(\<forall>m. \<not> send_fails p m) \<longrightarrow> new1 @ new2 = batch_messages p (e # es)"
    using s(7) IH(7) by simp
  ultimately show ?case using IH(2-4) s(2,5) by (intro exI [of _ "() # us"] exI [of _ w'] exI [of _ "new1 @ new2"]) simp
qed

lemma SendEvents_run:
  assumes q: "quiet w" and p: "pr_outRepo p = O'" and b: "broker_ok (pr_SendMessage p) log"
    and lim: "0 < pr_limit p" and topic: "pg_text (pr_topic p)"
  defines "es \<equiv> take (pr_limit p) (queue p (w_db w))"
  shows "\<exists>w' new. SendEvents p w = (Inr (), w') \<and> quiet w' \<and> log (world.more w') = log (world.more w) @ new
     \<and> list_all2 (row_after p (sql_time w) new es) (db_outbox (w_db w)) (db_outbox (w_db w'))
     \<and> subseq new (batch_messages p es) \<and> ((\<forall>m. \<not> send_fails p m) \<longrightarrow> new = batch_messages p es)"
proof -
  obtain r w1 where g: "or_GetPending O' (pr_topic p) (pr_limit p) w = (r, w1)" by fastforce
  have fr: "frame w w1" by (rule op_frames(4) [OF lim g])
  have sel: "select_outbox PENDING (pr_topic p) (Some (pr_limit p)) (w_db w) = (Inr es, w_db w)"
    using topic by (simp add: select_outbox_def es_def queue_def)
  have "r = Inr es \<and> w_db w1 = w_db w"
    using implementsD [OF GetPending [OF lim] quiet_ready [OF q] g] sel q
    by (cases r) (auto simp: outcome_ok_def quiet_def)
  then have r: "r = Inr es" and db: "w_db w1 = w_db w" by simp_all
  have "distinct (db_outbox (w_db w))"
    using q by (auto simp: quiet_def db_wf_def outbox_wf_def distinct_map)
  then have "distinct es" by (simp add: es_def queue_def)
  moreover have "set es \<subseteq> set (db_outbox (w_db w1))"
    unfolding db by (auto simp: es_def queue_def dest: in_set_takeD)
  ultimately obtain us w' new where "efor (send_event p) es w1 = (Inr us, w')" "quiet w'"
      "log (world.more w') = log (world.more w1) @ new"
      "list_all2 (row_after p (sql_time w1) new es) (db_outbox (w_db w1)) (db_outbox (w_db w'))"
      "subseq new (batch_messages p es)" "(\<forall>m. \<not> send_fails p m) \<longrightarrow> new = batch_messages p es"
    using batch_outcome [OF quiet_frame [OF q fr] _ _ p b] by blast
  then show ?thesis
    using g r p db frame_more [OF fr] row_same_time(1) [OF fr]
    by (intro exI [of _ w'] exI [of _ new]) (simp add: SendEvents_def)
qed

end

subsection \<open>The runs take the queue from the front\<close>

lemma queue_after:
  assumes rows: "list_all2 (row_after p now new (take n (queue p d))) (db_outbox d) (db_outbox d')"
    and dist: "distinct (db_outbox d)" and ok: "\<And>m. \<not> send_fails p m"
  shows "queue p d' = drop n (queue p d)"
proof -
  let ?P = "\<lambda>r. ob_Status r = PENDING \<and> ob_Topic r = pr_topic p"
  let ?es = "take n (queue p d)"
  have "filter ?P (db_outbox d') = filter (\<lambda>r. r \<notin> set ?es) (filter ?P (db_outbox d))"
    using rows
  proof (induction rule: list_all2_induct)
    case (Cons r rs r' rs')
    have "r \<in> set ?es \<Longrightarrow> \<not> ?P r'" "r \<notin> set ?es \<Longrightarrow> r' = r"
      using Cons(1) ok by (auto simp: row_after_def row_outcome_def split: sum.splits)
    with Cons show ?case by auto
  qed simp
  then have "queue p d' = filter (\<lambda>r. r \<notin> set ?es) (queue p d)"
    by (simp add: queue_def filter_sort)
  also have "\<dots> = filter (\<lambda>r. r \<notin> set ?es) ?es @ filter (\<lambda>r. r \<notin> set ?es) (drop n (queue p d))"
    by (metis append_take_drop_id filter_append)
  also have "filter (\<lambda>r. r \<notin> set ?es) ?es = []" by (simp add: filter_empty_conv)
  also have "filter (\<lambda>r. r \<notin> set ?es) (drop n (queue p d)) = drop n (queue p d)"
  proof -
    have "distinct (queue p d)" using dist by (simp add: queue_def)
    then have "set ?es \<inter> set (drop n (queue p d)) = {}" by (rule set_take_disj_set_drop_if_distinct) simp
    then show ?thesis by (auto intro!: filter_True)
  qed
  finally show ?thesis by simp
qed

context outbox_queue
begin

lemma SendEvents_rounds:
  assumes "quiet w" and p: "pr_outRepo p = O'" and b: "broker_ok (pr_SendMessage p) log"
    and lim: "0 < pr_limit p" and topic: "pg_text (pr_topic p)" and ok: "\<And>m. \<not> send_fails p m"
  defines "run \<equiv> \<lambda>w. snd (SendEvents p w)"
  shows "quiet ((run ^^ n) w) \<and> queue p (w_db ((run ^^ n) w)) = drop (n * pr_limit p) (queue p (w_db w))
     \<and> log (world.more ((run ^^ n) w)) = log (world.more w) @ batch_messages p (take (n * pr_limit p) (queue p (w_db w)))"
proof (induction n)
  case 0
  with assms(1) show ?case by simp
next
  case (Suc n)
  let ?w = "(run ^^ n) w" and ?q = "queue p (w_db w)"
  from Suc have q: "quiet ?w" by simp
  obtain w' new where r: "SendEvents p ?w = (Inr (), w')" "quiet w'" "log (world.more w') = log (world.more ?w) @ new"
      "list_all2 (row_after p (sql_time ?w) new (take (pr_limit p) (queue p (w_db ?w)))) (db_outbox (w_db ?w)) (db_outbox (w_db w'))"
      "new = batch_messages p (take (pr_limit p) (queue p (w_db ?w)))"
    using SendEvents_run [OF q p b lim topic] ok by blast
  have "distinct (db_outbox (w_db ?w))"
    using q by (auto simp: quiet_def db_wf_def outbox_wf_def distinct_map)
  then have "queue p (w_db w') = drop (pr_limit p) (queue p (w_db ?w))" by (rule queue_after [OF r(4) _ ok])
  moreover have "take (Suc n * pr_limit p) ?q = take (n * pr_limit p) ?q @ take (pr_limit p) (drop (n * pr_limit p) ?q)"
    by (metis take_add mult_Suc add.commute)
  ultimately show ?case using r Suc by (simp add: run_def add.commute)
qed

end

end
