(* ===== verification/Wire_Props.thy ===== *)
theory Wire_Props
  imports Kafka_Wire
begin

text \<open>
  What the producers write, the consumers read: the update that a service sends is the update that
  the next one handles.
\<close>

definition sent_text :: "link_update \<Rightarrow> link_update" where
  "sent_text u = u\<lparr>lu_URL := valid_text (lu_URL u), lu_Author := valid_text (lu_Author u),
     lu_Description := valid_text (lu_Description u)\<rparr>"

definition sent_processed :: "processed_update \<Rightarrow> processed_update" where
  "sent_processed u = u\<lparr>pu_URL := valid_text (pu_URL u), pu_Description := valid_text (pu_Description u),
     pu_Priority := valid_text (pu_Priority u)\<rparr>"

lemma wire_names [simp]:
  "fold_name ''id'' = map of_char ''id''" "fold_name ''url'' = map of_char ''url''"
  "fold_name ''author'' = map of_char ''author''" "fold_name ''description'' = map of_char ''description''"
  "fold_name ''tgChatIds'' = map of_char ''tgchatids''" "fold_name ''priority'' = map of_char ''priority''"
  by (simp_all add: fold_name_ascii fold_rune_def)

lemma dec_enc_ids [simp]: "dec_list dec_i64 0 (enc_list enc_i64 xs) old = Inr xs"
  using dec_enc_list [of xs dec_i64 enc_i64 0 "\<lambda>x. x" old] by simp

lemma dec_linkUpdate_json: "dec_raw_update (linkUpdate_json u) old = Inr (sent_text u)"
  by (simp add: dec_raw_update_def linkUpdate_json_def dec_struct_def dec_field_def sent_text_def)

lemma dec_processedUpdate_json: "dec_processed_update (processedUpdate_json u) old = Inr (sent_processed u)"
  by (simp add: dec_processed_update_def processedUpdate_json_def dec_struct_def dec_field_def sent_processed_def)

lemma raw_native:
  assumes "RawLinkUpdateToNative (linkUpdate_json u) = Inr n"
  shows "LinkUpdateFromNative n = Inr (sent_text u)"
  using assms
  by (auto simp: RawLinkUpdateToNative_def unmarshal_def dec_linkUpdate_json LinkUpdateFromNative_def entry_def
      sent_text_def)

lemma processed_native:
  assumes "ProcessedLinkUpdateToNative (processedUpdate_json u) = Inr n"
  shows "ProcessedLinkUpdateFromNative n = Inr (sent_processed u)"
  using assms
  by (auto simp: ProcessedLinkUpdateToNative_def unmarshal_def dec_processedUpdate_json
      ProcessedLinkUpdateFromNative_def entry_def sent_processed_def)

lemma eventToBytes_okE:
  assumes "eventToBytes ser e = Inr v"
  obtains n b where "ts_parse ser (ob_Payload e) = Inr n" and "BinaryFromNative (ts_codec ser) n = Inr b"
    and "v = 0 # put_uint32 (ucast (ts_schemaID ser)) @ b"
  using assms by (auto simp: eventToBytes_def split: sum.splits)

text \<open>C11. Messages survive the wire. When the producer serialised the outbox row of a link update with
  a schema that the registry serves, the agent's consumer reads exactly that update, and the bot's
  consumer exactly the processed update of the agent's row; only bytes that are not UTF-8 were replaced.
  The one reliance is that the Avro codec reads back what it wrote.\<close>

theorem wire_roundtrip:
  assumes codec: "codec_ok (ts_codec ser)"
    and reg: "getSchema (uint (ucast (ts_schemaID ser) :: 32 word)) w = (Inr (ts_codec ser), w')"
    and bytes: "eventToBytes ser e = Inr v"
  shows "(ts_parse ser = RawLinkUpdateToNative \<longrightarrow> ob_Payload e = linkUpdate_json u
            \<longrightarrow> agent_bytesToLinkUpdate getSchema v w = (Inr (sent_text u), w'))
     \<and> (ts_parse ser = ProcessedLinkUpdateToNative \<longrightarrow> ob_Payload e = processedUpdate_json p
            \<longrightarrow> bot_bytesToLinkUpdate getSchema v w = (Inr (sent_processed p), w'))"
proof -
  from bytes obtain n b where n: "ts_parse ser (ob_Payload e) = Inr n" "BinaryFromNative (ts_codec ser) n = Inr b"
    and v: "v = 0 # put_uint32 (ucast (ts_schemaID ser)) @ b" by (rule eventToBytes_okE)
  note read = bytesToUpdate_written [where getSchema = getSchema and sid = "ts_schemaID ser" and w = w and w' = w',
      OF codec n(2) reg]
  show ?thesis
    unfolding agent_bytesToLinkUpdate_def bot_bytesToLinkUpdate_def v
    using read [OF raw_native [of u]] read [OF processed_native [of p]] n(1) by auto
qed

text \<open>A registry with one schema, and a codec of one record.\<close>

definition sample_update :: link_update where
  "sample_update = \<lparr>lu_ID = 7, lu_URL = ''https://github.com/a/b'', lu_Author = ''ann'', lu_Description = ''New Issue'',
     lu_TgChatIDs = [10, 20]\<rparr>"

definition sample_processed :: processed_update where
  "sample_processed = \<lparr>pu_URL = ''https://github.com/a/b'', pu_Description = ''New Issue'', pu_Priority = ''HIGH'',
     pu_TgChatIDs = [10, 20]\<rparr>"

definition codec_for :: "native \<Rightarrow> codec" where
  "codec_for n = \<lparr>BinaryFromNative = (\<lambda>m. if m = n then Inr [1] else Inl (NewErr ''schema'')),
     NativeFromBinary = (\<lambda>b. if b = [1] then Inr n else Inl (NewErr ''short buffer''))\<rparr>"

lemma codec_for_ok: "codec_ok (codec_for n)"
  by (simp add: codec_ok_def codec_for_def)

definition sample_native :: native where
  "sample_native = (case RawLinkUpdateToNative (linkUpdate_json sample_update) of Inr n \<Rightarrow> n | Inl e \<Rightarrow> NOther)"

definition sample_serializer :: topic_serializer where
  "sample_serializer = \<lparr>ts_schemaID = 3, ts_codec = codec_for sample_native, ts_parse = RawLinkUpdateToNative\<rparr>"

definition sample_event :: outbox where
  "sample_event = \<lparr>ob_ID = 1, ob_Topic = ''raw'', ob_Payload = linkUpdate_json sample_update, ob_Status = PENDING,
     ob_Retries = 0, ob_CreatedAt = 0, ob_UpdatedAt = 0\<rparr>"

lemma wire_roundtrip_witness:
  "\<exists>v. eventToBytes sample_serializer sample_event = Inr v
     \<and> agent_bytesToLinkUpdate (\<lambda>i. if i = 3 then eret (codec_for sample_native) else efail (NewErr ''no schema'')) v ()
         = (Inr (sent_text sample_update), ())"
proof -
  let ?reg = "\<lambda>i. if i = 3 then eret (codec_for sample_native) else efail (NewErr ''no schema'') :: (unit, codec) prog"
  obtain v where v: "eventToBytes sample_serializer sample_event = Inr v"
    by (auto simp: eventToBytes_def sample_serializer_def sample_event_def codec_for_def sample_native_def
        RawLinkUpdateToNative_def unmarshal_def dec_linkUpdate_json)
  have "?reg (uint (ucast (ts_schemaID sample_serializer) :: 32 word)) () = (Inr (ts_codec sample_serializer), ())"
    by (simp add: sample_serializer_def)
  from wire_roundtrip [where getSchema = ?reg, OF _ this v, of sample_update sample_processed] v show ?thesis
    by (simp add: sample_serializer_def codec_for_ok sample_event_def)
qed

end
