(* ===== verification/Subscription_Service.thy ===== *)
theory Subscription_Service
  imports Repo_Builder
begin

text \<open>
  The subscription service (\<open>scrapper/application/subscription/service.go\<close>) over the interfaces of
  its repositories, its wiring (\<open>buildRepos\<close>, \<open>buildTransactor\<close> of \<open>scrapper/application/app.go\<close>),
  and the abstract store it implements: for every registered chat, the urls it tracks with their
  sets of tags.
\<close>

subsection \<open>The service\<close>

record 'w service =
  svc_chatRepo :: "'w chat_repo"
  svc_linkRepo :: "'w link_repo"
  svc_subRepo :: "'w sub_repo"
  svc_canHandle :: "string \<Rightarrow> bool"

definition RegisterChat :: "'a world_scheme service \<Rightarrow> i64 \<Rightarrow> ('a world_scheme, unit) prog" where
  "RegisterChat svc chatID = cr_Create (svc_chatRepo svc) chatID"

definition DeleteChat :: "'a world_scheme service \<Rightarrow> i64 \<Rightarrow> ('a world_scheme, unit) prog" where
  "DeleteChat svc chatID = cr_Delete (svc_chatRepo svc) chatID"

definition GetTrackedLinks :: "'a world_scheme service \<Rightarrow> i64 \<Rightarrow> ('a world_scheme, tracked_link list) prog" where
  "GetTrackedLinks svc chatID =
     WithinTransaction
       (ebind (cr_GetByID (svc_chatRepo svc) chatID) (\<lambda>_.
        ebind (sr_GetByChatID (svc_subRepo svc) chatID) (\<lambda>subscriptions.
        efor (\<lambda>sub.
          ebind (lr_GetByID (svc_linkRepo svc) (sub_LinkID sub)) (\<lambda>link.
          eret \<lparr>tl_ID = link_ID link, tl_URL = link_URL link, tl_Tags = sub_Tags sub\<rparr>)) subscriptions)))"

text \<open>The closure that \<open>AddLink\<close> runs in its transaction.\<close>

definition AddLink_tx ::
    "'a world_scheme service \<Rightarrow> i64 \<Rightarrow> string \<Rightarrow> string list \<Rightarrow> ('a world_scheme, link) prog" where
  "AddLink_tx svc chatID url tags =
     ebind (cr_GetByID (svc_chatRepo svc) chatID) (\<lambda>_.
     ebind
       (ehandle (lr_GetByURL (svc_linkRepo svc) url)
         (\<lambda>err. if \<not> errors_is S_ErrLinkNotFound err then efail err
                else (\<lambda>w. lr_Save (svc_linkRepo svc)
                        \<lparr>link_ID = 0, link_URL = url, link_LastUpdated = w_now w\<rparr> w))
         eret) (\<lambda>link.
     let save = ebind (sr_Save (svc_subRepo svc)
                         \<lparr>sub_ChatID = chatID, sub_LinkID = link_ID link, sub_Tags = tags\<rparr>) (\<lambda>_. eret link) in
     ehandle (sr_Exists (svc_subRepo svc) chatID (link_ID link))
       (\<lambda>_. save)
       (\<lambda>exists. if exists then efail (Sentinel S_ErrAlreadySubscribed) else save)))"

definition AddLink ::
    "'a world_scheme service \<Rightarrow> i64 \<Rightarrow> string \<Rightarrow> string list \<Rightarrow> ('a world_scheme, tracked_link) prog" where
  "AddLink svc chatID url tags =
     (if \<not> svc_canHandle svc url
      then efail (WrapErr '''' (Sentinel S_ErrURLNotSupported) ('': '' @ url))
      else ebind (WithinTransaction (AddLink_tx svc chatID url tags))
             (\<lambda>link. eret \<lparr>tl_ID = link_ID link, tl_URL = link_URL link, tl_Tags = tags\<rparr>))"

definition RemoveLink :: "'a world_scheme service \<Rightarrow> i64 \<Rightarrow> string \<Rightarrow> ('a world_scheme, tracked_link) prog" where
  "RemoveLink svc chatID url =
     WithinTransaction
       (ebind (cr_GetByID (svc_chatRepo svc) chatID) (\<lambda>_.
        ebind (lr_GetByURL (svc_linkRepo svc) url) (\<lambda>link.
        ebind (sr_Delete (svc_subRepo svc) chatID (link_ID link)) (\<lambda>subscription.
        eret \<lparr>tl_ID = link_ID link, tl_URL = link_URL link, tl_Tags = sub_Tags subscription\<rparr>))))"

text \<open>The repositories that the configured access type selects.\<close>

type_synonym 'w repos = "'w chat_repo \<times> 'w link_repo \<times> 'w sub_repo"

definition buildRepos :: "string \<Rightarrow> goerr + 'a world_scheme repos" where
  "buildRepos accessType =
     (if accessType = ''SQL'' then Inr (sql_chat_repo, sql_link_repo, sql_sub_repo)
      else if accessType = ''BUILDER'' then Inr (qb_chat_repo, qb_link_repo, qb_sub_repo)
      else Inl (NewErr (''unsupported database access type: '' @ accessType)))"

definition NewService :: "'a world_scheme repos \<Rightarrow> (string \<Rightarrow> bool) \<Rightarrow> 'a world_scheme service" where
  "NewService repos canHandle =
     (case repos of (chatRepo, linkRepo, subRepo) \<Rightarrow>
        \<lparr>svc_chatRepo = chatRepo, svc_linkRepo = linkRepo, svc_subRepo = subRepo, svc_canHandle = canHandle\<rparr>)"

subsection \<open>What the transactions do to the tables\<close>

definition find_or_create :: "(instant \<Rightarrow> instant) \<Rightarrow> instant \<Rightarrow> string \<Rightarrow> link stmt" where
  "find_or_create stamp now u =
     ehandle (link_by_url u)
       (\<lambda>e. if \<not> errors_is S_ErrLinkNotFound e then efail e
            else link_save stamp \<lparr>link_ID = 0, link_URL = u, link_LastUpdated = now\<rparr>)
       eret"

definition add_link_stmt ::
    "(instant \<Rightarrow> instant) \<Rightarrow> instant \<Rightarrow> i64 \<Rightarrow> string \<Rightarrow> string list \<Rightarrow> link stmt" where
  "add_link_stmt stamp now c u ts =
     ebind (chat_get c) (\<lambda>_.
     ebind (find_or_create stamp now u) (\<lambda>k.
     ebind (sub_exists c (link_ID k)) (\<lambda>b.
     if b then efail (Sentinel S_ErrAlreadySubscribed)
     else ebind (sub_save \<lparr>sub_ChatID = c, sub_LinkID = link_ID k, sub_Tags = ts\<rparr>) (\<lambda>_. eret k))))"

definition remove_link_stmt :: "i64 \<Rightarrow> string \<Rightarrow> tracked_link stmt" where
  "remove_link_stmt c u =
     ebind (chat_get c) (\<lambda>_.
     ebind (link_by_url u) (\<lambda>k.
     ebind (sub_delete c (link_ID k)) (\<lambda>s.
     eret \<lparr>tl_ID = link_ID k, tl_URL = link_URL k, tl_Tags = sub_Tags s\<rparr>)))"

definition list_links_stmt :: "(i64 list \<Rightarrow> i64 list) \<Rightarrow> i64 \<Rightarrow> tracked_link list stmt" where
  "list_links_stmt order c =
     ebind (chat_get c) (\<lambda>_.
     ebind (subs_by_chat order c) (\<lambda>ss.
     efor (\<lambda>s. ebind (link_get (sub_LinkID s)) (\<lambda>k.
       eret \<lparr>tl_ID = link_ID k, tl_URL = link_URL k, tl_Tags = sub_Tags s\<rparr>)) ss))"

text \<open>The service over any repositories that keep their promises.\<close>

locale stores = chats: chat_store C + links: link_store L page_key + subs: sub_store S order
  for C :: "'a world_scheme chat_repo"
    and L :: "'a world_scheme link_repo" and page_key
    and S :: "'a world_scheme sub_repo" and order +
  fixes canHandle :: "string \<Rightarrow> bool"
begin

lemma find_or_create_ok:
  "implements W
     (ehandle (lr_GetByURL L u)
       (\<lambda>err. if \<not> errors_is S_ErrLinkNotFound err then efail err
              else (\<lambda>w. lr_Save L \<lparr>link_ID = 0, link_URL = u, link_LastUpdated = w_now w\<rparr> w)) eret)
     (find_or_create (w_stamp W) (w_now W) u)" (is "implements W ?m ?a")
proof (rule implementsI)
  have sv: "keeps frame (\<lambda>w. lr_Save L \<lparr>link_ID = 0, link_URL = u, link_LastUpdated = w_now w\<rparr> w)"
    by (rule keeps_env [where f = "\<lambda>t. lr_Save L \<lparr>link_ID = 0, link_URL = u, link_LastUpdated = t\<rparr>" and g = w_now])
       (rule implements_frame [OF links.Save])
  show "keeps frame ?m"
    by (intro frames.keeps_rules sv implements_frame [OF links.GetByURL])
next
  fix w r w'
  assume env: "ready W w" and r: "?m w = (r, w')"
  from r show "outcome_ok ?a w r w'"
  proof (cases rule: ehandle_cases)
    case (ok k w1)
    with implements_okD [OF links.GetByURL env ok(1)] show ?thesis
      by (auto simp: outcome_ok_def find_or_create_def ehandle_def)
  next
    case (fail e w1)
    have fr: "frame w w1" by (rule keepsD [OF implements_frame [OF links.GetByURL] fail(1)])
    show ?thesis
    proof (cases "errors_is S_ErrLinkNotFound e")
      case False
      then have r: "r = Inl e" "w' = w1" using fail(2) by simp_all
      show ?thesis unfolding outcome_ok_def r sum.case
      proof
        assume "meaningful e \<or> w_faults w = []"
        then obtain e' where e': "link_by_url u (w_db w) = (Inl e', w_db w1)" "err_rel e e'"
          by (rule implements_errD [OF links.GetByURL env fail(1)])
        with False no_rows_rel [OF e'(2)]
        show "\<exists>e'. ?a (w_db w) = (Inl e', w_db w1) \<and> err_rel e e'"
          by (auto simp: find_or_create_def)
      qed
    next
      case True
      from implements_errD [OF links.GetByURL env fail(1)] meaningful_is [OF True]
      obtain e' where e': "link_by_url u (w_db w) = (Inl e', w_db w1)" "err_rel e e'" by blast
      have "ready W w1"
        using env links.GetByURL_not_found [OF fail(1) True]
        by (intro ready_frame [OF env fr]) (simp add: ready_def)
      moreover from this have "lr_Save L \<lparr>link_ID = 0, link_URL = u, link_LastUpdated = w_now W\<rparr> w1 = (r, w')"
        using fail(2) True by (simp add: ready_def same_env_def)
      ultimately have "outcome_ok (link_save (w_stamp W) \<lparr>link_ID = 0, link_URL = u, link_LastUpdated = w_now W\<rparr>) w1 r w'"
        by (rule implementsD [OF links.Save])
      moreover have "?a (w_db w) = link_save (w_stamp W) \<lparr>link_ID = 0, link_URL = u, link_LastUpdated = w_now W\<rparr> (w_db w1)"
        using e' True by (auto simp: find_or_create_def ehandle_def err_rel_def)
      moreover have "w_faults w = [] \<longrightarrow> w_faults w1 = []" using fr by (simp add: frame_def)
      ultimately show ?thesis by (cases r) (auto simp: outcome_ok_def)
    qed
  qed
qed

lemma sub_save_ok_new: "sub_save s d = (Inr x, d') \<Longrightarrow> (sub_ChatID s, sub_LinkID s) \<notin> set (db_subs d)"
  by (auto simp: sub_save_def ehandle_def insert_sub_def split: if_splits)

lemma sub_save_dup:
  "(sub_ChatID s, sub_LinkID s) \<in> set (db_subs d) \<Longrightarrow> sub_save s d = (Inl (Sentinel S_ErrAlreadySubscribed), d)"
  by (simp add: sub_save_def ehandle_def insert_sub_def)

text \<open>The answer of \<open>Exists\<close> is ignored when it is an error: the insertion then decides, and in an
  aborted transaction it fails.\<close>

lemma check_and_save_ok:
  fixes s k
  defines "save \<equiv> ebind (sr_Save S s) (\<lambda>_. eret k)"
    and "savea \<equiv> ebind (sub_save s) (\<lambda>_. eret k)"
  shows "implements W
     (ehandle (sr_Exists S (sub_ChatID s) (sub_LinkID s)) (\<lambda>_. save)
       (\<lambda>b. if b then efail (Sentinel S_ErrAlreadySubscribed) else save))
     (ebind (sub_exists (sub_ChatID s) (sub_LinkID s))
       (\<lambda>b. if b then efail (Sentinel S_ErrAlreadySubscribed) else savea))"
    (is "implements W (ehandle ?ex _ ?cont) (ebind ?exa ?conta)")
proof (rule implementsI)
  have save: "implements W save savea"
    unfolding save_def savea_def by (intro implements_ebind subs.Save implements_eret)
  then have cont: "implements W (?cont b) (?conta b)" for b
    by (auto intro: implements_efail)
  show "keeps frame (ehandle ?ex (\<lambda>_. save) ?cont)"
    by (intro frames.keeps_rules implements_frame [OF subs.Exists] implements_frame [OF save])
  fix w r w'
  assume env: "ready W w" and r: "ehandle ?ex (\<lambda>_. save) ?cont w = (r, w')"
  from r show "outcome_ok (ebind ?exa ?conta) w r w'"
  proof (cases rule: ehandle_cases)
    case (ok b w1)
    then have "ebind ?ex ?cont w = (r, w')" by simp
    with implements_ebind [OF subs.Exists cont] env show ?thesis by (rule implementsD)
  next
    case (fail e w1)
    note e = subs.Exists_error [OF fail(1)]
    have fr: "frame w w1" by (rule keepsD [OF implements_frame [OF subs.Exists] fail(1)])
    have nf: "w_faults w \<noteq> []"
      using implements_errD [OF subs.Exists env fail(1)] e by (auto simp: sub_exists_def)
    show ?thesis
    proof (cases "aborted w1")
      case True
      then obtain e' where "r = Inl e'" and "\<not> meaningful e'"
        using fail(2) subs.Save_aborted [OF True] unfolding save_def
        by (cases "sr_Save S s w1") (fastforce simp: ebind_def ehandle_def)
      then show ?thesis using nf by (simp add: outcome_ok_def)
    next
      case False
      have "outcome_ok savea w1 r w'"
        by (rule implementsD [OF save ready_frame [OF env fr False] fail(2)])
      moreover have "ebind ?exa ?conta (w_db w) =
          (if (sub_ChatID s, sub_LinkID s) \<in> set (db_subs (w_db w))
           then (Inl (Sentinel S_ErrAlreadySubscribed), w_db w) else savea (w_db w))"
        by (simp add: ebind_def ehandle_def sub_exists_def)
      moreover have "savea (w_db w) = (Inl (Sentinel S_ErrAlreadySubscribed), w_db w)"
        if "(sub_ChatID s, sub_LinkID s) \<in> set (db_subs (w_db w))"
        using sub_save_dup [OF that] by (simp add: savea_def)
      ultimately show ?thesis using nf e by (cases r) (auto simp: outcome_ok_def split: if_splits)
    qed
  qed
qed

definition svc :: "'a world_scheme service" where
  "svc = \<lparr>svc_chatRepo = C, svc_linkRepo = L, svc_subRepo = S, svc_canHandle = canHandle\<rparr>"

lemma RegisterChat_implements: "implements W (RegisterChat svc c) (chat_create c)"
  by (simp add: RegisterChat_def svc_def chats.Create)

lemma DeleteChat_implements: "implements W (DeleteChat svc c) (chat_delete c)"
  by (simp add: DeleteChat_def svc_def chats.Delete)

lemma AddLink_tx_implements:
  "implements W (AddLink_tx svc c u ts) (add_link_stmt (w_stamp W) (w_now W) c u ts)"
  unfolding add_link_stmt_def AddLink_tx_def svc_def service.simps
proof (intro implements_ebind chats.GetByID find_or_create_ok)
  fix k
  show "implements W
      (let save = ebind (sr_Save S \<lparr>sub_ChatID = c, sub_LinkID = link_ID k, sub_Tags = ts\<rparr>) (\<lambda>_. eret k) in
       ehandle (sr_Exists S c (link_ID k)) (\<lambda>_. save)
        (\<lambda>exists. if exists then efail (Sentinel S_ErrAlreadySubscribed) else save))
      (ebind (sub_exists c (link_ID k))
        (\<lambda>b. if b then efail (Sentinel S_ErrAlreadySubscribed)
           else ebind (sub_save \<lparr>sub_ChatID = c, sub_LinkID = link_ID k, sub_Tags = ts\<rparr>) (\<lambda>_. eret k)))"
    using check_and_save_ok [of W "\<lparr>sub_ChatID = c, sub_LinkID = link_ID k, sub_Tags = ts\<rparr>" k]
    by (simp add: Let_def)
qed

lemma AddLink_outcome:
  assumes "db_wf (w_db w)" and "\<not> in_tx w" and "canHandle u" and "AddLink svc c u ts w = (r, w')"
  obtains r0 where "tx_outcome (add_link_stmt (w_stamp w) (w_now w) c u ts) w r0 w'"
    and "r = map_sum (\<lambda>e. e) (\<lambda>k. \<lparr>tl_ID = link_ID k, tl_URL = link_URL k, tl_Tags = ts\<rparr>) r0"
proof -
  obtain r0 w0 where b: "WithinTransaction (AddLink_tx svc c u ts) w = (r0, w0)"
    by (cases "WithinTransaction (AddLink_tx svc c u ts) w")
  have "svc_canHandle svc u" using assms(3) by (simp add: svc_def)
  then have "w' = w0" and "r = map_sum (\<lambda>e. e) (\<lambda>k. \<lparr>tl_ID = link_ID k, tl_URL = link_URL k, tl_Tags = ts\<rparr>) r0"
    using assms(4) b unfolding AddLink_def by (cases r0; simp)+
  moreover have "tx_outcome (add_link_stmt (w_stamp w) (w_now w) c u ts) w r0 w0"
    by (rule within_outcome [OF AddLink_tx_implements assms(1,2) b])
  ultimately show thesis using that by simp
qed

lemma RemoveLink_outcome:
  assumes "db_wf (w_db w)" and "\<not> in_tx w" and "RemoveLink svc c u w = (r, w')"
  shows "tx_outcome (remove_link_stmt c u) w r w'"
proof (rule within_outcome [OF _ assms(1,2)])
  show "implements w
      (ebind (cr_GetByID C c) (\<lambda>_. ebind (lr_GetByURL L u) (\<lambda>link.
        ebind (sr_Delete S c (link_ID link)) (\<lambda>subscription.
        eret \<lparr>tl_ID = link_ID link, tl_URL = link_URL link, tl_Tags = sub_Tags subscription\<rparr>))))
      (remove_link_stmt c u)"
    unfolding remove_link_stmt_def
    by (intro implements_ebind chats.GetByID links.GetByURL subs.Delete implements_eret)
qed (use assms(3) in \<open>simp add: RemoveLink_def svc_def\<close>)

lemma GetTrackedLinks_outcome:
  assumes "db_wf (w_db w)" and "\<not> in_tx w" and "map_order_ok w" and "GetTrackedLinks svc c w = (r, w')"
  shows "tx_outcome (list_links_stmt (order w) c) w r w'"
proof (rule within_outcome [OF _ assms(1,2)])
  show "implements w
      (ebind (cr_GetByID C c) (\<lambda>_. ebind (sr_GetByChatID S c) (\<lambda>subscriptions.
        efor (\<lambda>sub. ebind (lr_GetByID L (sub_LinkID sub)) (\<lambda>link.
          eret \<lparr>tl_ID = link_ID link, tl_URL = link_URL link, tl_Tags = sub_Tags sub\<rparr>)) subscriptions)))
      (list_links_stmt (order w) c)"
    unfolding list_links_stmt_def
    by (intro implements_ebind implements_efor chats.GetByID links.GetByID subs.GetByChatID implements_eret assms(3))
qed (use assms(4) in \<open>simp add: GetTrackedLinks_def svc_def\<close>)

end

interpretation sql_svc: stores sql_chat_repo sql_link_repo link_LastUpdated sql_sub_repo w_map_order canHandle
  for canHandle
  by unfold_locales

interpretation qb_svc: stores qb_chat_repo qb_link_repo "\<lambda>k. sint (link_ID k)" qb_sub_repo "\<lambda>W ks. ks" canHandle
  for canHandle
  by unfold_locales

end
