(* ===== verification/Tracking.thy ===== *)
theory Tracking
  imports Subscription_Service
begin

text \<open>
  The abstract store of the scrapper: every registered chat with the urls it tracks and their sets
  of tags. The transactions of the subscription service are shown to be its operations.
\<close>

type_synonym tracking = "i64 \<rightharpoonup> (string \<rightharpoonup> string set)"

definition tracked :: "pgdb \<Rightarrow> i64 \<Rightarrow> string \<rightharpoonup> string set" where
  "tracked d c u =
     (case find (\<lambda>k. link_URL k = u) (db_links d) of
        None \<Rightarrow> None
      | Some k \<Rightarrow> if (c, link_ID k) \<in> set (db_subs d) then Some (set (tags_of d c (link_ID k))) else None)"

definition abs_db :: "pgdb \<Rightarrow> tracking" where
  "abs_db d c = (if c \<in> set (db_chats d) then Some (tracked d c) else None)"

lemma tags_of_set: "t \<in> set (tags_of d c l) \<longleftrightarrow> (c, l, t) \<in> set (db_tags d)"
  by (force simp: tags_of_def)

lemma tracked_cong:
  assumes "db_links d' = db_links d" and "db_subs d' = db_subs d" and "db_tags d' = db_tags d"
  shows "tracked d' = tracked d"
  by (intro ext) (simp only: tracked_def tags_of_def assms)

lemma same_tables_tracked: "same_tables d d' \<Longrightarrow> tracked d' = tracked d"
  by (rule tracked_cong) (simp_all add: same_tables_iff)

lemma same_tables_abs: "same_tables d d' \<Longrightarrow> abs_db d' = abs_db d"
  by (rule ext) (simp add: abs_db_def same_tables_tracked, simp add: same_tables_iff)

lemma find_url:
  "db_wf d \<Longrightarrow> k \<in> set (db_links d) \<Longrightarrow> find (\<lambda>x. link_URL x = link_URL k) (db_links d) = Some k"
  by (rule find_key_Some) (auto simp: db_wf_def links_wf_def)

lemma find_id:
  "db_wf d \<Longrightarrow> k \<in> set (db_links d) \<Longrightarrow> find (\<lambda>x. link_ID x = link_ID k) (db_links d) = Some k"
  by (rule find_key_Some) (auto simp: db_wf_def links_wf_def)

lemma link_id_inj: "db_wf d \<Longrightarrow> k \<in> set (db_links d) \<Longrightarrow> k' \<in> set (db_links d) \<Longrightarrow> link_ID k = link_ID k' \<Longrightarrow> k = k'"
  by (auto simp: db_wf_def links_wf_def distinct_map inj_on_def)

lemma link_url_inj: "db_wf d \<Longrightarrow> k \<in> set (db_links d) \<Longrightarrow> k' \<in> set (db_links d) \<Longrightarrow> link_URL k = link_URL k' \<Longrightarrow> k = k'"
  by (auto simp: db_wf_def links_wf_def distinct_map inj_on_def)

lemma sub_refs:
  assumes "db_wf d" and "(c, l) \<in> set (db_subs d)"
  obtains k where "k \<in> set (db_links d)" and "link_ID k = l" and "c \<in> set (db_chats d)"
proof -
  have "list_all (\<lambda>s. fst s \<in> set (db_chats d) \<and> snd s \<in> link_ID ` set (db_links d)) (db_subs d)"
    using assms(1) by (simp add: db_wf_def subs_wf_def)
  from this [unfolded list_all_iff, rule_format, OF assms(2)] that show thesis by auto
qed

lemma tag_refs:
  assumes "db_wf d" and "(c, l, t) \<in> set (db_tags d)"
  shows "(c, l) \<in> set (db_subs d)"
proof -
  have "list_all (\<lambda>(c, l, t). (c, l) \<in> set (db_subs d) \<and> varchar_ok t) (db_tags d)"
    using assms(1) by (simp add: db_wf_def tags_wf_def)
  from this [unfolded list_all_iff, rule_format, OF assms(2)] show ?thesis by simp
qed

text \<open>What a chat tracks, by the rows.\<close>

lemma tracked_iff:
  assumes "db_wf d"
  shows "tracked d c u = Some T \<longleftrightarrow>
    (\<exists>k \<in> set (db_links d). link_URL k = u \<and> (c, link_ID k) \<in> set (db_subs d) \<and> T = set (tags_of d c (link_ID k)))"
proof
  assume "tracked d c u = Some T"
  then obtain k where "find (\<lambda>k. link_URL k = u) (db_links d) = Some k"
    "(c, link_ID k) \<in> set (db_subs d)" "T = set (tags_of d c (link_ID k))"
    by (auto simp: tracked_def split: option.splits if_splits)
  with find_key_D [of link_URL u "db_links d" k]
  show "\<exists>k \<in> set (db_links d). link_URL k = u \<and> (c, link_ID k) \<in> set (db_subs d) \<and> T = set (tags_of d c (link_ID k))"
    by auto
next
  assume "\<exists>k \<in> set (db_links d). link_URL k = u \<and> (c, link_ID k) \<in> set (db_subs d) \<and> T = set (tags_of d c (link_ID k))"
  then show "tracked d c u = Some T"
    using find_url [OF assms] by (auto simp: tracked_def)
qed

lemma tracked_unregistered: "db_wf d \<Longrightarrow> c \<notin> set (db_chats d) \<Longrightarrow> tracked d c = Map.empty"
proof (rule ext)
  fix u
  assume wf: "db_wf d" and c: "c \<notin> set (db_chats d)"
  show "tracked d c u = None"
  proof (rule ccontr)
    assume "tracked d c u \<noteq> None"
    then obtain T where "tracked d c u = Some T" by auto
    then obtain k :: link where "(c, link_ID k) \<in> set (db_subs d)" unfolding tracked_iff [OF wf] by blast
    then show False using c by (elim sub_refs [OF wf]) simp
  qed
qed

subsection \<open>Chats\<close>

lemma chat_create_abs:
  assumes "db_wf d" and "chat_create c d = (Inr x, d')"
  shows "abs_db d c = None \<and> abs_db d' = (abs_db d)(c \<mapsto> Map.empty)"
proof -
  from assms(2) have c: "c \<notin> set (db_chats d)" and d': "d' = d\<lparr>db_chats := db_chats d @ [c]\<rparr>"
    by (auto simp: chat_create_def split: if_splits)
  have "tracked d' = tracked d" unfolding d' by (rule tracked_cong) simp_all
  with c d' tracked_unregistered [OF assms(1) c] show ?thesis
    by (auto simp: abs_db_def fun_eq_iff)
qed

lemma delete_subs_tracked:
  assumes wf: "db_wf d"
  shows "tracked (delete_subs P d) c u =
    (case find (\<lambda>k. link_URL k = u) (db_links d) of
       None \<Rightarrow> None | Some k \<Rightarrow> if P (c, link_ID k) then None else tracked d c u)"
proof (cases "find (\<lambda>k. link_URL k = u) (db_links d)")
  case None
  then have "\<forall>k \<in> set (db_links d). link_URL k \<noteq> u" by (auto simp: find_None_iff)
  then have "find (\<lambda>k. link_URL k = u) (db_links (delete_subs P d)) = None"
    by (auto simp: find_None_iff delete_subs_links)
  with None show ?thesis by (simp add: tracked_def)
next
  case (Some k)
  note k = find_key_D [of link_URL, OF Some]
  have wf': "db_wf (delete_subs P d)" by (rule delete_subs_wf [OF wf])
  show ?thesis
  proof (cases "(c, link_ID k) \<in> set (db_subs d) \<and> \<not> P (c, link_ID k)")
    case True
    then have "k \<in> set (db_links (delete_subs P d))" using k by (force simp: delete_subs_links)
    then have "find (\<lambda>k. link_URL k = u) (db_links (delete_subs P d)) = Some k"
      using find_url [OF wf'] k by blast
    moreover have "set (tags_of (delete_subs P d) c (link_ID k)) = set (tags_of d c (link_ID k))"
      using True by (auto simp: tags_of_set delete_subs_tags)
    ultimately show ?thesis using Some True by (simp add: tracked_def)
  next
    case False
    have "tracked (delete_subs P d) c u = None"
    proof (rule ccontr)
      assume "tracked (delete_subs P d) c u \<noteq> None"
      then obtain T where "tracked (delete_subs P d) c u = Some T" by auto
      then obtain k' where k': "k' \<in> set (db_links (delete_subs P d))" "link_URL k' = u"
        "(c, link_ID k') \<in> set (db_subs (delete_subs P d))"
        unfolding tracked_iff [OF wf'] by blast
      then have "k' = k" using link_url_inj [OF wf] k by (auto simp: delete_subs_links)
      with k' False show False by auto
    qed
    with Some False show ?thesis by (auto simp: tracked_def)
  qed
qed

lemma chat_delete_abs:
  assumes "db_wf d" and "chat_delete c d = (Inr x, d')"
  shows "abs_db d c \<noteq> None \<and> abs_db d' = (abs_db d)(c := None)"
proof -
  from assms(2) have c: "c \<in> set (db_chats d)"
    and d': "d' = (delete_subs (\<lambda>s. fst s = c) d)
                   \<lparr>db_chats := filter (\<lambda>x. x \<noteq> c) (db_chats d),
                    db_sessions := filter (\<lambda>s. fst s \<noteq> c) (db_sessions d)\<rparr>"
    by (auto simp: chat_delete_def delete_chat_def split: if_splits)
  have "tracked d' = tracked (delete_subs (\<lambda>s. fst s = c) d)"
    unfolding d' by (rule tracked_cong) simp_all
  then have "tracked d' c' = tracked d c'" if "c' \<noteq> c" for c'
    using delete_subs_tracked [OF assms(1)] that
    by (auto simp: fun_eq_iff tracked_def split: option.split)
  with c d' show ?thesis by (auto simp: abs_db_def fun_eq_iff)
qed

subsection \<open>Links\<close>

lemma link_by_url_ok:
  "link_by_url u d = (Inr k, d') \<longleftrightarrow> pg_text u \<and> d' = d \<and> find (\<lambda>k. link_URL k = u) (db_links d) = Some k"
  by (auto simp: link_by_url_def split: option.splits)

text \<open>Finding or creating the link of a url changes nothing that is tracked.\<close>

lemma find_or_create_abs:
  assumes wf: "db_wf d" and r: "find_or_create stamp now u d = (Inr k, d')"
  shows "pg_text u \<and> link_URL k = u \<and> k \<in> set (db_links d') \<and> tracked d' = tracked d
    \<and> db_chats d' = db_chats d \<and> db_subs d' = db_subs d \<and> db_tags d' = db_tags d \<and> db_wf d'
    \<and> set (db_links d') = insert k (set (db_links d))"
proof (cases "find (\<lambda>k. link_URL k = u) (db_links d)")
  case (Some k')
  with r have "k' = k" "d' = d" "pg_text u"
    by (auto simp: find_or_create_def ehandle_def link_by_url_def link_save_def upsert_link_def split: if_splits)
  with find_key_D [OF Some] wf show ?thesis by auto
next
  case None
  with r obtain i where i: "pg_text u" "next_id (db_link_seq d) = Some i"
      "k = \<lparr>link_ID = i, link_URL = u, link_LastUpdated = stamp now\<rparr>"
      "d' = d\<lparr>db_link_seq := db_link_seq d + 1, db_links := db_links d @ [k]\<rparr>"
    by (auto simp: find_or_create_def ehandle_def link_by_url_def link_save_def upsert_link_def Let_def
        split: if_splits option.splits)
  have ls: "link_save stamp \<lparr>link_ID = 0, link_URL = u, link_LastUpdated = now\<rparr> d = (Inr k, d')"
    using None i by (simp add: link_save_def upsert_link_def Let_def)
  have "snd (upsert_link u (stamp now) d) = d'"
    using ls by (auto simp: link_save_def split: prod.splits sum.splits)
  then have wf': "db_wf d'"
    using wf sound_upsert_link [of u "stamp now"] by (auto simp: sound_stmt_def)
  have fresh: "i \<notin> link_ID ` set (db_links d)"
    using wf by (intro next_id_fresh [OF i(2)]) (auto simp: db_wf_def links_wf_def list_all_iff)
  have "tracked d' c v = tracked d c v" for c v
  proof -
    have "(c, i) \<notin> set (db_subs d)" using sub_refs [OF wf, of c i] fresh by force
    then show ?thesis
      using None i by (auto simp: tracked_def tags_of_def find_append split: option.splits)
  qed
  then have "tracked d' = tracked d" by (intro ext)
  with i wf' show ?thesis by auto
qed

subsection \<open>Subscriptions\<close>

definition tags_ok :: "string list \<Rightarrow> bool" where
  "tags_ok ts \<longleftrightarrow> distinct ts \<and> list_all (\<lambda>t. pg_text t \<and> varchar_ok t) ts"

lemma batch_insert_tags:
  assumes "(c, l) \<in> set (db_subs d)"
  shows "batch_stmt (insert_tag False c l) ts d = (None, d') \<longleftrightarrow>
    tags_ok ts \<and> list_all (\<lambda>t. (c, l, t) \<notin> set (db_tags d)) ts
    \<and> d' = d\<lparr>db_tags := db_tags d @ map (\<lambda>t. (c, l, t)) ts\<rparr>"
  using assms
proof (induction ts arbitrary: d)
  case (Cons t ts)
  show ?case
  proof (cases "pg_text t \<and> varchar_ok t \<and> (c, l, t) \<notin> set (db_tags d)")
    case True
    let ?d = "d\<lparr>db_tags := db_tags d @ [(c, l, t)]\<rparr>"
    have "insert_tag False c l t d = (Inr (), ?d)" using True Cons.prems by (simp add: insert_tag_def)
    moreover have "(c, l) \<in> set (db_subs ?d)" using Cons.prems by simp
    note Cons.IH [OF this]
    ultimately show ?thesis using True by (auto simp: tags_ok_def list_all_iff)
  next
    case False
    then show ?thesis by (auto simp: insert_tag_def tags_ok_def)
  qed
qed (auto simp: tags_ok_def)

lemma insert_tags_ok:
  assumes "(c, l) \<in> set (db_subs d)"
  shows "insert_tags False c l ts d = (Inr x, d') \<longleftrightarrow>
    tags_ok ts \<and> list_all (\<lambda>t. (c, l, t) \<notin> set (db_tags d)) ts
    \<and> d' = d\<lparr>db_tags := db_tags d @ map (\<lambda>t. (c, l, t)) ts\<rparr>"
proof (cases "ts = []")
  case True
  then show ?thesis by (auto simp: insert_tags_def tags_ok_def)
next
  case False
  then show ?thesis
    using batch_insert_tags [OF assms, of ts d']
    by (auto simp: insert_tags_def batch_as_stmt_def split: prod.splits option.splits)
qed

lemma sub_save_ok:
  assumes "db_wf d"
  shows "sub_save \<lparr>sub_ChatID = c, sub_LinkID = l, sub_Tags = ts\<rparr> d = (Inr x, d') \<longleftrightarrow>
    (c, l) \<notin> set (db_subs d) \<and> c \<in> set (db_chats d) \<and> l \<in> link_ID ` set (db_links d) \<and> tags_ok ts
    \<and> d' = d\<lparr>db_subs := db_subs d @ [(c, l)], db_tags := db_tags d @ map (\<lambda>t. (c, l, t)) ts\<rparr>"
proof (cases "(c, l) \<notin> set (db_subs d) \<and> c \<in> set (db_chats d) \<and> l \<in> link_ID ` set (db_links d)")
  case True
  then have "insert_sub c l d = (Inr (), d\<lparr>db_subs := db_subs d @ [(c, l)]\<rparr>)"
    by (simp add: insert_sub_def)
  moreover have "(c, l, t) \<notin> set (db_tags d)" for t using tag_refs [OF assms] True by blast
  ultimately show ?thesis
    using True insert_tags_ok [of c l "d\<lparr>db_subs := db_subs d @ [(c, l)]\<rparr>" ts x d']
    by (simp add: sub_save_def list_all_iff)
next
  case False
  then show ?thesis by (auto simp: sub_save_def ehandle_def insert_sub_def split: if_splits)
qed

lemma saved_sub_tracked:
  assumes wf: "db_wf d" and k: "k \<in> set (db_links d)" and new: "(c, link_ID k) \<notin> set (db_subs d)"
    and d': "d' = d\<lparr>db_subs := db_subs d @ [(c, link_ID k)], db_tags := db_tags d @ map (\<lambda>t. (c, link_ID k, t)) ts\<rparr>"
  shows "tracked d' = (tracked d)(c := (tracked d c)(link_URL k \<mapsto> set ts))"
proof (intro ext)
  fix c' u
  have tags: "set (tags_of d' a b) = (if (a, b) = (c, link_ID k) then set ts else set (tags_of d a b))" for a b
    using tag_refs [OF wf] new by (auto simp: d' set_eq_iff tags_of_set)
  show "tracked d' c' u = ((tracked d)(c := (tracked d c)(link_URL k \<mapsto> set ts))) c' u"
  proof (cases "find (\<lambda>k. link_URL k = u) (db_links d)")
    case None
    with k have "link_URL k \<noteq> u" by (auto simp: find_None_iff)
    with None show ?thesis by (auto simp: tracked_def d')
  next
    case (Some k')
    note k' = find_key_D [of link_URL, OF Some]
    show ?thesis
    proof (cases "k' = k")
      case True
      with Some k' tags show ?thesis by (auto simp: tracked_def d')
    next
      case False
      then have "link_ID k' \<noteq> link_ID k" "link_URL k' \<noteq> link_URL k"
        using link_id_inj [OF wf] link_url_inj [OF wf] k k' by blast+
      with Some k' tags show ?thesis by (auto simp: tracked_def d')
    qed
  qed
qed

theorem add_link_abs:
  assumes wf: "db_wf d" and r: "add_link_stmt stamp now c u ts d = (Inr k, d')"
  shows "c \<in> set (db_chats d) \<and> pg_text u \<and> tracked d c u = None \<and> tags_ok ts \<and> link_URL k = u
    \<and> abs_db d' = (abs_db d)(c \<mapsto> (tracked d c)(u \<mapsto> set ts)) \<and> (no_orphans d \<longrightarrow> no_orphans d')"
proof -
  from r obtain d1 where c: "c \<in> set (db_chats d)" and fc: "find_or_create stamp now u d = (Inr k, d1)"
    and new: "(c, link_ID k) \<notin> set (db_subs d1)"
    and sv: "sub_save \<lparr>sub_ChatID = c, sub_LinkID = link_ID k, sub_Tags = ts\<rparr> d1 = (Inr (), d')"
    by (auto simp: add_link_stmt_def chat_get_def sub_exists_def elim!: ebind_okE split: if_splits)
  note f = find_or_create_abs [OF wf fc]
  then have wf1: "db_wf d1" and k: "k \<in> set (db_links d1)" by auto
  from sv sub_save_ok [OF wf1] have d': "d' = d1\<lparr>db_subs := db_subs d1 @ [(c, link_ID k)],
      db_tags := db_tags d1 @ map (\<lambda>t. (c, link_ID k, t)) ts\<rparr>" and ts: "tags_ok ts" by auto
  have tr: "tracked d' = (tracked d)(c := (tracked d c)(u \<mapsto> set ts))"
    using saved_sub_tracked [OF wf1 k new d'] f by simp
  have "abs_db d' = (abs_db d)(c \<mapsto> (tracked d c)(u \<mapsto> set ts))"
    using tr f c by (auto simp: abs_db_def d' fun_eq_iff)
  moreover have "tracked d c u = None"
  proof -
    have "find (\<lambda>k. link_URL k = u) (db_links d1) = Some k" using find_url [OF wf1 k] f by simp
    then have "tracked d1 c u = None" using new by (simp add: tracked_def)
    with f show ?thesis by simp
  qed
  moreover have "no_orphans d'" if "no_orphans d"
    using that f by (force simp: no_orphans_def list_all_iff d')
  ultimately show ?thesis using c f ts by simp
qed

theorem remove_link_abs:
  assumes wf: "db_wf d" and r: "remove_link_stmt c u d = (Inr x, d')"
  shows "c \<in> set (db_chats d) \<and> tracked d c u \<noteq> None \<and> tl_URL x = u \<and> tl_Tags x = []
    \<and> abs_db d' = (abs_db d)(c \<mapsto> (tracked d c)(u := None)) \<and> (no_orphans d \<longrightarrow> no_orphans d')"
proof -
  from r obtain k where c: "c \<in> set (db_chats d)" and k: "find (\<lambda>k. link_URL k = u) (db_links d) = Some k"
    and s: "(c, link_ID k) \<in> set (db_subs d)" and d': "d' = delete_subs (\<lambda>s. s = (c, link_ID k)) d"
    and x: "x = \<lparr>tl_ID = link_ID k, tl_URL = link_URL k, tl_Tags = []\<rparr>"
    by (auto simp: remove_link_stmt_def chat_get_def sub_delete_def link_by_url_ok elim!: ebind_okE split: if_splits)
  note k' = find_key_D [of link_URL, OF k]
  have "tracked d' = (tracked d)(c := (tracked d c)(u := None))"
  proof (intro ext)
    fix c' u'
    show "tracked d' c' u' = ((tracked d)(c := (tracked d c)(u := None))) c' u'"
    proof (cases "find (\<lambda>k. link_URL k = u') (db_links d)")
      case None
      then show ?thesis unfolding d' delete_subs_tracked [OF wf] by (auto simp: tracked_def)
    next
      case (Some k2)
      note k2 = find_key_D [of link_URL, OF Some]
      have "link_ID k2 = link_ID k \<longleftrightarrow> u' = u"
        using link_id_inj [OF wf, of k2 k] link_url_inj [OF wf, of k2 k] k' k2 by auto
      with Some show ?thesis unfolding d' delete_subs_tracked [OF wf] by auto
    qed
  qed
  then have "abs_db d' = (abs_db d)(c \<mapsto> (tracked d c)(u := None))"
    using c by (auto simp: abs_db_def d' fun_eq_iff)
  moreover have "tracked d c u \<noteq> None" using k s by (simp add: tracked_def)
  ultimately show ?thesis using c x k' d' delete_subs_no_orphans by auto
qed

lemma chat_delete_no_orphans: "no_orphans d \<Longrightarrow> chat_delete c d = (r, d') \<Longrightarrow> no_orphans d'"
  using delete_subs_no_orphans [of d "\<lambda>s. fst s = c"]
  by (auto simp: chat_delete_def delete_chat_def no_orphans_def split: if_splits)

lemma chat_create_no_orphans: "no_orphans d \<Longrightarrow> chat_create c d = (r, d') \<Longrightarrow> no_orphans d'"
  by (auto simp: chat_create_def no_orphans_def split: if_splits)

subsection \<open>Listing\<close>

lemma efor_read:
  "(\<And>x. x \<in> set xs \<Longrightarrow> f x d = (Inr (g x), d)) \<Longrightarrow> efor f xs d = (Inr (map g xs), d)"
proof (induction xs)
  case (Cons x xs)
  have "f x d = (Inr (g x), d)" using Cons.prems by simp
  moreover have "efor f xs d = (Inr (map g xs), d)" using Cons by simp
  ultimately show ?case by simp
qed simp

lemma list_links_ok:
  assumes wf: "db_wf d" and c: "c \<in> set (db_chats d)" and ord: "\<And>ks. mset (order ks) = mset ks"
  shows "\<exists>tls. list_links_stmt order c d = (Inr tls, d) \<and> distinct (map tl_URL tls)
    \<and> (\<forall>u T. tracked d c u = Some T \<longleftrightarrow> (\<exists>tl \<in> set tls. tl_URL tl = u \<and> set (tl_Tags tl) = T))"
proof -
  define ids where "ids = order (map snd (sort_key (\<lambda>s. sint (snd s)) (filter (\<lambda>s. fst s = c) (db_subs d))))"
  define lk where "lk i = the (find (\<lambda>k. link_ID k = i) (db_links d))" for i
  define tl where "tl i = \<lparr>tl_ID = link_ID (lk i), tl_URL = link_URL (lk i), tl_Tags = tags_of d c i\<rparr>" for i
  have ms: "mset ids = mset (map snd (sort_key (\<lambda>s. sint (snd s)) (filter (\<lambda>s. fst s = c) (db_subs d))))"
    unfolding ids_def by (rule ord)
  have ids: "set ids = {l. (c, l) \<in> set (db_subs d)}"
    using mset_eq_setD [OF ms] by force
  have dist: "distinct ids"
    using distinct_sorted_subs(1) [OF wf] mset_eq_imp_distinct_iff [OF ms] by blast
  have lk: "lk i \<in> set (db_links d) \<and> link_ID (lk i) = i \<and> find (\<lambda>k. link_ID k = i) (db_links d) = Some (lk i)"
    if "i \<in> set ids" for i
  proof -
    from that ids have "(c, i) \<in> set (db_subs d)" by simp
    then obtain k where k: "k \<in> set (db_links d)" "link_ID k = i" by (rule sub_refs [OF wf])
    with find_id [OF wf k(1)] show ?thesis by (simp add: lk_def)
  qed
  have step: "ebind (link_get (sub_LinkID s))
      (\<lambda>k. eret \<lparr>tl_ID = link_ID k, tl_URL = link_URL k, tl_Tags = sub_Tags s\<rparr>) d = (Inr (tl (sub_LinkID s)), d)"
    if "s \<in> set (map (mk_sub d c) ids)" for s
  proof -
    from that obtain i where i: "i \<in> set ids" "s = mk_sub d c i" by auto
    then have "link_get i d = (Inr (lk i), d)" using lk [OF i(1)] by (simp add: link_get_def)
    with i show ?thesis by (simp add: mk_sub_def tl_def)
  qed
  have run: "list_links_stmt order c d = (Inr (map tl ids), d)"
  proof -
    have "chat_get c d = (Inr c, d)" using c by (simp add: chat_get_def)
    moreover have "subs_by_chat order c d = (Inr (map (mk_sub d c) ids), d)"
      by (simp add: subs_by_chat_def ids_def)
    moreover have "map (\<lambda>s. tl (sub_LinkID s)) (map (mk_sub d c) ids) = map tl ids"
      by (simp add: mk_sub_def)
    moreover have "efor (\<lambda>s. ebind (link_get (sub_LinkID s))
        (\<lambda>k. eret \<lparr>tl_ID = link_ID k, tl_URL = link_URL k, tl_Tags = sub_Tags s\<rparr>)) (map (mk_sub d c) ids) d
      = (Inr (map (\<lambda>s. tl (sub_LinkID s)) (map (mk_sub d c) ids)), d)"
      by (rule efor_read) (rule step)
    ultimately show ?thesis
      unfolding list_links_stmt_def by (simp del: map_map)
  qed
  have "inj_on (\<lambda>i. link_URL (lk i)) (set ids)"
  proof (rule inj_onI)
    fix i j
    assume "i \<in> set ids" "j \<in> set ids" "link_URL (lk i) = link_URL (lk j)"
    then show "i = j" using lk link_url_inj [OF wf] by metis
  qed
  then have "distinct (map tl_URL (map tl ids))" using dist by (simp add: distinct_map tl_def comp_def)
  moreover have "tracked d c u = Some T \<longleftrightarrow> (\<exists>t \<in> set (map tl ids). tl_URL t = u \<and> set (tl_Tags t) = T)" for u T
  proof
    assume "tracked d c u = Some T"
    then obtain k where k: "k \<in> set (db_links d)" "link_URL k = u" "(c, link_ID k) \<in> set (db_subs d)"
      "T = set (tags_of d c (link_ID k))" unfolding tracked_iff [OF wf] by blast
    then have i: "link_ID k \<in> set ids" using ids by simp
    then have "lk (link_ID k) = k" using lk link_id_inj [OF wf] k(1) by blast
    with i k show "\<exists>t \<in> set (map tl ids). tl_URL t = u \<and> set (tl_Tags t) = T"
      by (auto simp: tl_def intro!: bexI [of _ "link_ID k"])
  next
    assume "\<exists>t \<in> set (map tl ids). tl_URL t = u \<and> set (tl_Tags t) = T"
    then obtain i where i: "i \<in> set ids" "link_URL (lk i) = u" "T = set (tags_of d c i)" by (auto simp: tl_def)
    with lk [OF i(1)] ids show "tracked d c u = Some T"
      unfolding tracked_iff [OF wf] by (intro bexI [of _ "lk i"]) auto
  qed
  ultimately show ?thesis using run by blast
qed

subsection \<open>Errors\<close>

lemma remove_link_errors:
  assumes "remove_link_stmt c u d = (Inl e, d')"
  shows "d' = d"
    and "errors_is S_ErrChatNotRegistered e \<longleftrightarrow> c \<notin> set (db_chats d)"
    and "errors_is S_ErrLinkNotFound e \<longleftrightarrow>
      c \<in> set (db_chats d) \<and> pg_text u \<and> u \<notin> link_URL ` set (db_links d)"
    and "errors_is S_ErrNotSubscribed e \<longleftrightarrow>
      c \<in> set (db_chats d) \<and> pg_text u \<and> u \<in> link_URL ` set (db_links d) \<and> tracked d c u = None"
proof -
  have "d' = d \<and> (errors_is S_ErrChatNotRegistered e \<longleftrightarrow> c \<notin> set (db_chats d))
    \<and> (errors_is S_ErrLinkNotFound e \<longleftrightarrow> c \<in> set (db_chats d) \<and> pg_text u \<and> u \<notin> link_URL ` set (db_links d))
    \<and> (errors_is S_ErrNotSubscribed e \<longleftrightarrow>
         c \<in> set (db_chats d) \<and> pg_text u \<and> u \<in> link_URL ` set (db_links d) \<and> tracked d c u = None)"
  proof (cases "find (\<lambda>k. link_URL k = u) (db_links d)")
    case None
    then have "u \<notin> link_URL ` set (db_links d)" by (simp add: find_key_None)
    with assms None show ?thesis
      by (auto simp: remove_link_stmt_def chat_get_def link_by_url_def sub_delete_def ebind_def ehandle_def
          split: if_splits)
  next
    case (Some k)
    then have "u \<in> link_URL ` set (db_links d)" using find_key_D [of link_URL, OF Some] by auto
    with assms Some show ?thesis
      by (auto simp: remove_link_stmt_def chat_get_def link_by_url_def sub_delete_def ebind_def ehandle_def
          tracked_def split: if_splits)
  qed
  then show "d' = d"
    and "errors_is S_ErrChatNotRegistered e \<longleftrightarrow> c \<notin> set (db_chats d)"
    and "errors_is S_ErrLinkNotFound e \<longleftrightarrow> c \<in> set (db_chats d) \<and> pg_text u \<and> u \<notin> link_URL ` set (db_links d)"
    and "errors_is S_ErrNotSubscribed e \<longleftrightarrow>
      c \<in> set (db_chats d) \<and> pg_text u \<and> u \<in> link_URL ` set (db_links d) \<and> tracked d c u = None"
    by blast+
qed

text \<open>The exact condition under which a link is added.\<close>

lemma find_or_create_total:
  assumes "pg_text u" and "u \<in> link_URL ` set (db_links d) \<or> db_link_seq d + 1 < 2 ^ 63"
  shows "\<exists>k d'. find_or_create stamp now u d = (Inr k, d')"
proof (cases "find (\<lambda>k. link_URL k = u) (db_links d)")
  case None
  then have "u \<notin> link_URL ` set (db_links d)" by (simp add: find_key_None)
  with assms None show ?thesis
    by (simp add: find_or_create_def ehandle_def link_by_url_def link_save_def upsert_link_def next_id_def Let_def)
next
  case (Some k)
  with assms show ?thesis by (simp add: find_or_create_def ehandle_def link_by_url_def)
qed

lemma add_link_total:
  assumes wf: "db_wf d" and c: "c \<in> set (db_chats d)" and u: "pg_text u" and new: "tracked d c u = None"
    and ts: "tags_ok ts" and seq: "u \<in> link_URL ` set (db_links d) \<or> db_link_seq d + 1 < 2 ^ 63"
  shows "\<exists>k d'. add_link_stmt stamp now c u ts d = (Inr k, d')"
proof -
  obtain k d1 where fc: "find_or_create stamp now u d = (Inr k, d1)"
    using find_or_create_total [OF u seq] by blast
  note f = find_or_create_abs [OF wf fc]
  then have wf1: "db_wf d1" and k: "k \<in> set (db_links d1)" by auto
  have nsub: "(c, link_ID k) \<notin> set (db_subs d1)"
  proof
    assume "(c, link_ID k) \<in> set (db_subs d1)"
    moreover have "find (\<lambda>x. link_URL x = u) (db_links d1) = Some k" using find_url [OF wf1 k] f by simp
    ultimately have "tracked d1 c u \<noteq> None" by (simp add: tracked_def)
    moreover have "tracked d1 = tracked d" using f by simp
    ultimately show False using new by simp
  qed
  obtain d' where "sub_save \<lparr>sub_ChatID = c, sub_LinkID = link_ID k, sub_Tags = ts\<rparr> d1 = (Inr (), d')"
    using sub_save_ok [OF wf1] nsub f c k ts by simp
  then have "ebind (sub_exists c (link_ID k))
      (\<lambda>b. if b then efail (Sentinel S_ErrAlreadySubscribed)
         else ebind (sub_save \<lparr>sub_ChatID = c, sub_LinkID = link_ID k, sub_Tags = ts\<rparr>) (\<lambda>_. eret k)) d1 = (Inr k, d')"
    using nsub by (simp add: sub_exists_def ebind_def ehandle_def)
  moreover have "chat_get c d = (Inr c, d)" using c by (simp add: chat_get_def)
  ultimately show ?thesis using fc unfolding add_link_stmt_def by auto
qed

lemma insert_tag_no_sentinel: "insert_tag b c l t d = (Inl e, d') \<Longrightarrow> \<not> errors_is s e"
  by (auto simp: insert_tag_def split: if_splits)

lemma batch_error: "batch_stmt f xs d = (Some (x, e), d') \<Longrightarrow> \<exists>d1 d2. f x d1 = (Inl e, d2)"
  by (induction xs arbitrary: d) (auto split: prod.splits sum.splits)

lemma add_link_errors:
  assumes wf: "db_wf d" and r: "add_link_stmt stamp now c u ts d = (Inl e, d')"
  shows "errors_is S_ErrChatNotRegistered e \<longleftrightarrow> c \<notin> set (db_chats d)"
    and "errors_is S_ErrAlreadySubscribed e \<longleftrightarrow> c \<in> set (db_chats d) \<and> pg_text u \<and> tracked d c u \<noteq> None"
    and "errors_is s e \<Longrightarrow> s = S_ErrChatNotRegistered \<or> s = S_ErrAlreadySubscribed"
proof -
  have tags: "\<not> errors_is s e'" if "insert_tags False c l ts d1 = (Inl e', d2)" for s e' l d1 d2
    using that batch_error [of "insert_tag False c l"] insert_tag_no_sentinel
    by (fastforce simp: insert_tags_def batch_as_stmt_def split: if_splits prod.splits option.splits)
  have "(errors_is S_ErrChatNotRegistered e \<longleftrightarrow> c \<notin> set (db_chats d)) \<and>
    (errors_is S_ErrAlreadySubscribed e \<longleftrightarrow> c \<in> set (db_chats d) \<and> pg_text u \<and> tracked d c u \<noteq> None) \<and>
    (\<forall>s. errors_is s e \<longrightarrow> s = S_ErrChatNotRegistered \<or> s = S_ErrAlreadySubscribed)"
  proof (cases "c \<in> set (db_chats d)")
    case False
    with r show ?thesis by (auto simp: add_link_stmt_def chat_get_def ebind_def ehandle_def)
  next
    case True
    then have cg: "chat_get c d = (Inr c, d)" by (simp add: chat_get_def)
    show ?thesis
    proof (cases "find_or_create stamp now u d")
      case (Pair r1 d1)
      show ?thesis
      proof (cases r1)
        case (Inl e1)
        then have "find (\<lambda>k. link_URL k = u) (db_links d) = None \<or> \<not> pg_text u" and "\<not> errors_is s e1" for s
          using Pair by (auto simp: find_or_create_def ehandle_def link_by_url_def link_save_def upsert_link_def Let_def
            split: if_splits option.splits)
        moreover have "e = e1" using r cg Pair Inl by (simp add: add_link_stmt_def)
        ultimately show ?thesis using True by (auto simp: tracked_def)
      next
        case (Inr k)
        note f = find_or_create_abs [OF wf Pair [unfolded Inr]]
        have "find (\<lambda>x. link_URL x = u) (db_links d1) = Some k" using find_url [of d1 k] f by simp
        then have "tracked d1 c u \<noteq> None \<longleftrightarrow> (c, link_ID k) \<in> set (db_subs d1)"
          by (simp add: tracked_def)
        then have tr: "tracked d c u \<noteq> None \<longleftrightarrow> (c, link_ID k) \<in> set (db_subs d1)" using f by simp
        have fc: "find_or_create stamp now u d = (Inr k, d1)" using Pair Inr by simp
        show ?thesis
        proof (cases "(c, link_ID k) \<in> set (db_subs d1)")
          case True
          then have "e = Sentinel S_ErrAlreadySubscribed"
            using r cg fc by (simp add: add_link_stmt_def sub_exists_def)
          with tr True f \<open>c \<in> set (db_chats d)\<close> show ?thesis by simp
        next
          case False
          let ?s = "\<lparr>sub_ChatID = c, sub_LinkID = link_ID k, sub_Tags = ts\<rparr>"
          have "ebind (sub_save ?s) (\<lambda>_. eret k) d1 = (Inl e, d')"
            using r cg fc False by (simp add: add_link_stmt_def sub_exists_def)
          then have sv: "sub_save ?s d1 = (Inl e, d')" by (cases rule: ebind_cases) auto
          have "insert_sub c (link_ID k) d1 = (Inr (), d1\<lparr>db_subs := db_subs d1 @ [(c, link_ID k)]\<rparr>)"
            using False f True by (simp add: insert_sub_def)
          with sv have "insert_tags False c (link_ID k) ts (d1\<lparr>db_subs := db_subs d1 @ [(c, link_ID k)]\<rparr>) = (Inl e, d')"
            by (simp add: sub_save_def)
          with tags have "\<not> errors_is s e" for s by blast
          with tr False True show ?thesis by simp
        qed
      qed
    qed
  qed
  then show "errors_is S_ErrChatNotRegistered e \<longleftrightarrow> c \<notin> set (db_chats d)"
    and "errors_is S_ErrAlreadySubscribed e \<longleftrightarrow> c \<in> set (db_chats d) \<and> pg_text u \<and> tracked d c u \<noteq> None"
    and "errors_is s e \<Longrightarrow> s = S_ErrChatNotRegistered \<or> s = S_ErrAlreadySubscribed"
    by blast+
qed

end
