(* ===== verification/Subscription_Props.thy ===== *)
theory Subscription_Props
  imports Tracking
begin

text \<open>
  The properties of the subscription service: every operation is the operation of the abstract
  store, all or nothing under any faults; its domain errors are genuine; the listing is complete; the
  schema's invariant holds and no orphan link is left in every reachable state.
\<close>

subsection \<open>Over any repositories that keep their promises\<close>

context stores
begin

lemma svc_AddLink:
  assumes "db_wf (w_db w)" and "\<not> in_tx w" and "AddLink svc c u ts w = (r, w')"
  shows "db_wf (w_db w') \<and> \<not> in_tx w'
    \<and> (\<forall>tl. r = Inr tl \<longrightarrow> canHandle u \<and> abs_db (w_db w) c \<noteq> None \<and> tracked (w_db w) c u = None
          \<and> tl_URL tl = u \<and> tl_Tags tl = ts
          \<and> abs_db (w_db w') = (abs_db (w_db w))(c \<mapsto> (tracked (w_db w) c)(u \<mapsto> set ts)))
    \<and> (\<forall>e. r = Inl e \<longrightarrow> same_tables (w_db w) (w_db w')
          \<or> w_faults w \<noteq> [] \<and> \<not> meaningful e
            \<and> abs_db (w_db w') = (abs_db (w_db w))(c \<mapsto> (tracked (w_db w) c)(u \<mapsto> set ts)))
    \<and> (no_orphans (w_db w) \<longrightarrow> no_orphans (w_db w'))"
proof (cases "canHandle u")
  case False
  then have "AddLink svc c u ts w = (Inl (WrapErr '''' (Sentinel S_ErrURLNotSupported) ('': '' @ u)), w)"
    by (simp add: AddLink_def svc_def)
  with assms show ?thesis by auto
next
  case True
  obtain r0 where o: "tx_outcome (add_link_stmt (w_stamp w) (w_now w) c u ts) w r0 w'"
    and r: "r = map_sum (\<lambda>e. e) (\<lambda>k. \<lparr>tl_ID = link_ID k, tl_URL = link_URL k, tl_Tags = ts\<rparr>) r0"
    using AddLink_outcome [OF assms(1,2) True assms(3)] by blast
  note eff = add_link_abs [OF assms(1), of "w_stamp w" "w_now w" c u ts]
  have nf: "no_orphans (w_db w')" if "same_tables (w_db w) (w_db w')" "no_orphans (w_db w)"
    using that by (simp add: no_orphans_def same_tables_iff)
  have fr: "db_wf (w_db w') \<and> \<not> in_tx w'" using o assms(1) frame_wf by (auto simp: tx_outcome_def)
  show ?thesis
  proof (cases r0)
    case (Inl e)
    then have "r = Inl e" using r by simp
    moreover have "same_tables (w_db w) (w_db w') \<or> (\<exists>x. add_link_stmt (w_stamp w) (w_now w) c u ts (w_db w) = (Inr x, w_db w')
        \<and> \<not> meaningful e \<and> w_faults w \<noteq> [])"
      using o Inl by (auto simp: tx_outcome_def)
    ultimately show ?thesis using fr nf eff by blast
  next
    case (Inr k)
    then have "add_link_stmt (w_stamp w) (w_now w) c u ts (w_db w) = (Inr k, w_db w')"
      using o by (simp add: tx_outcome_def)
    with eff [OF this] fr True r Inr show ?thesis by (auto simp: abs_db_def)
  qed
qed

lemma svc_AddLink_errors:
  assumes "db_wf (w_db w)" and "\<not> in_tx w" and "AddLink svc c u ts w = (Inl e, w')"
  shows "errors_is S_ErrURLNotSupported e \<Longrightarrow> \<not> canHandle u"
    and "errors_is S_ErrChatNotRegistered e \<Longrightarrow> abs_db (w_db w) c = None"
    and "errors_is S_ErrAlreadySubscribed e \<Longrightarrow> tracked (w_db w) c u \<noteq> None"
proof -
  have "(errors_is S_ErrURLNotSupported e \<longrightarrow> \<not> canHandle u)
    \<and> (errors_is S_ErrChatNotRegistered e \<longrightarrow> abs_db (w_db w) c = None)
    \<and> (errors_is S_ErrAlreadySubscribed e \<longrightarrow> tracked (w_db w) c u \<noteq> None)"
  proof (cases "canHandle u")
    case False
    with assms(3) have "e = WrapErr '''' (Sentinel S_ErrURLNotSupported) ('': '' @ u)"
      by (simp add: AddLink_def svc_def)
    with False show ?thesis by simp
  next
    case True
    obtain r0 where o: "tx_outcome (add_link_stmt (w_stamp w) (w_now w) c u ts) w r0 w'"
      and r: "Inl e = map_sum (\<lambda>e. e) (\<lambda>k. \<lparr>tl_ID = link_ID k, tl_URL = link_URL k, tl_Tags = ts\<rparr>) r0"
      using AddLink_outcome [OF assms(1,2) True assms(3)] by blast
    then have r0: "r0 = Inl e" by (cases r0) auto
    show ?thesis
    proof (cases "meaningful e")
      case False
      then show ?thesis using meaningful_is by blast
    next
      case m: True
      then obtain e' d' where e': "add_link_stmt (w_stamp w) (w_now w) c u ts (w_db w) = (Inl e', d')" "err_rel e e'"
        using o r0 by (cases "add_link_stmt (w_stamp w) (w_now w) c u ts (w_db w)") (auto simp: tx_outcome_def)
      have "\<not> errors_is S_ErrURLNotSupported e'"
        using add_link_errors(3) [OF assms(1) e'(1), of S_ErrURLNotSupported] by auto
      with add_link_errors(1,2) [OF assms(1) e'(1)] e'(2) show ?thesis
        by (auto simp: err_rel_def abs_db_def)
    qed
  qed
  then show "errors_is S_ErrURLNotSupported e \<Longrightarrow> \<not> canHandle u"
    and "errors_is S_ErrChatNotRegistered e \<Longrightarrow> abs_db (w_db w) c = None"
    and "errors_is S_ErrAlreadySubscribed e \<Longrightarrow> tracked (w_db w) c u \<noteq> None"
    by blast+
qed

lemma svc_RemoveLink:
  assumes "db_wf (w_db w)" and "\<not> in_tx w" and "RemoveLink svc c u w = (r, w')"
  shows "db_wf (w_db w') \<and> \<not> in_tx w'
    \<and> (\<forall>tl. r = Inr tl \<longrightarrow> tracked (w_db w) c u \<noteq> None \<and> abs_db (w_db w) c \<noteq> None
          \<and> tl_URL tl = u \<and> tl_Tags tl = []
          \<and> abs_db (w_db w') = (abs_db (w_db w))(c \<mapsto> (tracked (w_db w) c)(u := None)))
    \<and> (\<forall>e. r = Inl e \<longrightarrow> same_tables (w_db w) (w_db w')
          \<or> w_faults w \<noteq> [] \<and> \<not> meaningful e
            \<and> abs_db (w_db w') = (abs_db (w_db w))(c \<mapsto> (tracked (w_db w) c)(u := None)))
    \<and> (no_orphans (w_db w) \<longrightarrow> no_orphans (w_db w'))"
proof -
  have o: "tx_outcome (remove_link_stmt c u) w r w'" by (rule RemoveLink_outcome [OF assms])
  note eff = remove_link_abs [OF assms(1), of c u]
  have nf: "no_orphans (w_db w')" if "same_tables (w_db w) (w_db w')" "no_orphans (w_db w)"
    using that by (simp add: no_orphans_def same_tables_iff)
  have fr: "db_wf (w_db w') \<and> \<not> in_tx w'" using o assms(1) frame_wf by (auto simp: tx_outcome_def)
  show ?thesis
  proof (cases r)
    case (Inl e)
    have "same_tables (w_db w) (w_db w') \<or> (\<exists>x. remove_link_stmt c u (w_db w) = (Inr x, w_db w')
        \<and> \<not> meaningful e \<and> w_faults w \<noteq> [])"
      using o Inl by (auto simp: tx_outcome_def)
    then show ?thesis using fr nf eff Inl by blast
  next
    case (Inr k)
    then have "remove_link_stmt c u (w_db w) = (Inr k, w_db w')" using o by (simp add: tx_outcome_def)
    with eff [OF this] fr Inr show ?thesis by (auto simp: abs_db_def)
  qed
qed

lemma svc_RemoveLink_errors:
  assumes "db_wf (w_db w)" and "\<not> in_tx w" and "RemoveLink svc c u w = (Inl e, w')"
  shows "errors_is S_ErrChatNotRegistered e \<Longrightarrow> abs_db (w_db w) c = None"
    and "errors_is S_ErrLinkNotFound e \<Longrightarrow> \<forall>k \<in> set (db_links (w_db w)). link_URL k \<noteq> u"
    and "errors_is S_ErrNotSubscribed e \<Longrightarrow> tracked (w_db w) c u = None"
proof -
  have o: "tx_outcome (remove_link_stmt c u) w (Inl e) w'" by (rule RemoveLink_outcome [OF assms])
  have "(errors_is S_ErrChatNotRegistered e \<longrightarrow> abs_db (w_db w) c = None)
    \<and> (errors_is S_ErrLinkNotFound e \<longrightarrow> (\<forall>k \<in> set (db_links (w_db w)). link_URL k \<noteq> u))
    \<and> (errors_is S_ErrNotSubscribed e \<longrightarrow> tracked (w_db w) c u = None)"
  proof (cases "meaningful e")
    case False
    then show ?thesis using meaningful_is by blast
  next
    case True
    then obtain e' d' where e': "remove_link_stmt c u (w_db w) = (Inl e', d')" "err_rel e e'"
      using o by (cases "remove_link_stmt c u (w_db w)") (auto simp: tx_outcome_def)
    with remove_link_errors [OF e'(1)] show ?thesis
      by (auto simp: err_rel_def abs_db_def)
  qed
  then show "errors_is S_ErrChatNotRegistered e \<Longrightarrow> abs_db (w_db w) c = None"
    and "errors_is S_ErrLinkNotFound e \<Longrightarrow> \<forall>k \<in> set (db_links (w_db w)). link_URL k \<noteq> u"
    and "errors_is S_ErrNotSubscribed e \<Longrightarrow> tracked (w_db w) c u = None"
    by blast+
qed

lemma svc_GetTrackedLinks:
  assumes "db_wf (w_db w)" and "\<not> in_tx w" and "map_order_ok w" and "GetTrackedLinks svc c w = (r, w')"
  shows "same_tables (w_db w) (w_db w') \<and> \<not> in_tx w' \<and> db_wf (w_db w')
    \<and> (\<forall>tls. r = Inr tls \<longrightarrow> abs_db (w_db w) c \<noteq> None \<and> distinct (map tl_URL tls)
          \<and> (\<forall>u T. tracked (w_db w) c u = Some T \<longleftrightarrow> (\<exists>tl \<in> set tls. tl_URL tl = u \<and> set (tl_Tags tl) = T)))
    \<and> (\<forall>e. r = Inl e \<longrightarrow> (meaningful e \<or> w_faults w = [] \<longrightarrow>
          abs_db (w_db w) c = None \<and> errors_is S_ErrChatNotRegistered e))"
proof -
  have o: "tx_outcome (list_links_stmt (order w) c) w r w'" by (rule GetTrackedLinks_outcome [OF assms])
  have fr: "db_wf (w_db w') \<and> \<not> in_tx w'" using o assms(1) frame_wf by (auto simp: tx_outcome_def)
  show ?thesis
  proof (cases "c \<in> set (db_chats (w_db w))")
    case True
    obtain tls where tls: "list_links_stmt (order w) c (w_db w) = (Inr tls, w_db w)" "distinct (map tl_URL tls)"
      "\<forall>u T. tracked (w_db w) c u = Some T \<longleftrightarrow> (\<exists>tl \<in> set tls. tl_URL tl = u \<and> set (tl_Tags tl) = T)"
      using list_links_ok [OF assms(1) True, of "order w"] subs.order [OF assms(3)] by blast
    with o fr True show ?thesis
      by (cases r) (auto simp: tx_outcome_def abs_db_def)
  next
    case False
    then have "list_links_stmt (order w) c (w_db w) = (Inl (Sentinel S_ErrChatNotRegistered), w_db w)"
      by (simp add: list_links_stmt_def chat_get_def)
    with o fr False show ?thesis
      by (cases r) (auto simp: tx_outcome_def abs_db_def err_rel_def)
  qed
qed

text \<open>Without faults, a link is added exactly when the store can take it.\<close>

lemma svc_AddLink_iff:
  assumes wf: "db_wf (w_db w)" and top: "\<not> in_tx w" and nf: "w_faults w = []" and seq: "db_link_seq (w_db w) + 1 < 2 ^ 63"
  shows "(\<exists>tl w'. AddLink svc c u ts w = (Inr tl, w')) \<longleftrightarrow>
    canHandle u \<and> pg_text u \<and> abs_db (w_db w) c \<noteq> None \<and> tracked (w_db w) c u = None \<and> tags_ok ts"
proof
  assume "\<exists>tl w'. AddLink svc c u ts w = (Inr tl, w')"
  then obtain tl w' where r: "AddLink svc c u ts w = (Inr tl, w')" by blast
  note s = svc_AddLink [OF wf top r]
  then have h: "canHandle u" by auto
  obtain r0 where o: "tx_outcome (add_link_stmt (w_stamp w) (w_now w) c u ts) w r0 w'"
    and "Inr tl = map_sum (\<lambda>e. e) (\<lambda>k. \<lparr>tl_ID = link_ID k, tl_URL = link_URL k, tl_Tags = ts\<rparr>) r0"
    using AddLink_outcome [OF wf top h r] by blast
  then obtain k where "add_link_stmt (w_stamp w) (w_now w) c u ts (w_db w) = (Inr k, w_db w')"
    by (cases r0) (auto simp: tx_outcome_def)
  from add_link_abs [OF wf this] h
  show "canHandle u \<and> pg_text u \<and> abs_db (w_db w) c \<noteq> None \<and> tracked (w_db w) c u = None \<and> tags_ok ts"
    by (simp add: abs_db_def)
next
  assume a: "canHandle u \<and> pg_text u \<and> abs_db (w_db w) c \<noteq> None \<and> tracked (w_db w) c u = None \<and> tags_ok ts"
  then have "c \<in> set (db_chats (w_db w))" by (auto simp: abs_db_def split: if_splits)
  with a obtain k d' where k: "add_link_stmt (w_stamp w) (w_now w) c u ts (w_db w) = (Inr k, d')"
    using add_link_total [OF wf, of c u ts] seq by blast
  obtain r w' where r: "AddLink svc c u ts w = (r, w')" by (cases "AddLink svc c u ts w")
  from a have h: "canHandle u" by simp
  obtain r0 where o: "tx_outcome (add_link_stmt (w_stamp w) (w_now w) c u ts) w r0 w'"
    and r0: "r = map_sum (\<lambda>e. e) (\<lambda>k. \<lparr>tl_ID = link_ID k, tl_URL = link_URL k, tl_Tags = ts\<rparr>) r0"
    using AddLink_outcome [OF wf top h r] by blast
  from o k nf obtain x where "r0 = Inr x" by (cases r0) (auto simp: tx_outcome_def)
  with r0 r show "\<exists>tl w'. AddLink svc c u ts w = (Inr tl, w')" by auto
qed

text \<open>Registering and deleting a chat are single statements outside a transaction.\<close>

lemma svc_RegisterChat:
  assumes "db_wf (w_db w)" and "\<not> in_tx w" and "RegisterChat svc c w = (r, w')"
  shows "db_wf (w_db w') \<and> \<not> in_tx w'
    \<and> (\<forall>x. r = Inr x \<longrightarrow> abs_db (w_db w) c = None \<and> abs_db (w_db w') = (abs_db (w_db w))(c \<mapsto> Map.empty))
    \<and> (\<forall>e. r = Inl e \<and> (meaningful e \<or> w_faults w = []) \<longrightarrow>
          w_db w' = w_db w \<and> abs_db (w_db w) c \<noteq> None \<and> errors_is S_ErrChatAlreadyRegistered e)"
proof -
  have fr: "frame w w'" by (rule keepsD [OF implements_frame [OF RegisterChat_implements] assms(3)])
  have "ready w w" using assms aborted_in_tx by (auto simp: ready_def)
  then have "outcome_ok (chat_create c) w r w'" using assms(3) by (rule implementsD [OF RegisterChat_implements])
  moreover have "\<exists>x d'. chat_create c (w_db w) = (Inr x, d') \<and> c \<notin> set (db_chats (w_db w))
      \<or> chat_create c (w_db w) = (Inl (Sentinel S_ErrChatAlreadyRegistered), w_db w) \<and> c \<in> set (db_chats (w_db w))"
    by (auto simp: chat_create_def)
  ultimately show ?thesis
    using chat_create_abs [OF assms(1)] frame_wf [OF fr assms(1)] frame_in_tx [OF fr] assms(2)
    by (cases r) (fastforce simp: outcome_ok_def abs_db_def err_rel_def)+
qed

lemma svc_DeleteChat:
  assumes "db_wf (w_db w)" and "\<not> in_tx w" and "DeleteChat svc c w = (r, w')"
  shows "db_wf (w_db w') \<and> \<not> in_tx w'
    \<and> (\<forall>x. r = Inr x \<longrightarrow> abs_db (w_db w) c \<noteq> None \<and> abs_db (w_db w') = (abs_db (w_db w))(c := None))
    \<and> (\<forall>e. r = Inl e \<and> (meaningful e \<or> w_faults w = []) \<longrightarrow>
          w_db w' = w_db w \<and> abs_db (w_db w) c = None \<and> errors_is S_ErrChatNotRegistered e)"
proof -
  have fr: "frame w w'" by (rule keepsD [OF implements_frame [OF DeleteChat_implements] assms(3)])
  have "ready w w" using assms aborted_in_tx by (auto simp: ready_def)
  then have "outcome_ok (chat_delete c) w r w'" using assms(3) by (rule implementsD [OF DeleteChat_implements])
  moreover have "\<exists>x d'. chat_delete c (w_db w) = (Inr x, d') \<and> c \<in> set (db_chats (w_db w))
      \<or> chat_delete c (w_db w) = (Inl (Sentinel S_ErrChatNotRegistered), w_db w) \<and> c \<notin> set (db_chats (w_db w))"
    by (auto simp: chat_delete_def)
  ultimately show ?thesis
    using chat_delete_abs [OF assms(1)] frame_wf [OF fr assms(1)] frame_in_tx [OF fr] assms(2)
    by (cases r) (fastforce simp: outcome_ok_def abs_db_def err_rel_def)+
qed

end

subsection \<open>The wired service\<close>

lemma NewService_cases:
  assumes "buildRepos accessType = Inr repos"
  obtains (sql) "NewService repos h = sql_svc.svc h" | (builder) "NewService repos h = qb_svc.svc h"
  using assms
  by (auto simp: buildRepos_def NewService_def sql_svc.svc_def qb_svc.svc_def split: if_splits)

definition sample_world :: "pgdb \<Rightarrow> fault list \<Rightarrow> world" where
  "sample_world d fs = \<lparr>w_db = d, w_tx = None, w_now = 1700000000123456789, w_faults = fs,
     w_stamp = (\<lambda>t. t div 1000 * 1000), w_map_order = rev\<rparr>"

lemma sample_world_top: "\<not> in_tx (sample_world d fs)" "w_db (sample_world d fs) = d"
  by (simp_all add: sample_world_def in_tx_def)

definition sample_db :: pgdb where
  "sample_db = empty_db\<lparr>db_chats := [7, 9]\<rparr>"

lemma sample_db_wf: "db_wf sample_db"
  by (simp add: db_wf_def db_wf_defs empty_db_def sample_db_def)

text \<open>C1. Adding a link, under any faults of the connection and for both access types: success adds
  exactly the url with its tags to what the chat tracks and nothing else changes for anyone; an error
  leaves every table as it was, unless the reply of the commit was lost, and then the link is
  fully added.\<close>

theorem AddLink_atomic:
  assumes "buildRepos accessType = Inr repos" and "db_wf (w_db w)" and "\<not> in_tx w"
    and "AddLink (NewService repos canHandle) c u ts w = (r, w')"
  shows "db_wf (w_db w') \<and> \<not> in_tx w'
    \<and> (\<forall>tl. r = Inr tl \<longrightarrow> canHandle u \<and> abs_db (w_db w) c \<noteq> None \<and> tracked (w_db w) c u = None
          \<and> tl_URL tl = u \<and> tl_Tags tl = ts
          \<and> abs_db (w_db w') = (abs_db (w_db w))(c \<mapsto> (tracked (w_db w) c)(u \<mapsto> set ts)))
    \<and> (\<forall>e. r = Inl e \<longrightarrow> same_tables (w_db w) (w_db w')
          \<or> w_faults w \<noteq> [] \<and> \<not> meaningful e
            \<and> abs_db (w_db w') = (abs_db (w_db w))(c \<mapsto> (tracked (w_db w) c)(u \<mapsto> set ts)))"
  using assms(1)
proof (cases rule: NewService_cases [where h = canHandle])
  case sql
  with assms(4) show ?thesis using sql_svc.svc_AddLink [OF assms(2,3), of canHandle c u ts r w'] by simp
next
  case builder
  with assms(4) show ?thesis using qb_svc.svc_AddLink [OF assms(2,3), of canHandle c u ts r w'] by simp
qed

lemma AddLink_atomic_witness:
  "\<exists>tl w'. AddLink (NewService (qb_chat_repo, qb_link_repo, qb_sub_repo) (\<lambda>u. True)) 7 ''https://github.com/a/b'' [''go'']
       (sample_world sample_db []) = (Inr tl, w')
     \<and> abs_db (w_db w') 7 = Some [''https://github.com/a/b'' \<mapsto> {''go''}]"
proof -
  let ?repos = "(qb_chat_repo, qb_link_repo, qb_sub_repo)"
  let ?w = "sample_world sample_db []"
  have b: "buildRepos ''BUILDER'' = Inr ?repos" by (simp add: buildRepos_def)
  obtain r w' where run: "AddLink (NewService ?repos (\<lambda>u. True)) 7 ''https://github.com/a/b'' [''go''] ?w = (r, w')"
    by (cases "AddLink (NewService ?repos (\<lambda>u. True)) 7 ''https://github.com/a/b'' [''go''] ?w")
  have "\<not> isl (fst (AddLink (NewService ?repos (\<lambda>u. True)) 7 ''https://github.com/a/b'' [''go''] ?w))"
    by code_simp
  with run obtain tl where "r = Inr tl" by (cases r) auto
  moreover have "tracked sample_db 7 = Map.empty"
    by (rule ext) (simp add: tracked_def sample_db_def empty_db_def)
  ultimately have "abs_db (w_db w') 7 = Some [''https://github.com/a/b'' \<mapsto> {''go''}]"
    using AddLink_atomic [OF b _ _ run] by (simp add: sample_world_top sample_db_wf)
  with run \<open>r = Inr tl\<close> show ?thesis by blast
qed

text \<open>C2. The domain errors of \<open>AddLink\<close> are genuine under any faults: an unsupported url is one no
  fetcher handles, an unregistered chat is one not in the store, an existing subscription exists.\<close>

theorem AddLink_errors_genuine:
  assumes "buildRepos accessType = Inr repos" and "db_wf (w_db w)" and "\<not> in_tx w"
    and "AddLink (NewService repos canHandle) c u ts w = (Inl e, w')"
  shows "(errors_is S_ErrURLNotSupported e \<longrightarrow> \<not> canHandle u)
    \<and> (errors_is S_ErrChatNotRegistered e \<longrightarrow> abs_db (w_db w) c = None)
    \<and> (errors_is S_ErrAlreadySubscribed e \<longrightarrow> tracked (w_db w) c u \<noteq> None)"
  using assms(1)
proof (cases rule: NewService_cases [where h = canHandle])
  case sql
  with assms(4) sql_svc.svc_AddLink_errors [OF assms(2,3)] show ?thesis by metis
next
  case builder
  with assms(4) qb_svc.svc_AddLink_errors [OF assms(2,3)] show ?thesis by metis
qed

lemma AddLink_errors_genuine_witness:
  "\<exists>e w'. AddLink (NewService (sql_chat_repo, sql_link_repo, sql_sub_repo) (\<lambda>u. True)) 8 ''https://github.com/a/b'' []
       (sample_world sample_db []) = (Inl e, w') \<and> errors_is S_ErrChatNotRegistered e
     \<and> abs_db sample_db 8 = None"
proof -
  let ?repos = "(sql_chat_repo, sql_link_repo, sql_sub_repo)"
  let ?run = "AddLink (NewService ?repos (\<lambda>u. True)) 8 ''https://github.com/a/b'' [] (sample_world sample_db [])"
  have b: "buildRepos ''SQL'' = Inr ?repos" by (simp add: buildRepos_def)
  have "case fst ?run of Inl e \<Rightarrow> errors_is S_ErrChatNotRegistered e | Inr x \<Rightarrow> False" by code_simp
  then obtain e w' where run: "?run = (Inl e, w')" and e: "errors_is S_ErrChatNotRegistered e"
    by (cases ?run) (auto split: sum.splits)
  with AddLink_errors_genuine [OF b _ _ run] show ?thesis
    by (auto simp: sample_world_top sample_db_wf)
qed



text \<open>C4. Removing a link, under any faults and for both access types: success removes exactly that
  url from what the chat tracks; an error leaves the tables as they were, or the removal is complete and
  the reply of the commit was lost. The value names the link but never its tags.\<close>

theorem RemoveLink_atomic:
  assumes "buildRepos accessType = Inr repos" and "db_wf (w_db w)" and "\<not> in_tx w"
    and "RemoveLink (NewService repos canHandle) c u w = (r, w')"
  shows "db_wf (w_db w') \<and> \<not> in_tx w'
    \<and> (\<forall>tl. r = Inr tl \<longrightarrow> tracked (w_db w) c u \<noteq> None \<and> abs_db (w_db w) c \<noteq> None
          \<and> tl_URL tl = u \<and> tl_Tags tl = []
          \<and> abs_db (w_db w') = (abs_db (w_db w))(c \<mapsto> (tracked (w_db w) c)(u := None)))
    \<and> (\<forall>e. r = Inl e \<longrightarrow> same_tables (w_db w) (w_db w')
          \<or> w_faults w \<noteq> [] \<and> \<not> meaningful e
            \<and> abs_db (w_db w') = (abs_db (w_db w))(c \<mapsto> (tracked (w_db w) c)(u := None)))"
  using assms(1)
proof (cases rule: NewService_cases [where h = canHandle])
  case sql
  with assms(4) show ?thesis using sql_svc.svc_RemoveLink [OF assms(2,3), of canHandle c u r w'] by simp
next
  case builder
  with assms(4) show ?thesis using qb_svc.svc_RemoveLink [OF assms(2,3), of canHandle c u r w'] by simp
qed

definition tracking_db :: pgdb where
  "tracking_db = empty_db\<lparr>db_chats := [7, 9],
     db_links := [\<lparr>link_ID = 1, link_URL = ''https://github.com/a/b'', link_LastUpdated = 5000\<rparr>,
                  \<lparr>link_ID = 2, link_URL = ''https://github.com/c/d'', link_LastUpdated = 3000\<rparr>],
     db_subs := [(7, 1), (9, 1), (7, 2)], db_tags := [(7, 1, ''go''), (9, 1, ''work'')], db_link_seq := 2\<rparr>"

lemma tracking_db_wf: "db_wf tracking_db"
  by code_simp

text \<open>The witnesses evaluate the service on a small database.\<close>

lemma sample_env: "map_order_ok (sample_world d fs)" "w_faults (sample_world d fs) = fs"
  by (simp_all add: sample_world_def map_order_ok_def)

lemma RemoveLink_atomic_witness:
  "\<exists>tl w'. RemoveLink (NewService (sql_chat_repo, sql_link_repo, sql_sub_repo) (\<lambda>u. True)) 7 ''https://github.com/a/b''
       (sample_world tracking_db []) = (Inr tl, w')
     \<and> abs_db (w_db w') 7 = Some ((tracked tracking_db 7)(''https://github.com/a/b'' := None)) \<and> tl_Tags tl = []"
proof -
  let ?repos = "(sql_chat_repo, sql_link_repo, sql_sub_repo)"
  let ?w = "sample_world tracking_db []"
  have b: "buildRepos ''SQL'' = Inr ?repos" by (simp add: buildRepos_def)
  have "\<not> isl (fst (RemoveLink (NewService ?repos (\<lambda>u. True)) 7 ''https://github.com/a/b'' ?w))"
    by code_simp
  then obtain tl w' where run: "RemoveLink (NewService ?repos (\<lambda>u. True)) 7 ''https://github.com/a/b'' ?w = (Inr tl, w')"
    by (rule run_okE)
  with RemoveLink_atomic [OF b _ _ run] show ?thesis
    by (auto simp: sample_world_top tracking_db_wf)
qed

text \<open>C5. The domain errors of \<open>RemoveLink\<close> are genuine under any faults.\<close>

theorem RemoveLink_errors_genuine:
  assumes "buildRepos accessType = Inr repos" and "db_wf (w_db w)" and "\<not> in_tx w"
    and "RemoveLink (NewService repos canHandle) c u w = (Inl e, w')"
  shows "(errors_is S_ErrChatNotRegistered e \<longrightarrow> abs_db (w_db w) c = None)
    \<and> (errors_is S_ErrLinkNotFound e \<longrightarrow> (\<forall>k \<in> set (db_links (w_db w)). link_URL k \<noteq> u))
    \<and> (errors_is S_ErrNotSubscribed e \<longrightarrow> tracked (w_db w) c u = None)"
  using assms(1)
proof (cases rule: NewService_cases [where h = canHandle])
  case sql
  with assms(4) sql_svc.svc_RemoveLink_errors [OF assms(2,3)] show ?thesis by metis
next
  case builder
  with assms(4) qb_svc.svc_RemoveLink_errors [OF assms(2,3)] show ?thesis by metis
qed

lemma RemoveLink_errors_genuine_witness:
  "\<exists>e w'. RemoveLink (NewService (qb_chat_repo, qb_link_repo, qb_sub_repo) (\<lambda>u. True)) 9 ''https://github.com/c/d''
       (sample_world tracking_db []) = (Inl e, w') \<and> errors_is S_ErrNotSubscribed e
     \<and> tracked tracking_db 9 ''https://github.com/c/d'' = None"
proof -
  let ?repos = "(qb_chat_repo, qb_link_repo, qb_sub_repo)"
  let ?run = "RemoveLink (NewService ?repos (\<lambda>u. True)) 9 ''https://github.com/c/d'' (sample_world tracking_db [])"
  have b: "buildRepos ''BUILDER'' = Inr ?repos" by (simp add: buildRepos_def)
  have "case fst ?run of Inl e \<Rightarrow> errors_is S_ErrNotSubscribed e | Inr x \<Rightarrow> False" by code_simp
  then obtain e w' where run: "?run = (Inl e, w')" and e: "errors_is S_ErrNotSubscribed e"
    by (cases ?run) (auto split: sum.splits)
  with RemoveLink_errors_genuine [OF b _ _ run] show ?thesis
    by (auto simp: sample_world_top tracking_db_wf)
qed

text \<open>C6. \<open>GetTrackedLinks\<close> lists what the chat tracks, each url once, with its tags, and changes
  nothing, whatever the order of the repository; without faults it only fails for an unregistered
  chat.\<close>

theorem GetTrackedLinks_complete:
  assumes "buildRepos accessType = Inr repos" and "db_wf (w_db w)" and "\<not> in_tx w" and "map_order_ok w"
    and "GetTrackedLinks (NewService repos canHandle) c w = (r, w')"
  shows "same_tables (w_db w) (w_db w') \<and> \<not> in_tx w' \<and> db_wf (w_db w')
    \<and> (\<forall>tls. r = Inr tls \<longrightarrow> abs_db (w_db w) c \<noteq> None \<and> distinct (map tl_URL tls)
          \<and> (\<forall>u T. tracked (w_db w) c u = Some T \<longleftrightarrow> (\<exists>tl \<in> set tls. tl_URL tl = u \<and> set (tl_Tags tl) = T)))
    \<and> (\<forall>e. r = Inl e \<longrightarrow> (meaningful e \<or> w_faults w = [] \<longrightarrow>
          abs_db (w_db w) c = None \<and> errors_is S_ErrChatNotRegistered e))"
  using assms(1)
proof (cases rule: NewService_cases [where h = canHandle])
  case sql
  with assms(5) show ?thesis using sql_svc.svc_GetTrackedLinks [OF assms(2-4), of canHandle c r w'] by simp
next
  case builder
  with assms(5) show ?thesis using qb_svc.svc_GetTrackedLinks [OF assms(2-4), of canHandle c r w'] by simp
qed

lemma GetTrackedLinks_complete_witness:
  "\<exists>tls w'. GetTrackedLinks (NewService (sql_chat_repo, sql_link_repo, sql_sub_repo) (\<lambda>u. True)) 7
       (sample_world tracking_db []) = (Inr tls, w') \<and> distinct (map tl_URL tls)
     \<and> (\<exists>tl \<in> set tls. tl_URL tl = ''https://github.com/a/b'' \<and> set (tl_Tags tl) = {''go''})"
proof -
  let ?repos = "(sql_chat_repo, sql_link_repo, sql_sub_repo)"
  let ?w = "sample_world tracking_db []"
  have b: "buildRepos ''SQL'' = Inr ?repos" by (simp add: buildRepos_def)
  have "\<not> isl (fst (GetTrackedLinks (NewService ?repos (\<lambda>u. True)) 7 ?w))" by code_simp
  then obtain tls w' where run: "GetTrackedLinks (NewService ?repos (\<lambda>u. True)) 7 ?w = (Inr tls, w')"
    by (rule run_okE)
  have "tracked tracking_db 7 ''https://github.com/a/b'' = Some {''go''}"
    by (simp add: tracked_def tracking_db_def empty_db_def tags_of_def)
  with GetTrackedLinks_complete [OF b _ _ _ run] run show ?thesis
    by (auto simp: sample_world_top tracking_db_wf sample_env)
qed


text \<open>C7. Registering and deleting a chat: a value changes exactly that chat's entry; without faults,
  and for every error that names the chat's state, the store is unchanged and the error is genuine.\<close>

theorem chat_operations_refine:
  assumes "buildRepos accessType = Inr repos" and "db_wf (w_db w)" and "\<not> in_tx w"
    and "RegisterChat (NewService repos canHandle) c w = (r1, w1)"
    and "DeleteChat (NewService repos canHandle) c w = (r2, w2)"
  shows "(\<forall>x. r1 = Inr x \<longrightarrow> abs_db (w_db w) c = None \<and> abs_db (w_db w1) = (abs_db (w_db w))(c \<mapsto> Map.empty))
    \<and> (\<forall>e. r1 = Inl e \<and> (meaningful e \<or> w_faults w = []) \<longrightarrow>
          w_db w1 = w_db w \<and> abs_db (w_db w) c \<noteq> None \<and> errors_is S_ErrChatAlreadyRegistered e)
    \<and> (\<forall>x. r2 = Inr x \<longrightarrow> abs_db (w_db w) c \<noteq> None \<and> abs_db (w_db w2) = (abs_db (w_db w))(c := None))
    \<and> (\<forall>e. r2 = Inl e \<and> (meaningful e \<or> w_faults w = []) \<longrightarrow>
          w_db w2 = w_db w \<and> abs_db (w_db w) c = None \<and> errors_is S_ErrChatNotRegistered e)"
  using assms(1)
proof (cases rule: NewService_cases [where h = canHandle])
  case sql
  then show ?thesis
    using sql_svc.svc_RegisterChat [OF assms(2,3), of canHandle c r1 w1]
      sql_svc.svc_DeleteChat [OF assms(2,3), of canHandle c r2 w2] assms(4,5)
    by (intro conjI; simp; blast)
next
  case builder
  then show ?thesis
    using qb_svc.svc_RegisterChat [OF assms(2,3), of canHandle c r1 w1]
      qb_svc.svc_DeleteChat [OF assms(2,3), of canHandle c r2 w2] assms(4,5)
    by (intro conjI; simp; blast)
qed

lemma chat_operations_refine_witness:
  "\<exists>w1 w2 e. RegisterChat (NewService (sql_chat_repo, sql_link_repo, sql_sub_repo) (\<lambda>u. True)) 7 (sample_world tracking_db [])
         = (Inl e, w1) \<and> errors_is S_ErrChatAlreadyRegistered e \<and> w_db w1 = tracking_db
     \<and> DeleteChat (NewService (sql_chat_repo, sql_link_repo, sql_sub_repo) (\<lambda>u. True)) 7 (sample_world tracking_db [])
         = (Inr (), w2) \<and> abs_db (w_db w2) = (abs_db tracking_db)(7 := None)"
proof -
  let ?repos = "(sql_chat_repo, sql_link_repo, sql_sub_repo)"
  let ?w = "sample_world tracking_db []"
  have b: "buildRepos ''SQL'' = Inr ?repos" by (simp add: buildRepos_def)
  have "isl (fst (RegisterChat (NewService ?repos (\<lambda>u. True)) 7 ?w))" by code_simp
  then obtain e w1 where r1: "RegisterChat (NewService ?repos (\<lambda>u. True)) 7 ?w = (Inl e, w1)" by (rule run_errE)
  have "\<not> isl (fst (DeleteChat (NewService ?repos (\<lambda>u. True)) 7 ?w))" by code_simp
  then obtain x w2 where r2: "DeleteChat (NewService ?repos (\<lambda>u. True)) 7 ?w = (Inr x, w2)" by (rule run_okE)
  from chat_operations_refine [OF b _ _ r1 r2] r1 r2 show ?thesis
    by (auto simp: sample_world_top tracking_db_wf sample_env)
qed

subsection \<open>Histories of the service\<close>

text \<open>Orphans under single statements, whose reply may be lost after they ran.\<close>

definition keeps_orphan_free :: "'a world_scheme \<Rightarrow> 'a world_scheme \<Rightarrow> bool" where
  "keeps_orphan_free w w' \<longleftrightarrow> (no_orphans (w_db w) \<longrightarrow> no_orphans (w_db w'))"

interpretation orphan_free: state_preorder keeps_orphan_free
  by unfold_locales (auto simp: keeps_orphan_free_def)

lemma orphan_free_run_stmt:
  assumes "\<And>d. no_orphans d \<Longrightarrow> no_orphans (snd (f d))"
  shows "keeps keeps_orphan_free (run_stmt f)"
proof (rule keepsI)
  fix w r w'
  assume r: "run_stmt f w = (r, w')"
  then have "w_db w' = w_db w \<or> w_db w' = snd (f (w_db w))"
    by (auto simp: run_stmt_def run_with_def split: if_splits fault.splits prod.splits sum.splits)
  with assms show "keeps_orphan_free w w'" by (auto simp: keeps_orphan_free_def)
qed

lemma orphan_free_to_sql: "keeps keeps_orphan_free (to_sql msg)"
  by (rule keepsI) (simp add: keeps_orphan_free_def to_sql_aborted)

lemma insert_chat_orphans: "no_orphans d \<Longrightarrow> no_orphans (snd (insert_chat c d))"
  by (simp add: insert_chat_def no_orphans_def)

lemma delete_chat_orphans: "no_orphans d \<Longrightarrow> no_orphans (snd (delete_chat c d))"
  using delete_subs_no_orphans [of d "\<lambda>s. fst s = c"] by (simp add: delete_chat_def no_orphans_def)

lemma chats_orphan_free:
  assumes "buildRepos accessType = Inr repos"
  shows "keeps keeps_orphan_free (RegisterChat (NewService repos h) c)"
    and "keeps keeps_orphan_free (DeleteChat (NewService repos h) c)"
  using assms
  by (auto simp: buildRepos_def NewService_def RegisterChat_def DeleteChat_def sql_repo_defs qb_repo_defs
      qb_behind sql_chat_Create_def sql_chat_Delete_def split: if_splits
      intro!: orphan_free.keeps_rules orphan_free_run_stmt orphan_free_to_sql insert_chat_orphans delete_chat_orphans)

datatype command =
    Cmd_Register i64 | Cmd_Delete i64 | Cmd_Add i64 string "string list" | Cmd_Remove i64 string | Cmd_List i64

fun run_command :: "'a world_scheme service \<Rightarrow> command \<Rightarrow> 'a world_scheme \<Rightarrow> 'a world_scheme" where
  "run_command svc (Cmd_Register c) w = snd (RegisterChat svc c w)"
| "run_command svc (Cmd_Delete c) w = snd (DeleteChat svc c w)"
| "run_command svc (Cmd_Add c u ts) w = snd (AddLink svc c u ts w)"
| "run_command svc (Cmd_Remove c u) w = snd (RemoveLink svc c u w)"
| "run_command svc (Cmd_List c) w = snd (GetTrackedLinks svc c w)"

text \<open>From the empty database, any commands in any order; between them time passes and the
  connection may start to fail at any later call.\<close>

inductive history :: "'a world_scheme service \<Rightarrow> 'a world_scheme \<Rightarrow> bool" for svc where
  start: "w_db w = empty_db \<Longrightarrow> w_tx w = None \<Longrightarrow> map_order_ok w \<Longrightarrow> history svc w"
| command: "history svc w \<Longrightarrow> history svc (run_command svc cmd w)"
| environment: "history svc w \<Longrightarrow> history svc (w\<lparr>w_now := t, w_faults := fs\<rparr>)"

lemma frame_map_order: "frame w w' \<Longrightarrow> map_order_ok w \<Longrightarrow> map_order_ok w'"
  by (simp add: frame_def same_env_def map_order_ok_def)

context stores
begin

lemma svc_command_frame: "\<not> in_tx w \<Longrightarrow> map_order_ok w \<Longrightarrow> frame w (run_command svc cmd w)"
proof (cases cmd)
  case (Cmd_Register c)
  then show ?thesis
    using keepsD [OF implements_frame [OF RegisterChat_implements]] by (simp, metis prod.collapse)
next
  case (Cmd_Delete c)
  then show ?thesis
    using keepsD [OF implements_frame [OF DeleteChat_implements]] by (simp, metis prod.collapse)
next
  case (Cmd_Add c u ts)
  assume top: "\<not> in_tx w"
  obtain r0 w0 where b: "WithinTransaction (AddLink_tx svc c u ts) w = (r0, w0)"
    by (cases "WithinTransaction (AddLink_tx svc c u ts) w")
  have "frame w w0" using within_frame [OF top implements_frame [OF AddLink_tx_implements] b] by simp
  with Cmd_Add b show ?thesis
    by (cases r0) (simp_all add: AddLink_def frame_refl)
next
  case (Cmd_Remove c u)
  assume top: "\<not> in_tx w"
  have "keeps frame (ebind (cr_GetByID C c) (\<lambda>_. ebind (lr_GetByURL L u) (\<lambda>link.
      ebind (sr_Delete S c (link_ID link)) (\<lambda>subscription.
      eret \<lparr>tl_ID = link_ID link, tl_URL = link_URL link, tl_Tags = sub_Tags subscription\<rparr>))))"
    by (intro frames.keeps_rules implements_frame [OF chats.GetByID] implements_frame [OF links.GetByURL]
        implements_frame [OF subs.Delete])
  from within_frame [OF top this prod.collapse [symmetric]] Cmd_Remove show ?thesis
    by (simp add: RemoveLink_def svc_def)
next
  case (Cmd_List c)
  assume top: "\<not> in_tx w" and ord: "map_order_ok w"
    have "keeps frame (ebind (cr_GetByID C c) (\<lambda>_. ebind (sr_GetByChatID S c) (\<lambda>subscriptions.
        efor (\<lambda>sub. ebind (lr_GetByID L (sub_LinkID sub)) (\<lambda>link.
          eret \<lparr>tl_ID = link_ID link, tl_URL = link_URL link, tl_Tags = sub_Tags sub\<rparr>)) subscriptions)))"
      by (intro frames.keeps_rules implements_frame [OF chats.GetByID] implements_frame [OF links.GetByID]
          implements_frame [OF subs.GetByChatID [OF ord]])
    from within_frame [OF top this prod.collapse [symmetric]] Cmd_List show ?thesis
      by (simp add: GetTrackedLinks_def svc_def)
qed

end

context stores
begin

lemma svc_history_step:
  assumes "db_wf (w_db w)" and "\<not> in_tx w" and "map_order_ok w" and "no_orphans (w_db w)"
    and "\<And>c. keeps keeps_orphan_free (RegisterChat svc c)" and "\<And>c. keeps keeps_orphan_free (DeleteChat svc c)"
  shows "db_wf (w_db (run_command svc cmd w)) \<and> \<not> in_tx (run_command svc cmd w)
    \<and> map_order_ok (run_command svc cmd w) \<and> no_orphans (w_db (run_command svc cmd w))"
proof -
  have fr: "frame w (run_command svc cmd w)" by (rule svc_command_frame [OF assms(2,3)])
  have same: "no_orphans d'" if "same_tables (w_db w) d'" for d'
    using that assms(4) by (simp add: no_orphans_def same_tables_iff)
  have "no_orphans (w_db (run_command svc cmd w))"
  proof (cases cmd)
    case (Cmd_Register c)
    with keepsD [OF assms(5), of c w] assms(4) show ?thesis
      by (cases "RegisterChat svc c w") (simp add: keeps_orphan_free_def)
  next
    case (Cmd_Delete c)
    with keepsD [OF assms(6), of c w] assms(4) show ?thesis
      by (cases "DeleteChat svc c w") (simp add: keeps_orphan_free_def)
  next
    case (Cmd_Add c u ts)
    with svc_AddLink [OF assms(1,2), of c u ts] assms(4) show ?thesis
      by (cases "AddLink svc c u ts w") simp
  next
    case (Cmd_Remove c u)
    with svc_RemoveLink [OF assms(1,2), of c u] assms(4) show ?thesis
      by (cases "RemoveLink svc c u w") simp
  next
    case (Cmd_List c)
    with svc_GetTrackedLinks [OF assms(1-3), of c] same show ?thesis
      by (cases "GetTrackedLinks svc c w") simp
  qed
  with frame_wf [OF fr assms(1)] frame_in_tx [OF fr] assms(2) frame_map_order [OF fr assms(3)]
  show ?thesis by simp
qed

lemma svc_history:
  assumes "history svc w"
    and "\<And>c. keeps keeps_orphan_free (RegisterChat svc c)" and "\<And>c. keeps keeps_orphan_free (DeleteChat svc c)"
  shows "db_wf (w_db w) \<and> \<not> in_tx w \<and> map_order_ok w \<and> no_orphans (w_db w)"
  using assms(1)
proof (induction rule: history.induct)
  case (start w)
  moreover have "no_orphans empty_db" by (simp add: no_orphans_def empty_db_def)
  ultimately show ?case by (simp add: db_wf_empty in_tx_def)
next
  case (command w cmd)
  then show ?case using svc_history_step [OF _ _ _ _ assms(2,3)] by blast
next
  case (environment w t fs)
  then show ?case by (simp add: in_tx_def map_order_ok_def)
qed

end

text \<open>C8. In every state that any commands reach from the empty database, in any order and under
  any faults, the schema's invariant holds, no transaction is left open and every link has a
  subscription.\<close>

theorem service_history_invariant:
  assumes "buildRepos accessType = Inr repos" and "history (NewService repos canHandle) w"
  shows "db_wf (w_db w) \<and> \<not> in_tx w \<and> no_orphans (w_db w)"
  using assms(1)
proof (cases rule: NewService_cases [where h = canHandle])
  case sql
  with assms sql_svc.svc_history [of canHandle w] chats_orphan_free [OF assms(1), of canHandle]
  show ?thesis by simp
next
  case builder
  with assms qb_svc.svc_history [of canHandle w] chats_orphan_free [OF assms(1), of canHandle]
  show ?thesis by simp
qed

lemma service_history_invariant_witness:
  "no_orphans (w_db (run_command (NewService (sql_chat_repo, sql_link_repo, sql_sub_repo) (\<lambda>u. True))
     (Cmd_Add 7 ''https://github.com/a/b'' [])
     (run_command (NewService (sql_chat_repo, sql_link_repo, sql_sub_repo) (\<lambda>u. True)) (Cmd_Register 7)
       (sample_world empty_db []))))"
proof -
  let ?repos = "(sql_chat_repo, sql_link_repo, sql_sub_repo)"
  have "buildRepos ''SQL'' = Inr ?repos" by (simp add: buildRepos_def)
  moreover have "history (NewService ?repos (\<lambda>u. True)) (sample_world empty_db [])"
    by (rule history.start) (simp_all add: sample_env, simp_all add: sample_world_def)
  ultimately show ?thesis
    by (blast intro: history.command service_history_invariant [THEN conjunct2, THEN conjunct2])
qed

end
