(* ===== verification/Outbox_Props.thy ===== *)
theory Outbox_Props
  imports Outbox_Drain Wire_Props Subscription_Props
begin

text \<open>
  What the outbox promises: at least one delivery under any interleaving of services and workers and
  any faults, the outcome of every row in one run, and that the runs serve the rows in order until none
  is left.
\<close>

definition outbox_repos :: "'a world_scheme outbox_repo set" where
  "outbox_repos = {sql_outbox_repo, qb_outbox_repo}"

text \<open>C12. At least once. However services that add rows and any number of workers interleave, whatever
  requests and replies the connection loses and however often workers restart: a row marked SENT has its
  message in the topic, and a row is marked FAILED only when it cannot be serialised or its sends failed
  as often as configured.\<close>

theorem outbox_at_least_once:
  assumes "outbox_reach p w0 (w, pool)" and "pr_outRepo p \<in> outbox_repos"
    and "broker_ok (pr_SendMessage p) log" and "0 < pr_limit p"
    and "db_wf (w_db w0)" and "\<not> in_tx w0" and "\<forall>r \<in> set (db_outbox (w_db w0)). ob_Status r = PENDING"
    and "r \<in> set (db_outbox (w_db w))"
  shows "(ob_Status r = SENT \<longrightarrow> (\<exists>v. eventToBytes (pr_serializer p) r = Inr v \<and> event_message r v \<in> set (log (world.more w))))
     \<and> (ob_Status r = FAILED \<longrightarrow> isl (eventToBytes (pr_serializer p) r) \<or> pr_maxRetries p \<le> ob_Retries r)"
proof -
  have "outbox_inv p log (w, pool)"
    using assms(1,3-7) sql_queue.reach_inv qb_queue.reach_inv assms(2) unfolding outbox_repos_def by blast
  then have "row_ok p (log (world.more w)) r" using assms(8) by (simp add: outbox_inv_def)
  then show ?thesis by (simp add: row_ok_def delivered_def unreadable_def)
qed

text \<open>C13. One run of \<open>SendEvents\<close> on a working connection: of the oldest pending rows, as many as the
  limit allows, an unreadable one is given up, a sent one is marked SENT and its message is in the topic,
  one whose send failed has its retries counted and is given up at the last; every other row stays as it
  is, and the topic gains at most one message per row, in the order of the rows.\<close>

theorem SendEvents_outcome:
  assumes "pr_outRepo p \<in> outbox_repos" and "broker_ok (pr_SendMessage p) log" and "0 < pr_limit p"
    and "pg_text (pr_topic p)" and "db_wf (w_db w)" and "\<not> in_tx w" and "w_faults w = []"
  defines "batch \<equiv> take (pr_limit p) (queue p (w_db w))"
  shows "\<exists>w' new. SendEvents p w = (Inr (), w') \<and> log (world.more w') = log (world.more w) @ new
     \<and> subseq new (batch_messages p batch)
     \<and> list_all2 (\<lambda>r r'. if r \<in> set batch then row_outcome p (sql_time w) new r r' else r' = r)
         (db_outbox (w_db w)) (db_outbox (w_db w'))"
proof -
  have "quiet w" using assms(5-7) by (simp add: quiet_def)
  with sql_queue.SendEvents_run [OF _ _ assms(2-4)] qb_queue.SendEvents_run [OF _ _ assms(2-4)] assms(1)
  show ?thesis unfolding batch_def outbox_repos_def row_after_def by blast
qed

text \<open>C14. The outbox is a queue that drains. While the connection and the broker work, a worker's \<open>n\<close> ticks
  take the oldest \<open>n \<times> limit\<close> pending rows from the front of the queue and append their
  messages to the topic in the order of the rows, each once; so enough ticks leave no pending row.\<close>

theorem SendEvents_drains:
  assumes "pr_outRepo p \<in> outbox_repos" and "broker_ok (pr_SendMessage p) log" and "0 < pr_limit p"
    and "pg_text (pr_topic p)" and "db_wf (w_db w)" and "\<not> in_tx w" and "w_faults w = []"
    and "\<And>m v. \<exists>v'. pr_SendMessage p m v = (Inr (), v')"
  defines "after \<equiv> \<lambda>n. Worker_Start p n w"
  shows "queue p (w_db (after n)) = drop (n * pr_limit p) (queue p (w_db w))
     \<and> log (world.more (after n)) = log (world.more w) @ batch_messages p (take (n * pr_limit p) (queue p (w_db w)))
     \<and> (length (queue p (w_db w)) \<le> n * pr_limit p \<longrightarrow> queue p (w_db (after n)) = [])"
proof -
  have q: "quiet w" using assms(5-7) by (simp add: quiet_def)
  have ok: "\<not> send_fails p m" for m
    using assms(8) unfolding send_fails_def by (metis Inl_Inr_False fst_conv)
  show ?thesis
    using sql_queue.SendEvents_rounds [OF q _ assms(2-4) ok] qb_queue.SendEvents_rounds [OF q _ assms(2-4) ok] assms(1)
    unfolding after_def outbox_repos_def Worker_Start_def by auto
qed

subsection \<open>A run\<close>

text \<open>A world whose rest is the topic's messages, and a broker that acknowledges.\<close>

definition sample_broker :: "kafka_message \<Rightarrow> (kafka_message list world_scheme, unit) prog" where
  "sample_broker m w = (Inr (), world.extend (world.truncate w) (world.more w @ [m]))"

lemma sample_broker_ok: "broker_ok sample_broker (\<lambda>l. l)"
  by (simp add: broker_ok_def sample_broker_def same_connection_def world.defs)

definition sample_producer :: "(kafka_message list world_scheme) producer" where
  "sample_producer = \<lparr>pr_SendMessage = sample_broker, pr_outRepo = sql_outbox_repo, pr_topic = ''raw'',
     pr_serializer = sample_serializer, pr_limit = 10, pr_maxRetries = 3\<rparr>"

definition outbox_db :: pgdb where
  "outbox_db = empty_db\<lparr>db_outbox := [sample_event], db_outbox_seq := 1\<rparr>"

definition outbox_world :: "kafka_message list world_scheme" where
  "outbox_world = world.extend (sample_world outbox_db []) []"

lemma outbox_world_facts:
  "w_db outbox_world = outbox_db" "world.more outbox_world = []" "quiet outbox_world"
  "pr_outRepo sample_producer \<in> outbox_repos" "broker_ok (pr_SendMessage sample_producer) (\<lambda>l. l)"
  "0 < pr_limit sample_producer" "pg_text (pr_topic sample_producer)"
  "\<forall>r \<in> set (db_outbox outbox_db). ob_Status r = PENDING"
proof -
  show "w_db outbox_world = outbox_db" "world.more outbox_world = []"
    by (simp_all add: outbox_world_def world.defs sample_world_def)
  have "db_wf outbox_db"
    by (simp add: db_wf_def db_wf_defs empty_db_def outbox_db_def sample_event_def)
  then show "quiet outbox_world"
    by (simp add: quiet_def outbox_world_def world.defs sample_world_def in_tx_def)
  show "pr_outRepo sample_producer \<in> outbox_repos" by (simp add: sample_producer_def outbox_repos_def)
  show "broker_ok (pr_SendMessage sample_producer) (\<lambda>l. l)" by (simp add: sample_producer_def sample_broker_ok)
  show "0 < pr_limit sample_producer" by (simp add: sample_producer_def)
  have "pg_text ''raw''" by code_simp
  then show "pg_text (pr_topic sample_producer)" by (simp add: sample_producer_def)
  show "\<forall>r \<in> set (db_outbox outbox_db). ob_Status r = PENDING" by (simp add: outbox_db_def sample_event_def)
qed

lemmas outbox_world_quiet = outbox_world_facts(3) [unfolded quiet_def outbox_world_facts(1)]

lemma sample_queue: "queue sample_producer outbox_db = [sample_event]"
  by (simp add: queue_def outbox_db_def sample_producer_def sample_event_def)

lemma sample_limit: "pr_limit sample_producer = 10" and sample_send: "pr_SendMessage sample_producer = sample_broker"
  by (simp_all add: sample_producer_def)

lemma sample_batch: "take (pr_limit sample_producer) (queue sample_producer outbox_db) = [sample_event]"
    "db_outbox outbox_db = [sample_event]"
  by (simp_all add: sample_queue sample_limit) (simp add: outbox_db_def)

lemma sample_bytes: obtains v where "eventToBytes sample_serializer sample_event = Inr v"
  by (auto simp: eventToBytes_def sample_serializer_def sample_event_def codec_for_def sample_native_def
      RawLinkUpdateToNative_def unmarshal_def dec_linkUpdate_json)

lemma sample_fetch: "or_GetPending sql_outbox_repo ''raw'' 10 outbox_world = (Inr [sample_event], outbox_world)"
proof -
  have "aborted outbox_world = False" "next_fault outbox_world = No_fault" "pop_fault outbox_world = outbox_world"
    using outbox_world_facts(3) top_not_aborted by (auto simp: quiet_def pop_fault_def)
  moreover have "select_outbox PENDING ''raw'' (Some 10) outbox_db = (Inr [sample_event], outbox_db)"
    using outbox_world_facts(7) sample_queue
    by (simp add: select_outbox_def queue_def sample_producer_def)
  moreover have "outbox_world\<lparr>w_db := outbox_db\<rparr> = outbox_world" using outbox_world_facts(1) by simp
  ultimately show ?thesis
    by (simp add: sql_repo_defs sql_outbox_GetPending_def sql_outbox_getByStatus_def run_stmt_def run_with_def
        ehandle_def outbox_world_facts(1))
qed

lemma outbox_at_least_once_witness:
  "\<exists>w pool r. outbox_reach sample_producer outbox_world (w, pool) \<and> r \<in> set (db_outbox (w_db w)) \<and> ob_Status r = SENT
     \<and> (\<exists>v. eventToBytes sample_serializer r = Inr v \<and> event_message r v \<in> set (world.more w))"
proof -
  obtain v where v: "eventToBytes sample_serializer sample_event = Inr v" by (rule sample_bytes)
  let ?e = sample_event and ?p = sample_producer
  define w1 where "w1 = snd (sample_broker (event_message ?e v) outbox_world)"
  obtain u w2 where w2: "or_UpdateStatus sql_outbox_repo (ob_ID ?e) SENT w1 = (u, w2)" by fastforce
  have s1: "outbox_reach ?p outbox_world (outbox_world, (\<lambda>_. [])(0 := [Send ?e]))"
    using outbox_reach.fetch [OF outbox_reach.start, where p = ?p and w0 = outbox_world and i = 0 and es = "[?e]"
        and w' = outbox_world] sample_fetch
    by (simp add: sample_producer_def)
  have "task_step ?p (Send ?e) outbox_world = ([Mark ?e SENT], w1)"
    using v by (simp add: task_step_def sample_producer_def w1_def sample_broker_def)
  from outbox_reach.work [OF s1 _ this, of 0 "[]"]
  have s2: "outbox_reach ?p outbox_world (w1, (\<lambda>_. [])(0 := [Mark ?e SENT]))" by simp
  have "task_step ?p (Mark ?e SENT) w1 = ([], w2)"
    using w2 by (simp add: task_step_def sample_producer_def)
  from outbox_reach.work [OF s2 _ this, of 0 "[]"]
  have s3: "outbox_reach ?p outbox_world (w2, (\<lambda>_. []))" by (simp add: fun_upd_idem)
  have c: "same_connection outbox_world w1" using broker_okD(1) [OF sample_broker_ok, of "event_message ?e v" outbox_world]
    by (simp add: w1_def sample_broker_def)
  then have q1: "quiet w1" and db1: "w_db w1 = outbox_db"
    using quiet_send [OF outbox_world_facts(3) c] outbox_world_facts(1) by (simp_all add: same_connection_def)
  have "db_outbox (w_db w2) = replace_row ?e (?e\<lparr>ob_Status := SENT, ob_UpdatedAt := sql_time w1\<rparr>) (db_outbox (w_db w1))"
    by (rule sql_queue.UpdateStatus_run(1) [OF q1 _ w2]) (simp add: db1 outbox_db_def)
  then have r: "?e\<lparr>ob_Status := SENT, ob_UpdatedAt := sql_time w1\<rparr> \<in> set (db_outbox (w_db w2))"
    by (simp add: db1 outbox_db_def replace_row_def)
  from outbox_at_least_once [OF s3 outbox_world_facts(4,5,6) _ _ _ r] r s3 show ?thesis
    using outbox_world_quiet outbox_world_facts(1,8)
    by (intro exI [of _ w2] exI [of _ "\<lambda>_. []"] exI [of _ "?e\<lparr>ob_Status := SENT, ob_UpdatedAt := sql_time w1\<rparr>"])
       (auto simp: sample_producer_def)
qed

lemma SendEvents_outcome_witness:
  "\<exists>w' new. SendEvents sample_producer outbox_world = (Inr (), w') \<and> world.more w' = new
     \<and> list_all2 (\<lambda>r r'. row_outcome sample_producer (sql_time outbox_world) new r r') [sample_event] (db_outbox (w_db w'))"
  using SendEvents_outcome [OF outbox_world_facts(4,5,6,7), of outbox_world] outbox_world_quiet outbox_world_facts(1,2)
  by (auto simp: sample_batch list_all2_Cons1)

lemma SendEvents_drains_witness:
  "queue sample_producer (w_db (Worker_Start sample_producer 1 outbox_world)) = []
     \<and> length (world.more (Worker_Start sample_producer 1 outbox_world)) = 1"
proof -
  obtain v where "eventToBytes sample_serializer sample_event = Inr v" by (rule sample_bytes)
  then have "length (batch_messages sample_producer [sample_event]) = 1"
    by (simp add: event_messages_def sample_producer_def)
  moreover have "\<exists>v'. pr_SendMessage sample_producer m w = (Inr (), v')" for m w
    by (simp add: sample_send sample_broker_def)
  ultimately show ?thesis
    using SendEvents_drains [OF outbox_world_facts(4,5,6,7), of outbox_world 1] outbox_world_quiet outbox_world_facts(1,2)
    by (simp add: sample_queue sample_limit)
qed

end
