(* ===== verification/Agent_Outbox.thy ===== *)
theory Agent_Outbox
  imports Outbox
begin

text \<open>
  The agent's copies of the outbox repositories and of the Kafka producer
  (\<open>agent/infrastructure/repository\<close>, \<open>agent/infrastructure/adapter/out/kafka\<close>). They are the scrapper's
  code line by line; the one difference is that the repositories run on the pool without asking the
  context for a transaction, and the agent opens none. So each copy is the same function, and what is
  proved of the one holds of the other.
\<close>

definition agent_sql_Add :: "string \<Rightarrow> json \<Rightarrow> ('a world_scheme, outbox) prog" where
  "agent_sql_Add = sql_outbox_Add"
definition agent_sql_getByStatus :: "outbox_status \<Rightarrow> string \<Rightarrow> nat \<Rightarrow> ('a world_scheme, outbox list) prog" where
  "agent_sql_getByStatus = sql_outbox_getByStatus"
definition agent_sql_UpdateStatus :: "i64 \<Rightarrow> outbox_status \<Rightarrow> ('a world_scheme, unit) prog" where
  "agent_sql_UpdateStatus = sql_outbox_UpdateStatus"
definition agent_sql_IncrementRetries :: "i64 \<Rightarrow> ('a world_scheme, int) prog" where
  "agent_sql_IncrementRetries = sql_outbox_IncrementRetries"

definition agent_sql_outbox_repo :: "'a world_scheme outbox_repo" where
  "agent_sql_outbox_repo = \<lparr>or_Add = agent_sql_Add, or_GetPending = agent_sql_getByStatus PENDING,
     or_GetFailed = agent_sql_getByStatus FAILED, or_UpdateStatus = agent_sql_UpdateStatus,
     or_IncrementRetries = agent_sql_IncrementRetries\<rparr>"

definition agent_qb_Add :: "string \<Rightarrow> json \<Rightarrow> ('a world_scheme, outbox) prog" where
  "agent_qb_Add = qb_outbox_Add"
definition agent_qb_getByStatus :: "outbox_status \<Rightarrow> string \<Rightarrow> nat \<Rightarrow> ('a world_scheme, outbox list) prog" where
  "agent_qb_getByStatus = qb_outbox_getByStatus"
definition agent_qb_UpdateStatus :: "i64 \<Rightarrow> outbox_status \<Rightarrow> ('a world_scheme, unit) prog" where
  "agent_qb_UpdateStatus = qb_outbox_UpdateStatus"
definition agent_qb_IncrementRetries :: "i64 \<Rightarrow> ('a world_scheme, int) prog" where
  "agent_qb_IncrementRetries = qb_outbox_IncrementRetries"

definition agent_qb_outbox_repo :: "'a world_scheme outbox_repo" where
  "agent_qb_outbox_repo = \<lparr>or_Add = agent_qb_Add, or_GetPending = agent_qb_getByStatus PENDING,
     or_GetFailed = agent_qb_getByStatus FAILED, or_UpdateStatus = agent_qb_UpdateStatus,
     or_IncrementRetries = agent_qb_IncrementRetries\<rparr>"

lemma agent_repos:
  "agent_sql_outbox_repo = sql_outbox_repo" "agent_qb_outbox_repo = qb_outbox_repo"
  by (simp_all add: agent_sql_outbox_repo_def agent_qb_outbox_repo_def sql_outbox_repo_def qb_outbox_repo_def
      agent_sql_Add_def agent_sql_getByStatus_def agent_sql_UpdateStatus_def agent_sql_IncrementRetries_def
      agent_qb_Add_def agent_qb_getByStatus_def agent_qb_UpdateStatus_def agent_qb_IncrementRetries_def
      sql_outbox_GetPending_def [abs_def] sql_outbox_GetFailed_def [abs_def] qb_outbox_GetPending_def [abs_def]
      qb_outbox_GetFailed_def [abs_def])

definition agent_eventToBytes :: "topic_serializer \<Rightarrow> outbox \<Rightarrow> goerr + byte list" where
  "agent_eventToBytes = eventToBytes"
definition agent_markSent :: "'w producer \<Rightarrow> outbox \<Rightarrow> ('w, unit) prog" where
  "agent_markSent = markSent"
definition agent_markFailed :: "'w producer \<Rightarrow> outbox \<Rightarrow> ('w, unit) prog" where
  "agent_markFailed = markFailed"
definition agent_incrementRetries :: "'w producer \<Rightarrow> outbox \<Rightarrow> ('w, unit) prog" where
  "agent_incrementRetries = incrementRetries"

definition agent_send_event :: "'w producer \<Rightarrow> outbox \<Rightarrow> ('w, unit) prog" where
  "agent_send_event p event =
     (case agent_eventToBytes (pr_serializer p) event of
        Inl e \<Rightarrow> agent_markFailed p event
      | Inr value \<Rightarrow>
          ehandle (pr_SendMessage p (event_message event value))
            (\<lambda>_. agent_incrementRetries p event)
            (\<lambda>_. agent_markSent p event))"

definition agent_SendEvents :: "'w producer \<Rightarrow> ('w, unit) prog" where
  "agent_SendEvents p =
     ehandle (or_GetPending (pr_outRepo p) (pr_topic p) (pr_limit p))
       (\<lambda>e. efail (WrapErr ''cannot get pending messages: '' e ''''))
       (\<lambda>events. ebind (efor (agent_send_event p) events) (\<lambda>_. eret ()))"

definition agent_Worker_Start :: "'w producer \<Rightarrow> nat \<Rightarrow> 'w \<Rightarrow> 'w" where
  "agent_Worker_Start p ticks w = ((\<lambda>w. snd (agent_SendEvents p w)) ^^ ticks) w"

definition agent_getSchema ::
    "(string \<Rightarrow> ('w, (i64 \<times> codec) option) prog) \<Rightarrow> (string \<Rightarrow> string \<Rightarrow> ('w, i64 \<times> codec) prog) \<Rightarrow>
     string \<Rightarrow> string \<Rightarrow> ('w, i64 \<times> codec) prog" where
  "agent_getSchema = getSchema"

definition agent_NewProducer ::
    "(string \<Rightarrow> ('w, (i64 \<times> codec) option) prog) \<Rightarrow> (string \<Rightarrow> string \<Rightarrow> ('w, i64 \<times> codec) prog) \<Rightarrow>
     ('w, kafka_message \<Rightarrow> ('w, unit) prog) prog \<Rightarrow> string \<Rightarrow> string \<Rightarrow> (json \<Rightarrow> goerr + native) \<Rightarrow>
     'w outbox_repo \<Rightarrow> nat \<Rightarrow> int \<Rightarrow> ('w, 'w producer) prog" where
  "agent_NewProducer = NewProducer"

lemma agent_producer:
  "agent_send_event p = send_event p" "agent_SendEvents p = SendEvents p" "agent_Worker_Start p n w = Worker_Start p n w"
proof -
  show s: "agent_send_event p = send_event p" for p :: "'a producer"
    unfolding agent_send_event_def [abs_def] send_event_def [abs_def] agent_eventToBytes_def agent_markSent_def
      agent_markFailed_def agent_incrementRetries_def ..
  show r: "agent_SendEvents p = SendEvents p" for p :: "'a producer"
    by (simp add: agent_SendEvents_def SendEvents_def s)
  show "agent_Worker_Start p n w = Worker_Start p n w"
    by (simp add: agent_Worker_Start_def Worker_Start_def r)
qed

end
