(* ===== verification/Scrapper_Service.thy ===== *)
theory Scrapper_Service
  imports Outbox_Queue Subscription_Service Fetchers
begin

text \<open>
  The scrapper service (\<open>scrapper/application/scrapper_service.go\<close>): looking for the updates of one
  link, telling its subscribers through the notifier and keeping the time of the last update, in
  one transaction per event. A panic of \<open>Description\<close> unwinds through the transaction, which rolls back,
  and out of the service.
\<close>

record 'w scrapper_service =
  sv_linkRepo :: "'w link_repo"
  sv_subRepo :: "'w sub_repo"
  sv_fetcher :: "'w link_fetcher"
  sv_notifier :: "'w update_notifier"
  sv_batchSize :: int
  sv_fetchersCount :: int

definition NewScrapperService ::
    "'w link_repo \<Rightarrow> 'w sub_repo \<Rightarrow> 'w link_fetcher \<Rightarrow> 'w update_notifier \<Rightarrow> int \<Rightarrow> int \<Rightarrow> goerr + 'w scrapper_service" where
  "NewScrapperService linkRepo subRepo fetcher notifier batchSize fetchersCount =
     (if batchSize \<le> 0 then Inl (NewErr (''batchSize must be positive, got '' @ show_int batchSize))
      else if fetchersCount \<le> 0
      then Inl (NewErr (''fetchersCount must be positive, got '' @ show_int fetchersCount))
      else Inr \<lparr>sv_linkRepo = linkRepo, sv_subRepo = subRepo, sv_fetcher = fetcher, sv_notifier = notifier,
             sv_batchSize = batchSize, sv_fetchersCount = fetchersCount\<rparr>)"

text \<open>The closure run in the transaction of one event.\<close>

definition event_update :: "link \<Rightarrow> i64 list \<Rightarrow> update_event \<Rightarrow> string \<Rightarrow> link_update" where
  "event_update link chatIDs event description =
     \<lparr>lu_ID = link_ID link, lu_URL = link_URL link, lu_Author = ev_Author event,
      lu_Description = description, lu_TgChatIDs = chatIDs\<rparr>"

definition process_event ::
    "'w scrapper_service \<Rightarrow> link \<Rightarrow> i64 list \<Rightarrow> update_event \<Rightarrow> ('w, unit) prog" where
  "process_event svc link chatIDs event =
     ebind
       (if chatIDs \<noteq> []
        then case ev_Description event of
               None \<Rightarrow> efail (PanicErr ''slice bounds out of range'')
             | Some d \<Rightarrow>
                 ehandle (sv_notifier svc (event_update link chatIDs event d))
                   (\<lambda>e. efail (WrapErr ''failed to send update: '' e '''')) eret
        else eret ()) (\<lambda>_.
     ehandle (lr_Save (sv_linkRepo svc) (link\<lparr>link_LastUpdated := ev_UpdatedAt event\<rparr>))
       (\<lambda>e. efail (WrapErr ''failed to save link: '' e '''')) (\<lambda>_. eret ()))"

definition cannot_handle_text :: string where
  "cannot_handle_text = ''Cannot handle this link yet. Please contact admins if you see this message''"

definition cannot_fetch_text :: string where
  "cannot_fetch_text = ''couldn'' @ [CHR 39] @ ''t fetch your link :(''"

definition plain_update :: "link \<Rightarrow> i64 list \<Rightarrow> string \<Rightarrow> link_update" where
  "plain_update link chatIDs text =
     \<lparr>lu_ID = 0, lu_URL = link_URL link, lu_Author = '''', lu_Description = text, lu_TgChatIDs = chatIDs\<rparr>"

text \<open>The loop over the events: an event that fails is logged and the next one follows.\<close>

definition process_events ::
    "('a world_scheme) scrapper_service \<Rightarrow> link \<Rightarrow> i64 list \<Rightarrow> update_event list \<Rightarrow> ('a world_scheme, unit) prog" where
  "process_events svc link chatIDs events =
     ebind (efor (\<lambda>event. eguard (WithinTransaction (process_event svc link chatIDs event)) (\<lambda>_. eret ()) eret) events)
       (\<lambda>_. eret ())"

definition processLink :: "('a world_scheme) scrapper_service \<Rightarrow> link \<Rightarrow> ('a world_scheme, unit) prog" where
  "processLink svc link =
     ehandle (sr_GetByLinkID (sv_subRepo svc) (link_ID link)) (\<lambda>_. eret ()) (\<lambda>subscriptions.
     let chatIDs = map sub_ChatID subscriptions in
     if \<not> lf_CanHandle (sv_fetcher svc) (link_URL link)
     then (if chatIDs \<noteq> [] then logged (sv_notifier svc (plain_update link chatIDs cannot_handle_text)) else eret ())
     else
       ehandle (lf_Fetch (sv_fetcher svc) (link_URL link) (link_LastUpdated link))
         (\<lambda>_. logged (sv_notifier svc (plain_update link chatIDs cannot_fetch_text)))
         (\<lambda>events. process_events svc link chatIDs events))"

subsection \<open>What an event does to the tables\<close>

definition send_stmt :: "instant \<Rightarrow> string \<Rightarrow> link_update \<Rightarrow> unit stmt" where
  "send_stmt now topic u =
     ebind (ebind (insert_outbox now topic (linkUpdate_json u)) (\<lambda>r. eret (the r))) (\<lambda>_. eret ())"

definition notify_stmt :: "instant \<Rightarrow> string \<Rightarrow> link \<Rightarrow> i64 list \<Rightarrow> update_event \<Rightarrow> unit stmt" where
  "notify_stmt now topic link chatIDs event =
     (if chatIDs \<noteq> []
      then case ev_Description event of
             None \<Rightarrow> efail (PanicErr ''slice bounds out of range'')
           | Some d \<Rightarrow> send_stmt now topic (event_update link chatIDs event d)
      else eret ())"

definition event_stmt ::
    "instant \<Rightarrow> (instant \<Rightarrow> instant) \<Rightarrow> string \<Rightarrow> link \<Rightarrow> i64 list \<Rightarrow> update_event \<Rightarrow> unit stmt" where
  "event_stmt now stamp topic link chatIDs event =
     ebind (notify_stmt now topic link chatIDs event) (\<lambda>_.
     ebind (link_save stamp (link\<lparr>link_LastUpdated := ev_UpdatedAt event\<rparr>)) (\<lambda>_. eret ()))"

locale scrapper_stores = links: link_store L page_key + subs: sub_store S order + outbox: outbox_queue O'
  for L :: "'a world_scheme link_repo" and page_key
    and S :: "'a world_scheme sub_repo" and order
    and O' :: "'a world_scheme outbox_repo" +
  assumes GetByLinkID_same: "w_db (snd (sr_GetByLinkID S l w)) = w_db w"
    and GetBatch_same: "w_db (snd (lr_GetBatch L lim off w)) = w_db w"
begin

lemma implements_wrapped:
  assumes "implements W m a" and "\<And>x. implements W (f x) (b x)"
  shows "implements W (ehandle m (\<lambda>e. efail (WrapErr p e q)) f) (ebind a b)"
  unfolding ebind_def
  by (rule implements_ehandle_fail [OF assms(1), where g = "\<lambda>e. WrapErr p e q" and g' = "\<lambda>e. e"]) (auto intro: assms(2))

lemma SendUpdate_ok:
  "implements W (Notifier_SendUpdate O' topic u) (send_stmt (w_now W div 1000 * 1000) topic u)"
  unfolding Notifier_SendUpdate_def send_stmt_def
  by (rule implements_wrapped [OF outbox.Add implements_eret])

lemma wrapped_ret:
  assumes "implements W m a"
  shows "implements W (ehandle m (\<lambda>e. efail (WrapErr p e q)) eret) a"
proof -
  have "ebind a eret d = a d" for d by (cases "a d"; cases "fst (a d)") (auto simp: ebind_def ehandle_def)
  then have "ebind a eret = a" by (rule ext)
  with implements_wrapped [where f = eret and b = eret, OF assms implements_eret, of p q] show ?thesis by simp
qed

lemma process_event_ok:
  assumes "sv_linkRepo svc = L" and "sv_notifier svc = Notifier_SendUpdate O' topic"
  shows "implements W (process_event svc k chats ev)
     (event_stmt (w_now W div 1000 * 1000) (w_stamp W) topic k chats ev)"
  unfolding process_event_def event_stmt_def notify_stmt_def assms
  by (intro implements_ebind implements_if implements_case_option implements_eret implements_efail
      implements_wrapped wrapped_ret SendUpdate_ok links.Save)

end

text \<open>Reading leaves the tables as they are, whatever fails.\<close>

lemma read_same: "(\<And>d. snd (f d) = d) \<Longrightarrow> w_db (snd (run_stmt f w)) = w_db w"
  using run_stmt_once [of f w] by auto

lemma ehandle_same:
  assumes "w_db (snd (m w)) = w_db w" and "\<And>x v. w_db (snd (f x v)) = w_db v"
  shows "w_db (snd (ehandle m (\<lambda>e. efail (g e)) f w)) = w_db w"
  using assms by (cases "m w"; cases "fst (m w)") (auto simp: ehandle_def)

lemma build_same: "(\<And>v. w_db (snd (m v)) = w_db v) \<Longrightarrow> w_db (snd (build m w)) = w_db w"
  using build_once [of m "\<lambda>n d. d" w] by auto

lemma link_reads:
  "w_db (snd (sql_sub_GetByLinkID l w)) = w_db w" "w_db (snd (qb_sub_GetByLinkID l w)) = w_db w"
  "w_db (snd (sql_link_GetBatch lim off w)) = w_db w" "w_db (snd (qb_link_GetBatch lim off w)) = w_db w"
  unfolding sql_sub_GetByLinkID_def qb_sub_GetByLinkID_def scanSubscriptions_def sql_link_GetBatch_def qb_link_GetBatch_def
  by (auto intro!: ehandle_same read_same build_same simp: ranged_def select_subs_by_link_def select_links_by_def)

interpretation sql_scrapper: scrapper_stores sql_link_repo link_LastUpdated sql_sub_repo w_map_order sql_outbox_repo
  by unfold_locales (simp_all add: sql_repo_defs link_reads)

interpretation qb_scrapper: scrapper_stores qb_link_repo "\<lambda>k. sint (link_ID k)" qb_sub_repo "\<lambda>W ks. ks" qb_outbox_repo
  by unfold_locales (simp_all add: qb_repo_defs link_reads)

subsection \<open>The wiring with Kafka\<close>

definition buildKafka :: "string \<Rightarrow> string \<Rightarrow> goerr + ('a world_scheme) update_notifier" where
  "buildKafka accessType topic =
     sbind (if accessType = ''SQL'' then Inr sql_outbox_repo
            else if accessType = ''BUILDER'' then Inr qb_outbox_repo
            else Inl (NewErr (''unsupported database access type: '' @ accessType)))
       (\<lambda>outRepo. Inr (Notifier_SendUpdate outRepo topic))"

definition scrapper_with ::
    "string \<Rightarrow> (('a world_scheme) link_fetcher) \<Rightarrow> (goerr + ('a world_scheme) update_notifier) \<Rightarrow> int \<Rightarrow> int \<Rightarrow>
     goerr + ('a world_scheme) scrapper_service" where
  "scrapper_with accessType fetcher buildNotifier batch concurrency =
     sbind (buildRepos accessType) (\<lambda>(chatRepo, linkRepo, subRepo).
     sbind buildNotifier (\<lambda>notifier.
     NewScrapperService linkRepo subRepo fetcher notifier batch concurrency))"

lemma scrapper_with_cases:
  assumes "scrapper_with accessType F (buildKafka accessType topic) b n = Inr svc"
  obtains (sql) "sv_linkRepo svc = sql_link_repo" "sv_subRepo svc = sql_sub_repo"
      "sv_notifier svc = Notifier_SendUpdate sql_outbox_repo topic" "accessType = ''SQL''"
    | (builder) "sv_linkRepo svc = qb_link_repo" "sv_subRepo svc = qb_sub_repo"
      "sv_notifier svc = Notifier_SendUpdate qb_outbox_repo topic" "accessType = ''BUILDER''"
  using assms
  by (auto simp: scrapper_with_def buildKafka_def buildRepos_def sbind_Inr NewScrapperService_def split: if_splits)

lemma scrapper_with_fields:
  assumes "scrapper_with accessType F N b n = Inr svc"
  shows "sv_fetcher svc = F" and "sv_batchSize svc = b" and "sv_fetchersCount svc = n" and "0 < b" and "0 < n"
  using assms by (auto simp: scrapper_with_def sbind_Inr NewScrapperService_def split: if_splits)

end
