(* ===== verification/Scrapper_Effects.thy ===== *)
theory Scrapper_Effects
  imports Scrapper_Service Tracking "HOL-Library.Sublist"
begin

text \<open>
  What the scrapper service leaves in the tables: per event a row of the outbox and the time of the link
  together or neither, and nothing else.
\<close>

type_synonym row_view = "string \<times> json \<times> outbox_status \<times> int"

definition outbox_view :: "pgdb \<Rightarrow> row_view list" where
  "outbox_view d = map (\<lambda>r. (ob_Topic r, ob_Payload r, ob_Status r, ob_Retries r)) (db_outbox d)"

definition set_time :: "string \<Rightarrow> instant \<Rightarrow> link list \<Rightarrow> link list" where
  "set_time u t ks = map (\<lambda>k. if link_URL k = u then k\<lparr>link_LastUpdated := t\<rparr> else k) ks"

definition rest_same :: "pgdb \<Rightarrow> pgdb \<Rightarrow> bool" where
  "rest_same d d' \<longleftrightarrow> db_chats d' = db_chats d \<and> db_subs d' = db_subs d \<and> db_tags d' = db_tags d
     \<and> db_sessions d' = db_sessions d"

definition new_row :: "string \<Rightarrow> link_update \<Rightarrow> row_view" where
  "new_row topic u = (topic, linkUpdate_json u, PENDING, 0)"

definition event_rows :: "string \<Rightarrow> link \<Rightarrow> i64 list \<Rightarrow> update_event \<Rightarrow> row_view list" where
  "event_rows topic link chats ev =
     (if chats = [] then [] else [new_row topic (event_update link chats ev (the (ev_Description ev)))])"

definition has_url :: "string \<Rightarrow> pgdb \<Rightarrow> bool" where
  "has_url u d \<longleftrightarrow> u \<in> link_URL ` set (db_links d)"

lemma rest_same_refl [simp]: "rest_same d d"
  by (simp add: rest_same_def)

lemma rest_same_trans: "rest_same a b \<Longrightarrow> rest_same b c \<Longrightarrow> rest_same a c"
  by (simp add: rest_same_def)

lemma set_time_twice [simp]: "set_time u t (set_time u s ks) = set_time u t ks"
  by (simp add: set_time_def)

lemma set_time_urls [simp]: "map link_URL (set_time u t ks) = map link_URL ks" "map link_ID (set_time u t ks) = map link_ID ks"
  by (auto simp: set_time_def)

lemma has_url_set_time: "db_links d' = set_time v t (db_links d) \<Longrightarrow> has_url u d' = has_url u d"
  unfolding has_url_def by (metis set_map set_time_urls(1))

lemma find_present:
  assumes "has_url u d"
  obtains k where "find (\<lambda>k. link_URL k = u) (db_links d) = Some k"
  using assms by (cases "find (\<lambda>k. link_URL k = u) (db_links d)") (auto simp: has_url_def find_None_iff)

lemma same_tables_views:
  "same_tables d d' \<Longrightarrow> outbox_view d' = outbox_view d \<and> db_links d' = db_links d \<and> rest_same d d' \<and> has_url u d' = has_url u d"
  by (simp add: same_tables_iff outbox_view_def rest_same_def has_url_def)

lemma insert_outbox_effect:
  assumes "insert_outbox now topic p d = (Inr x, d')"
  shows "outbox_view d' = outbox_view d @ [(topic, p, PENDING, 0)]" and "db_links d' = db_links d" and "rest_same d d'"
    and "db_outbox_seq d' = db_outbox_seq d + 1" and "db_link_seq d' = db_link_seq d"
  using assms by (auto simp: insert_outbox_def Let_def outbox_view_def rest_same_def split: if_splits option.splits)

lemma link_save_effect:
  assumes "has_url (link_URL k) d" and "link_save stamp k d = (Inr x, d')"
  shows "outbox_view d' = outbox_view d" and "db_links d' = set_time (link_URL k) (stamp (link_LastUpdated k)) (db_links d)"
    and "rest_same d d'" and "db_outbox_seq d' = db_outbox_seq d" and "db_link_seq d' = db_link_seq d + 1"
proof -
  obtain k' where "find (\<lambda>k'. link_URL k' = link_URL k) (db_links d) = Some k'"
    by (rule find_present [OF assms(1)])
  with assms(2) show "outbox_view d' = outbox_view d" "rest_same d d'" "db_outbox_seq d' = db_outbox_seq d"
      "db_links d' = set_time (link_URL k) (stamp (link_LastUpdated k)) (db_links d)" "db_link_seq d' = db_link_seq d + 1"
    by (auto simp: link_save_def upsert_link_def Let_def outbox_view_def rest_same_def set_time_def
        split: if_splits option.splits)
qed

lemma event_stmt_effect:
  assumes "has_url (link_URL k) d" and "event_stmt now stamp topic k chats ev d = (Inr (), d')"
  shows "outbox_view d' = outbox_view d @ event_rows topic k chats ev"
    and "db_links d' = set_time (link_URL k) (stamp (ev_UpdatedAt ev)) (db_links d)"
    and "rest_same d d'" and "db_outbox_seq d' \<le> db_outbox_seq d + 1" and "db_link_seq d' \<le> db_link_seq d + 1"
proof -
  obtain d1 where n: "notify_stmt now topic k chats ev d = (Inr (), d1)"
      and sv: "\<exists>x. link_save stamp (k\<lparr>link_LastUpdated := ev_UpdatedAt ev\<rparr>) d1 = (Inr x, d')"
    using assms(2) unfolding event_stmt_def by (auto elim!: ebind_okE)
  have d1: "chats = [] \<and> d1 = d \<or> chats \<noteq> [] \<and> (\<exists>t x. ev_Description ev = Some t \<and>
        insert_outbox now topic (linkUpdate_json (event_update k chats ev t)) d = (Inr x, d1))"
    using n unfolding notify_stmt_def send_stmt_def
    by (auto elim!: ebind_okE split: if_splits option.splits)
  have v: "outbox_view d1 = outbox_view d @ event_rows topic k chats ev" "db_links d1 = db_links d" "rest_same d d1"
      "db_outbox_seq d1 \<le> db_outbox_seq d + 1" "db_link_seq d1 = db_link_seq d"
    using d1 insert_outbox_effect [of now topic _ d _ d1] by (auto simp: event_rows_def new_row_def)
  then have "has_url (link_URL (k\<lparr>link_LastUpdated := ev_UpdatedAt ev\<rparr>)) d1"
    using assms(1) by (simp add: has_url_def)
  then show "outbox_view d' = outbox_view d @ event_rows topic k chats ev"
    "db_links d' = set_time (link_URL k) (stamp (ev_UpdatedAt ev)) (db_links d)"
    "rest_same d d'" "db_outbox_seq d' \<le> db_outbox_seq d + 1" "db_link_seq d' \<le> db_link_seq d + 1"
    using sv link_save_effect [of "k\<lparr>link_LastUpdated := ev_UpdatedAt ev\<rparr>" d1 stamp _ d'] v
    by (auto intro: rest_same_trans)
qed

text \<open>When an event's transaction succeeds.\<close>

definition storable :: "string \<Rightarrow> link \<Rightarrow> nat \<Rightarrow> pgdb \<Rightarrow> bool" where
  "storable topic k n d \<longleftrightarrow> pg_text topic \<and> varchar_ok topic \<and> pg_text (link_URL k)
     \<and> db_outbox_seq d + n < 2 ^ 63 \<and> db_link_seq d + n < 2 ^ 63"

lemma event_stmt_total:
  assumes "has_url (link_URL k) d" and "storable topic k 1 d" and "chats = [] \<or> ev_Description ev \<noteq> None"
  shows "\<exists>d'. event_stmt now stamp topic k chats ev d = (Inr (), d')"
proof -
  have "\<exists>d1. notify_stmt now topic k chats ev d = (Inr (), d1) \<and> db_links d1 = db_links d \<and> db_link_seq d1 = db_link_seq d"
    using assms(2,3) unfolding notify_stmt_def send_stmt_def
    by (auto simp: storable_def insert_outbox_def next_id_def ebind_def ehandle_def Let_def split: option.splits)
  then obtain d1 where d1: "notify_stmt now topic k chats ev d = (Inr (), d1)" "db_links d1 = db_links d"
      "db_link_seq d1 = db_link_seq d" by blast
  obtain k' where "find (\<lambda>k'. link_URL k' = link_URL k) (db_links d1) = Some k'"
    using find_present [OF assms(1)] d1(2) by metis
  then have "\<exists>x d'. link_save stamp (k\<lparr>link_LastUpdated := ev_UpdatedAt ev\<rparr>) d1 = (Inr x, d')"
    using assms(2) d1(3) by (simp add: storable_def link_save_def upsert_link_def next_id_def Let_def)
  then obtain x d' where "link_save stamp (k\<lparr>link_LastUpdated := ev_UpdatedAt ev\<rparr>) d1 = (Inr x, d')" by blast
  then show ?thesis
    using d1(1) by (intro exI [of _ d']) (simp add: event_stmt_def ebind_def ehandle_def)
qed

subsection \<open>The transaction of one event\<close>

definition event_tx :: "('a world_scheme) scrapper_service \<Rightarrow> link \<Rightarrow> i64 list \<Rightarrow> update_event \<Rightarrow> ('a world_scheme, unit) prog" where
  "event_tx svc k chats ev = eguard (WithinTransaction (process_event svc k chats ev)) (\<lambda>_. eret ()) eret"

lemma process_events_tx: "process_events svc k chats events = ebind (efor (event_tx svc k chats) events) (\<lambda>_. eret ())"
  by (simp add: process_events_def event_tx_def [abs_def])

lemma event_tx_result:
  assumes "event_tx svc k chats ev w = (r, w')"
  shows "\<exists>r0. WithinTransaction (process_event svc k chats ev) w = (r0, w')
     \<and> r = (case r0 of Inr u \<Rightarrow> Inr () | Inl e \<Rightarrow> if is_panic e then Inl e else Inr ())"
  using assms unfolding event_tx_def by (cases rule: eguard_cases) auto

context scrapper_stores
begin

lemma event_tx_outcome:
  assumes svc: "sv_linkRepo svc = L" "sv_notifier svc = Notifier_SendUpdate O' topic"
    and wf: "db_wf (w_db w)" and top: "\<not> in_tx w" and run: "event_tx svc k chats ev w = (r, w')"
  defines "stmt \<equiv> event_stmt (w_now w div 1000 * 1000) (w_stamp w) topic k chats ev"
  shows "frame w w'" and "\<not> in_tx w'" and "db_wf (w_db w')"
    and "same_tables (w_db w) (w_db w') \<or> stmt (w_db w) = (Inr (), w_db w')"
    and "w_faults w = [] \<Longrightarrow> fst (stmt (w_db w)) = Inr () \<Longrightarrow> r = Inr () \<and> stmt (w_db w) = (Inr (), w_db w')"
    and "r = Inr () \<or> (\<exists>e. r = Inl e \<and> is_panic e)"
proof -
  obtain r0 where r0: "WithinTransaction (process_event svc k chats ev) w = (r0, w')"
      "r = (case r0 of Inr u \<Rightarrow> Inr () | Inl e \<Rightarrow> if is_panic e then Inl e else Inr ())"
    using event_tx_result [OF run] by blast
  have o: "tx_outcome stmt w r0 w'"
    unfolding stmt_def by (rule within_outcome [OF process_event_ok [OF svc] wf top r0(1)])
  then show "frame w w'" "\<not> in_tx w'" by (simp_all add: tx_outcome_def)
  then show "db_wf (w_db w')" using frame_wf wf by blast
  show "same_tables (w_db w) (w_db w') \<or> stmt (w_db w) = (Inr (), w_db w')"
    using o by (cases r0) (auto simp: tx_outcome_def)
  show "r = Inr () \<and> stmt (w_db w) = (Inr (), w_db w')" if "w_faults w = []" "fst (stmt (w_db w)) = Inr ()"
    using o that r0(2) by (cases r0) (auto simp: tx_outcome_def)
  show "r = Inr () \<or> (\<exists>e. r = Inl e \<and> is_panic e)"
    using r0(2) by (auto split: sum.splits if_splits)
qed

lemma link_times_step:
  assumes "has_url (link_URL k) d" and "same_tables d d' \<or> event_stmt now stamp topic k chats ev d = (Inr (), d')"
  obtains kept where "kept = [] \<or> kept = [ev]" and "outbox_view d' = outbox_view d @ concat (map (event_rows topic k chats) kept)"
    and "db_links d' = foldl (\<lambda>ks ev. set_time (link_URL k) (stamp (ev_UpdatedAt ev)) ks) (db_links d) kept"
    and "rest_same d d'"
  using assms(2)
proof
  assume "same_tables d d'"
  with same_tables_views [OF this] show thesis by (intro that [of "[]"]) auto
next
  assume "event_stmt now stamp topic k chats ev d = (Inr (), d')"
  from event_stmt_effect [OF assms(1) this] show thesis by (intro that [of "[ev]"]) auto
qed

lemma foldl_set_time_url:
  "db_links d' = foldl (\<lambda>ks ev. set_time u (g ev) ks) (db_links d) kept \<Longrightarrow> has_url v d' = has_url v d"
proof (induction "kept" arbitrary: d)
  case Nil
  then show ?case by (simp add: has_url_def)
next
  case (Cons ev evs)
  let ?d = "d\<lparr>db_links := set_time u (g ev) (db_links d)\<rparr>"
  from Cons.IH [of ?d] Cons.prems have "has_url v d' = has_url v ?d" by simp
  also have "\<dots> = has_url v d" by (rule has_url_set_time [of ?d u "g ev" d]) simp
  finally show ?case .
qed

lemma efor_events:
  assumes svc: "sv_linkRepo svc = L" "sv_notifier svc = Notifier_SendUpdate O' topic"
    and "db_wf (w_db w)" and "\<not> in_tx w" and "has_url (link_URL k) (w_db w)"
    and "efor (event_tx svc k chats) events w = (r, w')"
  shows "\<exists>kept. subseq kept events \<and> outbox_view (w_db w') = outbox_view (w_db w) @ concat (map (event_rows topic k chats) kept)
     \<and> db_links (w_db w') = foldl (\<lambda>ks ev. set_time (link_URL k) (w_stamp w (ev_UpdatedAt ev)) ks) (db_links (w_db w)) kept
     \<and> rest_same (w_db w) (w_db w') \<and> frame w w' \<and> \<not> in_tx w'
     \<and> ((\<exists>us. r = Inr us) \<or> (\<exists>e. r = Inl e \<and> is_panic e))
     \<and> (w_faults w = [] \<and> storable topic k (length events) (w_db w) \<and> (chats = [] \<or> (\<forall>ev \<in> set events. ev_Description ev \<noteq> None))
          \<longrightarrow> kept = events \<and> (\<exists>us. r = Inr us))"
  using assms(3-)
proof (induction events arbitrary: w r)
  case Nil
  then show ?case by (auto intro: frame_refl)
next
  case (Cons ev evs)
  obtain r1 w1 where t: "event_tx svc k chats ev w = (r1, w1)" by fastforce
  note o = event_tx_outcome [OF svc Cons.prems(1,2) t]
  let ?st = "w_stamp w" let ?now = "w_now w div 1000 * 1000"
  have env: "w_stamp w1 = ?st" using o(1) by (simp add: frame_def same_env_def)
  let ?total = "w_faults w = [] \<and> storable topic k (length (ev # evs)) (w_db w)
      \<and> (chats = [] \<or> (\<forall>ev \<in> set (ev # evs). ev_Description ev \<noteq> None))"
  have total: "r1 = Inr () \<and> event_stmt ?now ?st topic k chats ev (w_db w) = (Inr (), w_db w1)" if tot: ?total
  proof -
    have "storable topic k 1 (w_db w)" using tot by (auto simp: storable_def)
    moreover have "chats = [] \<or> ev_Description ev \<noteq> None" using tot by auto
    ultimately have "\<exists>d'. event_stmt ?now ?st topic k chats ev (w_db w) = (Inr (), d')"
      by (rule event_stmt_total [OF Cons.prems(3)])
    then obtain d' where "event_stmt ?now ?st topic k chats ev (w_db w) = (Inr (), d')" by blast
    with o(5) tot show ?thesis by simp
  qed
  obtain done1 where d1: "done1 = [] \<or> done1 = [ev]"
      "outbox_view (w_db w1) = outbox_view (w_db w) @ concat (map (event_rows topic k chats) done1)"
      "db_links (w_db w1) = foldl (\<lambda>ks ev. set_time (link_URL k) (?st (ev_UpdatedAt ev)) ks) (db_links (w_db w)) done1"
      "rest_same (w_db w) (w_db w1)" "?total \<Longrightarrow> done1 = [ev]"
  proof (cases ?total)
    case True
    with total have e: "event_stmt ?now ?st topic k chats ev (w_db w) = (Inr (), w_db w1)" by simp
    from event_stmt_effect [OF Cons.prems(3) this] show thesis by (intro that [of "[ev]"]) auto
  next
    case False
    from link_times_step [OF Cons.prems(3) o(4)] that False show thesis by metis
  qed
  show ?case
  proof (cases r1)
    case (Inl e)
    with o(6) have "is_panic e" by auto
    moreover have "r = Inl e" "w' = w1" using Cons.prems(4) t Inl by simp_all
    moreover have nt: "\<not> ?total"
    proof
      assume ?total
      from total [OF this] Inl show False by simp
    qed
    moreover have "subseq done1 (ev # evs)" using d1(1) by auto
    ultimately show ?thesis using d1 o(1,2) by (intro exI [of _ done1]) auto
  next
    case (Inr u)
    obtain r2 where rest: "efor (event_tx svc k chats) evs w1 = (r2, w')"
        "r = (case r2 of Inl e \<Rightarrow> Inl e | Inr us \<Rightarrow> Inr (u # us))"
      using Cons.prems(4) t Inr by (cases "efor (event_tx svc k chats) evs w1") (auto simp: ebind_def ehandle_def split: sum.splits)
    have "has_url (link_URL k) (w_db w1)" using foldl_set_time_url [OF d1(3)] Cons.prems(3) by simp
    from Cons.IH [OF o(3,2) this rest(1)] obtain done2 where d2: "subseq done2 evs"
        "outbox_view (w_db w') = outbox_view (w_db w1) @ concat (map (event_rows topic k chats) done2)"
        "db_links (w_db w') = foldl (\<lambda>ks ev. set_time (link_URL k) (?st (ev_UpdatedAt ev)) ks) (db_links (w_db w1)) done2"
        "rest_same (w_db w1) (w_db w')" "frame w1 w'" "\<not> in_tx w'" "(\<exists>us. r2 = Inr us) \<or> (\<exists>e. r2 = Inl e \<and> is_panic e)"
        "w_faults w1 = [] \<and> storable topic k (length evs) (w_db w1) \<and> (chats = [] \<or> (\<forall>ev \<in> set evs. ev_Description ev \<noteq> None))
          \<longrightarrow> done2 = evs \<and> (\<exists>us. r2 = Inr us)"
      unfolding env by blast
    have next_total: "w_faults w1 = [] \<and> storable topic k (length evs) (w_db w1)
        \<and> (chats = [] \<or> (\<forall>ev \<in> set evs. ev_Description ev \<noteq> None))" if ?total
    proof -
      from total [OF that] event_stmt_effect(4,5) [OF Cons.prems(3)]
      have "db_outbox_seq (w_db w1) \<le> db_outbox_seq (w_db w) + 1" "db_link_seq (w_db w1) \<le> db_link_seq (w_db w) + 1"
        by blast+
      with that o(1) show ?thesis by (auto simp: storable_def frame_def)
    qed
    have "subseq (done1 @ done2) (ev # evs)" using d1(1) d2(1) by auto
    moreover have "?total \<longrightarrow> done1 @ done2 = ev # evs \<and> (\<exists>us. r = Inr us)"
      using d1(5) d2(8) next_total rest(2) by auto
    moreover have "(\<exists>us. r = Inr us) \<or> (\<exists>e. r = Inl e \<and> is_panic e)" using d2(7) rest(2) by auto
    ultimately show ?thesis
      using d1 d2 frame_trans [OF o(1) d2(5)] rest_same_trans [OF d1(4) d2(4)]
      by (intro exI [of _ "done1 @ done2"]) simp
  qed
qed

end

end
