(* ===== verification/Scrapper_Props.thy ===== *)
theory Scrapper_Props
  imports Scrapper_Effects Subscription_Props
begin

text \<open>What the subscribers of a link get, and when.\<close>

definition subscribers :: "pgdb \<Rightarrow> i64 \<Rightarrow> i64 list" where
  "subscribers d l = map fst (filter (\<lambda>s. snd s = l) (db_subs d))"

text \<open>Fetching goes over HTTP: it leaves the database connection alone.\<close>

definition fetch_apart :: "('a world_scheme) link_fetcher \<Rightarrow> bool" where
  "fetch_apart F \<longleftrightarrow> (\<forall>u t v. same_connection v (snd (lf_Fetch F u t v)))"

lemma foldl_set_time:
  "foldl (\<lambda>ks ev. set_time u (g ev) ks) ks evs = (if evs = [] then ks else set_time u (g (last evs)) ks)"
  by (induction evs arbitrary: ks) (auto simp: last_ConsR)

lemma set_time_none: "u \<notin> link_URL ` set ks \<Longrightarrow> set_time u t ks = ks"
  unfolding set_time_def by (intro map_idI) auto

context scrapper_stores
begin

lemma GetByLinkID_result:
  assumes "db_wf (w_db w)" and "\<not> in_tx w" and "map_order_ok w" and "sr_GetByLinkID S l w = (r, w')"
  shows "w_db w' = w_db w" and "frame w w'"
    and "r = Inr subsc \<Longrightarrow> mset (map sub_ChatID subsc) = mset (subscribers (w_db w) l)"
    and "w_faults w = [] \<Longrightarrow> \<exists>subsc. r = Inr subsc"
proof -
  have imp: "implements w (sr_GetByLinkID S l) (subs_by_link (order w) l)" by (rule subs.GetByLinkID [OF assms(3)])
  have rd: "ready w w" by (rule outbox.ready_top [OF assms(1,2)])
  show "frame w w'" by (rule keepsD [OF implements_frame [OF imp] assms(4)])
  show "w_db w' = w_db w" using GetByLinkID_same [of l w] assms(4) by simp
  show "mset (map sub_ChatID subsc) = mset (subscribers (w_db w) l)" if "r = Inr subsc"
  proof -
    have "subs_by_link (order w) l (w_db w) = (Inr subsc, w_db w')"
      using implements_okD(2) [OF imp rd] assms(4) that by simp
    then have "map sub_ChatID subsc = order w (map fst (sort_key (\<lambda>s. sint (fst s)) (filter (\<lambda>s. snd s = l) (db_subs (w_db w)))))"
      by (auto simp: subs_by_link_def mk_sub_def comp_def)
    then show ?thesis using subs.order [OF assms(3)] by (simp add: subscribers_def)
  qed
  show "\<exists>subsc. r = Inr subsc" if "w_faults w = []"
    using implementsD [OF imp rd assms(4)] that by (cases r) (auto simp: outcome_ok_def subs_by_link_def)
qed

text \<open>Up to the events: the subscriptions are read, the link is fetched, no table changes.\<close>

lemma processLink_handled:
  assumes svc: "sv_subRepo svc = S" "sv_fetcher svc = F" and wf: "db_wf (w_db w)" and top: "\<not> in_tx w"
    and mo: "map_order_ok w" and F: "fetch_apart F" "lf_CanHandle F (link_URL k)"
    and run: "processLink svc k w = (r, w')"
  obtains (no_subs) "r = Inr ()" and "w_db w' = w_db w" and "frame w w'" and "w_faults w \<noteq> []"
    | (fetched) chats w1 w2 res where "mset chats = mset (subscribers (w_db w) (link_ID k))"
      and "lf_Fetch F (link_URL k) (link_LastUpdated k) w1 = (res, w2)" and "same_connection w1 w2" and "frame w w1"
      and "w_db w1 = w_db w"
      and "(case res of Inl e \<Rightarrow> logged (sv_notifier svc (plain_update k chats cannot_fetch_text))
             | Inr events \<Rightarrow> process_events svc k chats events) w2 = (r, w')"
proof -
  obtain rs w1 where g: "sr_GetByLinkID S (link_ID k) w = (rs, w1)" by fastforce
  note G = GetByLinkID_result [OF wf top mo g]
  show thesis
  proof (cases rs)
    case (Inl e)
    with run svc g G that(1) show thesis by (auto simp: processLink_def)
  next
    case (Inr subsc)
    obtain res w2 where f: "lf_Fetch F (link_URL k) (link_LastUpdated k) w1 = (res, w2)" by fastforce
    have "same_connection w1 w2" using F(1) f by (metis fetch_apart_def snd_conv)
    moreover have "(case res of Inl e \<Rightarrow> logged (sv_notifier svc (plain_update k (map sub_ChatID subsc) cannot_fetch_text))
             | Inr events \<Rightarrow> process_events svc k (map sub_ChatID subsc) events) w2 = (r, w')"
      using run svc g Inr f F(2) by (cases res) (auto simp: processLink_def Let_def)
    ultimately show thesis using that(2) G f Inr by blast
  qed
qed

lemma processLink_effect:
  assumes svc: "sv_linkRepo svc = L" "sv_notifier svc = Notifier_SendUpdate O' topic" "sv_subRepo svc = S" "sv_fetcher svc = F"
    and wf: "db_wf (w_db w)" and top: "\<not> in_tx w" and mo: "map_order_ok w" and F: "fetch_apart F" "lf_CanHandle F (link_URL k)"
    and events: "\<And>v. \<exists>v'. lf_Fetch F (link_URL k) (link_LastUpdated k) v = (Inr events, v')"
    and url: "has_url (link_URL k) (w_db w)" and run: "processLink svc k w = (r, w')"
  shows "\<exists>chats kept. mset chats = mset (subscribers (w_db w) (link_ID k)) \<and> subseq kept events
     \<and> outbox_view (w_db w') = outbox_view (w_db w) @ concat (map (event_rows topic k chats) kept)
     \<and> db_links (w_db w') = (if kept = [] then db_links (w_db w)
                              else set_time (link_URL k) (w_stamp w (ev_UpdatedAt (last kept))) (db_links (w_db w)))
     \<and> rest_same (w_db w) (w_db w')
     \<and> (w_faults w = [] \<and> storable topic k (length events) (w_db w)
          \<and> (subscribers (w_db w) (link_ID k) = [] \<or> (\<forall>ev \<in> set events. ev_Description ev \<noteq> None))
        \<longrightarrow> kept = events \<and> r = Inr ())"
  using svc(3,4) wf top mo F run
proof (cases rule: processLink_handled)
  case no_subs
  then show ?thesis by (intro exI [of _ "subscribers (w_db w) (link_ID k)"] exI [of _ "[]"]) (simp add: rest_same_def)
next
  case (fetched chats w1 w2 res)
  have res: "res = Inr events" using events [of w1] fetched(2) by auto
  have w2: "w_db w2 = w_db w" "\<not> in_tx w2" "w_stamp w2 = w_stamp w" "w_faults w = [] \<longrightarrow> w_faults w2 = []"
    using fetched(3-5) top frame_in_tx [OF fetched(4)]
    by (auto simp: same_connection_def frame_def same_env_def in_tx_def)
  obtain re where e: "efor (event_tx svc k chats) events w2 = (re, w')" "r = (case re of Inl e \<Rightarrow> Inl e | Inr us \<Rightarrow> Inr ())"
    using fetched(6) res by (cases "efor (event_tx svc k chats) events w2")
      (auto simp: process_events_tx ebind_def ehandle_def split: sum.splits)
  have chats: "chats = [] \<longleftrightarrow> subscribers (w_db w) (link_ID k) = []" using fetched(1) by (metis mset_zero_iff)
  from efor_events [OF svc(1,2) _ w2(2) _ e(1)] wf url
  obtain kept where "subseq kept events" "outbox_view (w_db w') = outbox_view (w_db w) @ concat (map (event_rows topic k chats) kept)"
     "db_links (w_db w') = foldl (\<lambda>ks ev. set_time (link_URL k) (w_stamp w (ev_UpdatedAt ev)) ks) (db_links (w_db w)) kept"
     "rest_same (w_db w) (w_db w')"
     "w_faults w2 = [] \<and> storable topic k (length events) (w_db w) \<and> (chats = [] \<or> (\<forall>ev \<in> set events. ev_Description ev \<noteq> None))
          \<longrightarrow> kept = events \<and> (\<exists>us. re = Inr us)"
    unfolding w2(1,3) by blast
  then show ?thesis
    using fetched(1) e(2) w2(4) chats
    by (intro exI [of _ chats] exI [of _ kept]) (auto simp: foldl_set_time)
qed

end

lemma insert_outbox_views:
  "outbox_view (snd (insert_outbox now topic p d)) \<in> {outbox_view d, outbox_view d @ [(topic, p, PENDING, 0)]}
   \<and> db_links (snd (insert_outbox now topic p d)) = db_links d \<and> rest_same d (snd (insert_outbox now topic p d))"
  by (auto simp: insert_outbox_def Let_def outbox_view_def rest_same_def split: option.splits)

context scrapper_stores
begin

lemma logged_send:
  assumes n: "sv_notifier svc = Notifier_SendUpdate O' topic" and wf: "db_wf (w_db w)" and top: "\<not> in_tx w"
    and run: "logged (sv_notifier svc u) w = (r, w')"
  shows "r = Inr ()" and "frame w w'" and "db_links (w_db w') = db_links (w_db w)" and "rest_same (w_db w) (w_db w')"
    and "outbox_view (w_db w') \<in> {outbox_view (w_db w), outbox_view (w_db w) @ [new_row topic u]}"
    and "w_faults w = [] \<Longrightarrow> storable topic k 1 (w_db w) \<Longrightarrow> outbox_view (w_db w') = outbox_view (w_db w) @ [new_row topic u]"
proof -
  obtain rn where add: "or_Add O' topic (linkUpdate_json u) w = (rn, w')"
    using run by (cases "or_Add O' topic (linkUpdate_json u) w"; cases "fst (or_Add O' topic (linkUpdate_json u) w)")
      (auto simp: n logged_def Notifier_SendUpdate_def ehandle_def)
  show "r = Inr ()" using run by (simp add: logged_run)
  show "frame w w'" by (rule outbox.op_frames(1) [OF add])
  note v = insert_outbox_views [of "w_now w div 1000 * 1000" topic "linkUpdate_json u" "w_db w"]
  show "db_links (w_db w') = db_links (w_db w)" "rest_same (w_db w) (w_db w')"
    "outbox_view (w_db w') \<in> {outbox_view (w_db w), outbox_view (w_db w) @ [new_row topic u]}"
    using outbox.Add_once [OF add] v by (auto simp: new_row_def)
  show "outbox_view (w_db w') = outbox_view (w_db w) @ [new_row topic u]" if nf: "w_faults w = []" and st: "storable topic k 1 (w_db w)"
  proof -
    let ?ins = "insert_outbox (w_now w div 1000 * 1000) topic (linkUpdate_json u)"
    obtain x d' where i: "?ins (w_db w) = (Inr x, d')"
      using st by (auto simp: storable_def insert_outbox_def next_id_def Let_def)
    have "outcome_ok (ebind ?ins (\<lambda>r. eret (the r))) w rn w'"
      by (rule implementsD [OF outbox.Add outbox.ready_top [OF wf top] add])
    then have "w_db w' = d'" using nf i by (cases rn) (auto simp: outcome_ok_def ebind_def ehandle_def)
    with insert_outbox_effect(1) [OF i] show ?thesis by (simp add: new_row_def)
  qed
qed

lemma processLink_failed:
  assumes svc: "sv_linkRepo svc = L" "sv_notifier svc = Notifier_SendUpdate O' topic" "sv_subRepo svc = S" "sv_fetcher svc = F"
    and wf: "db_wf (w_db w)" and top: "\<not> in_tx w" and mo: "map_order_ok w" and F: "fetch_apart F" "lf_CanHandle F (link_URL k)"
    and fails: "\<And>v. \<exists>e v'. lf_Fetch F (link_URL k) (link_LastUpdated k) v = (Inl e, v')"
    and run: "processLink svc k w = (r, w')"
  shows "\<exists>chats. mset chats = mset (subscribers (w_db w) (link_ID k)) \<and> r = Inr ()
     \<and> db_links (w_db w') = db_links (w_db w) \<and> rest_same (w_db w) (w_db w')
     \<and> outbox_view (w_db w') \<in> {outbox_view (w_db w), outbox_view (w_db w) @ [new_row topic (plain_update k chats cannot_fetch_text)]}
     \<and> (w_faults w = [] \<and> storable topic k 1 (w_db w)
        \<longrightarrow> outbox_view (w_db w') = outbox_view (w_db w) @ [new_row topic (plain_update k chats cannot_fetch_text)])"
  using svc(3,4) wf top mo F run
proof (cases rule: processLink_handled)
  case no_subs
  then show ?thesis by (intro exI [of _ "subscribers (w_db w) (link_ID k)"]) (simp add: rest_same_def)
next
  case (fetched chats w1 w2 res)
  obtain e where "res = Inl e" using fails [of w1] fetched(2) by auto
  then have l: "logged (sv_notifier svc (plain_update k chats cannot_fetch_text)) w2 = (r, w')" using fetched(6) by simp
  have w2: "w_db w2 = w_db w" "\<not> in_tx w2" "w_faults w = [] \<longrightarrow> w_faults w2 = []"
    using fetched(3-5) top frame_in_tx [OF fetched(4)] by (auto simp: same_connection_def frame_def in_tx_def)
  have wf2: "db_wf (w_db w2)" using wf w2(1) by simp
  note s = logged_send [OF svc(2) wf2 w2(2) l]
  show ?thesis
    using s(1,3-5) s(6) [of k] fetched(1) w2 by (intro exI [of _ chats]) auto
qed

end

text \<open>C15. The transactional outbox. When a link's fetch brings events, processing the link enqueues for
  all its subscribers one message per event and moves the link's time to that event's, event by event,
  together or not at all: whatever faults occur, the messages are those of a subsequence of the events,
  the link's time is that of the last of them, and nothing else changes; on a working connection it is
  every event.\<close>

theorem processLink_transactional:
  assumes "scrapper_with accessType F (buildKafka accessType topic) b n = Inr svc"
    and "db_wf (w_db w)" and "\<not> in_tx w" and "map_order_ok w"
    and "fetch_apart F" and "lf_CanHandle F (link_URL k)"
    and "\<And>v. \<exists>v'. lf_Fetch F (link_URL k) (link_LastUpdated k) v = (Inr events, v')"
    and "link_URL k \<in> link_URL ` set (db_links (w_db w))" and "processLink svc k w = (r, w')"
  shows "\<exists>chats kept. mset chats = mset (subscribers (w_db w) (link_ID k)) \<and> subseq kept events
     \<and> outbox_view (w_db w') = outbox_view (w_db w) @ concat (map (event_rows topic k chats) kept)
     \<and> db_links (w_db w') = (if kept = [] then db_links (w_db w)
                              else set_time (link_URL k) (w_stamp w (ev_UpdatedAt (last kept))) (db_links (w_db w)))
     \<and> rest_same (w_db w) (w_db w')
     \<and> (w_faults w = [] \<and> storable topic k (length events) (w_db w)
          \<and> (subscribers (w_db w) (link_ID k) = [] \<or> (\<forall>ev \<in> set events. ev_Description ev \<noteq> None))
        \<longrightarrow> kept = events \<and> r = Inr ())"
proof -
  have url: "has_url (link_URL k) (w_db w)" using assms(8) by (simp add: has_url_def)
  note F = scrapper_with_fields(1) [OF assms(1)]
  from assms(1) show ?thesis
  proof (cases rule: scrapper_with_cases)
    case sql
    from sql_scrapper.processLink_effect [OF sql(1,3,2) F assms(2-7) url assms(9)] show ?thesis .
  next
    case builder
    from qb_scrapper.processLink_effect [OF builder(1,3,2) F assms(2-7) url assms(9)] show ?thesis .
  qed
qed

text \<open>C16. When the fetch fails, at most the one message that the link could not be fetched is enqueued, to
  all subscribers of the link, and the link keeps its time; on a working connection it is enqueued even
  for a link that nobody subscribes to.\<close>

theorem processLink_fetch_failure:
  assumes "scrapper_with accessType F (buildKafka accessType topic) b n = Inr svc"
    and "db_wf (w_db w)" and "\<not> in_tx w" and "map_order_ok w"
    and "fetch_apart F" and "lf_CanHandle F (link_URL k)"
    and "\<And>v. \<exists>e v'. lf_Fetch F (link_URL k) (link_LastUpdated k) v = (Inl e, v')"
    and "processLink svc k w = (r, w')"
  shows "\<exists>chats. mset chats = mset (subscribers (w_db w) (link_ID k)) \<and> r = Inr ()
     \<and> db_links (w_db w') = db_links (w_db w) \<and> rest_same (w_db w) (w_db w')
     \<and> outbox_view (w_db w') \<in> {outbox_view (w_db w), outbox_view (w_db w) @ [new_row topic (plain_update k chats cannot_fetch_text)]}
     \<and> (w_faults w = [] \<and> storable topic k 1 (w_db w)
        \<longrightarrow> outbox_view (w_db w') = outbox_view (w_db w) @ [new_row topic (plain_update k chats cannot_fetch_text)])"
proof -
  note F = scrapper_with_fields(1) [OF assms(1)]
  from assms(1) show ?thesis
  proof (cases rule: scrapper_with_cases)
    case sql
    from sql_scrapper.processLink_failed [OF sql(1,3,2) F assms(2-8)] show ?thesis .
  next
    case builder
    from qb_scrapper.processLink_failed [OF builder(1,3,2) F assms(2-8)] show ?thesis .
  qed
qed

text \<open>A link with two subscribers and two events.\<close>

definition sample_link :: link where
  "sample_link = \<lparr>link_ID = 3, link_URL = ''https://github.com/a/b'', link_LastUpdated = 1000\<rparr>"

definition scraped_db :: pgdb where
  "scraped_db = empty_db\<lparr>db_chats := [7, 9], db_links := [sample_link], db_subs := [(7, 3), (9, 3)], db_link_seq := 3\<rparr>"

lemma scraped_db_wf: "db_wf scraped_db"
  by (simp add: db_wf_def db_wf_defs empty_db_def scraped_db_def sample_link_def)

definition sample_events :: "update_event list" where
  "sample_events = [\<lparr>ev_UpdatedAt = 2000, ev_Author = ''ann'', ev_Description = Some ''one''\<rparr>,
     \<lparr>ev_UpdatedAt = 3000, ev_Author = ''bob'', ev_Description = Some ''two''\<rparr>]"

definition sample_fetcher :: "(goerr + update_event list) \<Rightarrow> ('a world_scheme) link_fetcher" where
  "sample_fetcher res = \<lparr>lf_CanHandle = (\<lambda>u. True), lf_Fetch = (\<lambda>u t v. (res, v))\<rparr>"

lemma sample_fetcher_facts: "fetch_apart (sample_fetcher res)" "lf_CanHandle (sample_fetcher res) u"
    "lf_Fetch (sample_fetcher res) u t v = (res, v)" "map_order_ok (sample_world d fs)"
  by (simp_all add: fetch_apart_def sample_fetcher_def same_connection_def map_order_ok_def sample_world_def)

definition sample_scrapper :: "(goerr + update_event list) \<Rightarrow> world scrapper_service" where
  "sample_scrapper res = \<lparr>sv_linkRepo = sql_link_repo, sv_subRepo = sql_sub_repo, sv_fetcher = sample_fetcher res,
     sv_notifier = Notifier_SendUpdate sql_outbox_repo ''raw'', sv_batchSize = 2, sv_fetchersCount = 3\<rparr>"

lemma sample_scrapper_wired:
  "scrapper_with ''SQL'' (sample_fetcher res) (buildKafka ''SQL'' ''raw'') 2 3 = Inr (sample_scrapper res)"
  by (simp add: scrapper_with_def buildRepos_def buildKafka_def NewScrapperService_def sample_scrapper_def)

lemma sample_storable: "storable ''raw'' sample_link 2 scraped_db" "storable ''raw'' sample_link 1 scraped_db"
  by code_simp+

lemma sample_subscribers: "subscribers scraped_db (link_ID sample_link) = [7, 9]"
  by (simp add: subscribers_def scraped_db_def sample_link_def)

lemma processLink_transactional_witness:
  "\<exists>r w'. processLink (sample_scrapper (Inr sample_events)) sample_link (sample_world scraped_db []) = (r, w') \<and> r = Inr ()
     \<and> length (outbox_view (w_db w')) = 2 \<and> map link_LastUpdated (db_links (w_db w')) = [3000]"
proof -
  let ?w = "sample_world scraped_db []"
  obtain r w' where run: "processLink (sample_scrapper (Inr sample_events)) sample_link ?w = (r, w')" by fastforce
  have url: "link_URL sample_link \<in> link_URL ` set (db_links (w_db ?w))" by (simp add: sample_world_top scraped_db_def)
  have nf: "w_faults ?w = []" "w_stamp ?w = (\<lambda>t. t div 1000 * 1000)" by (simp_all add: sample_world_def)
  have empty: "outbox_view scraped_db = []" "map link_LastUpdated (set_time (link_URL sample_link) 3000 (db_links scraped_db)) = [3000]"
    by (simp_all add: outbox_view_def scraped_db_def empty_db_def set_time_def)
  have wf: "db_wf (w_db ?w)" by (simp add: sample_world_top scraped_db_wf)
  have ev: "\<And>v. \<exists>v'. lf_Fetch (sample_fetcher (Inr sample_events)) (link_URL sample_link) (link_LastUpdated sample_link) v
      = (Inr sample_events, v')"
    by (simp add: sample_fetcher_facts)
  from processLink_transactional [OF sample_scrapper_wired wf sample_world_top(1) sample_fetcher_facts(4,1,2) ev url run]
  obtain chats kept where c: "mset chats = mset (subscribers (w_db ?w) (link_ID sample_link))"
      and v: "outbox_view (w_db w') = outbox_view (w_db ?w) @ concat (map (event_rows ''raw'' sample_link chats) kept)"
      and l: "db_links (w_db w') = (if kept = [] then db_links (w_db ?w) else
          set_time (link_URL sample_link) (w_stamp ?w (ev_UpdatedAt (last kept))) (db_links (w_db ?w)))"
      and t: "w_faults ?w = [] \<and> storable ''raw'' sample_link (length sample_events) (w_db ?w)
          \<and> (subscribers (w_db ?w) (link_ID sample_link) = [] \<or> (\<forall>ev \<in> set sample_events. ev_Description ev \<noteq> None))
          \<longrightarrow> kept = sample_events \<and> r = Inr ()"
    by blast
  have "length sample_events = 2" "\<forall>ev \<in> set sample_events. ev_Description ev \<noteq> None" by (simp_all add: sample_events_def)
  with t have kept: "kept = sample_events" "r = Inr ()"
    using nf sample_storable(1) by (simp_all add: sample_world_top)
  have "mset chats = mset [7, 9]" using c sample_subscribers by (simp add: sample_world_top)
  then have "chats \<noteq> []" by auto
  moreover have "outbox_view (w_db w') = concat (map (event_rows ''raw'' sample_link chats) kept)"
    using v empty by (simp add: sample_world_top)
  moreover have "db_links (w_db w') = set_time (link_URL sample_link) 3000 (db_links scraped_db)"
    using l kept nf by (simp add: sample_world_top sample_events_def)
  ultimately show ?thesis using run empty kept by (auto simp: sample_events_def event_rows_def)
qed

lemma processLink_fetch_failure_witness:
  "\<exists>r w'. processLink (sample_scrapper (Inl (NewErr ''down''))) sample_link (sample_world scraped_db []) = (r, w') \<and> r = Inr ()
     \<and> length (outbox_view (w_db w')) = 1 \<and> db_links (w_db w') = [sample_link]"
proof -
  let ?w = "sample_world scraped_db []"
  obtain r w' where run: "processLink (sample_scrapper (Inl (NewErr ''down''))) sample_link ?w = (r, w')" by fastforce
  have "w_faults ?w = []" "outbox_view scraped_db = []" "db_links scraped_db = [sample_link]"
    by (simp_all add: sample_world_def outbox_view_def scraped_db_def empty_db_def)
  moreover have wf: "db_wf (w_db ?w)" by (simp add: sample_world_top scraped_db_wf)
  have ev: "\<And>v. \<exists>e v'. lf_Fetch (sample_fetcher (Inl (NewErr ''down''))) (link_URL sample_link) (link_LastUpdated sample_link) v
      = (Inl e, v')"
    by (simp add: sample_fetcher_facts)
  from processLink_fetch_failure [OF sample_scrapper_wired wf sample_world_top(1) sample_fetcher_facts(4,1,2) ev run]
  have "r = Inr ()" "db_links (w_db w') = db_links scraped_db"
      "w_faults ?w = [] \<and> storable ''raw'' sample_link 1 scraped_db
        \<longrightarrow> (\<exists>chats. outbox_view (w_db w') = outbox_view scraped_db @ [new_row ''raw'' (plain_update sample_link chats cannot_fetch_text)])"
    by (auto simp: sample_world_top)
  ultimately show ?thesis
    using sample_storable(2) run by auto
qed

end
