(* ===== verification/Scrapper_Run.thy ===== *)
theory Scrapper_Run
  imports Scrapper_Props
begin

text \<open>
  One run of \<open>ScrapperService.GetUpdates\<close> (\<open>scrapper/application/scrapper_service.go\<close>): the producer
  pages through the links and sends them into a bounded channel, \<open>fetchersCount\<close> goroutines take and
  process them, the producer closes the channel and waits. The interleavings are the steps of a
  relation; processing one link is one step. \<open>cancelled\<close>: whether the context ends.
\<close>

datatype phase = Starting | Fetching | Sending "link list" | Waiting | Returned "goerr + unit" | Crashed goerr

record 'w run_state =
  gs_world :: 'w
  gs_phase :: phase
  gs_offset :: nat
  gs_jobs :: "link list"
  gs_busy :: "link option list"
  gs_processed :: "link list"

definition run_init :: "'w scrapper_service \<Rightarrow> 'w \<Rightarrow> 'w run_state" where
  "run_init svc w = \<lparr>gs_world = w, gs_phase = Starting, gs_offset = 0, gs_jobs = [],
     gs_busy = replicate (nat (sv_fetchersCount svc)) None, gs_processed = []\<rparr>"

inductive getUpdates_step ::
    "bool \<Rightarrow> ('a world_scheme) scrapper_service \<Rightarrow> ('a world_scheme) run_state \<Rightarrow> ('a world_scheme) run_state \<Rightarrow> bool"
  for cancelled :: bool and svc :: "('a world_scheme) scrapper_service" where
  refuse: "cancelled \<Longrightarrow> gs_phase s = Starting \<Longrightarrow> e \<in> {ErrCanceled, ErrDeadlineExceeded}
     \<Longrightarrow> getUpdates_step cancelled svc s (s\<lparr>gs_phase := Returned (Inl (Sentinel e))\<rparr>)"
| start: "gs_phase s = Starting \<Longrightarrow> getUpdates_step cancelled svc s (s\<lparr>gs_phase := Fetching\<rparr>)"
| fetch: "gs_phase s = Fetching
     \<Longrightarrow> lr_GetBatch (sv_linkRepo svc) (nat (sv_batchSize svc)) (gs_offset s) (gs_world s) = (Inr links, w') \<Longrightarrow> links \<noteq> []
     \<Longrightarrow> getUpdates_step cancelled svc s (s\<lparr>gs_world := w', gs_phase := Sending links\<rparr>)"
| no_more: "gs_phase s = Fetching
     \<Longrightarrow> lr_GetBatch (sv_linkRepo svc) (nat (sv_batchSize svc)) (gs_offset s) (gs_world s) = (Inr [], w')
     \<Longrightarrow> getUpdates_step cancelled svc s (s\<lparr>gs_world := w', gs_phase := Waiting\<rparr>)"
| fetch_error: "gs_phase s = Fetching
     \<Longrightarrow> lr_GetBatch (sv_linkRepo svc) (nat (sv_batchSize svc)) (gs_offset s) (gs_world s) = (Inl e, w')
     \<Longrightarrow> getUpdates_step cancelled svc s (s\<lparr>gs_world := w', gs_phase := Returned (Inl e)\<rparr>)"
| send: "gs_phase s = Sending (k # ks) \<Longrightarrow> int (length (gs_jobs s)) < sv_batchSize svc
     \<Longrightarrow> getUpdates_step cancelled svc s (s\<lparr>gs_phase := Sending ks, gs_jobs := gs_jobs s @ [k]\<rparr>)"
| cancel: "cancelled \<Longrightarrow> gs_phase s = Sending (k # ks) \<Longrightarrow> e \<in> {ErrCanceled, ErrDeadlineExceeded}
     \<Longrightarrow> getUpdates_step cancelled svc s (s\<lparr>gs_phase := Returned (Inl (Sentinel e))\<rparr>)"
| next_batch: "gs_phase s = Sending []
     \<Longrightarrow> getUpdates_step cancelled svc s (s\<lparr>gs_phase := Fetching, gs_offset := gs_offset s + nat (sv_batchSize svc)\<rparr>)"
| take_job: "(\<And>e. gs_phase s \<noteq> Crashed e) \<Longrightarrow> i < length (gs_busy s) \<Longrightarrow> gs_busy s ! i = None \<Longrightarrow> gs_jobs s = k # ks
     \<Longrightarrow> getUpdates_step cancelled svc s (s\<lparr>gs_jobs := ks, gs_busy := (gs_busy s)[i := Some k]\<rparr>)"
| process: "(\<And>e. gs_phase s \<noteq> Crashed e) \<Longrightarrow> i < length (gs_busy s) \<Longrightarrow> gs_busy s ! i = Some k
     \<Longrightarrow> processLink svc k (gs_world s) = (Inr (), w')
     \<Longrightarrow> getUpdates_step cancelled svc s
           (s\<lparr>gs_world := w', gs_busy := (gs_busy s)[i := None], gs_processed := gs_processed s @ [k]\<rparr>)"
| panic: "(\<And>e. gs_phase s \<noteq> Crashed e) \<Longrightarrow> i < length (gs_busy s) \<Longrightarrow> gs_busy s ! i = Some k
     \<Longrightarrow> processLink svc k (gs_world s) = (Inl e, w')
     \<Longrightarrow> getUpdates_step cancelled svc s
           (s\<lparr>gs_world := w', gs_busy := (gs_busy s)[i := None], gs_phase := Crashed e\<rparr>)"
| all_done: "gs_phase s = Waiting \<Longrightarrow> gs_jobs s = [] \<Longrightarrow> list_all (\<lambda>b. b = None) (gs_busy s)
     \<Longrightarrow> getUpdates_step cancelled svc s (s\<lparr>gs_phase := Returned (Inr ())\<rparr>)"

inductive_cases getUpdates_stepE: "getUpdates_step c svc s s'"

definition final :: "('a world_scheme) run_state \<Rightarrow> bool" where
  "final s \<longleftrightarrow> (case gs_phase s of Returned r \<Rightarrow> True | Crashed e \<Rightarrow> True | _ \<Rightarrow> False)"

subsection \<open>Processing a link keeps the table of links\<close>

definition link_keys :: "pgdb \<Rightarrow> (i64 \<times> string) list" where
  "link_keys d = map (\<lambda>k. (link_ID k, link_URL k)) (db_links d)"

definition calm :: "'a world_scheme \<Rightarrow> bool" where
  "calm w \<longleftrightarrow> db_wf (w_db w) \<and> \<not> in_tx w \<and> map_order_ok w"

lemma link_keys_set_time: "db_links d' = set_time u t (db_links d) \<Longrightarrow> link_keys d' = link_keys d"
  by (auto simp: link_keys_def set_time_def)

lemma link_keys_same: "db_links d' = db_links d \<Longrightarrow> link_keys d' = link_keys d"
  by (simp add: link_keys_def)

lemma calm_frame: "calm w \<Longrightarrow> frame w w' \<Longrightarrow> calm w'"
  using frame_in_tx frame_wf by (auto simp: calm_def frame_def same_env_def map_order_ok_def)

lemma calm_same: "calm w \<Longrightarrow> same_connection w w' \<Longrightarrow> calm w'"
  by (simp add: calm_def same_connection_def in_tx_def map_order_ok_def)

context scrapper_stores
begin

lemma processLink_keeps:
  assumes svc: "sv_linkRepo svc = L" "sv_notifier svc = Notifier_SendUpdate O' topic" "sv_subRepo svc = S"
    and c: "calm w" and F: "fetch_apart (sv_fetcher svc)" and url: "has_url (link_URL k) (w_db w)"
    and run: "processLink svc k w = (r, w')"
  shows "calm w'" and "link_keys (w_db w') = link_keys (w_db w)"
proof -
  have wf: "db_wf (w_db w)" and top: "\<not> in_tx w" and mo: "map_order_ok w" using c by (simp_all add: calm_def)
  have "calm w' \<and> link_keys (w_db w') = link_keys (w_db w)"
  proof (cases "lf_CanHandle (sv_fetcher svc) (link_URL k)")
    case True
    from svc(3) refl wf top mo F True run show ?thesis
    proof (cases rule: processLink_handled)
      case no_subs
      with calm_frame [OF c] show ?thesis by (simp add: link_keys_def)
    next
      case (fetched chats w1 w2 res)
      have c2: "calm w2" by (rule calm_same [OF calm_frame [OF c fetched(4)] fetched(3)])
      have d2: "w_db w2 = w_db w" using fetched(3,5) by (simp add: same_connection_def)
      show ?thesis
      proof (cases res)
        case (Inl e)
        then have l: "logged (sv_notifier svc (plain_update k chats cannot_fetch_text)) w2 = (r, w')" using fetched(6) by simp
        have "db_wf (w_db w2)" "\<not> in_tx w2" using c2 by (simp_all add: calm_def)
        note s = logged_send(2,3) [OF svc(2) this l]
        from calm_frame [OF c2 s(1)] link_keys_same [OF s(2)] d2 show ?thesis by simp
      next
        case (Inr events)
        then obtain re where e: "efor (event_tx svc k chats) events w2 = (re, w')"
          using fetched(6) by (cases "efor (event_tx svc k chats) events w2")
            (auto simp: process_events_tx ebind_def ehandle_def split: sum.splits)
        have p: "db_wf (w_db w2)" "\<not> in_tx w2" "has_url (link_URL k) (w_db w2)" using c2 url d2 by (simp_all add: calm_def)
        from efor_events [OF svc(1,2) p e] obtain kept :: "update_event list" where fr: "frame w2 w'"
            and ks: "db_links (w_db w') = foldl (\<lambda>ks ev. set_time (link_URL k) (w_stamp w2 (ev_UpdatedAt ev)) ks) (db_links (w_db w2)) kept"
          by blast
        have "link_keys (w_db w') = link_keys (w_db w2)"
          using ks by (cases "kept = []") (auto simp: foldl_set_time intro: link_keys_same link_keys_set_time)
        with calm_frame [OF c2 fr] d2 show ?thesis by simp
      qed
    qed
  next
    case False
    obtain rs w1 where g: "sr_GetByLinkID S (link_ID k) w = (rs, w1)" by fastforce
    note G = GetByLinkID_result(1,2) [OF wf top mo g]
    have c1: "calm w1" by (rule calm_frame [OF c G(2)])
    consider "w' = w1" | chats where "logged (sv_notifier svc (plain_update k chats cannot_handle_text)) w1 = (r, w')"
      using run svc(3) g False by (cases rs) (auto simp: processLink_def Let_def split: if_splits)
    then show ?thesis
    proof cases
      case 1
      with c1 G(1) show ?thesis by simp
    next
      case (2 chats)
      have "db_wf (w_db w1)" "\<not> in_tx w1" using c1 by (simp_all add: calm_def)
      note s = logged_send(2,3) [OF svc(2) this 2]
      from calm_frame [OF c1 s(1)] link_keys_same [OF s(2)] G(1) show ?thesis by simp
    qed
  qed
  then show "calm w'" "link_keys (w_db w') = link_keys (w_db w)" by simp_all
qed

lemma GetBatch_result:
  assumes "calm w" and "0 < lim" and "lr_GetBatch L lim off w = (r, w')"
  shows "calm w'" and "w_db w' = w_db w"
    and "r = Inr ks \<Longrightarrow> ks = take lim (drop off (sort_key page_key (db_links (w_db w))))"
proof -
  have rd: "ready w w" using assms(1) by (auto simp: calm_def intro: outbox.ready_top)
  have fr: "frame w w'" by (rule keepsD [OF implements_frame [OF links.GetBatch [OF assms(2)]] assms(3)])
  from calm_frame [OF assms(1) fr] show "calm w'" .
  show "w_db w' = w_db w" using GetBatch_same [of lim off w] assms(3) by simp
  show "ks = take lim (drop off (sort_key page_key (db_links (w_db w))))" if "r = Inr ks"
  proof -
    have "lr_GetBatch L lim off w = (Inr ks, w')" using assms(3) that by simp
    from implements_okD(2) [OF links.GetBatch [OF assms(2)] rd this] show ?thesis
      by (auto simp: select_links_by_def)
  qed
qed

end

subsection \<open>Invariants of a run\<close>

definition busy_links :: "link option list \<Rightarrow> link list" where
  "busy_links bs = concat (map (\<lambda>b. case b of None \<Rightarrow> [] | Some k \<Rightarrow> [k]) bs)"

lemma busy_links_simps [simp]:
  "busy_links [] = []" "busy_links (None # bs) = busy_links bs" "busy_links (Some k # bs) = k # busy_links bs"
  "busy_links (bs @ cs) = busy_links bs @ busy_links cs"
  by (simp_all add: busy_links_def)

lemma busy_links_replicate [simp]: "busy_links (replicate n None) = []"
  by (simp add: busy_links_def)

lemma busy_take:
  assumes "i < length bs" and "bs ! i = None"
  shows "mset (busy_links (bs[i := Some k])) = add_mset k (mset (busy_links bs))"
proof -
  have "bs = take i bs @ None # drop (Suc i) bs" using assms id_take_nth_drop [of i bs] by simp
  then have "mset (busy_links bs) = mset (busy_links (take i bs)) + mset (busy_links (drop (Suc i) bs))"
    by (metis busy_links_simps(2,4) mset_append)
  with assms(1) show ?thesis by (simp add: upd_conv_take_nth_drop)
qed

lemma busy_release:
  assumes "i < length bs" and "bs ! i = Some k"
  shows "mset (busy_links bs) = add_mset k (mset (busy_links (bs[i := None])))"
proof -
  have "bs = take i bs @ Some k # drop (Suc i) bs" using assms id_take_nth_drop [of i bs] by simp
  then have "mset (busy_links bs) = add_mset k (mset (busy_links (take i bs)) + mset (busy_links (drop (Suc i) bs)))"
    by (metis busy_links_simps(3,4) mset_append mset.simps(2) union_mset_add_mset_right)
  with assms(1) show ?thesis by (simp add: upd_conv_take_nth_drop)
qed

lemma busy_links_all_None: "list_all (\<lambda>b. b = None) bs \<Longrightarrow> busy_links bs = []"
  by (induction bs) auto

definition unsent :: "phase \<Rightarrow> link list" where
  "unsent p = (case p of Sending ks \<Rightarrow> ks | _ \<Rightarrow> [])"

lemma unsent_simps [simp]:
  "unsent Starting = []" "unsent Fetching = []" "unsent (Sending ks) = ks" "unsent Waiting = []"
  "unsent (Returned r) = []" "unsent (Crashed e) = []"
  by (simp_all add: unsent_def)

text \<open>The links a run holds: processed, in a goroutine, in the channel, about to be sent.\<close>

definition held :: "'w run_state \<Rightarrow> link multiset" where
  "held s = mset (gs_processed s) + mset (busy_links (gs_busy s)) + mset (gs_jobs s) + mset (unsent (gs_phase s))"

definition run_ok :: "'a world_scheme \<Rightarrow> ('a world_scheme) scrapper_service \<Rightarrow> ('a world_scheme) run_state \<Rightarrow> bool" where
  "run_ok w0 svc s \<longleftrightarrow> calm (gs_world s) \<and> link_keys (w_db (gs_world s)) = link_keys (w_db w0)
     \<and> length (gs_busy s) = nat (sv_fetchersCount svc)
     \<and> (\<forall>k \<in># held s. (link_ID k, link_URL k) \<in> set (link_keys (w_db w0)))"

lemma held_take:
  "i < length (gs_busy s) \<Longrightarrow> gs_busy s ! i = None \<Longrightarrow> gs_jobs s = k # ks
     \<Longrightarrow> held (s\<lparr>gs_jobs := ks, gs_busy := (gs_busy s)[i := Some k]\<rparr>) = held s"
  by (simp add: held_def busy_take)

lemma held_process:
  assumes "i < length (gs_busy s)" and "gs_busy s ! i = Some k"
  shows "held (s\<lparr>gs_world := w', gs_busy := (gs_busy s)[i := None], gs_processed := gs_processed s @ [k]\<rparr>) = held s"
    and "held (s\<lparr>gs_world := w', gs_busy := (gs_busy s)[i := None], gs_phase := Crashed e\<rparr>) \<subseteq># held s"
  unfolding held_def by (simp_all add: busy_release [OF assms] subseteq_mset_def)

lemma held_steps:
  "gs_phase s = Sending (k # ks) \<Longrightarrow> held (s\<lparr>gs_phase := Sending ks, gs_jobs := gs_jobs s @ [k]\<rparr>) = held s"
  "gs_phase s = Fetching \<Longrightarrow> held (s\<lparr>gs_phase := Sending links\<rparr>) = held s + mset links"
  "unsent p = [] \<Longrightarrow> held (s\<lparr>gs_phase := p\<rparr>) \<subseteq># held s"
  "unsent p = [] \<Longrightarrow> unsent (gs_phase s) = [] \<Longrightarrow> held (s\<lparr>gs_phase := p\<rparr>) = held s"
  by (auto simp: held_def subseteq_mset_def)

lemma held_more [simp]: "held (s\<lparr>gs_world := w'\<rparr>) = held s" "held (s\<lparr>gs_offset := n\<rparr>) = held s"
  "held (s\<lparr>gs_world := w', gs_phase := p\<rparr>) = held (s\<lparr>gs_phase := p\<rparr>)"
  "held (s\<lparr>gs_phase := p, gs_offset := n\<rparr>) = held (s\<lparr>gs_phase := p\<rparr>)"
  by (simp_all add: held_def)

lemma held_busy: "i < length (gs_busy s) \<Longrightarrow> gs_busy s ! i = Some k \<Longrightarrow> k \<in># held s"
  by (simp add: held_def busy_release)

lemma keys_has_url: "(link_ID k, link_URL k) \<in> set (link_keys d) \<Longrightarrow> has_url (link_URL k) d"
  by (auto simp: link_keys_def has_url_def)

lemma keys_cong: "link_keys d' = link_keys d \<Longrightarrow> has_url u d' = has_url u d \<and> length (db_links d') = length (db_links d)
    \<and> map link_ID (db_links d') = map link_ID (db_links d)"
proof -
  assume k: "link_keys d' = link_keys d"
  have "map snd (link_keys e) = map link_URL (db_links e)" "map fst (link_keys e) = map link_ID (db_links e)"
    "length (link_keys e) = length (db_links e)" for e
    by (simp_all add: link_keys_def)
  with k show ?thesis unfolding has_url_def by (metis list.set_map)
qed

context scrapper_stores
begin

lemma run_ok_step:
  assumes svc: "sv_linkRepo svc = L" "sv_notifier svc = Notifier_SendUpdate O' topic" "sv_subRepo svc = S"
    and F: "fetch_apart (sv_fetcher svc)" and b: "0 < sv_batchSize svc"
    and ok: "run_ok w0 svc s" and step: "getUpdates_step c svc s s'"
  shows "run_ok w0 svc s'"
proof -
  have calm: "calm (gs_world s)" and keys: "link_keys (w_db (gs_world s)) = link_keys (w_db w0)"
    and mem: "\<And>k. k \<in># held s \<Longrightarrow> (link_ID k, link_URL k) \<in> set (link_keys (w_db w0))"
    using ok by (simp_all add: run_ok_def)
  have keep: "run_ok w0 svc t" if "calm (gs_world t)" "w_db (gs_world t) = w_db (gs_world s) \<or> link_keys (w_db (gs_world t)) = link_keys (w_db (gs_world s))"
      "length (gs_busy t) = length (gs_busy s)" "held t \<subseteq># held s" for t
    using that ok keys mem by (auto simp: run_ok_def dest: mset_subset_eqD)
  note batch = GetBatch_result [OF calm, of "nat (sv_batchSize svc)" "gs_offset s"]
  have pos: "0 < nat (sv_batchSize svc)" using b by simp
  from step show ?thesis
  proof cases
    case (fetch links w')
    note g = batch [OF pos fetch(3) [unfolded svc(1)]]
    have "set links \<subseteq> set (db_links (w_db (gs_world s)))"
      using g(3) [of links] by (auto dest!: in_set_takeD in_set_dropD)
    then have "(link_ID k, link_URL k) \<in> set (link_keys (w_db w0))" if "k \<in> set links" for k
      using that unfolding keys [symmetric] by (auto simp: link_keys_def)
    with ok g(1,2) mem show ?thesis
      unfolding fetch(1) by (auto simp: run_ok_def held_steps(2) [OF fetch(2)])
  next
    case (no_more w')
    note g = batch [OF pos no_more(3) [unfolded svc(1)]]
    show ?thesis unfolding no_more(1) by (rule keep) (use g in \<open>auto simp: held_steps(3)\<close>)
  next
    case (fetch_error e w')
    note g = batch [OF pos fetch_error(3) [unfolded svc(1)]]
    show ?thesis unfolding fetch_error(1) by (rule keep) (use g in \<open>auto simp: held_steps(3)\<close>)
  next
    case (process i k w')
    have "has_url (link_URL k) (w_db (gs_world s))"
      using keys_has_url [OF mem [OF held_busy [OF process(3,4)]]] keys_cong [OF keys] by blast
    note p = processLink_keeps [OF svc calm F this process(5)]
    show ?thesis unfolding process(1) by (rule keep) (use p process in \<open>auto simp: held_process\<close>)
  next
    case (panic i k e w')
    have "has_url (link_URL k) (w_db (gs_world s))"
      using keys_has_url [OF mem [OF held_busy [OF panic(3,4)]]] keys_cong [OF keys] by blast
    note p = processLink_keeps [OF svc calm F this panic(5)]
    show ?thesis unfolding panic(1) by (rule keep) (use p panic in \<open>auto simp: held_process\<close>)
  next
    case (send k ks)
    show ?thesis unfolding send(1) by (rule keep) (use calm send in \<open>auto simp: held_steps(1)\<close>)
  next
    case (take_job i k ks)
    show ?thesis unfolding take_job(1) by (rule keep) (use calm take_job in \<open>auto simp: held_take\<close>)
  qed (auto intro!: keep calm simp: held_steps(3))
qed

end

end
