(* ===== verification/Scrapper_Run_Props.thy ===== *)
theory Scrapper_Run_Props
  imports Scrapper_Run
begin

text \<open>
  What a run of \<open>GetUpdates\<close> guarantees: it ends, without deadlock, within a bound; with the query
  builder repositories it processes every link exactly once; with the SQL repositories it can skip one.
\<close>

subsection \<open>The order of the pages\<close>

definition page_ids :: "pgdb \<Rightarrow> i64 list" where
  "page_ids d = map link_ID (sort_key (\<lambda>k. sint (link_ID k)) (db_links d))"

lemma page_ids_keys: "link_keys d' = link_keys d \<Longrightarrow> page_ids d' = page_ids d"
proof -
  assume k: "link_keys d' = link_keys d"
  have s: "page_ids e = map word_of_int (sort (map (\<lambda>k. sint (link_ID k)) (db_links e)))" for e
  proof -
    have "sort (map (\<lambda>k. sint (link_ID k)) (db_links e))
        = map (\<lambda>k. sint (link_ID k)) (sort_key (\<lambda>k. sint (link_ID k)) (db_links e))"
      by (rule properties_for_sort) (simp_all add: mset_map)
    then show ?thesis by (simp add: page_ids_def)
  qed
  have "map (\<lambda>k. sint (link_ID k)) (db_links d') = map (\<lambda>k. sint (link_ID k)) (db_links d)"
    using arg_cong [OF conjunct2 [OF conjunct2 [OF keys_cong [OF k]]], of "map sint"] by (simp add: comp_def)
  then show ?thesis unfolding s by simp
qed

lemma mset_page_ids: "mset (page_ids d) = mset (map link_ID (db_links d))"
  by (simp add: page_ids_def)

subsection \<open>Every link exactly once\<close>

definition fetched :: "int \<Rightarrow> 'w run_state \<Rightarrow> nat" where
  "fetched b s = gs_offset s + (case gs_phase s of Sending ks \<Rightarrow> nat b | _ \<Rightarrow> 0)"

definition held_ids :: "'w run_state \<Rightarrow> i64 multiset" where
  "held_ids s = image_mset link_ID (held s)"

definition exact :: "i64 list \<Rightarrow> int \<Rightarrow> 'w run_state \<Rightarrow> bool" where
  "exact ids b s \<longleftrightarrow> held_ids s \<subseteq># mset ids
     \<and> (case gs_phase s of
          Starting \<Rightarrow> held s = {#} \<and> gs_offset s = 0
        | Fetching \<Rightarrow> held_ids s = mset (take (fetched b s) ids)
        | Sending ks \<Rightarrow> held_ids s = mset (take (fetched b s) ids)
        | Waiting \<Rightarrow> held_ids s = mset ids
        | Returned r \<Rightarrow> isl r \<or> (held_ids s = mset ids \<and> gs_jobs s = [] \<and> busy_links (gs_busy s) = [])
        | Crashed e \<Rightarrow> True)"

lemma mset_take_le: "mset (take n xs) \<subseteq># mset xs"
  by (metis append_take_drop_id mset_append mset_subset_eq_add_left)

lemma exact_less: "exact ids b s \<Longrightarrow> held t \<subseteq># held s \<Longrightarrow> held_ids t \<subseteq># mset ids"
  unfolding exact_def held_ids_def by (meson image_mset_subseteq_mono subset_mset.order_trans)

lemma exact_bound: "exact ids b s \<Longrightarrow> held_ids s \<subseteq># mset ids"
  by (simp add: exact_def)

lemma exact_page:
  assumes "exact ids b s" and "gs_phase s = Fetching" and "map link_ID links = take (nat b) (drop (gs_offset s) ids)"
  shows "exact ids b (s\<lparr>gs_world := w', gs_phase := Sending links\<rparr>)"
proof -
  have "held_ids s = mset (take (gs_offset s) ids)" using assms(1,2) by (simp add: exact_def fetched_def)
  then have h: "held_ids (s\<lparr>gs_world := w', gs_phase := Sending links\<rparr>) = mset (take (gs_offset s + nat b) ids)"
    using held_steps(2) [OF assms(2)] by (simp add: held_ids_def take_add flip: assms(3))
  then show ?thesis using mset_take_le [of "gs_offset s + nat b" ids] by (simp add: exact_def fetched_def)
qed

lemma busy_Some_links: "i < length bs \<Longrightarrow> bs ! i = Some k \<Longrightarrow> busy_links bs \<noteq> []"
  using busy_release [of i bs k] by auto

context scrapper_stores
begin

lemma exact_step:
  assumes svc: "sv_linkRepo svc = L" and calm: "calm (gs_world s)" and b: "0 < sv_batchSize svc"
    and key: "page_key = (\<lambda>k. sint (link_ID k))" and ids: "ids = page_ids (w_db (gs_world s))"
    and ex: "exact ids (sv_batchSize svc) s" and step: "getUpdates_step c svc s s'"
  shows "exact ids (sv_batchSize svc) s'"
proof -
  note batch = GetBatch_result [OF calm, of "nat (sv_batchSize svc)" "gs_offset s"]
  have pos: "0 < nat (sv_batchSize svc)" using b by simp
  have page: "map link_ID links = take (nat (sv_batchSize svc)) (drop (gs_offset s) ids)"
    if "lr_GetBatch (sv_linkRepo svc) (nat (sv_batchSize svc)) (gs_offset s) (gs_world s) = (Inr links, w')" for links w'
    using batch(3) [OF pos that [unfolded svc(1)] refl] by (simp add: ids page_ids_def key take_map drop_map)
  note less = exact_less [OF ex]
  from step show ?thesis
  proof cases
    case (fetch links w')
    show ?thesis unfolding fetch(1) by (rule exact_page [OF ex fetch(2) page [OF fetch(3)]])
  next
    case (no_more w')
    have "length ids \<le> gs_offset s" using page [OF no_more(3)] pos by simp
    with ex no_more show ?thesis by (simp add: exact_def fetched_def held_ids_def held_steps(4))
  next
    case (take_job i k ks)
    have h: "held s' = held s" unfolding take_job(1) by (rule held_take [OF take_job(3-5)])
    with ex take_job show ?thesis by (auto simp: exact_def held_ids_def fetched_def split: phase.splits)
  next
    case (process i k w')
    have h: "held s' = held s" unfolding process(1) by (rule held_process(1) [OF process(3,4)])
    with ex process busy_Some_links [OF process(3,4)] show ?thesis
      by (auto simp: exact_def held_ids_def fetched_def split: phase.splits)
  next
    case (panic i k e w')
    have "held s' \<subseteq># held s" unfolding panic(1) by (rule held_process(2) [OF panic(3,4)])
    from less [OF this] panic(1) show ?thesis by (simp add: exact_def)
  next
    case (send k ks)
    have h: "held s' = held s" unfolding send(1) by (rule held_steps(1) [OF send(2)])
    with ex send show ?thesis by (simp add: exact_def held_ids_def fetched_def mset_take_le)
  next
    case (all_done)
    with ex show ?thesis by (simp add: exact_def held_ids_def held_steps(4) busy_links_all_None)
  next
    case (next_batch)
    with ex show ?thesis by (simp add: exact_def held_ids_def held_steps(4) fetched_def mset_take_le)
  next
    case (start)
    with ex show ?thesis by (simp add: exact_def held_ids_def held_steps(4) fetched_def)
  next
    case (refuse e)
    with less [OF held_steps(3), of "Returned (Inl (Sentinel e))"] show ?thesis by (simp add: exact_def)
  next
    case (cancel k ks e)
    with less [OF held_steps(3), of "Returned (Inl (Sentinel e))"] show ?thesis by (simp add: exact_def)
  next
    case (fetch_error e w')
    with less [OF held_steps(3), of "Returned (Inl e)"] show ?thesis by (simp add: exact_def held_ids_def)
  qed
qed

lemma run_ok_init: "calm w \<Longrightarrow> run_ok w svc (run_init svc w)"
  by (simp add: run_ok_def run_init_def held_def)

lemma exact_run:
  assumes svc: "sv_linkRepo svc = L" "sv_notifier svc = Notifier_SendUpdate O' topic" "sv_subRepo svc = S"
    and F: "fetch_apart (sv_fetcher svc)" and b: "0 < sv_batchSize svc" and key: "page_key = (\<lambda>k. sint (link_ID k))"
    and w: "calm w" and run: "(getUpdates_step c svc)\<^sup>*\<^sup>* (run_init svc w) s"
  shows "run_ok w svc s \<and> exact (page_ids (w_db w)) (sv_batchSize svc) s"
  using run
proof induction
  case base
  show ?case using run_ok_init [OF w] by (simp add: exact_def held_ids_def run_init_def held_def)
next
  case (step s t)
  then have ok: "run_ok w svc s" and ex: "exact (page_ids (w_db w)) (sv_batchSize svc) s" by simp_all
  have cal: "calm (gs_world s)" and keys: "link_keys (w_db (gs_world s)) = link_keys (w_db w)"
    using ok by (simp_all add: run_ok_def)
  note ids = page_ids_keys [OF keys, symmetric]
  show ?case
  proof
    show "run_ok w svc t" by (rule run_ok_step [OF svc F b ok step(2)])
    show "exact (page_ids (w_db w)) (sv_batchSize svc) t" by (rule exact_step [OF svc(1) cal b key ids ex step(2)])
  qed
qed

lemma run_ok_run:
  assumes svc: "sv_linkRepo svc = L" "sv_notifier svc = Notifier_SendUpdate O' topic" "sv_subRepo svc = S"
    and F: "fetch_apart (sv_fetcher svc)" and b: "0 < sv_batchSize svc"
    and w: "calm w" and run: "(getUpdates_step c svc)\<^sup>*\<^sup>* (run_init svc w) s"
  shows "run_ok w svc s"
  using run
proof induction
  case base
  show ?case by (rule run_ok_init [OF w])
next
  case (step s t)
  show ?case by (rule run_ok_step [OF svc F b step(3,2)])
qed

end

lemma exact_processed:
  assumes "exact ids b s"
  shows "mset (map link_ID (gs_processed s)) \<subseteq># mset ids"
    and "gs_phase s = Returned (Inr ()) \<Longrightarrow> mset (map link_ID (gs_processed s)) = mset ids"
proof -
  have "mset (map link_ID (gs_processed s)) \<subseteq># held_ids s" by (simp add: held_ids_def held_def)
  with exact_bound [OF assms] show "mset (map link_ID (gs_processed s)) \<subseteq># mset ids"
    by (rule subset_mset.order_trans [rotated])
  show "mset (map link_ID (gs_processed s)) = mset ids" if "gs_phase s = Returned (Inr ())"
    using assms that by (auto simp: exact_def held_ids_def held_def)
qed

lemma mset_subset_eq_distinct: "mset xs \<subseteq># mset ys \<Longrightarrow> distinct ys \<Longrightarrow> distinct xs"
  by (metis mset_subset_eq_exists_conv mset_append distinct_append ex_mset mset_eq_imp_distinct_iff)

text \<open>C17. With the query builder repositories a run of GetUpdates processes no link twice, however the
  goroutines interleave and whatever fails; and if it returns without an error, it has processed every
  link of the table exactly once.\<close>

theorem GetUpdates_each_link_once:
  assumes "scrapper_with ''BUILDER'' F (buildKafka ''BUILDER'' topic) b n = Inr svc"
    and "db_wf (w_db w)" and "\<not> in_tx w" and "map_order_ok w" and "fetch_apart F"
    and "(getUpdates_step cancelled svc)\<^sup>*\<^sup>* (run_init svc w) s"
  shows "distinct (map link_ID (gs_processed s))
    \<and> set (map link_ID (gs_processed s)) \<subseteq> set (map link_ID (db_links (w_db w)))
    \<and> (gs_phase s = Returned (Inr ())
       \<longrightarrow> mset (map link_ID (gs_processed s)) = mset (map link_ID (db_links (w_db w))))"
proof -
  note f = scrapper_with_fields [OF assms(1)]
  have svc: "sv_linkRepo svc = qb_link_repo" "sv_notifier svc = Notifier_SendUpdate qb_outbox_repo topic" "sv_subRepo svc = qb_sub_repo"
    using assms(1) by (auto elim: scrapper_with_cases)
  have c: "calm w" using assms(2-4) by (simp add: calm_def)
  have F: "fetch_apart (sv_fetcher svc)" "0 < sv_batchSize svc" using assms(5) f by simp_all
  have "exact (page_ids (w_db w)) (sv_batchSize svc) s"
    by (rule conjunct2 [OF qb_scrapper.exact_run [OF svc F refl c assms(6)]])
  note e = exact_processed [OF this]
  have "distinct (map link_ID (db_links (w_db w)))" using assms(2) by (simp add: db_wf_def db_wf_defs)
  then have d: "distinct (page_ids (w_db w))" using mset_eq_imp_distinct_iff [OF mset_page_ids] by blast
  have s: "set (page_ids (w_db w)) = set (map link_ID (db_links (w_db w)))" by (rule mset_eq_setD [OF mset_page_ids])
  show ?thesis
    using e d s set_mset_mono [OF e(1)] mset_subset_eq_distinct [OF e(1)] by (auto simp: mset_page_ids)
qed

subsection \<open>A run ends\<close>

definition phase_weight :: "phase \<Rightarrow> nat" where
  "phase_weight p = (case p of Starting \<Rightarrow> 3 | Fetching \<Rightarrow> 2 | Sending ks \<Rightarrow> 3 + 3 * length ks | Waiting \<Rightarrow> 1 | _ \<Rightarrow> 0)"

lemma phase_weight_simps [simp]:
  "phase_weight Starting = 3" "phase_weight Fetching = 2" "phase_weight (Sending ks) = 3 + 3 * length ks"
  "phase_weight Waiting = 1" "phase_weight (Returned r) = 0" "phase_weight (Crashed e) = 0"
  by (simp_all add: phase_weight_def)

definition unfetched :: "nat \<Rightarrow> int \<Rightarrow> 'w run_state \<Rightarrow> nat" where
  "unfetched lim b s = (case gs_phase s of Starting \<Rightarrow> lim - gs_offset s | Fetching \<Rightarrow> lim - gs_offset s
     | Sending ks \<Rightarrow> lim - (gs_offset s + nat b) | _ \<Rightarrow> 0)"

definition run_measure :: "nat \<Rightarrow> int \<Rightarrow> 'w run_state \<Rightarrow> nat" where
  "run_measure lim b s = phase_weight (gs_phase s) + 5 * unfetched lim b s
     + 2 * length (gs_jobs s) + length (busy_links (gs_busy s))"

lemma busy_length:
  "i < length bs \<Longrightarrow> bs ! i = None \<Longrightarrow> length (busy_links (bs[i := Some k])) = Suc (length (busy_links bs))"
  "i < length bs \<Longrightarrow> bs ! i = Some k \<Longrightarrow> length (busy_links bs) = Suc (length (busy_links (bs[i := None])))"
  using arg_cong [OF busy_take, of i bs size k] arg_cong [OF busy_release, of i bs k size] by simp_all

lemma measure_phase:
  assumes "gs_phase t = p" and "gs_jobs t = gs_jobs s" and "gs_busy t = gs_busy s"
    and "unfetched lim b t \<le> unfetched lim b s" and "phase_weight p < phase_weight (gs_phase s)"
  shows "run_measure lim b t < run_measure lim b s"
  using assms by (simp add: run_measure_def)

context scrapper_stores
begin

lemma measure_step:
  assumes svc: "sv_linkRepo svc = L" and calm: "calm (gs_world s)" and b: "0 < sv_batchSize svc"
    and lim: "lim = length (db_links (w_db (gs_world s)))" and step: "getUpdates_step c svc s s'"
  shows "run_measure lim (sv_batchSize svc) s' < run_measure lim (sv_batchSize svc) s"
proof -
  note batch = GetBatch_result [OF calm, of "nat (sv_batchSize svc)" "gs_offset s"]
  have pos: "0 < nat (sv_batchSize svc)" using b by simp
  note d = run_measure_def unfetched_def
  from step show ?thesis
  proof cases
    case (fetch links w')
    have l: "length links = min (nat (sv_batchSize svc)) (lim - gs_offset s)"
      using batch(3) [OF pos fetch(3) [unfolded svc(1)] refl] by (simp add: lim min.commute)
    with fetch(4) have "0 < min (nat (sv_batchSize svc)) (lim - gs_offset s)" by (metis length_greater_0_conv)
    then show ?thesis unfolding fetch(1) using fetch(2) l by (simp add: d min_def split: if_splits)
  next
    case (take_job i k ks)
    with busy_length(1) [OF take_job(3,4), of k] show ?thesis by (auto simp: d split: phase.splits)
  next
    case (process i k w')
    with busy_length(2) [OF process(3,4)] show ?thesis by (auto simp: d split: phase.splits)
  next
    case (panic i k e w')
    with busy_length(2) [OF panic(3,4)] show ?thesis by (auto simp: d split: phase.splits)
  next
    case (send k ks)
    then show ?thesis by (simp add: d)
  qed (rule measure_phase, auto simp: unfetched_def split: phase.splits)+
qed

lemma run_steps:
  assumes svc: "sv_linkRepo svc = L" "sv_notifier svc = Notifier_SendUpdate O' topic" "sv_subRepo svc = S"
    and F: "fetch_apart (sv_fetcher svc)" and b: "0 < sv_batchSize svc" and w: "calm w"
    and run: "(getUpdates_step c svc ^^ m) (run_init svc w) s"
  shows "run_ok w svc s \<and> run_measure (length (db_links (w_db w))) (sv_batchSize svc) s + m \<le> 5 * length (db_links (w_db w)) + 3"
  using run
proof (induction m arbitrary: s)
  case 0
  then have "s = run_init svc w" by simp
  with run_ok_init [OF w, of svc] show ?case by (simp add: run_init_def run_measure_def unfetched_def)
next
  case (Suc m)
  from Suc.prems obtain t where t: "(getUpdates_step c svc ^^ m) (run_init svc w) t" and st: "getUpdates_step c svc t s" by auto
  have ok: "run_ok w svc t" and mt: "run_measure (length (db_links (w_db w))) (sv_batchSize svc) t + m
      \<le> 5 * length (db_links (w_db w)) + 3" using Suc.IH [OF t] by blast+
  have cal: "calm (gs_world t)" and keys: "link_keys (w_db (gs_world t)) = link_keys (w_db w)"
    using ok by (simp_all add: run_ok_def)
  have "length (db_links (w_db w)) = length (db_links (w_db (gs_world t)))" using keys_cong [OF keys] by simp
  from measure_step [OF svc(1) cal b this st] mt run_ok_step [OF svc F b ok st] show ?case by simp
qed

end

lemma not_final_step:
  assumes "0 < sv_batchSize svc" and "0 < sv_fetchersCount svc" and "length (gs_busy s) = nat (sv_fetchersCount svc)"
    and "\<not> final s"
  shows "\<exists>s'. getUpdates_step c svc s s'"
proof -
  have nc: "gs_phase s \<noteq> Crashed e" for e using assms(4) by (auto simp: final_def)
  have busy: ?thesis if "i < length (gs_busy s)" "gs_busy s ! i = Some k" for i k
  proof (cases "processLink svc k (gs_world s)")
    case (Pair r w')
    then show ?thesis using that nc by (cases r) (auto intro: getUpdates_step.process getUpdates_step.panic)
  qed
  have worker: ?thesis if work: "gs_jobs s \<noteq> [] \<or> \<not> list_all (\<lambda>b. b = None) (gs_busy s)"
  proof (cases "list_all (\<lambda>b. b = None) (gs_busy s)")
    case False
    then obtain i where i: "i < length (gs_busy s)" "gs_busy s ! i \<noteq> None" by (auto simp: list_all_length)
    then obtain k where "gs_busy s ! i = Some k" by blast
    from busy [OF i(1) this] show ?thesis .
  next
    case True
    then obtain k ks where j: "gs_jobs s = k # ks" using work by (cases "gs_jobs s") auto
    have l: "0 < length (gs_busy s)" using assms(2,3) by simp
    then have "gs_busy s ! 0 = None" using True by (simp add: list_all_length)
    from getUpdates_step.take_job [OF nc l this j] show ?thesis by blast
  qed
  show ?thesis
  proof (cases "gs_phase s")
    case Starting
    then show ?thesis by (blast intro: getUpdates_step.start)
  next
    case Fetching
    obtain r w' where g: "lr_GetBatch (sv_linkRepo svc) (nat (sv_batchSize svc)) (gs_offset s) (gs_world s) = (r, w')"
      by fastforce
    then consider e where "r = Inl e" | "r = Inr []" | ks where "r = Inr ks" "ks \<noteq> []" by (cases r) auto
    then show ?thesis
      using g Fetching by cases (auto intro: getUpdates_step.fetch_error getUpdates_step.no_more getUpdates_step.fetch)
  next
    case (Sending ks)
    show ?thesis
    proof (cases ks)
      case Nil
      with Sending show ?thesis by (blast intro: getUpdates_step.next_batch)
    next
      case (Cons k js)
      show ?thesis
      proof (cases "int (length (gs_jobs s)) < sv_batchSize svc")
        case True
        with Sending Cons show ?thesis by (blast intro: getUpdates_step.send)
      next
        case False
        with assms(1) have "gs_jobs s \<noteq> []" by auto
        with worker show ?thesis by blast
      qed
    qed
  next
    case Waiting
    with worker show ?thesis by (blast intro: getUpdates_step.all_done)
  next
    case (Returned r)
    with assms(4) show ?thesis by (simp add: final_def)
  next
    case (Crashed e)
    with assms(4) show ?thesis by (simp add: final_def)
  qed
qed

text \<open>C18. A run of GetUpdates ends: over n links no execution has more than 5n + 3 steps, whatever the
  interleaving and the faults, and the producer and the goroutines never wait for each other for ever: as
  long as GetUpdates has not returned, some step is possible.\<close>

theorem GetUpdates_terminates:
  assumes "scrapper_with accessType F (buildKafka accessType topic) b n = Inr svc"
    and "db_wf (w_db w)" and "\<not> in_tx w" and "map_order_ok w" and "fetch_apart F"
    and "(getUpdates_step cancelled svc ^^ m) (run_init svc w) s"
  shows "m \<le> 5 * length (db_links (w_db w)) + 3 \<and> (final s \<or> (\<exists>s'. getUpdates_step cancelled svc s s'))"
proof -
  note f = scrapper_with_fields [OF assms(1)]
  have c: "calm w" using assms(2-4) by (simp add: calm_def)
  have F: "fetch_apart (sv_fetcher svc)" "0 < sv_batchSize svc" using assms(5) f by simp_all
  have "run_ok w svc s \<and> m \<le> 5 * length (db_links (w_db w)) + 3"
    using assms(1)
  proof (cases rule: scrapper_with_cases)
    case sql
    from sql_scrapper.run_steps [OF sql(1,3,2) F c assms(6)] show ?thesis by simp
  next
    case builder
    from qb_scrapper.run_steps [OF builder(1,3,2) F c assms(6)] show ?thesis by simp
  qed
  moreover have "\<exists>s'. getUpdates_step cancelled svc s s'" if "run_ok w svc s" "\<not> final s"
    by (rule not_final_step) (use that f in \<open>simp_all add: run_ok_def\<close>)
  ultimately show ?thesis by blast
qed

subsection \<open>Runs one step at a time\<close>

datatype move = MStart | MFetch | MSend | MNext | MTake nat | MProcess nat | MDone

fun run_move :: "('a world_scheme) scrapper_service \<Rightarrow> move \<Rightarrow> ('a world_scheme) run_state \<Rightarrow> ('a world_scheme) run_state option" where
  "run_move svc MStart s = (case gs_phase s of Starting \<Rightarrow> Some (s\<lparr>gs_phase := Fetching\<rparr>) | _ \<Rightarrow> None)"
| "run_move svc MFetch s = (case gs_phase s of
       Fetching \<Rightarrow>
         (case lr_GetBatch (sv_linkRepo svc) (nat (sv_batchSize svc)) (gs_offset s) (gs_world s) of
            (Inl e, w') \<Rightarrow> Some (s\<lparr>gs_world := w', gs_phase := Returned (Inl e)\<rparr>)
          | (Inr links, w') \<Rightarrow> Some (s\<lparr>gs_world := w', gs_phase := (if links = [] then Waiting else Sending links)\<rparr>))
     | _ \<Rightarrow> None)"
| "run_move svc MSend s = (case gs_phase s of
       Sending (k # ks) \<Rightarrow>
         (if int (length (gs_jobs s)) < sv_batchSize svc
          then Some (s\<lparr>gs_phase := Sending ks, gs_jobs := gs_jobs s @ [k]\<rparr>) else None)
     | _ \<Rightarrow> None)"
| "run_move svc MNext s = (case gs_phase s of
       Sending [] \<Rightarrow> Some (s\<lparr>gs_phase := Fetching, gs_offset := gs_offset s + nat (sv_batchSize svc)\<rparr>)
     | _ \<Rightarrow> None)"
| "run_move svc (MTake i) s = (case (gs_phase s, gs_jobs s) of
       (Crashed e, _) \<Rightarrow> None
     | (_, k # ks) \<Rightarrow>
         (if i < length (gs_busy s) \<and> gs_busy s ! i = None
          then Some (s\<lparr>gs_jobs := ks, gs_busy := (gs_busy s)[i := Some k]\<rparr>) else None)
     | _ \<Rightarrow> None)"
| "run_move svc (MProcess i) s = (case gs_phase s of
       Crashed e \<Rightarrow> None
     | _ \<Rightarrow>
         (if i < length (gs_busy s)
          then (case gs_busy s ! i of
                  None \<Rightarrow> None
                | Some k \<Rightarrow>
                    (case processLink svc k (gs_world s) of
                       (Inr u, w') \<Rightarrow> Some (s\<lparr>gs_world := w', gs_busy := (gs_busy s)[i := None], gs_processed := gs_processed s @ [k]\<rparr>)
                     | (Inl e, w') \<Rightarrow> Some (s\<lparr>gs_world := w', gs_busy := (gs_busy s)[i := None], gs_phase := Crashed e\<rparr>)))
          else None))"
| "run_move svc MDone s = (case gs_phase s of
       Waiting \<Rightarrow> (if gs_jobs s = [] \<and> list_all (\<lambda>b. b = None) (gs_busy s) then Some (s\<lparr>gs_phase := Returned (Inr ())\<rparr>) else None)
     | _ \<Rightarrow> None)"

lemma run_move_step:
  assumes "run_move svc m s = Some s'"
  shows "getUpdates_step c svc s s'"
proof (cases m)
  case (MProcess i)
  with assms have nc: "gs_phase s \<noteq> Crashed e" for e by auto
  from assms MProcess obtain k where k: "i < length (gs_busy s)" "gs_busy s ! i = Some k"
    by (auto split: phase.splits if_splits option.splits)
  obtain r w' where p: "processLink svc k (gs_world s) = (r, w')" by fastforce
  show ?thesis
  proof (cases r)
    case (Inl e)
    from getUpdates_step.panic [OF nc k p [unfolded this]] assms show ?thesis
      by (auto simp: MProcess k p Inl split: phase.splits)
  next
    case (Inr u)
    from getUpdates_step.process [OF nc k, where w' = w'] assms p show ?thesis
      by (auto simp: MProcess k Inr split: phase.splits)
  qed
next
  case (MTake i)
  with assms have nc: "gs_phase s \<noteq> Crashed e" for e by auto
  from assms MTake obtain k ks where k: "i < length (gs_busy s)" "gs_busy s ! i = None" "gs_jobs s = k # ks"
    by (auto split: phase.splits if_splits list.splits)
  from getUpdates_step.take_job [OF nc k] assms show ?thesis by (auto simp: MTake k split: phase.splits)
next
  case MStart
  with assms show ?thesis by (auto split: phase.splits intro: getUpdates_step.start)
next
  case MFetch
  with assms show ?thesis
    by (auto split: phase.splits prod.splits sum.splits if_splits
        intro: getUpdates_step.fetch getUpdates_step.no_more getUpdates_step.fetch_error)
next
  case MSend
  with assms show ?thesis by (auto split: phase.splits list.splits if_splits intro: getUpdates_step.send)
next
  case MNext
  with assms show ?thesis by (auto split: phase.splits list.splits intro: getUpdates_step.next_batch)
next
  case MDone
  with assms show ?thesis by (auto split: phase.splits if_splits intro: getUpdates_step.all_done)
qed

fun run_moves :: "('a world_scheme) scrapper_service \<Rightarrow> move list \<Rightarrow> ('a world_scheme) run_state \<Rightarrow> ('a world_scheme) run_state option" where
  "run_moves svc [] s = Some s"
| "run_moves svc (m # ms) s = Option.bind (run_move svc m s) (run_moves svc ms)"

lemma run_moves_relpow: "run_moves svc ms s = Some s' \<Longrightarrow> (getUpdates_step c svc ^^ length ms) s s'"
proof (induction ms arbitrary: s)
  case (Cons m ms)
  then obtain t where "run_move svc m s = Some t" "run_moves svc ms t = Some s'"
    by (cases "run_move svc m s") auto
  from run_move_step [OF this(1)] Cons.IH [OF this(2)] have "(getUpdates_step c svc ^^ Suc (length ms)) s s'" by (rule relpowp_Suc_I2)
  then show ?case by simp
qed simp

lemma run_moves_steps: "run_moves svc ms s = Some s' \<Longrightarrow> (getUpdates_step c svc)\<^sup>*\<^sup>* s s'"
  using run_moves_relpow by (metis relpowp_imp_rtranclp)

subsection \<open>Runs of the code\<close>

definition two_links_db :: pgdb where
  "two_links_db = empty_db\<lparr>db_chats := [7],
     db_links := [\<lparr>link_ID = 1, link_URL = ''https://github.com/a/b'', link_LastUpdated = 1000\<rparr>,
                  \<lparr>link_ID = 2, link_URL = ''https://github.com/c/d'', link_LastUpdated = 1500\<rparr>],
     db_subs := [(7, 1), (7, 2)], db_link_seq := 2\<rparr>"

lemma two_links_wf: "db_wf two_links_db"
  by (simp add: db_wf_def db_wf_defs empty_db_def two_links_db_def)

definition single_scrapper :: "string \<Rightarrow> world scrapper_service" where
  "single_scrapper accessType = (case scrapper_with accessType (sample_fetcher (Inr sample_events)) (buildKafka accessType ''raw'') 1 1 of
     Inr svc \<Rightarrow> svc | Inl e \<Rightarrow> undefined)"

lemma single_scrapper_wired:
  "accessType = ''SQL'' \<or> accessType = ''BUILDER'' \<Longrightarrow>
   scrapper_with accessType (sample_fetcher (Inr sample_events)) (buildKafka accessType ''raw'') 1 1 = Inr (single_scrapper accessType)"
  by (auto simp: single_scrapper_def scrapper_with_def buildRepos_def buildKafka_def NewScrapperService_def)

definition one_by_one :: "move list" where
  "one_by_one = [MStart, MFetch, MSend, MTake 0, MProcess 0, MNext, MFetch, MSend, MTake 0, MProcess 0, MNext, MFetch, MDone]"

definition run_from_two :: "string \<Rightarrow> move list \<Rightarrow> world run_state option" where
  "run_from_two accessType ms =
     run_moves (single_scrapper accessType) ms (run_init (single_scrapper accessType) (sample_world two_links_db []))"

definition run_summary :: "world run_state option \<Rightarrow> (i64 list \<times> bool) option" where
  "run_summary r = map_option (\<lambda>s. (map link_ID (gs_processed s), gs_phase s = Returned (Inr ()))) r"

lemma sql_run: "run_summary (run_from_two ''SQL'' one_by_one) = Some ([1, 1], True)"
  by code_simp

lemma builder_run: "run_summary (run_from_two ''BUILDER'' one_by_one) = Some ([1, 2], True)"
  by code_simp

lemma two_links_world:
  "db_wf (w_db (sample_world two_links_db []))" "\<not> in_tx (sample_world two_links_db [])"
  "map_order_ok (sample_world two_links_db [])" "w_faults (sample_world two_links_db []) = []"
  "db_links (w_db (sample_world two_links_db [])) = db_links two_links_db"
  by (simp_all add: sample_world_top two_links_wf sample_fetcher_facts) (simp add: sample_world_def)

lemma run_summaryE:
  assumes "run_summary (run_from_two t ms) = Some (ids, ok)"
  obtains s where "run_from_two t ms = Some s" "map link_ID (gs_processed s) = ids" "gs_phase s = Returned (Inr ()) \<longleftrightarrow> ok"
  using assms by (auto simp: run_summary_def)


lemma GetUpdates_each_link_once_witness:
  "\<exists>s. (getUpdates_step False (single_scrapper ''BUILDER''))\<^sup>*\<^sup>*
         (run_init (single_scrapper ''BUILDER'') (sample_world two_links_db [])) s
     \<and> gs_phase s = Returned (Inr ()) \<and> mset (map link_ID (gs_processed s)) = {#1, 2#}"
proof -
  from builder_run obtain s where s: "run_from_two ''BUILDER'' one_by_one = Some s" "gs_phase s = Returned (Inr ())"
    by (rule run_summaryE) simp
  note run = run_moves_steps [OF s(1) [unfolded run_from_two_def], of False]
  have wired: "scrapper_with ''BUILDER'' (sample_fetcher (Inr sample_events)) (buildKafka ''BUILDER'' ''raw'') 1 1
      = Inr (single_scrapper ''BUILDER'')" by (rule single_scrapper_wired) simp
  have "mset (map link_ID (gs_processed s)) = mset (map link_ID (db_links (w_db (sample_world two_links_db []))))"
    using GetUpdates_each_link_once [OF wired two_links_world(1-3) sample_fetcher_facts(1) run] s(2) by blast
  then have "mset (map link_ID (gs_processed s)) = {#1, 2#}"
    unfolding two_links_world(5) by (simp add: two_links_db_def)
  with run s(2) show ?thesis by blast
qed

lemma GetUpdates_terminates_witness:
  "\<exists>s. (getUpdates_step False (single_scrapper ''SQL'') ^^ 13)
         (run_init (single_scrapper ''SQL'') (sample_world two_links_db [])) s
     \<and> (13::nat) \<le> 5 * length (db_links two_links_db) + 3
     \<and> (final s \<or> (\<exists>s'. getUpdates_step False (single_scrapper ''SQL'') s s'))"
proof -
  from sql_run obtain s where s: "run_from_two ''SQL'' one_by_one = Some s"
    by (rule run_summaryE)
  have "length one_by_one = 13" by (simp add: one_by_one_def)
  with run_moves_relpow [OF s [unfolded run_from_two_def], of False]
  have run: "(getUpdates_step False (single_scrapper ''SQL'') ^^ 13)
      (run_init (single_scrapper ''SQL'') (sample_world two_links_db [])) s" by simp
  have wired: "scrapper_with ''SQL'' (sample_fetcher (Inr sample_events)) (buildKafka ''SQL'' ''raw'') 1 1
      = Inr (single_scrapper ''SQL'')" by (rule single_scrapper_wired) simp
  from GetUpdates_terminates [OF wired two_links_world(1-3) sample_fetcher_facts(1) run] run show ?thesis
    unfolding two_links_world(5) by blast
qed

end
