(* ===== verification/Consumer.thy ===== *)
theory Consumer
  imports Outbox "HOL-Library.AList"
begin

text \<open>
  The Kafka consumers of the agent and the bot (\<open>adapter/in/kafka/handler.go\<close>,
  \<open>adapter/in/listener/kafka/handler.go\<close>, the same code twice) and the validation of what they read
  (\<open>validation/validation.go\<close>, the \<open>Validate\<close> methods of the domains). The update's handler and the
  producer of the dead letter topic act on a world of any type; the session adds to it what the client
  library and the clock keep.
\<close>

subsection \<open>Validation\<close>

type_synonym problems = "(string \<times> string) list"

definition Problems_Add :: "problems \<Rightarrow> string \<Rightarrow> string \<Rightarrow> problems" where
  "Problems_Add p field msg = AList.update field msg p"

text \<open>\<open>ord\<close>: the order in which Go ranges over the map.\<close>

definition Problems_String :: "(problems \<Rightarrow> problems) \<Rightarrow> problems \<Rightarrow> string" where
  "Problems_String ord p =
     (if p = [] then '''' else join_with ''; '' (map (\<lambda>(field, msg). field @ '': '' @ msg) (ord p)))"

definition validation_Check :: "(problems \<Rightarrow> problems) \<Rightarrow> ('u \<Rightarrow> problems) \<Rightarrow> 'u \<Rightarrow> goerr + unit" where
  "validation_Check ord Validate v =
     (let problems = Validate v in
      if problems = [] then Inr ()
      else Inl (NewErr (''validation failed: '' @ Problems_String ord problems)))"

definition agent_Validate :: "link_update \<Rightarrow> problems" where
  "agent_Validate update =
     (let p = [];
          p = (if sint (lu_ID update) < 0 then Problems_Add p ''id'' ''must be positive'' else p);
          p = (if lu_URL update = '''' then Problems_Add p ''url'' ''must be not empty'' else p);
          p = (if lu_Description update = '''' then Problems_Add p ''description'' ''must be not empty'' else p);
          p = (if lu_TgChatIDs update = [] then Problems_Add p ''tgChatIDs'' ''must contain least one chat id'' else p)
      in p)"

definition bot_Validate :: "processed_update \<Rightarrow> problems" where
  "bot_Validate update =
     (let p = [];
          p = (if pu_URL update = '''' then Problems_Add p ''url'' ''must not be empty'' else p);
          p = (if pu_Description update = '''' then Problems_Add p ''description'' ''must not be empty'' else p);
          p = (if pu_Priority update \<in> {PriorityHigh, PriorityMedium, PriorityLow} then p
               else Problems_Add p ''priority'' ''must be one of: HIGH, MEDIUM, LOW'');
          p = (if pu_TgChatIDs update = [] then Problems_Add p ''tgChatIDs'' ''must contain least one chat id'' else p)
      in p)"

lemma Check_ok_iff: "validation_Check ord V u = Inr () \<longleftrightarrow> V u = []"
  by (simp add: validation_Check_def Let_def)

lemma Add_not_Nil [simp]: "Problems_Add p f m \<noteq> []"
  by (cases p) (auto simp: Problems_Add_def)

lemma agent_Validate_ok:
  "agent_Validate u = [] \<longleftrightarrow> 0 \<le> sint (lu_ID u) \<and> lu_URL u \<noteq> [] \<and> lu_Description u \<noteq> [] \<and> lu_TgChatIDs u \<noteq> []"
  by (simp add: agent_Validate_def)

lemma bot_Validate_ok:
  "bot_Validate u = [] \<longleftrightarrow> pu_URL u \<noteq> [] \<and> pu_Description u \<noteq> [] \<and> pu_TgChatIDs u \<noteq> []
     \<and> pu_Priority u \<in> {PriorityHigh, PriorityMedium, PriorityLow}"
  by (simp add: bot_Validate_def)

subsection \<open>The session\<close>

text \<open>A message of a claim. A key is kept as a string, like every key here.\<close>

record consumer_message =
  cm_Topic :: string
  cm_Partition :: int
  cm_Offset :: i64
  cm_Key :: string
  cm_Value :: "byte list"

text \<open>
  \<open>ss_marked\<close>: the messages marked, in order; \<open>ss_waited\<close>: the times that the retries waited;
  \<open>ss_ends\<close>: whether the session's context turns out to be done, \<open>select\<close> by \<open>select\<close> (no more
  entries: it is not).
\<close>

record 'w session =
  ss_world :: 'w
  ss_marked :: "consumer_message list"
  ss_waited :: "duration list"
  ss_ends :: "bool list"

definition on_world :: "('w, 'a) prog \<Rightarrow> ('w session, 'a) prog" where
  "on_world m s = (case m (ss_world s) of (r, w') \<Rightarrow> (r, s\<lparr>ss_world := w'\<rparr>))"

definition MarkMessage :: "consumer_message \<Rightarrow> ('w session, unit) prog" where
  "MarkMessage msg s = (Inr (), s\<lparr>ss_marked := ss_marked s @ [msg]\<rparr>)"

text \<open>A \<open>select\<close> with \<open>ctx.Done()\<close>.\<close>

definition unless_done :: "('w session, 'a) prog \<Rightarrow> ('w session, 'a) prog" where
  "unless_done m s =
     (let s' = s\<lparr>ss_ends := tl (ss_ends s)\<rparr> in
      if ss_ends s \<noteq> [] \<and> hd (ss_ends s) then (Inl (Sentinel ErrCanceled), s') else m s')"

definition time_After :: "duration \<Rightarrow> ('w session, unit) prog" where
  "time_After d s = (Inr (), s\<lparr>ss_waited := ss_waited s @ [d]\<rparr>)"

subsection \<open>The handler\<close>

text \<open>
  \<open>kh_bytesTo\<close> is \<open>bytesToLinkUpdate\<close> with the schema registry; \<open>kh_scaled n\<close> is
  \<open>time.Duration(float64(delay) * math.Pow(backoffFactor, n))\<close>, whose floating point is not modelled;
  \<open>kh_Error\<close> gives the text of an error.
\<close>

record ('w, 'u) handler =
  kh_HandleUpdate :: "'u \<Rightarrow> ('w, unit) prog"
  kh_bytesTo :: "byte list \<Rightarrow> ('w, 'u) prog"
  kh_Check :: "'u \<Rightarrow> goerr + unit"
  kh_SendMessage :: "kafka_message \<Rightarrow> ('w, unit) prog"
  kh_dlqTopic :: string
  kh_delay :: duration
  kh_maxDelay :: duration
  kh_scaled :: "nat \<Rightarrow> duration"
  kh_retries :: int
  kh_Error :: "goerr \<Rightarrow> string"

definition bot_NewHandler ::
    "(processed_update \<Rightarrow> ('w, unit) prog) \<Rightarrow> (int \<Rightarrow> ('w, codec) prog) \<Rightarrow> (problems \<Rightarrow> problems) \<Rightarrow>
     (kafka_message \<Rightarrow> ('w, unit) prog) \<Rightarrow> string \<Rightarrow> duration \<Rightarrow> duration \<Rightarrow> (nat \<Rightarrow> duration) \<Rightarrow> int \<Rightarrow>
     (goerr \<Rightarrow> string) \<Rightarrow> ('w, processed_update) handler" where
  "bot_NewHandler HandleUpdate registry ord SendMessage dlqTopic delay maxDelay scaled retries Error =
     \<lparr>kh_HandleUpdate = HandleUpdate, kh_bytesTo = bot_bytesToLinkUpdate registry,
       kh_Check = validation_Check ord bot_Validate, kh_SendMessage = SendMessage, kh_dlqTopic = dlqTopic,
       kh_delay = delay, kh_maxDelay = maxDelay, kh_scaled = scaled, kh_retries = retries, kh_Error = Error\<rparr>"

definition agent_NewHandler ::
    "(link_update \<Rightarrow> ('w, unit) prog) \<Rightarrow> (int \<Rightarrow> ('w, codec) prog) \<Rightarrow> (problems \<Rightarrow> problems) \<Rightarrow>
     (kafka_message \<Rightarrow> ('w, unit) prog) \<Rightarrow> string \<Rightarrow> duration \<Rightarrow> duration \<Rightarrow> (nat \<Rightarrow> duration) \<Rightarrow> int \<Rightarrow>
     (goerr \<Rightarrow> string) \<Rightarrow> ('w, link_update) handler" where
  "agent_NewHandler HandleUpdate registry ord SendMessage dlqTopic delay maxDelay scaled retries Error =
     \<lparr>kh_HandleUpdate = HandleUpdate, kh_bytesTo = agent_bytesToLinkUpdate registry,
       kh_Check = validation_Check ord agent_Validate, kh_SendMessage = SendMessage, kh_dlqTopic = dlqTopic,
       kh_delay = delay, kh_maxDelay = maxDelay, kh_scaled = scaled, kh_retries = retries, kh_Error = Error\<rparr>"

text \<open>The loop of \<open>handleUpdate\<close>, \<open>n\<close> attempts to go; \<open>err\<close> is \<open>processErr\<close>.\<close>

fun attempts ::
    "('w, 'u) handler \<Rightarrow> 'u \<Rightarrow> nat \<Rightarrow> nat \<Rightarrow> duration \<Rightarrow> goerr option \<Rightarrow> ('w session, unit) prog" where
  "attempts h update i 0 backoff err = (case err of None \<Rightarrow> eret () | Some e \<Rightarrow> efail e)"
| "attempts h update i (Suc n) backoff err =
     eguard (on_world (kh_HandleUpdate h update))
       (\<lambda>e. ebind (unless_done (time_After backoff)) (\<lambda>_.
          attempts h update (i + 1) n
            (let b = kh_scaled h (i + 1) in if kh_maxDelay h < b then kh_maxDelay h else b) (Some e)))
       (\<lambda>_. eret ())"

definition handleUpdate :: "('w, 'u) handler \<Rightarrow> 'u \<Rightarrow> ('w session, unit) prog" where
  "handleUpdate h update = attempts h update 0 (nat (kh_retries h)) (kh_delay h) None"

definition dlq_message :: "('w, 'u) handler \<Rightarrow> consumer_message \<Rightarrow> string \<Rightarrow> kafka_message" where
  "dlq_message h msg reason =
     \<lparr>km_Topic = kh_dlqTopic h, km_Key = cm_Key msg, km_Value = cm_Value msg,
       km_Headers = [(''reason'', reason), (''topic'', cm_Topic msg), (''partition'', show_int (cm_Partition msg)),
         (''offset'', format_i64 (cm_Offset msg))]\<rparr>"

definition sendToDLQ :: "('w, 'u) handler \<Rightarrow> consumer_message \<Rightarrow> string \<Rightarrow> ('w session, unit) prog" where
  "sendToDLQ h msg reason = on_world (logged (kh_SendMessage h (dlq_message h msg reason)))"

definition consume_message :: "('w, 'u) handler \<Rightarrow> consumer_message \<Rightarrow> ('w session, unit) prog" where
  "consume_message h msg =
     ebind
       (eguard (on_world (kh_bytesTo h (cm_Value msg)))
         (\<lambda>e. sendToDLQ h msg (''unmarshal error: '' @ kh_Error h e)) (\<lambda>update.
        case kh_Check h update of
          Inl e \<Rightarrow> sendToDLQ h msg (''validate error: '' @ kh_Error h e)
        | Inr _ \<Rightarrow>
            eguard (handleUpdate h update)
              (\<lambda>e. sendToDLQ h msg (''handle update error: '' @ kh_Error h e)) eret))
       (\<lambda>_. MarkMessage msg)"

text \<open>\<open>ConsumeClaim\<close> over the messages that the claim delivers before its channel is closed.\<close>

fun ConsumeClaim :: "('w, 'u) handler \<Rightarrow> consumer_message list \<Rightarrow> ('w session, unit) prog" where
  "ConsumeClaim h [] = unless_done (eret ())"
| "ConsumeClaim h (msg # msgs) =
     ebind (unless_done (eret ())) (\<lambda>_. ebind (consume_message h msg) (\<lambda>_. ConsumeClaim h msgs))"

text \<open>The agent's copies.\<close>

definition agent_handleUpdate :: "('w, link_update) handler \<Rightarrow> link_update \<Rightarrow> ('w session, unit) prog" where
  "agent_handleUpdate = handleUpdate"
definition agent_sendToDLQ :: "('w, link_update) handler \<Rightarrow> consumer_message \<Rightarrow> string \<Rightarrow> ('w session, unit) prog" where
  "agent_sendToDLQ = sendToDLQ"
definition agent_ConsumeClaim :: "('w, link_update) handler \<Rightarrow> consumer_message list \<Rightarrow> ('w session, unit) prog" where
  "agent_ConsumeClaim = ConsumeClaim"

end
