(* ===== verification/Agent.thy ===== *)
theory Agent
  imports Consumer Agent_Outbox Fetchers
begin

text \<open>
  The agent (\<open>internal/agent\<close>): filters of raw updates, the transformers that cut or summarise the
  description, the client of the language model, the service that runs them and puts the processed
  update into the agent's outbox, and their wiring from the configuration. The remote model is the
  parameter \<open>Do\<close> of the client; a panic unwinds through the service.
\<close>

subsection \<open>Filters\<close>

text \<open>A set of strings is a \<open>map[string]struct{}\<close>.\<close>

fun insert_all :: "string list \<Rightarrow> string set \<Rightarrow> string set" where
  "insert_all [] known = known"
| "insert_all (x # xs) known = insert_all xs (insert x known)"

definition NewAuthor :: "string list \<Rightarrow> string set" where
  "NewAuthor excluded = insert_all excluded {}"

definition Author_Check :: "string set \<Rightarrow> link_update \<Rightarrow> bool" where
  "Author_Check excluded update = (if lu_Author update \<in> excluded then False else True)"

definition NewWords :: "string list \<Rightarrow> string set" where
  "NewWords excluded = insert_all excluded {}"

fun no_word :: "string set \<Rightarrow> string list \<Rightarrow> bool" where
  "no_word excluded [] = True"
| "no_word excluded (word # words) = (if word \<in> excluded then False else no_word excluded words)"

definition Words_Check :: "string set \<Rightarrow> link_update \<Rightarrow> bool" where
  "Words_Check excluded update = no_word excluded (Go_Strings.fields (lu_Description update))"

text \<open>The length is counted in bytes.\<close>

definition Length_Check :: "int \<Rightarrow> link_update \<Rightarrow> bool" where
  "Length_Check minLength update = (if int (length (lu_Description update)) > minLength then True else False)"

subsection \<open>Transformers\<close>

definition Cutter_Transform :: "int \<Rightarrow> link_update \<Rightarrow> ('w, processed_update) prog" where
  "Cutter_Transform threshold raw =
     (case truncate_text (lu_Description raw) threshold of
        None \<Rightarrow> efail (PanicErr ''slice bounds out of range'')
      | Some d \<Rightarrow>
          eret \<lparr>pu_URL = lu_URL raw, pu_Description = d, pu_Priority = PriorityHigh, pu_TgChatIDs = lu_TgChatIDs raw\<rparr>)"

text \<open>The prompt: its texts around the threshold and the description are Russian, in code points.\<close>

definition prompt_text :: "int \<Rightarrow> string \<Rightarrow> string" where
  "prompt_text threshold description =
     string_of_runes
       [0x421, 0x43E, 0x43A, 0x440, 0x430, 0x442, 0x438, 0x20, 0x441, 0x43B, 0x435, 0x434, 0x443, 0x44E, 0x449,
        0x435, 0x435, 0x20, 0x43E, 0x43F, 0x438, 0x441, 0x430, 0x43D, 0x438, 0x435, 0x20, 0x434, 0x43E, 0x20,
        0x31, 0x2D, 0x32, 0x20, 0x43F, 0x440, 0x435, 0x434, 0x43B, 0x43E, 0x436, 0x435, 0x43D, 0x438, 0x439,
        0x20, 0x28]
     @ show_int threshold @
     string_of_runes
       [0x20, 0x441, 0x438, 0x43C, 0x432, 0x43E, 0x43B, 0x43E, 0x432, 0x29, 0x3A, 0x20, 0xA]
     @ description @
     string_of_runes
       [0xA, 0x422, 0x432, 0x43E, 0x439, 0x20, 0x43E, 0x442, 0x432, 0x435, 0x442, 0x20, 0x434, 0x43E, 0x43B, 0x436,
        0x435, 0x43D, 0x20, 0x441, 0x43E, 0x441, 0x442, 0x43E, 0x44F, 0x442, 0x44C, 0x20, 0x422, 0x41E, 0x41B,
        0x42C, 0x41A, 0x41E, 0x20, 0x438, 0x437, 0x20, 0x441, 0x43E, 0x43A, 0x440, 0x430, 0x449, 0x435, 0x43D,
        0x43D, 0x43E, 0x433, 0x43E, 0x20, 0x43E, 0x43F, 0x438, 0x441, 0x430, 0x43D, 0x438, 0x44F, 0x2C, 0x20,
        0x431, 0x435, 0x437, 0x20, 0x442, 0x432, 0x43E, 0x438, 0x445, 0x20, 0x43A, 0x43E, 0x43C, 0x43C, 0x435,
        0x43D, 0x442, 0x430, 0x440, 0x438, 0x435, 0x432]"

definition Summarizer_Transform ::
    "(string \<Rightarrow> ('w, string) prog) \<Rightarrow> int \<Rightarrow> link_update \<Rightarrow> ('w, processed_update) prog" where
  "Summarizer_Transform llm threshold raw =
     (let processed = \<lparr>pu_URL = lu_URL raw, pu_Description = lu_Description raw, pu_Priority = PriorityHigh,
            pu_TgChatIDs = lu_TgChatIDs raw\<rparr> in
      if int (length (pu_Description processed)) > threshold
      then ehandle (llm (prompt_text threshold (pu_Description processed)))
             (\<lambda>e. efail (WrapErr ''error generating text: '' e ''''))
             (\<lambda>summary. eret (processed\<lparr>pu_Description := summary\<rparr>))
      else eret processed)"

subsection \<open>The Gemini client\<close>

record 'w gemini_client =
  gm_Do :: "'w http_do"
  gm_apiURL :: string
  gm_key :: string

definition gemini_New :: "'w http_do \<Rightarrow> string \<Rightarrow> 'w gemini_client" where
  "gemini_New httpDo apiKey =
     \<lparr>gm_Do = httpDo,
      gm_apiURL = ''https://generativelanguage.googleapis.com/v1beta'' @ ''/models/'' @ ''gemini-3-flash-preview'' @ '':'' @
        ''generateContent'',
      gm_key = apiKey\<rparr>"

definition geminiRequest_json :: "string \<Rightarrow> json" where
  "geminiRequest_json prompt =
     JObj [(''contents'', JArr [JObj [(''parts'', JArr [JObj [(''text'', enc_str prompt)]])]])]"

text \<open>The texts of the parts of each candidate.\<close>

definition dec_geminiResponse :: "string list list decoder" where
  "dec_geminiResponse = dec_struct (dec_field ''candidates''
     (dec_list (dec_struct (dec_field ''content'' (dec_struct (dec_field ''parts''
        (dec_list (dec_struct (dec_field ''text'' dec_str)) ''''))))) []))"

definition dec_geminiErrorResponse :: "string decoder" where
  "dec_geminiErrorResponse = dec_struct (dec_field ''error'' (dec_struct (dec_field ''messages'' dec_str)))"

text \<open>\<open>raw\<close>: the bytes of a body that is not JSON, as they are printed.\<close>

definition GenerateText :: "(http_response \<Rightarrow> string) \<Rightarrow> 'w gemini_client \<Rightarrow> string \<Rightarrow> ('w, string) prog" where
  "GenerateText raw c prompt =
     ehandle (gm_Do c \<lparr>rq_method = ''POST'', rq_url = gm_apiURL c,
         rq_header = [(''Content-Type'', ''application/json''), (''x-goog-api-key'', gm_key c)],
         rq_body = Some (geminiRequest_json prompt)\<rparr>)
       (\<lambda>e. efail (WrapErr (''couldn'' @ [CHR 39] @ ''t send request: '') e ''''))
       (\<lambda>resp.
     if rs_status resp \<noteq> 200
     then (case unmarshal dec_geminiErrorResponse '''' (rs_body resp) of
             Inr msg \<Rightarrow>
               efail (NewErr (''gemini api returned error (code '' @ show_nat (rs_status resp) @ ''): '' @ msg))
           | Inl _ \<Rightarrow>
               efail (NewErr (''gemini api returned code '' @ show_nat (rs_status resp) @ '', body = '' @ raw resp)))
     else
       ehandle (lift_sum (unmarshal dec_geminiResponse [] (rs_body resp)))
         (\<lambda>e. efail (WrapErr ''error unmarshaling gemini response: '' e ''''))
         (\<lambda>candidates.
       case candidates of
         (text # texts) # cs \<Rightarrow> eret text
       | _ \<Rightarrow> efail (NewErr ''got empty response from gemini api'')))"

subsection \<open>The service\<close>

record 'w agent_service =
  as_filters :: "(link_update \<Rightarrow> bool) list"
  as_transformer :: "link_update \<Rightarrow> ('w, processed_update) prog"
  as_sender :: "processed_update \<Rightarrow> ('w, unit) prog"

fun filters_pass :: "(link_update \<Rightarrow> bool) list \<Rightarrow> link_update \<Rightarrow> bool" where
  "filters_pass [] update = True"
| "filters_pass (check # checks) update = (if \<not> check update then False else filters_pass checks update)"

definition agent_HandleUpdate :: "'w agent_service \<Rightarrow> link_update \<Rightarrow> ('w, unit) prog" where
  "agent_HandleUpdate service update =
     (if \<not> filters_pass (as_filters service) update then eret ()
      else
        eguard (as_transformer service update)
          (\<lambda>e. efail (WrapErr ''error transforming update: '' e '''')) (\<lambda>transformed.
        ehandle (as_sender service transformed)
          (\<lambda>e. efail (WrapErr ''error sending update: '' e '''')) (\<lambda>_. eret ())))"

subsection \<open>Wiring\<close>

record agent_config =
  ac_AuthorEnabled :: bool
  ac_AuthorExcluded :: "string list"
  ac_StopWordsEnabled :: bool
  ac_StopWords :: "string list"
  ac_LengthEnabled :: bool
  ac_MinLength :: int
  ac_SummarizerEnabled :: bool
  ac_Threshold :: int
  ac_AccessType :: string
  ac_ProcessedUpdateTopic :: string

definition buildFilters :: "agent_config \<Rightarrow> (link_update \<Rightarrow> bool) list" where
  "buildFilters cfg =
     (let checks = [];
          checks = (if ac_AuthorEnabled cfg then checks @ [Author_Check (NewAuthor (ac_AuthorExcluded cfg))] else checks);
          checks = (if ac_StopWordsEnabled cfg then checks @ [Words_Check (NewWords (ac_StopWords cfg))] else checks);
          checks = (if ac_LengthEnabled cfg then checks @ [Length_Check (ac_MinLength cfg)] else checks)
      in checks)"

definition buildTransformer ::
    "(string \<Rightarrow> ('w, string) prog) \<Rightarrow> agent_config \<Rightarrow> link_update \<Rightarrow> ('w, processed_update) prog" where
  "buildTransformer llm cfg =
     (if ac_SummarizerEnabled cfg then Summarizer_Transform llm (ac_Threshold cfg)
      else Cutter_Transform (ac_Threshold cfg))"

definition buildSender :: "agent_config \<Rightarrow> goerr + (processed_update \<Rightarrow> ('a world_scheme, unit) prog)" where
  "buildSender cfg =
     sbind (if ac_AccessType cfg = ''SQL'' then Inr agent_sql_outbox_repo
            else if ac_AccessType cfg = ''BUILDER'' then Inr agent_qb_outbox_repo
            else Inl (NewErr (''unsupported database access type: '' @ ac_AccessType cfg)))
       (\<lambda>outRepo. Inr (agent_Notifier_SendUpdate outRepo (ac_ProcessedUpdateTopic cfg)))"

definition agent_NewApp ::
    "(string \<Rightarrow> ('a world_scheme, string) prog) \<Rightarrow> agent_config \<Rightarrow> goerr + ('a world_scheme) agent_service" where
  "agent_NewApp llm cfg =
     (case buildSender cfg of
        Inl e \<Rightarrow> Inl (TextErr ''error creating sender: '' e)
      | Inr sender \<Rightarrow>
          Inr \<lparr>as_filters = buildFilters cfg, as_transformer = buildTransformer llm cfg, as_sender = sender\<rparr>)"

end
