(* ===== verification/Consumer_Props.thy ===== *)
theory Consumer_Props
  imports Consumer
begin

text \<open>
  What the consumers guarantee of a claim: messages are marked one by one in their order, each one only
  after it was handled or its dead letter was sent, and the retries wait a bounded number of times.
\<close>

subsection \<open>Steps of a session\<close>

lemma on_worldD:
  assumes "on_world m s = (r, s')"
  shows "m (ss_world s) = (r, ss_world s')" and "ss_marked s' = ss_marked s" and "ss_waited s' = ss_waited s"
  using assms by (auto simp: on_world_def split: prod.splits)

lemma unless_done_cases:
  assumes "unless_done m s = (r, s')"
  obtains (ended) "r = Inl (Sentinel ErrCanceled)" "s' = s\<lparr>ss_ends := tl (ss_ends s)\<rparr>"
    | (goes_on) "m (s\<lparr>ss_ends := tl (ss_ends s)\<rparr>) = (r, s')"
proof (cases "ss_ends s \<noteq> [] \<and> hd (ss_ends s)")
  case True
  with assms show thesis by (intro ended) (simp_all add: unless_done_def Let_def)
next
  case False
  with assms show thesis by (intro goes_on) (simp add: unless_done_def Let_def)
qed

text \<open>What the handling of one message leaves of the session: the waits \<open>ds\<close> were added.\<close>

definition waits :: "('w, 'u) handler \<Rightarrow> 'w session \<Rightarrow> 'w session \<Rightarrow> nat \<Rightarrow> bool" where
  "waits h s s' n \<longleftrightarrow> (\<exists>ds. ss_waited s' = ss_waited s @ ds \<and> length ds \<le> n
     \<and> (\<forall>d \<in> set ds. d = kh_delay h \<or> d \<le> kh_maxDelay h))"

lemma waits_same: "ss_waited s' = ss_waited s \<Longrightarrow> waits h s s' n"
  by (auto simp: waits_def)

lemma waits_trans:
  assumes "waits h s1 s2 m" and "waits h s2 s3 n"
  shows "waits h s1 s3 (m + n)"
proof -
  obtain ds es where "ss_waited s2 = ss_waited s1 @ ds" "length ds \<le> m" "\<forall>d \<in> set ds. d = kh_delay h \<or> d \<le> kh_maxDelay h"
    "ss_waited s3 = ss_waited s2 @ es" "length es \<le> n" "\<forall>d \<in> set es. d = kh_delay h \<or> d \<le> kh_maxDelay h"
    using assms unfolding waits_def by blast
  then show ?thesis unfolding waits_def by (intro exI [of _ "ds @ es"]) auto
qed

lemma waits_mono: "waits h s s' m \<Longrightarrow> m \<le> n \<Longrightarrow> waits h s s' n"
  by (auto simp: waits_def)

lemma attempts_session:
  assumes "attempts h u i n b err s = (r, s')" and "b = kh_delay h \<or> b \<le> kh_maxDelay h"
  shows "ss_marked s' = ss_marked s \<and> waits h s s' n"
  using assms
proof (induction n arbitrary: i b err s)
  case 0
  then show ?case by (auto simp: waits_same split: option.splits)
next
  case (Suc n)
  from Suc.prems(1) [unfolded attempts.simps] show ?case
  proof (cases rule: eguard_cases)
    case (panic e)
    then show ?thesis by (auto dest: on_worldD intro: waits_same)
  next
    case (ok x s1)
    then show ?thesis by (auto dest: on_worldD intro: waits_same)
  next
    case (fail e s1)
    note o = on_worldD [OF fail(1)]
    from fail(3) show ?thesis
    proof (cases rule: ebind_cases)
      case (fail e')
      from fail(1) show ?thesis
        by (cases rule: unless_done_cases) (use o in \<open>auto simp: time_After_def intro: waits_same\<close>)
    next
      case (ok y s2)
      from ok(1) have w: "ss_marked s2 = ss_marked s1" "ss_waited s2 = ss_waited s1 @ [b]"
        by (cases rule: unless_done_cases; auto simp: time_After_def)+
      have "waits h s s2 1"
        unfolding waits_def using w(2) o(3) Suc.prems(2) by (intro exI [of _ "[b]"]) auto
      moreover have "ss_marked s' = ss_marked s2 \<and> waits h s2 s' n"
        by (rule Suc.IH [OF ok(2)]) (auto simp: Let_def)
      ultimately show ?thesis using w(1) o(2) waits_trans [of h s s2 1 s' n] by simp
    qed
  qed
qed

lemma sendToDLQ_session: "sendToDLQ h msg reason s = (r, s') \<Longrightarrow> r = Inr () \<and> ss_marked s' = ss_marked s \<and> ss_waited s' = ss_waited s"
  unfolding sendToDLQ_def by (frule on_worldD(1)) (auto simp: logged_run dest: on_worldD(2,3))

text \<open>How one message is consumed.\<close>

lemma consume_message_cases:
  assumes "consume_message h msg s = (r, s')"
  obtains (bad_bytes) e s1 s2 where "on_world (kh_bytesTo h (cm_Value msg)) s = (Inl e, s1)" "\<not> is_panic e"
      "sendToDLQ h msg (''unmarshal error: '' @ kh_Error h e) s1 = (Inr (), s2)" "MarkMessage msg s2 = (r, s')"
    | (invalid) u e s1 s2 where "on_world (kh_bytesTo h (cm_Value msg)) s = (Inr u, s1)" "kh_Check h u = Inl e"
      "sendToDLQ h msg (''validate error: '' @ kh_Error h e) s1 = (Inr (), s2)" "MarkMessage msg s2 = (r, s')"
    | (handled) u s1 s2 where "on_world (kh_bytesTo h (cm_Value msg)) s = (Inr u, s1)" "kh_Check h u = Inr ()"
      "handleUpdate h u s1 = (Inr (), s2)" "MarkMessage msg s2 = (r, s')"
    | (failed) u e s1 s2 s3 where "on_world (kh_bytesTo h (cm_Value msg)) s = (Inr u, s1)" "kh_Check h u = Inr ()"
      "handleUpdate h u s1 = (Inl e, s2)" "\<not> is_panic e"
      "sendToDLQ h msg (''handle update error: '' @ kh_Error h e) s2 = (Inr (), s3)" "MarkMessage msg s3 = (r, s')"
    | (panic_reading) e where "on_world (kh_bytesTo h (cm_Value msg)) s = (Inl e, s')" "is_panic e" "r = Inl e"
    | (panic_handling) u e s1 where "on_world (kh_bytesTo h (cm_Value msg)) s = (Inr u, s1)" "kh_Check h u = Inr ()"
      "handleUpdate h u s1 = (Inl e, s')" "is_panic e" "r = Inl e"
proof -
  have dlq: "r' = Inr ()" if "sendToDLQ h msg x t = (r', t')" for x t r' t' using sendToDLQ_session [OF that] by simp
  obtain rb s1 where b: "on_world (kh_bytesTo h (cm_Value msg)) s = (rb, s1)" by fastforce
  show thesis
  proof (cases rb)
    case (Inl e)
    show thesis
    proof (cases "is_panic e")
      case True
      with assms b Inl show thesis by (intro panic_reading [of e]) (auto simp: consume_message_def)
    next
      case False
      obtain rd s2 where "sendToDLQ h msg (''unmarshal error: '' @ kh_Error h e) s1 = (rd, s2)" by fastforce
      with dlq [OF this] have d: "sendToDLQ h msg (''unmarshal error: '' @ kh_Error h e) s1 = (Inr (), s2)" by simp
      with assms b Inl False show thesis by (intro bad_bytes [of e s1 s2]) (auto simp: consume_message_def)
    qed
  next
    case (Inr u)
    show thesis
    proof (cases "kh_Check h u")
      case (Inl e)
      obtain rd s2 where "sendToDLQ h msg (''validate error: '' @ kh_Error h e) s1 = (rd, s2)" by fastforce
      with dlq [OF this] have d: "sendToDLQ h msg (''validate error: '' @ kh_Error h e) s1 = (Inr (), s2)" by simp
      with assms b Inr Inl show thesis by (intro invalid [of u s1 e s2]) (auto simp: consume_message_def)
    next
      case c: (Inr x)
      obtain rh s2 where hu: "handleUpdate h u s1 = (rh, s2)" by fastforce
      show thesis
      proof (cases rh)
        case ok: (Inr y)
        with assms b Inr c hu show thesis by (intro handled [of u s1 s2]) (auto simp: consume_message_def)
      next
        case (Inl e)
        show thesis
        proof (cases "is_panic e")
          case True
          with assms b Inr c hu Inl show thesis by (intro panic_handling [of u s1 e]) (auto simp: consume_message_def)
        next
          case False
          obtain rd s3 where "sendToDLQ h msg (''handle update error: '' @ kh_Error h e) s2 = (rd, s3)" by fastforce
          with dlq [OF this] have d: "sendToDLQ h msg (''handle update error: '' @ kh_Error h e) s2 = (Inr (), s3)" by simp
          with assms b Inr c hu Inl False show thesis by (intro failed [of u s1 e s2 s3]) (auto simp: consume_message_def)
        qed
      qed
    qed
  qed
qed

lemma handleUpdate_session: "handleUpdate h u s = (r, s') \<Longrightarrow> ss_marked s' = ss_marked s \<and> waits h s s' (nat (kh_retries h))"
  unfolding handleUpdate_def by (erule attempts_session) simp

lemma consume_message_session:
  assumes "consume_message h msg s = (r, s')"
  shows "waits h s s' (nat (kh_retries h))
     \<and> (r = Inr () \<and> ss_marked s' = ss_marked s @ [msg] \<or> (\<exists>e. r = Inl e \<and> is_panic e) \<and> ss_marked s' = ss_marked s)"
  using assms
proof (cases rule: consume_message_cases)
  case (bad_bytes e s1 s2)
  with on_worldD [OF bad_bytes(1)] sendToDLQ_session [OF bad_bytes(3)] show ?thesis
    by (auto simp: MarkMessage_def intro: waits_same)
next
  case (invalid u e s1 s2)
  with on_worldD [OF invalid(1)] sendToDLQ_session [OF invalid(3)] show ?thesis
    by (auto simp: MarkMessage_def intro: waits_same)
next
  case (handled u s1 s2)
  with on_worldD [OF handled(1)] handleUpdate_session [OF handled(3)] show ?thesis
    by (auto simp: MarkMessage_def waits_def)
next
  case (failed u e s1 s2 s3)
  with on_worldD [OF failed(1)] handleUpdate_session [OF failed(3)] sendToDLQ_session [OF failed(5)] show ?thesis
    by (auto simp: MarkMessage_def waits_def)
next
  case (panic_reading e)
  with on_worldD [OF panic_reading(1)] show ?thesis by (auto intro: waits_same)
next
  case (panic_handling u e s1)
  with on_worldD [OF panic_handling(1)] handleUpdate_session [OF panic_handling(3)] show ?thesis
    by (auto simp: waits_def)
qed

subsection \<open>A claim\<close>

lemma ConsumeClaim_session:
  assumes "ConsumeClaim h msgs s = (r, s')"
  shows "\<exists>n \<le> length msgs. ss_marked s' = ss_marked s @ take n msgs \<and> waits h s s' ((n + 1) * nat (kh_retries h))
     \<and> (r = Inr () \<longrightarrow> n = length msgs) \<and> (\<forall>e. r = Inl e \<longrightarrow> is_panic e \<or> e = Sentinel ErrCanceled)"
  using assms
proof (induction msgs arbitrary: s)
  case Nil
  then have "unless_done (eret ()) s = (r, s')" by simp
  then show ?case by (cases rule: unless_done_cases) (auto intro!: waits_same)
next
  case (Cons m ms)
  from Cons.prems [unfolded ConsumeClaim.simps] show ?case
  proof (cases rule: ebind_cases)
    case (fail e)
    from fail(1) show ?thesis
      by (cases rule: unless_done_cases) (use fail(2) in \<open>auto intro!: exI [of _ 0] waits_same\<close>)
  next
    case (ok x s1)
    from ok(1) have s1: "ss_marked s1 = ss_marked s" "ss_waited s1 = ss_waited s"
      by (cases rule: unless_done_cases; auto)+
    from ok(2) show ?thesis
    proof (cases rule: ebind_cases)
      case (fail e)
      from consume_message_session [OF fail(1)] fail(2) s1 show ?thesis
        by (intro exI [of _ 0]) (auto simp: waits_def)
    next
      case (ok x s2)
      from consume_message_session [OF ok(1)] s1
      have m: "ss_marked s2 = ss_marked s @ [m]" "waits h s s2 (nat (kh_retries h))" by (auto simp: waits_def)
      from Cons.IH [OF ok(2)] obtain n where n: "n \<le> length ms" "ss_marked s' = ss_marked s2 @ take n ms"
          "waits h s2 s' ((n + 1) * nat (kh_retries h))"
          "r = Inr () \<longrightarrow> n = length ms" "\<forall>e. r = Inl e \<longrightarrow> is_panic e \<or> e = Sentinel ErrCanceled" by blast
      from waits_trans [OF m(2) n(3)] have "waits h s s' ((Suc n + 1) * nat (kh_retries h))"
        by (rule waits_mono) simp
      then show ?thesis using n m(1) by (intro exI [of _ "Suc n"]) simp
    qed
  qed
qed

text \<open>C20. Consuming a claim marks its messages in their order, each exactly once and none past the one
  where it stopped; it stops before the end only for a cancelled session or a panic. The retries wait at
  most as often as configured per message, each time the configured delay or at most the maximal one.\<close>

theorem ConsumeClaim_marks_in_order:
  assumes "ConsumeClaim h msgs \<lparr>ss_world = w, ss_marked = [], ss_waited = [], ss_ends = ends\<rparr> = (r, s)"
  shows "\<exists>n. ss_marked s = take n msgs \<and> (r = Inr () \<longrightarrow> ss_marked s = msgs)
     \<and> (\<forall>e. r = Inl e \<longrightarrow> is_panic e \<or> e = Sentinel ErrCanceled)
     \<and> length (ss_waited s) \<le> (n + 1) * nat (kh_retries h) \<and> n \<le> length msgs
     \<and> (\<forall>d \<in> set (ss_waited s). d = kh_delay h \<or> d \<le> kh_maxDelay h)"
proof -
  from ConsumeClaim_session [OF assms] obtain n where n: "n \<le> length msgs" "ss_marked s = take n msgs"
      "waits h \<lparr>ss_world = w, ss_marked = [], ss_waited = [], ss_ends = ends\<rparr> s ((n + 1) * nat (kh_retries h))"
      "r = Inr () \<longrightarrow> n = length msgs" "\<forall>e. r = Inl e \<longrightarrow> is_panic e \<or> e = Sentinel ErrCanceled" by auto
  from n(3) have "length (ss_waited s) \<le> (n + 1) * nat (kh_retries h)"
      "\<forall>d \<in> set (ss_waited s). d = kh_delay h \<or> d \<le> kh_maxDelay h" by (simp_all add: waits_def)
  with n show ?thesis by (intro exI [of _ n]) simp
qed

text \<open>A bot's handler that always fails, and a broker that refuses.\<close>

definition failing_handler :: "(unit, processed_update) handler" where
  "failing_handler = bot_NewHandler (\<lambda>u. efail (NewErr ''down'')) (\<lambda>i. efail (NewErr ''no schema'')) (\<lambda>p. p)
     (\<lambda>m. efail (NewErr ''no broker'')) ''dlq'' 100 1000 (\<lambda>n. 100 * 2 ^ n) 5 (\<lambda>e. ''error'')"

definition sample_message :: consumer_message where
  "sample_message = \<lparr>cm_Topic = ''raw'', cm_Partition = 0, cm_Offset = 4, cm_Key = ''1'', cm_Value = [0, 0, 0, 0, 3, 9]\<rparr>"

lemma ConsumeClaim_marks_in_order_witness:
  "\<exists>s. ConsumeClaim failing_handler [sample_message] \<lparr>ss_world = (), ss_marked = [], ss_waited = [], ss_ends = []\<rparr> = (Inr (), s)
     \<and> ss_marked s = [sample_message]"
proof -
  obtain r s where run: "ConsumeClaim failing_handler [sample_message]
      \<lparr>ss_world = (), ss_marked = [], ss_waited = [], ss_ends = []\<rparr> = (r, s)" by fastforce
  have "\<not> isl (fst (ConsumeClaim failing_handler [sample_message]
      \<lparr>ss_world = (), ss_marked = [], ss_waited = [], ss_ends = []\<rparr>))" by code_simp
  with run have "r = Inr ()" by (cases r) auto
  with ConsumeClaim_marks_in_order [OF run] run show ?thesis by blast
qed

subsection \<open>Relations of worlds\<close>

context state_preorder
begin

lemma on_world_keeps: "keeps Q m \<Longrightarrow> on_world m s = (r, s') \<Longrightarrow> Q (ss_world s) (ss_world s')"
  using keepsD on_worldD(1) by metis

lemma unless_done_keeps:
  assumes "unless_done m s = (r, s')" and "\<And>t. ss_world t = ss_world s \<Longrightarrow> m t = (r, s') \<Longrightarrow> Q (ss_world t) (ss_world s')"
  shows "Q (ss_world s) (ss_world s')"
  using assms(1)
proof (cases rule: unless_done_cases)
  case ended
  then show ?thesis by (simp add: Q_refl)
next
  case goes_on
  from assms(2) [OF _ this] show ?thesis by simp
qed

text \<open>When the attempts succeed, one of them did, and the world is the one it left.\<close>

lemma attempts_ok:
  assumes "keeps Q (kh_HandleUpdate h u)" and "attempts h u i n b err s = (r, s')"
  shows "Q (ss_world s) (ss_world s')
     \<and> (r = Inr () \<longrightarrow> n = 0 \<and> err = None \<or> (\<exists>w1. Q (ss_world s) w1 \<and> kh_HandleUpdate h u w1 = (Inr (), ss_world s')))"
  using assms(2)
proof (induction n arbitrary: i b err s)
  case 0
  then show ?case by (auto simp: Q_refl split: option.splits)
next
  case (Suc n)
  from Suc.prems [unfolded attempts.simps] show ?case
  proof (cases rule: eguard_cases)
    case (panic e)
    with on_world_keeps [OF assms(1) panic(1)] show ?thesis by simp
  next
    case (ok x s1)
    with on_world_keeps [OF assms(1) ok(1)] on_worldD(1) [OF ok(1)] show ?thesis by (auto intro: Q_refl)
  next
    case (fail e s1)
    note q1 = on_world_keeps [OF assms(1) fail(1)]
    from fail(3) show ?thesis
    proof (cases rule: ebind_cases)
      case (fail e')
      then have "ss_world s' = ss_world s1"
        by (auto elim!: unless_done_cases simp: time_After_def)
      with q1 fail(2) show ?thesis by simp
    next
      case (ok y s2)
      then have w: "ss_world s2 = ss_world s1" by (auto elim!: unless_done_cases simp: time_After_def)
      from Suc.IH [OF ok(2)] q1 w show ?thesis by (auto intro: Q_trans)
    qed
  qed
qed

lemma consume_message_keeps:
  assumes "\<And>u. keeps Q (kh_HandleUpdate h u)" and "\<And>v. keeps Q (kh_bytesTo h v)" and "\<And>m. keeps Q (kh_SendMessage h m)"
  shows "consume_message h msg s = (r, s') \<Longrightarrow> Q (ss_world s) (ss_world s')"
proof -
  assume run: "consume_message h msg s = (r, s')"
  have dlq: "Q (ss_world t) (ss_world t')" if "sendToDLQ h msg x t = (r', t')" for x t r' t'
  proof -
    have "keeps Q (logged (kh_SendMessage h (dlq_message h msg x)))"
      unfolding logged_def by (intro keeps_ehandle keeps_eret assms(3))
    from on_world_keeps [OF this that [unfolded sendToDLQ_def]] show ?thesis .
  qed
  have hu: "Q (ss_world t) (ss_world t')" if "handleUpdate h u t = (r', t')" for u t r' t'
    using attempts_ok [OF assms(1) that [unfolded handleUpdate_def]] by blast
  have mark: "ss_world t' = ss_world t" if "MarkMessage msg t = (r', t')" for t r' t'
    using that by (auto simp: MarkMessage_def)
  note rd = on_world_keeps [OF assms(2)]
  from run show ?thesis
  proof (cases rule: consume_message_cases)
    case (bad_bytes e s1 s2)
    from Q_trans [OF rd [OF bad_bytes(1)] dlq [OF bad_bytes(3)]] mark [OF bad_bytes(4)] show ?thesis by simp
  next
    case (invalid u e s1 s2)
    from Q_trans [OF rd [OF invalid(1)] dlq [OF invalid(3)]] mark [OF invalid(4)] show ?thesis by simp
  next
    case (handled u s1 s2)
    from Q_trans [OF rd [OF handled(1)] hu [OF handled(3)]] mark [OF handled(4)] show ?thesis by simp
  next
    case (failed u e s1 s2 s3)
    from Q_trans [OF Q_trans [OF rd [OF failed(1)] hu [OF failed(3)]] dlq [OF failed(5)]] mark [OF failed(6)]
    show ?thesis by simp
  next
    case (panic_reading e)
    from rd [OF panic_reading(1)] show ?thesis .
  next
    case (panic_handling u e s1)
    from Q_trans [OF rd [OF panic_handling(1)] hu [OF panic_handling(3)]] show ?thesis .
  qed
qed

end

end
