(* ===== verification/Agent_Props.thy ===== *)
theory Agent_Props
  imports Agent Consumer_Props Outbox_Props Scrapper_Props
begin

text \<open>
  What the agent guarantees: which updates its filters let through, what the processed update is and
  that it reaches the outbox, and that no message of a claim is lost on the way.
\<close>

subsection \<open>Filters\<close>

lemma insert_all_set: "insert_all xs known = set xs \<union> known"
  by (induction xs arbitrary: known) auto

lemma no_word_iff: "no_word excluded ws \<longleftrightarrow> set ws \<inter> excluded = {}"
  by (induction ws) auto

lemma filters_pass_iff: "filters_pass checks u \<longleftrightarrow> (\<forall>check \<in> set checks. check u)"
  by (induction checks) auto

definition accepted :: "agent_config \<Rightarrow> link_update \<Rightarrow> bool" where
  "accepted cfg u \<longleftrightarrow> (ac_AuthorEnabled cfg \<longrightarrow> lu_Author u \<notin> set (ac_AuthorExcluded cfg))
     \<and> (ac_StopWordsEnabled cfg \<longrightarrow> set (Go_Strings.fields (lu_Description u)) \<inter> set (ac_StopWords cfg) = {})
     \<and> (ac_LengthEnabled cfg \<longrightarrow> ac_MinLength cfg < int (length (lu_Description u)))"

lemma buildFilters_accepted: "filters_pass (buildFilters cfg) u \<longleftrightarrow> accepted cfg u"
proof -
  have "set (buildFilters cfg) = (if ac_AuthorEnabled cfg then {Author_Check (NewAuthor (ac_AuthorExcluded cfg))} else {})
      \<union> (if ac_StopWordsEnabled cfg then {Words_Check (NewWords (ac_StopWords cfg))} else {})
      \<union> (if ac_LengthEnabled cfg then {Length_Check (ac_MinLength cfg)} else {})"
    by (simp add: buildFilters_def Let_def)
  then show ?thesis
    by (simp add: filters_pass_iff accepted_def ball_Un Author_Check_def Words_Check_def Length_Check_def
        NewAuthor_def NewWords_def insert_all_set no_word_iff)
qed

subsection \<open>The processed update\<close>

definition cut_update :: "link_update \<Rightarrow> string \<Rightarrow> processed_update" where
  "cut_update u d = \<lparr>pu_URL = lu_URL u, pu_Description = d, pu_Priority = PriorityHigh, pu_TgChatIDs = lu_TgChatIDs u\<rparr>"

definition processed_row :: "string \<Rightarrow> processed_update \<Rightarrow> row_view" where
  "processed_row topic p = (topic, processedUpdate_json p, PENDING, 0)"

text \<open>The descriptions that a transformer may give an update.\<close>

definition described :: "agent_config \<Rightarrow> link_update \<Rightarrow> string \<Rightarrow> bool" where
  "described cfg u d \<longleftrightarrow>
     (if ac_SummarizerEnabled cfg then int (length (lu_Description u)) \<le> ac_Threshold cfg \<longrightarrow> d = lu_Description u
      else truncate_text (lu_Description u) (ac_Threshold cfg) = Some d)"

lemma transform_result:
  assumes "buildTransformer llm cfg u w = (Inr p, w')"
  shows "\<exists>d. p = cut_update u d \<and> described cfg u d"
  using assms
  by (auto simp: buildTransformer_def Summarizer_Transform_def Cutter_Transform_def cut_update_def described_def Let_def
      elim!: ehandle_cases split: if_splits option.splits)

lemma agent_NewApp_cases:
  assumes "agent_NewApp llm cfg = Inr svc"
  obtains outRepo where "outRepo \<in> outbox_repos" and "as_filters svc = buildFilters cfg"
    and "as_transformer svc = buildTransformer llm cfg"
    and "as_sender svc = agent_Notifier_SendUpdate outRepo (ac_ProcessedUpdateTopic cfg)"
proof -
  have "\<exists>outRepo \<in> outbox_repos. svc = \<lparr>as_filters = buildFilters cfg, as_transformer = buildTransformer llm cfg,
      as_sender = agent_Notifier_SendUpdate outRepo (ac_ProcessedUpdateTopic cfg)\<rparr>"
    using assms by (simp add: agent_NewApp_def buildSender_def agent_repos outbox_repos_def split: sum.splits if_splits)
  then show thesis using that by auto
qed

context outbox_queue
begin

lemma send_result:
  assumes wf: "db_wf (w_db w)" and top: "\<not> in_tx w" and run: "agent_Notifier_SendUpdate O' topic p w = (r, w')"
  shows "frame w w'" and "db_links (w_db w') = db_links (w_db w)" and "rest_same (w_db w) (w_db w')"
    and "outbox_view (w_db w') \<in> {outbox_view (w_db w), outbox_view (w_db w) @ [processed_row topic p]}"
    and "r = Inr () \<Longrightarrow> outbox_view (w_db w') = outbox_view (w_db w) @ [processed_row topic p]"
    and "w_faults w = [] \<Longrightarrow> pg_text topic \<Longrightarrow> varchar_ok topic \<Longrightarrow> db_outbox_seq (w_db w) + 1 < 2 ^ 63 \<Longrightarrow> r = Inr ()"
proof -
  obtain rn where add: "or_Add O' topic (processedUpdate_json p) w = (rn, w')" and r: "isl r = isl rn"
    using run by (cases "or_Add O' topic (processedUpdate_json p) w"; cases "fst (or_Add O' topic (processedUpdate_json p) w)")
      (auto simp: agent_Notifier_SendUpdate_def ehandle_def)
  show "frame w w'" by (rule op_frames(1) [OF add])
  note v = insert_outbox_views [of "w_now w div 1000 * 1000" topic "processedUpdate_json p" "w_db w"]
  show "db_links (w_db w') = db_links (w_db w)" "rest_same (w_db w) (w_db w')"
    "outbox_view (w_db w') \<in> {outbox_view (w_db w), outbox_view (w_db w) @ [processed_row topic p]}"
    using Add_once [OF add] v by (auto simp: processed_row_def)
  note rd = ready_top [OF wf top]
  let ?ins = "insert_outbox (w_now w div 1000 * 1000) topic (processedUpdate_json p)"
  show "outbox_view (w_db w') = outbox_view (w_db w) @ [processed_row topic p]" if ok: "r = Inr ()"
  proof -
    obtain x where x: "rn = Inr x" using r ok by (cases rn) auto
    have "ebind ?ins (\<lambda>r. eret (the r)) (w_db w) = (Inr x, w_db w')"
      using implements_okD(2) [OF Add rd] add x by simp
    then obtain y where "?ins (w_db w) = (Inr y, w_db w')" by (auto elim!: ebind_okE)
    from insert_outbox_effect(1) [OF this] show ?thesis by (simp add: processed_row_def)
  qed
  show "r = Inr ()" if nf: "w_faults w = []" and st: "pg_text topic" "varchar_ok topic" "db_outbox_seq (w_db w) + 1 < 2 ^ 63"
  proof (rule ccontr)
    assume "r \<noteq> Inr ()"
    then obtain e where "rn = Inl e" using r by (cases rn; cases r) auto
    then have "or_Add O' topic (processedUpdate_json p) w = (Inl e, w')" using add by simp
    then obtain e' where "ebind ?ins (\<lambda>r. eret (the r)) (w_db w) = (Inl e', w_db w')"
      using implements_errD [OF Add rd] nf by blast
    moreover obtain x d' where "?ins (w_db w) = (Inr x, d')"
      using st by (auto simp: insert_outbox_def next_id_def Let_def)
    ultimately show False by (simp add: ebind_def ehandle_def)
  qed
qed

end

lemma sender_result:
  assumes "outRepo \<in> outbox_repos" and "db_wf (w_db w)" and "\<not> in_tx w"
    and "agent_Notifier_SendUpdate outRepo topic p w = (r, w')"
  shows "frame w w'" and "rest_same (w_db w) (w_db w')"
    and "outbox_view (w_db w') \<in> {outbox_view (w_db w), outbox_view (w_db w) @ [processed_row topic p]}"
    and "r = Inr () \<Longrightarrow> outbox_view (w_db w') = outbox_view (w_db w) @ [processed_row topic p]"
    and "w_faults w = [] \<Longrightarrow> pg_text topic \<Longrightarrow> varchar_ok topic \<Longrightarrow> db_outbox_seq (w_db w) + 1 < 2 ^ 63 \<Longrightarrow> r = Inr ()"
proof -
  consider "outRepo = sql_outbox_repo" | "outRepo = qb_outbox_repo" using assms(1) by (auto simp: outbox_repos_def)
  note c = this
  show "frame w w'" "rest_same (w_db w) (w_db w')"
    "outbox_view (w_db w') \<in> {outbox_view (w_db w), outbox_view (w_db w) @ [processed_row topic p]}"
    by (rule c; use assms in \<open>simp only:\<close>; rule sql_queue.send_result qb_queue.send_result; assumption)+
  show "outbox_view (w_db w') = outbox_view (w_db w) @ [processed_row topic p]" if "r = Inr ()"
    by (rule c; use assms that in \<open>simp only:\<close>; rule sql_queue.send_result qb_queue.send_result; (assumption | simp))
  show "r = Inr ()" if "w_faults w = []" "pg_text topic" "varchar_ok topic" "db_outbox_seq (w_db w) + 1 < 2 ^ 63"
    by (rule c; use assms that in \<open>simp only:\<close>; rule sql_queue.send_result qb_queue.send_result; (assumption | simp))
qed

text \<open>C21. The agent's handling of a raw update with the cutting transformer: an update that a configured
  filter rejects (an excluded author, a stop word among the words of the description, a description that
  is not longer than the minimum) is dropped without a trace; any other is put into the outbox once,
  with its description cut to at most the threshold's number of characters, and on a working connection
  this succeeds. A threshold below 3 panics on a longer description.\<close>

theorem agent_HandleUpdate_outcome:
  assumes "agent_NewApp llm cfg = Inr svc" and "\<not> ac_SummarizerEnabled cfg"
    and "db_wf (w_db w)" and "\<not> in_tx w" and "agent_HandleUpdate svc u w = (r, w')"
  shows "(\<not> accepted cfg u \<longrightarrow> r = Inr () \<and> w' = w)
     \<and> (accepted cfg u \<and> truncate_text (lu_Description u) (ac_Threshold cfg) = None
          \<longrightarrow> w' = w \<and> ac_Threshold cfg < 3 \<and> (\<exists>e. r = Inl e \<and> is_panic e))
     \<and> (\<forall>d. accepted cfg u \<and> truncate_text (lu_Description u) (ac_Threshold cfg) = Some d
          \<longrightarrow> int (length (runes d)) \<le> ac_Threshold cfg \<and> rest_same (w_db w) (w_db w')
            \<and> (let row = processed_row (ac_ProcessedUpdateTopic cfg) (cut_update u d) in
                 (r = Inr () \<longrightarrow> outbox_view (w_db w') = outbox_view (w_db w) @ [row])
               \<and> (r \<noteq> Inr () \<longrightarrow> outbox_view (w_db w') \<in> {outbox_view (w_db w), outbox_view (w_db w) @ [row]})
               \<and> (w_faults w = [] \<and> pg_text (ac_ProcessedUpdateTopic cfg) \<and> varchar_ok (ac_ProcessedUpdateTopic cfg)
                    \<and> db_outbox_seq (w_db w) + 1 < 2 ^ 63 \<longrightarrow> r = Inr ())))"
proof -
  let ?topic = "ac_ProcessedUpdateTopic cfg"
  obtain outRepo where o: "outRepo \<in> outbox_repos" and svc: "as_filters svc = buildFilters cfg"
      "as_transformer svc = buildTransformer llm cfg" "as_sender svc = agent_Notifier_SendUpdate outRepo ?topic"
    using assms(1) by (rule agent_NewApp_cases)
  show ?thesis
  proof (cases "accepted cfg u")
    case False
    then show ?thesis using assms(5) by (simp add: agent_HandleUpdate_def svc buildFilters_accepted)
  next
    case True
    show ?thesis
    proof (cases "truncate_text (lu_Description u) (ac_Threshold cfg)")
      case None
      then have "ac_Threshold cfg < 3" using truncate_text_total [of "ac_Threshold cfg"] by (meson not_le)
      then show ?thesis
        using assms(2,5) None True
        by (auto simp: agent_HandleUpdate_def svc buildFilters_accepted buildTransformer_def Cutter_Transform_def)
    next
      case (Some d)
      have run: "ehandle (agent_Notifier_SendUpdate outRepo ?topic (cut_update u d))
          (\<lambda>e. efail (WrapErr ''error sending update: '' e '''')) (\<lambda>_. eret ()) w = (r, w')"
        using assms(2,5) Some True
        by (auto simp: agent_HandleUpdate_def svc buildFilters_accepted buildTransformer_def Cutter_Transform_def cut_update_def
            split: if_splits)
      obtain rs where s: "agent_Notifier_SendUpdate outRepo ?topic (cut_update u d) w = (rs, w')" and rr: "isl rs = isl r"
        using run by (cases rule: ehandle_cases) auto
      note sr = sender_result [OF o assms(3,4) s]
      have "rs = Inr () \<longleftrightarrow> r = Inr ()" using rr by (cases rs; cases r) auto
      moreover have "int (length (runes d)) \<le> ac_Threshold cfg" by (rule truncate_text_length [OF Some])
      ultimately show ?thesis using True Some sr by (auto simp: Let_def)
    qed
  qed
qed

subsection \<open>No message is lost\<close>

text \<open>
  What the rest of the world does: the registry gives a schema id its codec when it answers, and the
  registry and the model leave the tables and the topics alone.
\<close>

definition serves :: "(int \<Rightarrow> ('w, codec) prog) \<Rightarrow> (int \<rightharpoonup> codec) \<Rightarrow> bool" where
  "serves registry reg \<longleftrightarrow> (\<forall>i w c w'. registry i w = (Inr c, w') \<longrightarrow> reg i = Some c)"

definition apart :: "('a \<Rightarrow> kafka_message list) \<Rightarrow> ('a world_scheme, 'b) prog \<Rightarrow> bool" where
  "apart log m \<longleftrightarrow> (\<forall>w. same_connection w (snd (m w)) \<and> log (world.more (snd (m w))) = log (world.more w))"

definition read_update :: "(int \<rightharpoonup> codec) \<Rightarrow> byte list \<Rightarrow> link_update option" where
  "read_update reg value =
     (case fst (agent_bytesToLinkUpdate (\<lambda>i. case reg i of Some c \<Rightarrow> eret c | None \<Rightarrow> efail (ExtErr ''registry'')) value ()) of
        Inr u \<Rightarrow> Some u | Inl e \<Rightarrow> None)"

lemma read_update_ok:
  assumes "serves registry reg" and "agent_bytesToLinkUpdate registry value w = (Inr u, w')"
  shows "read_update reg value = Some u"
  using assms(2) assms(1)[unfolded serves_def, rule_format]
  by (auto simp: read_update_def agent_bytesToLinkUpdate_def bytesToUpdate_def Let_def ehandle_def
      split: if_splits sum.splits prod.splits)

text \<open>A message is settled when its dead letter is in the topic, a filter rejects its update, or the
  processed update is a row of the outbox.\<close>

definition settled ::
    "agent_config \<Rightarrow> (int \<rightharpoonup> codec) \<Rightarrow> ('a world_scheme, link_update) handler \<Rightarrow> ('a \<Rightarrow> kafka_message list) \<Rightarrow>
     'a world_scheme \<Rightarrow> consumer_message \<Rightarrow> bool" where
  "settled cfg reg h log w msg \<longleftrightarrow>
     (\<exists>reason. dlq_message h msg reason \<in> set (log (world.more w)))
   \<or> (\<exists>u. read_update reg (cm_Value msg) = Some u \<and> agent_Validate u = []
        \<and> (\<not> accepted cfg u
           \<or> (\<exists>d. described cfg u d
                \<and> processed_row (ac_ProcessedUpdateTopic cfg) (cut_update u d) \<in> set (outbox_view (w_db w)))))"

definition grows :: "('a \<Rightarrow> kafka_message list) \<Rightarrow> 'a world_scheme \<Rightarrow> 'a world_scheme \<Rightarrow> bool" where
  "grows log w w' \<longleftrightarrow> (db_wf (w_db w) \<and> \<not> in_tx w \<longrightarrow>
     db_wf (w_db w') \<and> \<not> in_tx w' \<and> set (outbox_view (w_db w)) \<subseteq> set (outbox_view (w_db w'))
     \<and> set (log (world.more w)) \<subseteq> set (log (world.more w')))"

interpretation growth: state_preorder "grows log" for log :: "'a \<Rightarrow> kafka_message list"
  by unfold_locales (auto simp: grows_def)

lemma settled_grows:
  "settled cfg reg h log w msg \<Longrightarrow> grows log w w' \<Longrightarrow> db_wf (w_db w) \<Longrightarrow> \<not> in_tx w \<Longrightarrow> settled cfg reg h log w' msg"
  unfolding settled_def grows_def by blast

lemma apart_grows: "apart log m \<Longrightarrow> keeps (grows log) m"
  by (auto simp: apart_def keeps_def grows_def same_connection_def in_tx_def)

lemma broker_grows: "broker_ok send log \<Longrightarrow> keeps (grows log) (send m)"
proof (rule keepsI)
  fix w r w'
  assume b: "broker_ok send log" and s: "send m w = (r, w')"
  from broker_okD(2) [OF b s] have "set (log (world.more w)) \<subseteq> set (log (world.more w'))" by auto
  with broker_okD(1) [OF b s] show "grows log w w'" by (auto simp: grows_def same_connection_def in_tx_def)
qed

lemma bytesTo_grows:
  assumes "\<And>i. apart log (registry i)"
  shows "keeps (grows log) (agent_bytesToLinkUpdate registry v)"
proof -
  have l: "keeps (grows log) (lift_sum r)" for r :: "goerr + 'b" by (rule keepsI) (simp add: growth.Q_refl)
  show ?thesis
    unfolding agent_bytesToLinkUpdate_def bytesToUpdate_def Let_def
    by (intro growth.keeps_rules l apart_grows assms)
qed

lemma sender_grows:
  assumes "outRepo \<in> outbox_repos"
  shows "keeps (grows log) (agent_Notifier_SendUpdate outRepo topic p)"
proof (rule keepsI)
  fix w :: "'a world_scheme" and r w'
  assume run: "agent_Notifier_SendUpdate outRepo topic p w = (r, w')"
  show "grows log w w'"
  proof (cases "db_wf (w_db w) \<and> \<not> in_tx w")
    case True
    note s = sender_result(1,3) [OF assms _ _ run]
    with True frame_wf [OF s(1)] frame_in_tx [OF s(1)] sql_queue.frame_more [OF s(1)] show ?thesis by (auto simp: grows_def)
  qed (auto simp: grows_def)
qed

lemma transformer_grows:
  assumes "\<And>p. apart log (llm p)"
  shows "keeps (grows log) (buildTransformer llm cfg u)"
proof -
  have "keeps (grows log) (Summarizer_Transform llm t u)" for t
    unfolding Summarizer_Transform_def Let_def by (intro growth.keeps_rules apart_grows assms)
  moreover have "keeps (grows log) (Cutter_Transform t u)" for t
    unfolding Cutter_Transform_def by (intro growth.keeps_rules)
  ultimately show ?thesis by (simp add: buildTransformer_def)
qed

lemma agent_HandleUpdate_grows:
  assumes "agent_NewApp llm cfg = Inr svc" and "\<And>p. apart log (llm p)"
  shows "keeps (grows log) (agent_HandleUpdate svc u)"
proof -
  obtain outRepo where o: "outRepo \<in> outbox_repos" and svc: "as_filters svc = buildFilters cfg"
      "as_transformer svc = buildTransformer llm cfg"
      "as_sender svc = agent_Notifier_SendUpdate outRepo (ac_ProcessedUpdateTopic cfg)"
    using assms(1) by (rule agent_NewApp_cases)
  show ?thesis
    unfolding agent_HandleUpdate_def eguard_def svc
    by (intro growth.keeps_rules transformer_grows [OF assms(2)] sender_grows [OF o])
qed

lemma agent_HandleUpdate_settles:
  assumes app: "agent_NewApp llm cfg = Inr svc" and llm: "\<And>p. apart log (llm p)"
    and w: "db_wf (w_db w)" "\<not> in_tx w" and run: "agent_HandleUpdate svc u w = (Inr (), w')"
  shows "\<not> accepted cfg u \<or> (\<exists>d. described cfg u d
     \<and> processed_row (ac_ProcessedUpdateTopic cfg) (cut_update u d) \<in> set (outbox_view (w_db w')))"
proof (cases "accepted cfg u")
  case True
  obtain outRepo where o: "outRepo \<in> outbox_repos" and svc: "as_filters svc = buildFilters cfg"
      "as_transformer svc = buildTransformer llm cfg"
      "as_sender svc = agent_Notifier_SendUpdate outRepo (ac_ProcessedUpdateTopic cfg)"
    using app by (rule agent_NewApp_cases)
  have run': "eguard (buildTransformer llm cfg u)
      (\<lambda>e. efail (WrapErr ''error transforming update: '' e '''')) (\<lambda>transformed.
      ehandle (agent_Notifier_SendUpdate outRepo (ac_ProcessedUpdateTopic cfg) transformed)
        (\<lambda>e. efail (WrapErr ''error sending update: '' e '''')) (\<lambda>_. eret ())) w = (Inr (), w')"
    using run True by (simp add: agent_HandleUpdate_def svc buildFilters_accepted)
  from run' show ?thesis
  proof (cases rule: eguard_cases)
    case (ok p w1)
    obtain d where d: "p = cut_update u d" "described cfg u d" using transform_result [OF ok(1)] by blast
    have w1: "db_wf (w_db w1)" "\<not> in_tx w1"
      using keepsD [OF transformer_grows [OF llm] ok(1)] w by (auto simp: grows_def)
    obtain v where "agent_Notifier_SendUpdate outRepo (ac_ProcessedUpdateTopic cfg) p w1 = (Inr v, w')"
      using ok(2) by (cases rule: ehandle_cases) auto
    then have "agent_Notifier_SendUpdate outRepo (ac_ProcessedUpdateTopic cfg) p w1 = (Inr (), w')" by simp
    from sender_result(4) [OF o w1 this refl] d show ?thesis by auto
  qed auto
qed simp

text \<open>One message, then a claim.\<close>

definition agent_handler_of ::
    "('a world_scheme, link_update) handler \<Rightarrow> ('a world_scheme) agent_service \<Rightarrow> (int \<Rightarrow> ('a world_scheme, codec) prog) \<Rightarrow> bool" where
  "agent_handler_of h svc registry \<longleftrightarrow> (\<exists>ord send topic delay maxDelay scaled retries Error.
     h = agent_NewHandler (agent_HandleUpdate svc) registry ord send topic delay maxDelay scaled retries Error)"

lemma agent_handler_fields:
  assumes "agent_handler_of h svc registry"
  shows "kh_HandleUpdate h = agent_HandleUpdate svc" and "kh_bytesTo h = agent_bytesToLinkUpdate registry"
    and "kh_Check h u = Inr () \<longleftrightarrow> agent_Validate u = []"
  using assms by (auto simp: agent_handler_of_def agent_NewHandler_def Check_ok_iff)

lemma dead_letter:
  assumes "broker_ok (kh_SendMessage h) log" and "\<And>m v. \<exists>v'. kh_SendMessage h m v = (Inr (), v')"
    and "sendToDLQ h msg reason s = (r, s')"
  shows "dlq_message h msg reason \<in> set (log (world.more (ss_world s')))"
proof -
  obtain v where v: "kh_SendMessage h (dlq_message h msg reason) (ss_world s) = (Inr (), v)" using assms(2) by blast
  have "logged (kh_SendMessage h (dlq_message h msg reason)) (ss_world s) = (r, ss_world s')"
    using on_worldD(1) [OF assms(3) [unfolded sendToDLQ_def]] .
  then have "ss_world s' = v" using v by (simp add: logged_run)
  with broker_okD(3) [OF assms(1) v refl] show ?thesis by simp
qed

lemma consume_message_settles:
  assumes app: "agent_NewApp llm cfg = Inr svc" and h: "agent_handler_of h svc registry" and reg: "serves registry reg"
    and llm: "\<And>p. apart log (llm p)" and reg_apart: "\<And>i. apart log (registry i)"
    and send: "broker_ok (kh_SendMessage h) log" and ack: "\<And>m v. \<exists>v'. kh_SendMessage h m v = (Inr (), v')"
    and pos: "0 < kh_retries h" and w: "db_wf (w_db (ss_world s))" "\<not> in_tx (ss_world s)"
    and run: "consume_message h msg s = (Inr (), s')"
  shows "settled cfg reg h log (ss_world s') msg"
proof -
  note f = agent_handler_fields [OF h]
  have mark: "ss_world t' = ss_world t" if "MarkMessage msg t = (r, t')" for t r t'
    using that by (auto simp: MarkMessage_def)
  from run show ?thesis
  proof (cases rule: consume_message_cases)
    case (bad_bytes e s1 s2)
    from dead_letter [OF send ack bad_bytes(3)] mark [OF bad_bytes(4)] show ?thesis by (auto simp: settled_def)
  next
    case (invalid u e s1 s2)
    from dead_letter [OF send ack invalid(3)] mark [OF invalid(4)] show ?thesis by (auto simp: settled_def)
  next
    case (failed u e s1 s2 s3)
    from dead_letter [OF send ack failed(5)] mark [OF failed(6)] show ?thesis by (auto simp: settled_def)
  next
    case (handled u s1 s2)
    have hu: "keeps (grows log) (kh_HandleUpdate h u)" unfolding f(1) by (rule agent_HandleUpdate_grows [OF app llm])
    have by_: "keeps (grows log) (kh_bytesTo h (cm_Value msg))" unfolding f(2) by (rule bytesTo_grows [OF reg_apart])
    have w1: "db_wf (w_db (ss_world s1))" "\<not> in_tx (ss_world s1)"
      using growth.on_world_keeps [OF by_ handled(1)] w by (auto simp: grows_def)
    obtain v where v: "grows log (ss_world s1) v" "kh_HandleUpdate h u v = (Inr (), ss_world s2)"
      using growth.attempts_ok [OF hu handled(3) [unfolded handleUpdate_def]] pos by auto
    have v1: "db_wf (w_db v)" "\<not> in_tx v" using v(1) w1 by (auto simp: grows_def)
    have "read_update reg (cm_Value msg) = Some u"
      using read_update_ok [OF reg] on_worldD(1) [OF handled(1)] unfolding f(2) by blast
    moreover have "agent_Validate u = []" using handled(2) f(3) by blast
    moreover note agent_HandleUpdate_settles [OF app llm v1 v(2) [unfolded f(1)]]
    ultimately show ?thesis using mark [OF handled(4)] by (auto simp: settled_def)
  qed auto
qed

lemma ConsumeClaim_settles:
  assumes app: "agent_NewApp llm cfg = Inr svc" and h: "agent_handler_of h svc registry" and reg: "serves registry reg"
    and llm: "\<And>p. apart log (llm p)" and reg_apart: "\<And>i. apart log (registry i)"
    and send: "broker_ok (kh_SendMessage h) log" and ack: "\<And>m v. \<exists>v'. kh_SendMessage h m v = (Inr (), v')"
    and pos: "0 < kh_retries h" and w: "db_wf (w_db (ss_world s))" "\<not> in_tx (ss_world s)"
    and run: "ConsumeClaim h msgs s = (r, s')"
  shows "grows log (ss_world s) (ss_world s')
     \<and> (\<exists>new. ss_marked s' = ss_marked s @ new \<and> (\<forall>msg \<in> set new. settled cfg reg h log (ss_world s') msg))"
  using w run
proof (induction msgs arbitrary: s)
  case Nil
  then have "unless_done (eret ()) s = (r, s')" by simp
  then show ?case by (cases rule: unless_done_cases) (auto intro: growth.Q_refl)
next
  case (Cons m ms)
  note f = agent_handler_fields [OF h]
  have step: "grows log (ss_world t) (ss_world t')" if "consume_message h m t = (r', t')" for t r' t'
    by (rule growth.consume_message_keeps [OF _ _ _ that])
      (auto simp: f(1,2) intro: agent_HandleUpdate_grows [OF app llm] bytesTo_grows [OF reg_apart] broker_grows [OF send])
  from Cons.prems(3) [unfolded ConsumeClaim.simps] show ?case
  proof (cases rule: ebind_cases)
    case (fail e)
    from fail(1) show ?thesis by (cases rule: unless_done_cases) (auto intro: growth.Q_refl)
  next
    case (ok x s1)
    from ok(1) have s1: "ss_world s1 = ss_world s" "ss_marked s1 = ss_marked s"
      by (cases rule: unless_done_cases; auto)+
    from ok(2) show ?thesis
    proof (cases rule: ebind_cases)
      case (fail e)
      from consume_message_session [OF fail(1)] step [OF fail(1)] s1 show ?thesis by auto
    next
      case (ok x s2)
      have c: "consume_message h m s1 = (Inr (), s2)" using ok(1) by simp
      have w1: "db_wf (w_db (ss_world s1))" "\<not> in_tx (ss_world s1)" using Cons.prems(1,2) s1 by simp_all
      have g: "grows log (ss_world s) (ss_world s2)" using step [OF c] s1 by simp
      have w2: "db_wf (w_db (ss_world s2))" "\<not> in_tx (ss_world s2)" using g Cons.prems(1,2) by (auto simp: grows_def)
      have st: "settled cfg reg h log (ss_world s2) m"
        by (rule consume_message_settles [OF app h reg llm reg_apart send ack pos w1 c])
      have mk: "ss_marked s2 = ss_marked s @ [m]" using consume_message_session [OF c] s1 by simp
      from Cons.IH [OF w2 ok(2)] obtain new where g2: "grows log (ss_world s2) (ss_world s')"
          and n: "ss_marked s' = ss_marked s2 @ new" "\<forall>msg \<in> set new. settled cfg reg h log (ss_world s') msg" by blast
      have "settled cfg reg h log (ss_world s') m" by (rule settled_grows [OF st g2 w2])
      with n mk growth.Q_trans [OF g g2] show ?thesis by (intro conjI exI [of _ "m # new"]) auto
    qed
  qed
qed

text \<open>C22. The agent loses no message. Whatever the connection to the database loses, however the model and
  the schema registry fail and wherever the claim stops: once a message of the raw topic is marked, its
  dead letter is in the dead letter topic, or its update is one that the filters reject, or the processed
  update is a row of the outbox. This rests on a broker that accepts the dead letters and on at least one
  configured attempt.\<close>

theorem agent_loses_nothing:
  assumes "agent_NewApp llm cfg = Inr svc" and "agent_handler_of h svc registry" and "serves registry reg"
    and "\<And>p. apart log (llm p)" and "\<And>i. apart log (registry i)"
    and "broker_ok (kh_SendMessage h) log" and "\<And>m v. \<exists>v'. kh_SendMessage h m v = (Inr (), v')"
    and "0 < kh_retries h" and "db_wf (w_db w)" and "\<not> in_tx w"
    and "agent_ConsumeClaim h msgs \<lparr>ss_world = w, ss_marked = [], ss_waited = [], ss_ends = ends\<rparr> = (r, s)"
  shows "\<forall>msg \<in> set (ss_marked s). settled cfg reg h log (ss_world s) msg"
  using ConsumeClaim_settles [OF assms(1-8) _ _ assms(11) [unfolded agent_ConsumeClaim_def]] assms(9,10) by auto

subsection \<open>Runs\<close>

definition sample_agent :: agent_config where
  "sample_agent = \<lparr>ac_AuthorEnabled = True, ac_AuthorExcluded = [''bot''], ac_StopWordsEnabled = True,
     ac_StopWords = [''spam''], ac_LengthEnabled = True, ac_MinLength = 3, ac_SummarizerEnabled = False, ac_Threshold = 6,
     ac_AccessType = ''SQL'', ac_ProcessedUpdateTopic = ''processed''\<rparr>"

type_synonym agent_world = "kafka_message list world_scheme"

definition no_llm :: "string \<Rightarrow> (agent_world, string) prog" where
  "no_llm p = efail (NewErr ''no model'')"

definition sample_agent_service :: "agent_world agent_service" where
  "sample_agent_service = \<lparr>as_filters = buildFilters sample_agent, as_transformer = buildTransformer no_llm sample_agent,
     as_sender = agent_Notifier_SendUpdate agent_sql_outbox_repo ''processed''\<rparr>"

lemma sample_agent_app: "agent_NewApp no_llm sample_agent = Inr sample_agent_service"
  by (simp add: agent_NewApp_def buildSender_def sample_agent_service_def sample_agent_def)

definition sample_registry :: "int \<Rightarrow> (agent_world, codec) prog" where
  "sample_registry i = (if i = 3 then eret (codec_for sample_native) else efail (NewErr ''no schema''))"

definition sample_agent_handler :: "(agent_world, link_update) handler" where
  "sample_agent_handler = agent_NewHandler (agent_HandleUpdate sample_agent_service) sample_registry (\<lambda>p. p) sample_broker ''dlq''
     100 1000 (\<lambda>n. 100 * 2 ^ n) 5 (\<lambda>e. ''error'')"

definition agent_start :: agent_world where
  "agent_start = world.extend (sample_world empty_db []) []"

definition raw_message :: consumer_message where
  "raw_message = \<lparr>cm_Topic = ''raw'', cm_Partition = 0, cm_Offset = 4, cm_Key = ''1'', cm_Value = [0, 0, 0, 0, 3, 1]\<rparr>"

lemma agent_start_facts: "db_wf (w_db agent_start)" "\<not> in_tx agent_start" "w_faults agent_start = []" "w_db agent_start = empty_db"
  by (simp_all add: agent_start_def sample_world_def world.defs in_tx_def) (simp add: db_wf_def db_wf_defs empty_db_def)

lemma sample_claim_ok:
  "\<not> isl (fst (ConsumeClaim sample_agent_handler [raw_message]
     \<lparr>ss_world = agent_start, ss_marked = [], ss_waited = [], ss_ends = []\<rparr>))"
  by code_simp

lemma agent_loses_nothing_witness:
  "\<exists>s. agent_ConsumeClaim sample_agent_handler [raw_message]
       \<lparr>ss_world = agent_start, ss_marked = [], ss_waited = [], ss_ends = []\<rparr> = (Inr (), s)
     \<and> ss_marked s = [raw_message]
     \<and> settled sample_agent [3 \<mapsto> codec_for sample_native] sample_agent_handler (\<lambda>l. l) (ss_world s) raw_message"
proof -
  let ?s0 = "\<lparr>ss_world = agent_start, ss_marked = [], ss_waited = [], ss_ends = []\<rparr>"
  obtain r s where run: "agent_ConsumeClaim sample_agent_handler [raw_message] ?s0 = (r, s)" by fastforce
  have r: "r = Inr ()" using sample_claim_ok run by (cases r) (auto simp: agent_ConsumeClaim_def)
  have m: "ss_marked s = [raw_message]"
    using ConsumeClaim_session [OF run [unfolded agent_ConsumeClaim_def]] r by auto
  have "\<forall>msg \<in> set (ss_marked s). settled sample_agent [3 \<mapsto> codec_for sample_native] sample_agent_handler (\<lambda>l. l) (ss_world s) msg"
  proof (rule agent_loses_nothing [OF sample_agent_app _ _ _ _ _ _ _ agent_start_facts(1,2) run])
    show "agent_handler_of sample_agent_handler sample_agent_service sample_registry"
      unfolding agent_handler_of_def sample_agent_handler_def by (intro exI) (rule refl)
    show "serves sample_registry [3 \<mapsto> codec_for sample_native]" by (auto simp: serves_def sample_registry_def)
    show "apart (\<lambda>l. l) (no_llm p)" for p by (simp add: apart_def no_llm_def same_connection_def)
    show "apart (\<lambda>l. l) (sample_registry i)" for i by (simp add: apart_def sample_registry_def same_connection_def)
    have send: "kh_SendMessage sample_agent_handler = sample_broker" by (simp add: sample_agent_handler_def agent_NewHandler_def)
    show "broker_ok (kh_SendMessage sample_agent_handler) (\<lambda>l. l)" unfolding send by (rule sample_broker_ok)
    show "\<exists>v'. kh_SendMessage sample_agent_handler m v = (Inr (), v')" for m v by (simp add: send sample_broker_def)
    show "0 < kh_retries sample_agent_handler" by (simp add: sample_agent_handler_def agent_NewHandler_def)
  qed
  with m r run show ?thesis by simp
qed

lemma agent_HandleUpdate_outcome_witness:
  "\<exists>w'. agent_HandleUpdate sample_agent_service sample_update agent_start = (Inr (), w')
     \<and> outbox_view (w_db w') = [processed_row ''processed'' (cut_update sample_update ''New...'')]"
proof -
  obtain r w' where run: "agent_HandleUpdate sample_agent_service sample_update agent_start = (r, w')" by fastforce
  have n: "\<not> ac_SummarizerEnabled sample_agent" by (simp add: sample_agent_def)
  have a: "accepted sample_agent sample_update" by code_simp
  have t: "truncate_text (lu_Description sample_update) (ac_Threshold sample_agent) = Some ''New...''" by code_simp
  have p: "pg_text (ac_ProcessedUpdateTopic sample_agent)" "varchar_ok (ac_ProcessedUpdateTopic sample_agent)" by code_simp+
  have q: "db_outbox_seq (w_db agent_start) + 1 < 2 ^ 63" "outbox_view (w_db agent_start) = []"
    by (simp_all add: agent_start_facts empty_db_def outbox_view_def)
  have topic: "ac_ProcessedUpdateTopic sample_agent = ''processed''" by (simp add: sample_agent_def)
  from agent_HandleUpdate_outcome [OF sample_agent_app n agent_start_facts(1,2) run] a t p q agent_start_facts(3)
  have "r = Inr ()" "outbox_view (w_db w') = [processed_row ''processed'' (cut_update sample_update ''New...'')]"
    unfolding Let_def topic by auto
  with run show ?thesis by simp
qed

end
