(* ===== verification/Http_Api.thy ===== *)
theory Http_Api
  imports Subscription_Service Fetchers
begin

text \<open>
  The HTTP interface of the scrapper (\<open>scrapper/infrastructure/adapter/in/server/http\<close>) and the bot's
  client of it (\<open>bot/infrastructure/adapter/out/scrapper/http/client.go\<close>). The interface that both
  implement, the scrapper's \<open>SubscriptionService\<close> and the bot's \<open>Scrapper\<close>, is one record.
\<close>

record 'w link_api =
  la_RegisterChat :: "i64 \<Rightarrow> ('w, unit) prog"
  la_DeleteChat :: "i64 \<Rightarrow> ('w, unit) prog"
  la_GetTrackedLinks :: "i64 \<Rightarrow> ('w, tracked_link list) prog"
  la_AddLink :: "i64 \<Rightarrow> string \<Rightarrow> string list \<Rightarrow> ('w, tracked_link) prog"
  la_RemoveLink :: "i64 \<Rightarrow> string \<Rightarrow> ('w, tracked_link) prog"

definition service_api :: "'a world_scheme service \<Rightarrow> 'a world_scheme link_api" where
  "service_api svc = \<lparr>la_RegisterChat = RegisterChat svc, la_DeleteChat = DeleteChat svc,
     la_GetTrackedLinks = GetTrackedLinks svc, la_AddLink = AddLink svc, la_RemoveLink = RemoveLink svc\<rparr>"

subsection \<open>Requests as the server sees them\<close>

text \<open>The path is its segments after the host; reading the body may fail.\<close>

record server_request =
  sq_method :: string
  sq_path :: "string list"
  sq_header :: "(string \<times> string) list"
  sq_body :: "goerr + json option"

definition Header_Get :: "(string \<times> string) list \<Rightarrow> string \<Rightarrow> string" where
  "Header_Get hs k = (case map_of hs k of None \<Rightarrow> '''' | Some v \<Rightarrow> v)"

type_synonym 'w http_handler = "server_request \<Rightarrow> ('w, http_response) prog"

subsection \<open>The handlers\<close>

text \<open>\<open>hd_Error\<close> gives the text of an error, which goes into the stack trace of a reply.\<close>

record 'w api_handler =
  hd_service :: "'w link_api"
  hd_Error :: "goerr \<Rightarrow> string"

definition getChatIDFromHeader :: "server_request \<Rightarrow> goerr + i64" where
  "getChatIDFromHeader request =
     (let chatIdStr = Header_Get (sq_header request) ''Tg-Chat-Id'' in
      if chatIdStr = '''' then Inl (NewErr ''Tg-Chat-Id header is missing'') else parse_int chatIdStr)"

text \<open>\<open>PathValue(''id'')\<close> of the pattern \<open>/tg-chat/{id}\<close>.\<close>

definition path_id :: "server_request \<Rightarrow> string" where
  "path_id request = (case sq_path request of [a, b] \<Rightarrow> b | _ \<Rightarrow> '''')"

definition getChatIdFromPath :: "server_request \<Rightarrow> goerr + i64" where
  "getChatIdFromPath request =
     (if path_id request = '''' then Inl (NewErr ''id path param is missing'') else parse_int (path_id request))"

definition writeError ::
    "'w api_handler \<Rightarrow> nat \<Rightarrow> string \<Rightarrow> string \<Rightarrow> string \<Rightarrow> string \<Rightarrow> goerr \<Rightarrow> ('w, http_response) prog" where
  "writeError h status desc code excName excMessage err =
     eret \<lparr>rs_status = status, rs_body = Some (JObj
       [(''description'', enc_str desc), (''code'', enc_str code), (''exceptionName'', enc_str excName),
        (''exceptionMessage'', enc_str excMessage), (''stacktrace'', enc_list enc_str [hd_Error h err])])\<rparr>"

definition linkResponse_json :: "tracked_link \<Rightarrow> json" where
  "linkResponse_json link = JObj
     [(''id'', enc_i64 (tl_ID link)), (''url'', enc_str (tl_URL link)), (''tags'', enc_list enc_str (tl_Tags link))]"

definition ok_empty :: http_response where
  "ok_empty = \<lparr>rs_status = 200, rs_body = None\<rparr>"

definition ok_json :: "json \<Rightarrow> http_response" where
  "ok_json j = \<lparr>rs_status = 200, rs_body = Some j\<rparr>"

definition HandlePostTgChat :: "'w api_handler \<Rightarrow> 'w http_handler" where
  "HandlePostTgChat h request =
     ehandle (lift_sum (getChatIdFromPath request))
       (\<lambda>err. writeError h 400 ''Error while parsing chat id as integer'' ''bad_request'' ''bad_query_request_exception''
          ''Could not parse chat id'' err) (\<lambda>chatId.
     ehandle (la_RegisterChat (hd_service h) chatId)
       (\<lambda>err. if errors_is S_ErrChatAlreadyRegistered err
          then writeError h 409 ''Chat already registered'' ''conflict'' ''bad_request_exception''
            (''Chat with id '' @ format_i64 chatId @ '' already registered'') err
          else writeError h 500 ''Error while saving chat'' ''internal_server_error'' ''save_tgchat_exception''
            (''Could not save chat with id: '' @ format_i64 chatId) err)
       (\<lambda>_. eret ok_empty))"

definition HandleDeleteTgChat :: "'w api_handler \<Rightarrow> 'w http_handler" where
  "HandleDeleteTgChat h request =
     ehandle (lift_sum (getChatIdFromPath request))
       (\<lambda>err. writeError h 400 ''Error while parsing chat id as integer'' ''bad_request'' ''bad_query_request_exception''
          ''Could not parse chat id as integer'' err) (\<lambda>chatId.
     ehandle (la_DeleteChat (hd_service h) chatId)
       (\<lambda>err. if errors_is S_ErrChatNotRegistered err
          then writeError h 404 ''Chat not registered'' ''not_found'' ''bad_request_exception''
            (''Chat with id '' @ format_i64 chatId @ '' not registered'') err
          else writeError h 500 ''Error while deleting chat'' ''internal_server_error'' ''delete_tgchat_exception''
            (''Could not delete chat with id: '' @ format_i64 chatId) err)
       (\<lambda>_. eret ok_empty))"

definition HandleGetLinks :: "'w api_handler \<Rightarrow> 'w http_handler" where
  "HandleGetLinks h request =
     ehandle (lift_sum (getChatIDFromHeader request))
       (\<lambda>err. writeError h 400 ''Error while parsing chat id as integer'' ''bad_request'' ''bad_query_request_exception''
          ''Could not parse chat id as integer'' err) (\<lambda>chatId.
     ehandle (la_GetTrackedLinks (hd_service h) chatId)
       (\<lambda>err. if errors_is S_ErrChatNotRegistered err
          then writeError h 404 ''Chat not registered'' ''not_found'' ''bad_request_exception''
            (''Chat with id '' @ format_i64 chatId @ '' not registered'') err
          else writeError h 500 ''Error while getting links'' ''internal_server_error'' ''get_links_exception''
            (''Could not get links, tracked in chat wuth id '' @ format_i64 chatId) err)
       (\<lambda>links. eret (ok_json (JObj
          [(''links'', enc_list linkResponse_json links),
           (''size'', JInt (sint (of_nat (length links) :: 32 word)))]))))"

record link_request =
  lq_Link :: string
  lq_Tags :: "string list"

definition dec_addLinkRequest :: "link_request decoder" where
  "dec_addLinkRequest = dec_struct (\<lambda>ms old.
     sbind (dec_field ''link'' dec_str ms (lq_Link old)) (\<lambda>l.
     sbind (dec_field ''tags'' (dec_list dec_str '''') ms (lq_Tags old)) (\<lambda>ts.
     Inr \<lparr>lq_Link = l, lq_Tags = ts\<rparr>)))"

definition dec_removeLinkRequest :: "string decoder" where
  "dec_removeLinkRequest = dec_struct (dec_field ''link'' dec_str)"

definition HandlePostLinks :: "'w api_handler \<Rightarrow> 'w http_handler" where
  "HandlePostLinks h request =
     ehandle (lift_sum (getChatIDFromHeader request))
       (\<lambda>err. writeError h 400 ''Error while parsing chat id as integer'' ''bad_request'' ''bad_query_request_exception''
          ''Could not parse chat id as integer'' err) (\<lambda>chatId.
     ehandle (lift_sum (sq_body request))
       (\<lambda>err. writeError h 500 ''Error while reading request body'' ''internal_server_error'' ''read_request_body_exception''
          ''Error reading request body'' err) (\<lambda>body.
     ehandle (lift_sum (unmarshal dec_addLinkRequest \<lparr>lq_Link = '''', lq_Tags = []\<rparr> body))
       (\<lambda>err. writeError h 400 ''Error unmarshalling request body'' ''bad_request'' ''bad_request_body_exception''
          ''Could not unmarshal request body'' err) (\<lambda>reqJson.
     ehandle (la_AddLink (hd_service h) chatId (lq_Link reqJson) (lq_Tags reqJson))
       (\<lambda>err. if errors_is S_ErrChatNotRegistered err
          then writeError h 404 ''Chat not registered'' ''not_found'' ''chat_not_registered_exception''
            (''Chat '' @ format_i64 chatId @ '' not registered yet'') err
          else if errors_is S_ErrAlreadySubscribed err
          then writeError h 409 ''Link already tracked'' ''conflict'' ''link_conflict_exception''
            (''Link '' @ lq_Link reqJson @ '' already tracked'') err
          else if errors_is S_ErrURLNotSupported err
          then writeError h 422 ''Link not supported'' ''unprocessable_entity'' ''link_not_supported''
            (''Link '' @ lq_Link reqJson @ '' not yet supported'') err
          else writeError h 500 ''Error while adding link'' ''internal_server_error'' ''add_link_exception''
            (''Could not add link '' @ lq_Link reqJson @ '' to chat '' @ format_i64 chatId) err)
       (\<lambda>link. eret (ok_json (linkResponse_json link))))))"

definition HandleDeleteLinks :: "'w api_handler \<Rightarrow> 'w http_handler" where
  "HandleDeleteLinks h request =
     ehandle (lift_sum (getChatIDFromHeader request))
       (\<lambda>err. writeError h 400 ''Error while parsing chat id as integer'' ''bad_request'' ''bad_query_request_exception''
          ''Could not parse chat id as integer'' err) (\<lambda>chatId.
     ehandle (lift_sum (sq_body request))
       (\<lambda>err. writeError h 500 ''Error while reading request body'' ''internal_server_error'' ''read_request_body_exception''
          ''Error reading request body'' err) (\<lambda>body.
     ehandle (lift_sum (unmarshal dec_removeLinkRequest '''' body))
       (\<lambda>err. writeError h 400 ''Error unmarshalling request body'' ''bad_request'' ''bad_request_body_exception''
          ''Could not unmarshal request body'' err) (\<lambda>url.
     ehandle (la_RemoveLink (hd_service h) chatId url)
       (\<lambda>err. if errors_is S_ErrChatNotRegistered err
          then writeError h 404 ''Chat not registered'' ''not_found'' ''chat_not_registered_exception''
            (''Chat '' @ format_i64 chatId @ '' not registered yet'') err
          else if errors_is S_ErrNotSubscribed err \<or> errors_is S_ErrLinkNotFound err
          then writeError h 404 ''Link not tracked'' ''not_found'' ''link_not_tracked_exception''
            (''Link '' @ url @ '' not tracked'') err
          else writeError h 500 ''Error while deleting link'' ''internal_server_error'' ''delete_link_exception''
            (''Could not delete link '' @ url @ '' in chat '' @ format_i64 chatId) err)
       (\<lambda>link. eret (ok_json (linkResponse_json link))))))"

text \<open>The routes of \<open>NewServer\<close>; \<open>mw\<close> is the middleware around every handler. A path with other
  methods only is answered 405, any other path 404.\<close>

definition plain_status :: "nat \<Rightarrow> ('w, http_response) prog" where
  "plain_status n = eret \<lparr>rs_status = n, rs_body = None\<rparr>"

definition api_mux :: "('w http_handler \<Rightarrow> 'w http_handler) \<Rightarrow> 'w api_handler \<Rightarrow> 'w http_handler" where
  "api_mux mw h request =
     (case sq_path request of
        [a, b] \<Rightarrow>
          if a = ''tg-chat'' \<and> b \<noteq> '''' then
            (if sq_method request = ''POST'' then mw (HandlePostTgChat h) request
             else if sq_method request = ''DELETE'' then mw (HandleDeleteTgChat h) request
             else plain_status 405)
          else plain_status 404
      | [a] \<Rightarrow>
          if a = ''links'' then
            (if sq_method request \<in> {''GET'', ''HEAD''} then mw (HandleGetLinks h) request
             else if sq_method request = ''POST'' then mw (HandlePostLinks h) request
             else if sq_method request = ''DELETE'' then mw (HandleDeleteLinks h) request
             else plain_status 405)
          else plain_status 404
      | _ \<Rightarrow> plain_status 404)"

subsection \<open>The bot's client\<close>

record 'w scrapper_client =
  sl_Do :: "'w http_do"
  sl_baseURL :: string

definition tgChatEndpoint :: string where "tgChatEndpoint = ''tg-chat''"
definition linksEndpoint :: string where "linksEndpoint = ''links''"

definition unexpected_status :: "nat \<Rightarrow> goerr" where
  "unexpected_status n = NewErr (''scrapper api returned unexpected status: '' @ show_nat n)"

definition chat_header :: "i64 \<Rightarrow> string \<times> string" where
  "chat_header chatId = (''Tg-Chat-Id'', format_i64 chatId)"

definition json_header :: "string \<times> string" where
  "json_header = (''Content-Type'', ''application/json'')"

definition client_RegisterChat :: "'w scrapper_client \<Rightarrow> i64 \<Rightarrow> ('w, unit) prog" where
  "client_RegisterChat client chatId =
     ehandle (sl_Do client \<lparr>rq_method = ''POST'',
         rq_url = sl_baseURL client @ ''/'' @ tgChatEndpoint @ ''/'' @ format_i64 chatId, rq_header = [], rq_body = None\<rparr>)
       (\<lambda>e. efail (timed_out ''register chat timed out: '' ''failed to send request to scrapper: '' e)) (\<lambda>resp.
     if rs_status resp \<noteq> 200
     then (if rs_status resp = 409 then efail (Sentinel B_ErrChatAlreadyRegistered)
           else efail (unexpected_status (rs_status resp)))
     else eret ())"

definition client_DeleteChat :: "'w scrapper_client \<Rightarrow> i64 \<Rightarrow> ('w, unit) prog" where
  "client_DeleteChat client chatId =
     ehandle (sl_Do client \<lparr>rq_method = ''DELETE'',
         rq_url = sl_baseURL client @ ''/'' @ tgChatEndpoint @ ''/'' @ format_i64 chatId, rq_header = [], rq_body = None\<rparr>)
       (\<lambda>e. efail (timed_out ''delete chat timed out: '' ''failed to send request to scrapper: '' e)) (\<lambda>resp.
     if rs_status resp \<noteq> 200
     then (if rs_status resp = 404 then efail (Sentinel B_ErrChatNotRegistered)
           else efail (unexpected_status (rs_status resp)))
     else eret ())"

definition zero_link :: tracked_link where
  "zero_link = \<lparr>tl_ID = 0, tl_URL = '''', tl_Tags = []\<rparr>"

definition dec_linkJson :: "tracked_link decoder" where
  "dec_linkJson = dec_struct (\<lambda>ms old.
     sbind (dec_field ''id'' dec_i64 ms (tl_ID old)) (\<lambda>i.
     sbind (dec_field ''url'' dec_str ms (tl_URL old)) (\<lambda>u.
     sbind (dec_field ''tags'' (dec_list dec_str '''') ms (tl_Tags old)) (\<lambda>ts.
     Inr \<lparr>tl_ID = i, tl_URL = u, tl_Tags = ts\<rparr>))))"

fun dec_i32 :: "int decoder" where
  "dec_i32 JNull old = Inr old"
| "dec_i32 (JInt n) old = (if - (2 ^ 31) \<le> n \<and> n < 2 ^ 31 then Inr n else Inl type_error)"
| "dec_i32 _ old = Inl type_error"

definition dec_linksJson :: "(tracked_link list \<times> int) decoder" where
  "dec_linksJson = dec_struct (\<lambda>ms old.
     sbind (dec_field ''links'' (dec_list dec_linkJson zero_link) ms (fst old)) (\<lambda>ls.
     sbind (dec_field ''size'' dec_i32 ms (snd old)) (\<lambda>n.
     Inr (ls, n))))"

definition client_GetTrackedLinks :: "'w scrapper_client \<Rightarrow> i64 \<Rightarrow> ('w, tracked_link list) prog" where
  "client_GetTrackedLinks client chatId =
     ehandle (sl_Do client \<lparr>rq_method = ''GET'', rq_url = sl_baseURL client @ ''/'' @ linksEndpoint,
         rq_header = [chat_header chatId], rq_body = None\<rparr>)
       (\<lambda>e. efail (timed_out ''get tracked links timed out: '' ''failed to send request to scrapper: '' e)) (\<lambda>resp.
     if rs_status resp \<noteq> 200
     then (if rs_status resp = 404 then efail (Sentinel B_ErrChatNotRegistered)
           else efail (unexpected_status (rs_status resp)))
     else
       ehandle (lift_sum (unmarshal dec_linksJson ([], 0) (rs_body resp)))
         (\<lambda>e. efail (WrapErr ''failed to unmarshal response body: '' e ''''))
         (\<lambda>linksJson. eret (fst linksJson)))"

definition client_AddLink :: "'w scrapper_client \<Rightarrow> i64 \<Rightarrow> string \<Rightarrow> string list \<Rightarrow> ('w, tracked_link) prog" where
  "client_AddLink client chatId url tags =
     ehandle (sl_Do client \<lparr>rq_method = ''POST'', rq_url = sl_baseURL client @ ''/'' @ linksEndpoint,
         rq_header = [chat_header chatId, json_header],
         rq_body = Some (JObj [(''link'', enc_str url), (''tags'', enc_list enc_str tags)])\<rparr>)
       (\<lambda>e. efail (timed_out ''add link timed out: '' ''failed to send request to scrapper: '' e)) (\<lambda>resp.
     if rs_status resp \<noteq> 200
     then (if rs_status resp = 404 then efail (Sentinel B_ErrChatNotRegistered)
           else if rs_status resp = 409 then efail (Sentinel B_ErrAlreadySubscribed)
           else if rs_status resp = 422 then efail (Sentinel B_ErrURLNotSupported)
           else efail (unexpected_status (rs_status resp)))
     else
       ehandle (lift_sum (unmarshal dec_linkJson zero_link (rs_body resp)))
         (\<lambda>e. efail (WrapErr ''failed to unmarshal response body: '' e ''''))
         eret)"

definition client_RemoveLink :: "'w scrapper_client \<Rightarrow> i64 \<Rightarrow> string \<Rightarrow> ('w, tracked_link) prog" where
  "client_RemoveLink client chatId url =
     ehandle (sl_Do client \<lparr>rq_method = ''DELETE'', rq_url = sl_baseURL client @ ''/'' @ linksEndpoint,
         rq_header = [chat_header chatId, json_header],
         rq_body = Some (JObj [(''link'', enc_str url)])\<rparr>)
       (\<lambda>e. efail (timed_out ''remove link timed out: '' ''failed to send request to scrapper: '' e)) (\<lambda>resp.
     if rs_status resp \<noteq> 200
     then (if rs_status resp = 404 then efail (Sentinel B_ErrChatNotRegisteredOrLinkNotFound)
           else efail (unexpected_status (rs_status resp)))
     else
       ehandle (lift_sum (unmarshal dec_linkJson zero_link (rs_body resp)))
         (\<lambda>e. efail (WrapErr ''failed to unmarshal response body: '' e ''''))
         eret)"

definition http_client_api :: "'w scrapper_client \<Rightarrow> 'w link_api" where
  "http_client_api client = \<lparr>la_RegisterChat = client_RegisterChat client, la_DeleteChat = client_DeleteChat client,
     la_GetTrackedLinks = client_GetTrackedLinks client, la_AddLink = client_AddLink client,
     la_RemoveLink = client_RemoveLink client\<rparr>"

subsection \<open>A connection between the two\<close>

text \<open>A request that reaches the server: the path behind the host, its segments unescaped. A request
  without a body has the empty one, which is not JSON.\<close>

definition hex_digit :: "char \<Rightarrow> nat option" where
  "hex_digit c =
     (let n = of_char c :: nat in
      if 48 \<le> n \<and> n \<le> 57 then Some (n - 48)
      else if 65 \<le> n \<and> n \<le> 70 then Some (n - 55)
      else if 97 \<le> n \<and> n \<le> 102 then Some (n - 87) else None)"

fun path_unescape :: "string \<Rightarrow> string option" where
  "path_unescape [] = Some []"
| "path_unescape (c # cs) =
     (if c = CHR ''%'' then
        (case cs of
           a # b # rest \<Rightarrow>
             (case (hex_digit a, hex_digit b) of
                (Some x, Some y) \<Rightarrow> map_option ((#) (char_of (16 * x + y))) (path_unescape rest)
              | _ \<Rightarrow> None)
         | _ \<Rightarrow> None)
      else map_option ((#) c) (path_unescape cs))"

definition arrives :: "string \<Rightarrow> http_request \<Rightarrow> server_request option" where
  "arrives host rq =
     (case split_char (CHR ''/'') (takeWhile (\<lambda>c. c \<noteq> CHR ''?'' \<and> c \<noteq> CHR ''#'') (trim_prefix (rq_url rq) host)) of
        [] # segments \<Rightarrow>
          map_option (\<lambda>path. \<lparr>sq_method = rq_method rq, sq_path = path, sq_header = rq_header rq, sq_body = Inr (rq_body rq)\<rparr>)
            (those (map path_unescape segments))
      | _ \<Rightarrow> None)"

definition connected :: "string \<Rightarrow> 'w http_handler \<Rightarrow> 'w http_do" where
  "connected host server rq =
     (case arrives host rq of None \<Rightarrow> plain_status 400 | Some request \<Rightarrow> server request)"

end
