(* ===== verification/Http_Api_Props.thy ===== *)
theory Http_Api_Props
  imports Http_Api Wire_Props
begin

text \<open>
  The bot's HTTP client over the scrapper's HTTP server is the subscription service itself: same effect,
  same answer, errors translated by a table.
\<close>

subsection \<open>Texts in paths and names of fields\<close>

lemma show_nat_digits: "c \<in> set (show_nat n) \<Longrightarrow> 48 \<le> (of_char c :: nat) \<and> of_char c \<le> (57 :: nat)"
proof (induction n arbitrary: c rule: show_nat.induct)
  case (1 n)
  show ?case
  proof (cases "n < 10")
    case True
    with 1(2) have "c = char_of (48 + n)" by (simp add: show_nat.simps)
    with True show ?thesis by simp
  next
    case False
    with 1(2) consider "c \<in> set (show_nat (n div 10))" | "c = char_of (48 + n mod 10)"
      by (subst (asm) show_nat.simps) auto
    then show ?thesis
    proof cases
      case 1
      then show ?thesis using "1.IH" False by blast
    next
      case 2
      have "48 + n mod 10 < 256" by simp
      with 2 show ?thesis by simp
    qed
  qed
qed

lemma format_i64_chars: "c \<in> set (format_i64 x) \<Longrightarrow> c = CHR ''-'' \<or> 48 \<le> (of_char c :: nat) \<and> of_char c \<le> (57 :: nat)"
  by (auto simp: format_i64_def show_int_def dest: show_nat_digits split: if_splits)

lemma format_i64_plain: "c \<in> {CHR ''/'', CHR ''?'', CHR ''#'', CHR ''%''} \<Longrightarrow> c \<notin> set (format_i64 x)"
  using format_i64_chars by fastforce

lemma path_unescape_plain: "CHR ''%'' \<notin> set s \<Longrightarrow> path_unescape s = Some s"
  by (induction s) auto

lemma takeWhile_plain: "CHR ''?'' \<notin> set s \<Longrightarrow> CHR ''#'' \<notin> set s \<Longrightarrow> takeWhile (\<lambda>c. c \<noteq> CHR ''?'' \<and> c \<noteq> CHR ''#'') s = s"
  by (auto simp: takeWhile_eq_all_conv)

lemma arrives_links:
  "arrives host \<lparr>rq_method = m, rq_url = host @ ''/'' @ linksEndpoint, rq_header = hs, rq_body = b\<rparr>
     = Some \<lparr>sq_method = m, sq_path = [''links''], sq_header = hs, sq_body = Inr b\<rparr>"
  by (simp add: arrives_def linksEndpoint_def)

lemma arrives_chat:
  "arrives host \<lparr>rq_method = m, rq_url = host @ ''/'' @ tgChatEndpoint @ ''/'' @ format_i64 c, rq_header = hs, rq_body = b\<rparr>
     = Some \<lparr>sq_method = m, sq_path = [''tg-chat'', format_i64 c], sq_header = hs, sq_body = Inr b\<rparr>"
proof -
  have "takeWhile (\<lambda>c. c \<noteq> CHR ''?'' \<and> c \<noteq> CHR ''#'') (''/tg-chat/'' @ format_i64 c) = ''/tg-chat/'' @ format_i64 c"
    by (intro takeWhile_plain) (auto simp: format_i64_plain)
  moreover have "split_char (CHR ''/'') (''/tg-chat/'' @ format_i64 c) = [[], ''tg-chat'', format_i64 c]"
    using split_char_piece [of "CHR ''/''" "''tg-chat''" "format_i64 c"] split_char_single [of "CHR ''/''" "format_i64 c"]
    by (simp add: format_i64_plain)
  moreover have "those (map path_unescape [''tg-chat'', format_i64 c]) = Some [''tg-chat'', format_i64 c]"
    using path_unescape_plain [of "''tg-chat''"] path_unescape_plain [of "format_i64 c"] by (simp add: format_i64_plain)
  moreover have "trim_prefix (host @ ''/'' @ tgChatEndpoint @ ''/'' @ format_i64 c) host = ''/tg-chat/'' @ format_i64 c"
    by (simp add: tgChatEndpoint_def)
  ultimately show ?thesis unfolding arrives_def by (simp only: http_request.simps list.case option.map)
qed

lemmas arrivals = arrives_links [simplified append.simps] arrives_chat [simplified append.simps]

lemma fold_link_names [simp]:
  "fold_name ''link'' = map of_char ''link''" "fold_name ''tags'' = map of_char ''tags''"
  "fold_name ''links'' = map of_char ''links''" "fold_name ''size'' = map of_char ''size''"
  by (simp_all add: fold_name_ascii fold_rune_def)

definition link_text :: "tracked_link \<Rightarrow> tracked_link" where
  "link_text l = l\<lparr>tl_URL := valid_text (tl_URL l), tl_Tags := map valid_text (tl_Tags l)\<rparr>"

lemma dec_tags: "dec_list dec_str '''' (enc_list enc_str ts) old = Inr (map valid_text ts)"
  by (rule dec_enc_list) simp

lemma dec_linkResponse: "dec_linkJson (linkResponse_json l) old = Inr (link_text l)"
  by (simp add: dec_linkJson_def linkResponse_json_def dec_struct_def dec_field_def link_text_def dec_tags)

lemma dec_linksResponse:
  "dec_linksJson (JObj [(''links'', enc_list linkResponse_json ls), (''size'', JInt (sint (n :: 32 word)))]) old
     = Inr (map link_text ls, sint n)"
proof -
  have "dec_list dec_linkJson zero_link (enc_list linkResponse_json ls) (fst old) = Inr (map link_text ls)"
    by (rule dec_enc_list) (rule dec_linkResponse)
  moreover have "- (2 ^ 31) \<le> sint n" "sint n < 2 ^ 31" using sint_greater_eq [of n] sint_less [of n] by simp_all
  ultimately show ?thesis by (simp add: dec_linksJson_def dec_struct_def dec_field_def)
qed

subsection \<open>Errors\<close>

text \<open>The first entry of a table that an error is.\<close>

fun translate :: "(sentinel \<times> sentinel) list \<Rightarrow> goerr \<Rightarrow> goerr \<Rightarrow> goerr" where
  "translate [] other e = other"
| "translate ((s, b) # table) other e = (if errors_is s e then Sentinel b else translate table other e)"

definition register_errors :: "(sentinel \<times> sentinel) list" where
  "register_errors = [(S_ErrChatAlreadyRegistered, B_ErrChatAlreadyRegistered)]"

definition chat_errors :: "(sentinel \<times> sentinel) list" where
  "chat_errors = [(S_ErrChatNotRegistered, B_ErrChatNotRegistered)]"

definition add_errors :: "(sentinel \<times> sentinel) list" where
  "add_errors = [(S_ErrChatNotRegistered, B_ErrChatNotRegistered), (S_ErrAlreadySubscribed, B_ErrAlreadySubscribed),
     (S_ErrURLNotSupported, B_ErrURLNotSupported)]"

definition remove_errors :: "(sentinel \<times> sentinel) list" where
  "remove_errors = [(S_ErrChatNotRegistered, B_ErrChatNotRegisteredOrLinkNotFound),
     (S_ErrNotSubscribed, B_ErrChatNotRegisteredOrLinkNotFound), (S_ErrLinkNotFound, B_ErrChatNotRegisteredOrLinkNotFound)]"

definition relayed :: "('a \<Rightarrow> 'b) \<Rightarrow> (sentinel \<times> sentinel) list \<Rightarrow> (goerr \<Rightarrow> goerr) \<Rightarrow> (goerr + 'a) \<times> 'w \<Rightarrow> (goerr + 'b) \<times> 'w" where
  "relayed f table other res =
     (case res of (Inl e, w) \<Rightarrow> (Inl (translate table (other e) e), w) | (Inr x, w) \<Rightarrow> (Inr (f x), w))"

lemmas client_simps =
  connected_def arrives_links arrives_chat arrivals api_mux_def getChatIDFromHeader_def getChatIdFromPath_def path_id_def
  Header_Get_def chat_header_def json_header_def parse_format_i64 writeError_def ok_empty_def ok_json_def relayed_def

text \<open>What a call over a connection is.\<close>

lemma http_relay:
  fixes h :: "'w api_handler" and host :: string
  defines "cl \<equiv> http_client_api \<lparr>sl_Do = connected host (api_mux (\<lambda>f. f) h), sl_baseURL = host\<rparr>"
    and "api \<equiv> hd_service h" and "other \<equiv> \<lambda>e :: goerr. unexpected_status 500"
  shows "la_RegisterChat cl c w = relayed id register_errors other (la_RegisterChat api c w)"
    and "la_DeleteChat cl c w = relayed id chat_errors other (la_DeleteChat api c w)"
    and "la_GetTrackedLinks cl c w = relayed (map link_text) chat_errors other (la_GetTrackedLinks api c w)"
    and "la_AddLink cl c u ts w = relayed link_text add_errors other (la_AddLink api c (valid_text u) (map valid_text ts) w)"
    and "la_RemoveLink cl c u w = relayed link_text remove_errors other (la_RemoveLink api c (valid_text u) w)"
proof -
  show "la_RegisterChat cl c w = relayed id register_errors other (la_RegisterChat api c w)"
    by (auto simp: cl_def api_def other_def http_client_api_def client_RegisterChat_def client_simps HandlePostTgChat_def
        register_errors_def ehandle_def split: sum.splits prod.splits)
  show "la_DeleteChat cl c w = relayed id chat_errors other (la_DeleteChat api c w)"
    by (auto simp: cl_def api_def other_def http_client_api_def client_DeleteChat_def client_simps HandleDeleteTgChat_def
        chat_errors_def ehandle_def split: sum.splits prod.splits)
  show "la_GetTrackedLinks cl c w = relayed (map link_text) chat_errors other (la_GetTrackedLinks api c w)"
    by (auto simp: cl_def api_def other_def http_client_api_def client_GetTrackedLinks_def client_simps HandleGetLinks_def
        chat_errors_def ehandle_def unmarshal_def dec_linksResponse split: sum.splits prod.splits)
  have add: "unmarshal dec_addLinkRequest \<lparr>lq_Link = '''', lq_Tags = []\<rparr>
      (Some (JObj [(''link'', enc_str u), (''tags'', enc_list enc_str ts)])) = Inr \<lparr>lq_Link = valid_text u, lq_Tags = map valid_text ts\<rparr>"
    by (simp add: unmarshal_def dec_addLinkRequest_def dec_struct_def dec_field_def dec_tags)
  show "la_AddLink cl c u ts w = relayed link_text add_errors other (la_AddLink api c (valid_text u) (map valid_text ts) w)"
    by (auto simp: cl_def api_def other_def http_client_api_def client_AddLink_def client_simps HandlePostLinks_def
        add_errors_def ehandle_def add split: sum.splits prod.splits) (auto simp: unmarshal_def dec_linkResponse)
  have rem: "unmarshal dec_removeLinkRequest '''' (Some (JObj [(''link'', enc_str u)])) = Inr (valid_text u)"
    by (simp add: unmarshal_def dec_removeLinkRequest_def dec_struct_def dec_field_def)
  show "la_RemoveLink cl c u w = relayed link_text remove_errors other (la_RemoveLink api c (valid_text u) w)"
    by (auto simp: cl_def api_def other_def http_client_api_def client_RemoveLink_def client_simps HandleDeleteLinks_def
        remove_errors_def ehandle_def rem split: sum.splits prod.splits) (auto simp: unmarshal_def dec_linkResponse)
qed

text \<open>C23. The HTTP interface is transparent. Every call of the bot's client on a connection to the scrapper's
  server has the effect of the same call of the subscription service and returns its value (bytes that
  are not UTF-8 replaced); an error of the service arrives as the bot's error that the table gives, any
  other one as an unexpected status 500.\<close>

theorem http_api_transparent:
  fixes h :: "'w api_handler" and host :: string
  defines "cl \<equiv> http_client_api \<lparr>sl_Do = connected host (api_mux (\<lambda>f. f) h), sl_baseURL = host\<rparr>"
    and "api \<equiv> hd_service h" and "other \<equiv> \<lambda>e :: goerr. unexpected_status 500"
  shows "la_RegisterChat cl c w = relayed id register_errors other (la_RegisterChat api c w)
     \<and> la_DeleteChat cl c w = relayed id chat_errors other (la_DeleteChat api c w)
     \<and> la_GetTrackedLinks cl c w = relayed (map link_text) chat_errors other (la_GetTrackedLinks api c w)
     \<and> la_AddLink cl c u ts w = relayed link_text add_errors other (la_AddLink api c (valid_text u) (map valid_text ts) w)
     \<and> la_RemoveLink cl c u w = relayed link_text remove_errors other (la_RemoveLink api c (valid_text u) w)"
  unfolding assms by (simp add: http_relay)

end
