(* ===== verification/Grpc_Api.thy ===== *)
theory Grpc_Api
  imports Http_Api_Props Scrapper_Props
begin

text \<open>
  The gRPC interface of the scrapper (\<open>scrapper/infrastructure/adapter/in/server/grpc/server.go\<close>) and the
  bot's client of it (\<open>bot/infrastructure/adapter/out/scrapper/grpc/client.go\<close>). A message is the values
  of its fields; the generated stub is the parameter \<open>stub\<close> of the client. A status is its code and
  its text.
\<close>

subsection \<open>The server\<close>

definition NotFound :: nat where "NotFound = 5"
definition AlreadyExists :: nat where "AlreadyExists = 6"
definition Unimplemented :: nat where "Unimplemented = 12"
definition Internal :: nat where "Internal = 13"

definition grpc_RegisterChat :: "'w api_handler \<Rightarrow> i64 \<Rightarrow> ('w, unit) prog" where
  "grpc_RegisterChat server chatId =
     ehandle (la_RegisterChat (hd_service server) chatId)
       (\<lambda>err. if errors_is S_ErrChatAlreadyRegistered err
          then efail (StatusErr AlreadyExists (''chat with id '' @ format_i64 chatId @ '' already registered''))
          else efail (StatusErr Internal (''failed to register chat: '' @ hd_Error server err)))
       (\<lambda>_. eret ())"

definition grpc_DeleteChat :: "'w api_handler \<Rightarrow> i64 \<Rightarrow> ('w, unit) prog" where
  "grpc_DeleteChat server chatId =
     ehandle (la_DeleteChat (hd_service server) chatId)
       (\<lambda>err. if errors_is S_ErrChatNotRegistered err
          then efail (StatusErr NotFound (''chat with id '' @ format_i64 chatId @ '' not registered''))
          else efail (StatusErr Internal (''failed to delete chat: '' @ hd_Error server err)))
       (\<lambda>_. eret ())"

definition grpc_GetLinks :: "'w api_handler \<Rightarrow> i64 \<Rightarrow> ('w, tracked_link list \<times> int) prog" where
  "grpc_GetLinks server chatId =
     ehandle (la_GetTrackedLinks (hd_service server) chatId)
       (\<lambda>err. if errors_is S_ErrChatNotRegistered err
          then efail (StatusErr NotFound (''chat with id '' @ format_i64 chatId @ '' not registered''))
          else efail (StatusErr Internal (''failed to get links: '' @ hd_Error server err)))
       (\<lambda>links. eret (links, sint (of_nat (length links) :: 32 word)))"

definition grpc_AddLink :: "'w api_handler \<Rightarrow> i64 \<Rightarrow> string \<Rightarrow> string list \<Rightarrow> ('w, tracked_link) prog" where
  "grpc_AddLink server chatId linkUrl tags =
     ehandle (la_AddLink (hd_service server) chatId linkUrl tags)
       (\<lambda>err. if errors_is S_ErrChatNotRegistered err
          then efail (StatusErr NotFound (''chat '' @ format_i64 chatId @ '' not registered yet''))
          else if errors_is S_ErrAlreadySubscribed err
          then efail (StatusErr AlreadyExists (''link '' @ linkUrl @ '' already tracked''))
          else if errors_is S_ErrURLNotSupported err
          then efail (StatusErr Unimplemented (''link '' @ linkUrl @ '' not supported''))
          else efail (StatusErr Internal (''failed to add link: '' @ hd_Error server err)))
       eret"

definition grpc_RemoveLink :: "'w api_handler \<Rightarrow> i64 \<Rightarrow> string \<Rightarrow> ('w, tracked_link) prog" where
  "grpc_RemoveLink server chatId linkUrl =
     ehandle (la_RemoveLink (hd_service server) chatId linkUrl)
       (\<lambda>err. if errors_is S_ErrChatNotRegistered err
          then efail (StatusErr NotFound (''chat '' @ format_i64 chatId @ '' not registered''))
          else if errors_is S_ErrNotSubscribed err \<or> errors_is S_ErrLinkNotFound err
          then efail (StatusErr NotFound (''link '' @ linkUrl @ '' not tracked in chat '' @ format_i64 chatId))
          else efail (StatusErr Internal (''failed to remove link: '' @ hd_Error server err)))
       eret"

subsection \<open>The bot's client\<close>

record 'w grpc_stub =
  gs_RegisterChat :: "i64 \<Rightarrow> ('w, unit) prog"
  gs_DeleteChat :: "i64 \<Rightarrow> ('w, unit) prog"
  gs_GetLinks :: "i64 \<Rightarrow> ('w, tracked_link list \<times> int) prog"
  gs_AddLink :: "i64 \<Rightarrow> string \<Rightarrow> string list \<Rightarrow> ('w, tracked_link) prog"
  gs_RemoveLink :: "i64 \<Rightarrow> string \<Rightarrow> ('w, tracked_link) prog"

text \<open>\<open>status.Code\<close>: an error that is no status has the code Unknown.\<close>

fun status_Code :: "goerr \<Rightarrow> nat" where
  "status_Code (StatusErr code text) = code"
| "status_Code e = 2"

definition unexpected_error :: "goerr \<Rightarrow> goerr" where
  "unexpected_error e = WrapErr ''scrapper api returned unexpected error: '' e ''''"

definition gclient_RegisterChat :: "'w grpc_stub \<Rightarrow> i64 \<Rightarrow> ('w, unit) prog" where
  "gclient_RegisterChat stub chatId =
     ehandle (gs_RegisterChat stub chatId)
       (\<lambda>err. if errors_is ErrDeadlineExceeded err then efail (WrapErr ''register chat request timed out: '' err '''')
          else if status_Code err = AlreadyExists then efail (Sentinel B_ErrChatAlreadyRegistered)
          else efail (unexpected_error err))
       (\<lambda>_. eret ())"

definition gclient_DeleteChat :: "'w grpc_stub \<Rightarrow> i64 \<Rightarrow> ('w, unit) prog" where
  "gclient_DeleteChat stub chatId =
     ehandle (gs_DeleteChat stub chatId)
       (\<lambda>err. if errors_is ErrDeadlineExceeded err then efail (WrapErr ''delete chat request timed out: '' err '''')
          else if status_Code err = NotFound then efail (Sentinel B_ErrChatNotRegistered)
          else efail (unexpected_error err))
       (\<lambda>_. eret ())"

definition gclient_GetTrackedLinks :: "'w grpc_stub \<Rightarrow> i64 \<Rightarrow> ('w, tracked_link list) prog" where
  "gclient_GetTrackedLinks stub chatId =
     ehandle (gs_GetLinks stub chatId)
       (\<lambda>err. if errors_is ErrDeadlineExceeded err then efail (WrapErr ''get tracked links timed out: '' err '''')
          else if status_Code err = NotFound then efail (Sentinel B_ErrChatNotRegistered)
          else efail (unexpected_error err))
       (\<lambda>resp. eret (fst resp))"

definition gclient_AddLink :: "'w grpc_stub \<Rightarrow> i64 \<Rightarrow> string \<Rightarrow> string list \<Rightarrow> ('w, tracked_link) prog" where
  "gclient_AddLink stub chatId url tags =
     ehandle (gs_AddLink stub chatId url tags)
       (\<lambda>err. if errors_is ErrDeadlineExceeded err then efail (WrapErr ''add link timed out: '' err '''')
          else if status_Code err = NotFound then efail (Sentinel B_ErrChatNotRegistered)
          else if status_Code err = AlreadyExists then efail (Sentinel B_ErrAlreadySubscribed)
          else if status_Code err = Unimplemented then efail (Sentinel B_ErrURLNotSupported)
          else efail (unexpected_error err))
       eret"

definition gclient_RemoveLink :: "'w grpc_stub \<Rightarrow> i64 \<Rightarrow> string \<Rightarrow> ('w, tracked_link) prog" where
  "gclient_RemoveLink stub chatId url =
     ehandle (gs_RemoveLink stub chatId url)
       (\<lambda>err. if errors_is ErrDeadlineExceeded err then efail (WrapErr ''remove link timed out: '' err '''')
          else if status_Code err = NotFound then efail (Sentinel B_ErrChatNotRegisteredOrLinkNotFound)
          else efail (unexpected_error err))
       eret"

definition grpc_client_api :: "'w grpc_stub \<Rightarrow> 'w link_api" where
  "grpc_client_api stub = \<lparr>la_RegisterChat = gclient_RegisterChat stub, la_DeleteChat = gclient_DeleteChat stub,
     la_GetTrackedLinks = gclient_GetTrackedLinks stub, la_AddLink = gclient_AddLink stub,
     la_RemoveLink = gclient_RemoveLink stub\<rparr>"

subsection \<open>A connection between the two\<close>

text \<open>Protocol buffers refuse to marshal a text that is not UTF-8, on either side.\<close>

definition not_utf8 :: goerr where
  "not_utf8 = StatusErr Internal ''grpc: error while marshaling: string field contains invalid UTF-8''"

definition utf8 :: "string \<Rightarrow> bool" where
  "utf8 s \<longleftrightarrow> valid_text s = s"

definition utf8_link :: "tracked_link \<Rightarrow> bool" where
  "utf8_link l \<longleftrightarrow> utf8 (tl_URL l) \<and> list_all utf8 (tl_Tags l)"

definition marshalled :: "bool \<Rightarrow> ('a \<Rightarrow> bool) \<Rightarrow> ('w, 'a) prog \<Rightarrow> ('w, 'a) prog" where
  "marshalled request_ok response_ok m =
     (if \<not> request_ok then efail not_utf8
      else ebind m (\<lambda>x. if response_ok x then eret x else efail not_utf8))"

definition grpc_connected :: "'w api_handler \<Rightarrow> 'w grpc_stub" where
  "grpc_connected server =
     \<lparr>gs_RegisterChat = grpc_RegisterChat server, gs_DeleteChat = grpc_DeleteChat server,
      gs_GetLinks = (\<lambda>c. marshalled True (\<lambda>r. list_all utf8_link (fst r)) (grpc_GetLinks server c)),
      gs_AddLink = (\<lambda>c u ts. marshalled (utf8 u \<and> list_all utf8 ts) utf8_link (grpc_AddLink server c u ts)),
      gs_RemoveLink = (\<lambda>c u. marshalled (utf8 u) utf8_link (grpc_RemoveLink server c u))\<rparr>"

lemma link_text_utf8: "utf8_link l \<Longrightarrow> link_text l = l"
proof -
  assume "utf8_link l"
  then have "valid_text (tl_URL l) = tl_URL l" "map valid_text (tl_Tags l) = tl_Tags l"
    by (auto simp: utf8_link_def utf8_def list_all_iff intro: map_idI)
  then show ?thesis by (simp add: link_text_def)
qed

lemmas gclient_simps =
  grpc_client_api_def gclient_RegisterChat_def gclient_DeleteChat_def gclient_GetTrackedLinks_def gclient_AddLink_def
  gclient_RemoveLink_def grpc_connected_def grpc_RegisterChat_def grpc_DeleteChat_def grpc_GetLinks_def grpc_AddLink_def
  grpc_RemoveLink_def marshalled_def relayed_def register_errors_def chat_errors_def add_errors_def remove_errors_def
  NotFound_def AlreadyExists_def Unimplemented_def Internal_def

text \<open>C24. The gRPC interface is transparent too, with the same table of errors: on a connection every call
  of the bot's client has the effect and the value of the call of the subscription service, provided the
  texts are UTF-8 (the ones sent and the ones that the service returns); an error outside the table arrives as an unexpected error with the code Internal.\<close>

theorem grpc_api_transparent:
  fixes server :: "'w api_handler"
  assumes "utf8 u" and "list_all utf8 ts"
    and "\<And>ls w'. la_GetTrackedLinks (hd_service server) c w = (Inr ls, w') \<Longrightarrow> list_all utf8_link ls"
    and "\<And>l w'. la_AddLink (hd_service server) c u ts w = (Inr l, w') \<Longrightarrow> utf8_link l"
    and "\<And>l w'. la_RemoveLink (hd_service server) c u w = (Inr l, w') \<Longrightarrow> utf8_link l"
  defines "cl \<equiv> grpc_client_api (grpc_connected server)" and "api \<equiv> hd_service server"
    and "other \<equiv> \<lambda>what e. unexpected_error (StatusErr Internal (what @ hd_Error server e))"
  shows "la_RegisterChat cl c w = relayed id register_errors (other ''failed to register chat: '') (la_RegisterChat api c w)
     \<and> la_DeleteChat cl c w = relayed id chat_errors (other ''failed to delete chat: '') (la_DeleteChat api c w)
     \<and> la_GetTrackedLinks cl c w = relayed id chat_errors (other ''failed to get links: '') (la_GetTrackedLinks api c w)
     \<and> la_AddLink cl c u ts w = relayed id add_errors (other ''failed to add link: '') (la_AddLink api c u ts w)
     \<and> la_RemoveLink cl c u w = relayed id remove_errors (other ''failed to remove link: '') (la_RemoveLink api c u w)"
proof (intro conjI)
  note d = cl_def api_def other_def gclient_simps
  show "la_RegisterChat cl c w = relayed id register_errors (other ''failed to register chat: '') (la_RegisterChat api c w)"
    "la_DeleteChat cl c w = relayed id chat_errors (other ''failed to delete chat: '') (la_DeleteChat api c w)"
    by (cases "la_RegisterChat (hd_service server) c w"; cases "fst (la_RegisterChat (hd_service server) c w)";
        cases "la_DeleteChat (hd_service server) c w"; cases "fst (la_DeleteChat (hd_service server) c w)";
        auto simp: d ehandle_def)+
  show "la_GetTrackedLinks cl c w = relayed id chat_errors (other ''failed to get links: '') (la_GetTrackedLinks api c w)"
    using assms(3)
    by (cases "la_GetTrackedLinks (hd_service server) c w"; cases "fst (la_GetTrackedLinks (hd_service server) c w)")
      (auto simp: d ehandle_def ebind_def)
  show "la_AddLink cl c u ts w = relayed id add_errors (other ''failed to add link: '') (la_AddLink api c u ts w)"
    using assms(1,2,4)
    by (cases "la_AddLink (hd_service server) c u ts w"; cases "fst (la_AddLink (hd_service server) c u ts w)")
      (auto simp: d ehandle_def ebind_def)
  show "la_RemoveLink cl c u w = relayed id remove_errors (other ''failed to remove link: '') (la_RemoveLink api c u w)"
    using assms(1,5)
    by (cases "la_RemoveLink (hd_service server) c u w"; cases "fst (la_RemoveLink (hd_service server) c u w)")
      (auto simp: d ehandle_def ebind_def)
qed

text \<open>The service on a table with a link of two subscribers.\<close>

definition sample_server :: "world api_handler" where
  "sample_server = \<lparr>hd_service = service_api (NewService (sql_chat_repo, sql_link_repo, sql_sub_repo) (\<lambda>u. True)),
     hd_Error = (\<lambda>e. ''error'')\<rparr>"

definition all_utf8 :: "('a \<Rightarrow> bool) \<Rightarrow> (goerr + 'a) \<times> 'w \<Rightarrow> bool" where
  "all_utf8 ok res = (case fst res of Inl e \<Rightarrow> True | Inr x \<Rightarrow> ok x)"

lemma all_utf8D: "all_utf8 ok res \<Longrightarrow> res = (Inr x, w) \<Longrightarrow> ok x"
  by (simp add: all_utf8_def)

lemma grpc_api_transparent_witness:
  "la_GetTrackedLinks (grpc_client_api (grpc_connected sample_server)) 7 (sample_world scraped_db [])
     = relayed id chat_errors (\<lambda>e. unexpected_error (StatusErr Internal (''failed to get links: '' @ ''error'')))
         (la_GetTrackedLinks (hd_service sample_server) 7 (sample_world scraped_db []))
   \<and> \<not> isl (fst (la_GetTrackedLinks (hd_service sample_server) 7 (sample_world scraped_db [])))"
proof
  let ?w = "sample_world scraped_db []"
  show ok: "\<not> isl (fst (la_GetTrackedLinks (hd_service sample_server) 7 ?w))" by code_simp
  have u: "utf8 ''https://github.com/a/b''" "list_all utf8 [''bug'']" by code_simp+
  have g: "all_utf8 (list_all utf8_link) (la_GetTrackedLinks (hd_service sample_server) 7 ?w)" by code_simp
  have a: "all_utf8 utf8_link (la_AddLink (hd_service sample_server) 7 ''https://github.com/a/b'' [''bug''] ?w)" by code_simp
  have r: "all_utf8 utf8_link (la_RemoveLink (hd_service sample_server) 7 ''https://github.com/a/b'' ?w)" by code_simp
  have e: "hd_Error sample_server = (\<lambda>e. ''error'')" by (simp add: sample_server_def)
  note transparent = grpc_api_transparent [where server = sample_server and c = 7 and w = ?w
      and u = "''https://github.com/a/b''" and ts = "[''bug'']", OF u, unfolded e]
  show "la_GetTrackedLinks (grpc_client_api (grpc_connected sample_server)) 7 ?w
     = relayed id chat_errors (\<lambda>e. unexpected_error (StatusErr Internal (''failed to get links: '' @ ''error'')))
         (la_GetTrackedLinks (hd_service sample_server) 7 ?w)"
    by (rule transparent [THEN conjunct2, THEN conjunct2, THEN conjunct1])
      (erule all_utf8D [OF g] all_utf8D [OF a] all_utf8D [OF r])+
qed

end
