(* ===== verification/Bot_Sessions.thy ===== *)
theory Bot_Sessions
  imports Repo_Builder
begin

text \<open>
  The dialogue sessions of the bot (\<open>bot/domain/session.go\<close>) and the two implementations of their
  repository (\<open>bot/infrastructure/repository/sql\<close> and \<open>sqlbuilder\<close>). The table is read as a map from
  chats to sessions; \<open>session_store\<close> is the promise of the interface, interpreted on both.
\<close>

subsection \<open>Sessions\<close>

definition StateIdle :: string where "StateIdle = ''idle''"
definition StateWaitingForURLTrack :: string where "StateWaitingForURLTrack = ''waiting_for_url_track''"
definition StateWaitingForTags :: string where "StateWaitingForTags = ''waiting_for_tags''"
definition StateWaitingForURLUntrack :: string where "StateWaitingForURLUntrack = ''waiting_for_url_untrack''"

lemmas session_state_defs =
  StateIdle_def StateWaitingForURLTrack_def StateWaitingForTags_def StateWaitingForURLUntrack_def

record session =
  ss_ChatID :: i64
  ss_State :: string
  ss_URL :: string

definition session_Reset :: "session \<Rightarrow> session" where
  "session_Reset s = s\<lparr>ss_State := StateIdle, ss_URL := ''''\<rparr>"

definition scan_session :: "i64 \<times> string \<times> string \<Rightarrow> session" where
  "scan_session row = (case row of (c, st, u) \<Rightarrow> \<lparr>ss_ChatID = c, ss_State = st, ss_URL = u\<rparr>)"

text \<open>\<open>domain.SessionRepository\<close>.\<close>

record 'w session_repo =
  se_GetOrCreate :: "i64 \<Rightarrow> ('w, session) prog"
  se_Save :: "session \<Rightarrow> ('w, unit) prog"
  se_Delete :: "i64 \<Rightarrow> ('w, session) prog"

subsection \<open>With SQL\<close>

definition sql_session_GetOrCreate :: "i64 \<Rightarrow> ('a world_scheme, session) prog" where
  "sql_session_GetOrCreate chatID =
     ehandle (query_row (upsert_session True chatID StateIdle ''''))
       (\<lambda>e. efail (WrapErr ''failed to get or create session: '' e ''''))
       (\<lambda>row. eret (scan_session row))"

definition sql_session_Save :: "session \<Rightarrow> ('a world_scheme, unit) prog" where
  "sql_session_Save session =
     ehandle (run_stmt (upsert_session False (ss_ChatID session) (ss_State session) (ss_URL session)))
       (\<lambda>e. efail (WrapErr ''failed to save session: '' e ''''))
       (\<lambda>_. eret ())"

definition sql_session_Delete :: "i64 \<Rightarrow> ('a world_scheme, session) prog" where
  "sql_session_Delete chatID =
     ehandle (query_row (delete_session chatID))
       (\<lambda>e. efail (if errors_is ErrNoRows e then Sentinel B_ErrSessionNotFound
                    else WrapErr ''failed to delete session: '' e ''''))
       (\<lambda>row. eret (scan_session row))"

definition sql_session_repo :: "'a world_scheme session_repo" where
  "sql_session_repo = \<lparr>se_GetOrCreate = sql_session_GetOrCreate, se_Save = sql_session_Save,
     se_Delete = sql_session_Delete\<rparr>"

subsection \<open>With the query builder\<close>

definition qb_session_GetOrCreate :: "i64 \<Rightarrow> ('a world_scheme, session) prog" where
  "qb_session_GetOrCreate chatID =
     ebind (to_sql ''failed to build get_or_create query: '') (\<lambda>_.
     ehandle (query_row (upsert_session True chatID StateIdle ''''))
       (\<lambda>e. efail (WrapErr ''failed to get or create session: '' e ''''))
       (\<lambda>row. eret (scan_session row)))"

definition qb_session_Save :: "session \<Rightarrow> ('a world_scheme, unit) prog" where
  "qb_session_Save session =
     ebind (to_sql ''failed to build save query: '') (\<lambda>_.
     ehandle (run_stmt (upsert_session False (ss_ChatID session) (ss_State session) (ss_URL session)))
       (\<lambda>e. efail (WrapErr ''failed to save session: '' e ''''))
       (\<lambda>_. eret ()))"

definition qb_session_Delete :: "i64 \<Rightarrow> ('a world_scheme, session) prog" where
  "qb_session_Delete chatID =
     ebind (to_sql ''failed to build delete query: '') (\<lambda>_.
     ehandle (query_row (delete_session chatID))
       (\<lambda>e. efail (if errors_is ErrNoRows e then Sentinel B_ErrSessionNotFound
                    else WrapErr ''failed to delete session: '' e ''''))
       (\<lambda>row. eret (scan_session row)))"

definition qb_session_repo :: "'a world_scheme session_repo" where
  "qb_session_repo = \<lparr>se_GetOrCreate = qb_session_GetOrCreate, se_Save = qb_session_Save,
     se_Delete = qb_session_Delete\<rparr>"

subsection \<open>The table as a map\<close>

definition session_of :: "pgdb \<Rightarrow> i64 \<rightharpoonup> session" where
  "session_of d = (\<lambda>c. map_option scan_session (find (\<lambda>s. fst s = c) (db_sessions d)))"

definition new_session :: "i64 \<Rightarrow> session" where
  "new_session c = \<lparr>ss_ChatID = c, ss_State = StateIdle, ss_URL = ''''\<rparr>"

definition session_get :: "i64 \<Rightarrow> session stmt" where
  "session_get c d =
     (case session_of d c of
        Some s \<Rightarrow> (Inr s, d)
      | None \<Rightarrow>
          if c \<notin> set (db_chats d) then (Inl foreign_key_violation, d)
          else (Inr (new_session c), d\<lparr>db_sessions := db_sessions d @ [(c, StateIdle, '''')]\<rparr>))"

definition session_save :: "session \<Rightarrow> unit stmt" where
  "session_save s = ebind (upsert_session False (ss_ChatID s) (ss_State s) (ss_URL s)) (\<lambda>_. eret ())"

definition session_remove :: "i64 \<Rightarrow> session stmt" where
  "session_remove c d =
     (case session_of d c of
        None \<Rightarrow> (Inl (Sentinel B_ErrSessionNotFound), d)
      | Some s \<Rightarrow> (Inr s, d\<lparr>db_sessions := filter (\<lambda>s. fst s \<noteq> c) (db_sessions d)\<rparr>))"

text \<open>A program whose effect, whatever fails, is all of a statement or nothing.\<close>

definition single :: "('a world_scheme, 'b) prog \<Rightarrow> 'c stmt \<Rightarrow> bool" where
  "single m f \<longleftrightarrow> (\<forall>w r w'. db_wf (w_db w) \<longrightarrow> m w = (r, w') \<longrightarrow> w_db w' = w_db w \<or> w_db w' = snd (f (w_db w)))"

lemma singleD: "single m f \<Longrightarrow> db_wf (w_db w) \<Longrightarrow> m w = (r, w') \<Longrightarrow> w_db w' = w_db w \<or> w_db w' = snd (f (w_db w))"
  by (simp add: single_def)

locale session_store =
  fixes R :: "'a world_scheme session_repo"
  assumes GetOrCreate: "implements W (se_GetOrCreate R c) (session_get c)"
    and Save: "implements W (se_Save R s) (session_save s)"
    and Delete: "implements W (se_Delete R c) (session_remove c)"
    and GetOrCreate_single: "single (se_GetOrCreate R c) (session_get c)"
    and Save_single: "single (se_Save R s) (session_save s)"
    and Delete_single: "single (se_Delete R c) (session_remove c)"

subsection \<open>Both implementations keep the promise\<close>

lemma same_session: "db_wf d \<Longrightarrow> find (\<lambda>s. fst s = c) (db_sessions d) = Some s \<Longrightarrow>
   map (\<lambda>x. if fst x = c then s else x) (db_sessions d) = db_sessions d"
proof (rule map_idI)
  fix x
  assume wf: "db_wf d" and f: "find (\<lambda>s. fst s = c) (db_sessions d) = Some s" and x: "x \<in> set (db_sessions d)"
  have "distinct (map fst (db_sessions d))" using wf by (simp add: db_wf_def sessions_wf_def)
  moreover have "s \<in> set (db_sessions d)" "fst s = c" using find_key_D [OF f] by auto
  ultimately show "(if fst x = c then s else x) = x" using x by (auto simp: distinct_map dest: inj_onD)
qed

lemma pg_text_Nil [simp]: "pg_text ''''"
  by code_simp

lemma session_states_simps [simp]:
  "pg_text StateIdle" "pg_text StateWaitingForURLTrack" "pg_text StateWaitingForTags" "pg_text StateWaitingForURLUntrack"
  "StateIdle \<in> set session_states" "StateWaitingForURLTrack \<in> set session_states"
  "StateWaitingForTags \<in> set session_states" "StateWaitingForURLUntrack \<in> set session_states"
  by code_simp+

lemma sql_session_GetOrCreate_ok: "implements W (sql_session_GetOrCreate c) (session_get c)"
  unfolding sql_session_GetOrCreate_def
  by (rule implements_op [OF implements_query_row, where b = "\<lambda>row. eret (scan_session row)"])
     (auto simp: stmt_oks upsert_session_def session_get_def session_of_def new_session_def scan_session_def
        ehandle_def ebind_def stmt_eq_def same_session
      split: option.splits prod.splits intro: implements_eret)

lemma sql_session_Save_ok: "implements W (sql_session_Save s) (session_save s)"
  unfolding sql_session_Save_def
  by (rule implements_op [OF implements_run_stmt, where b = "\<lambda>_. eret ()"])
     (auto simp: stmt_oks session_save_def ehandle_def ebind_def stmt_eq_def
      split: sum.splits prod.splits intro: implements_eret)

lemma no_session: "find (\<lambda>s. fst s = c) (db_sessions d) = None \<Longrightarrow>
   d\<lparr>db_sessions := filter (\<lambda>s. fst s \<noteq> c) (db_sessions d)\<rparr> = d"
  by (cases d) (auto simp: find_None_iff intro: filter_True)

lemma sql_session_Delete_ok: "implements W (sql_session_Delete c) (session_remove c)"
  unfolding sql_session_Delete_def
  by (rule implements_op [OF implements_query_row, where b = "\<lambda>row. eret (scan_session row)"])
     (auto simp: stmt_oks delete_session_def session_remove_def session_of_def ehandle_def ebind_def stmt_eq_def
        no_session err_rel_def
      split: option.splits if_splits intro: meaningful_is implements_eret)

lemma single_eq: "single m f \<Longrightarrow> (\<And>d. db_wf d \<Longrightarrow> snd (f d) = snd (g d)) \<Longrightarrow> single m g"
  unfolding single_def by metis

lemma single_run_stmt: "single (run_stmt f) f"
  by (auto simp: single_def run_stmt_def run_with_def split: if_splits fault.splits prod.splits sum.splits)

lemma single_handle: "single m f \<Longrightarrow> single (ehandle m (\<lambda>e. efail (g e)) (\<lambda>x. eret (k x))) f"
  by (auto simp: single_def ehandle_def split: prod.splits sum.splits)

lemma single_query_row: "single (query_row f) f"
  using single_run_stmt [of f]
  by (fastforce simp: single_def query_row_def ebind_def ehandle_def split: prod.splits sum.splits option.splits)

lemma single_to_sql: "single m f \<Longrightarrow> single (ebind (to_sql msg) (\<lambda>_. m)) f"
  unfolding single_def by (intro allI impI, erule ebind_cases) (use to_sql_aborted in metis)+

lemma sql_session_single:
  "single (sql_session_GetOrCreate c) (session_get c)" "single (sql_session_Save s) (session_save s)"
  "single (sql_session_Delete c) (session_remove c)"
proof -
  show "single (sql_session_GetOrCreate c) (session_get c)"
    unfolding sql_session_GetOrCreate_def
    by (rule single_eq [OF single_handle [OF single_query_row]])
       (auto simp: upsert_session_def session_get_def session_of_def same_session split: option.splits)
  show "single (sql_session_Save s) (session_save s)"
    unfolding sql_session_Save_def
    by (rule single_eq [OF single_handle [OF single_run_stmt]])
       (auto simp: session_save_def ebind_def ehandle_def split: prod.splits sum.splits)
  show "single (sql_session_Delete c) (session_remove c)"
    unfolding sql_session_Delete_def
    by (rule single_eq [OF single_handle [OF single_query_row]])
       (auto simp: delete_session_def session_remove_def session_of_def no_session split: option.splits)
qed

interpretation sql_sessions: session_store sql_session_repo
  by unfold_locales
     (simp_all add: sql_session_repo_def sql_session_GetOrCreate_ok sql_session_Save_ok sql_session_Delete_ok sql_session_single single_to_sql)

lemmas qb_session_behind =
  qb_session_GetOrCreate_def [folded sql_session_GetOrCreate_def]
  qb_session_Save_def [folded sql_session_Save_def] qb_session_Delete_def [folded sql_session_Delete_def]

interpretation qb_sessions: session_store qb_session_repo
  by unfold_locales
     (simp_all add: qb_session_repo_def qb_session_behind implements_to_sql
      sql_session_GetOrCreate_ok sql_session_Save_ok sql_session_Delete_ok sql_session_single single_to_sql)

end
