(* ===== verification/Session_Effects.thy ===== *)
theory Session_Effects
  imports Bot_Sessions Subscription_Props
begin

text \<open>
  What the session repositories do to the map of sessions, whatever fails, and when they succeed.
\<close>

definition at_rest :: "'a world_scheme \<Rightarrow> bool" where
  "at_rest w \<longleftrightarrow> db_wf (w_db w) \<and> \<not> in_tx w \<and> map_order_ok w"

lemma at_rest_ready: "at_rest w \<Longrightarrow> ready w w"
  using aborted_in_tx by (auto simp: at_rest_def ready_def)

lemma at_rest_frame: "frame w w' \<Longrightarrow> at_rest w \<Longrightarrow> at_rest w'"
  by (auto simp: at_rest_def frame_in_tx frame_wf) (simp add: frame_def same_env_def map_order_ok_def)

lemma session_key: "session_of d c = Some s \<Longrightarrow> ss_ChatID s = c"
  by (auto simp: session_of_def scan_session_def dest: find_key_D)

lemma scan_session_run [simp]: "scan_session (c, st, u) = \<lparr>ss_ChatID = c, ss_State = st, ss_URL = u\<rparr>"
  by (simp add: scan_session_def)

lemma session_eta [simp]: "\<lparr>ss_ChatID = ss_ChatID s, ss_State = ss_State s, ss_URL = ss_URL s\<rparr> = s" for s :: session
  by (cases s) simp

lemma session_of_append:
  "session_of d c = None \<Longrightarrow>
   session_of (d\<lparr>db_sessions := db_sessions d @ [(c, st, u)]\<rparr>) = (session_of d)(c \<mapsto> \<lparr>ss_ChatID = c, ss_State = st, ss_URL = u\<rparr>)"
  by (rule ext) (auto simp: session_of_def find_append split: option.splits)

lemma session_of_update:
  assumes "session_of d c = Some s0"
  shows "session_of (d\<lparr>db_sessions := map (\<lambda>s. if fst s = c then (c, st, u) else s) (db_sessions d)\<rparr>)
     = (session_of d)(c \<mapsto> \<lparr>ss_ChatID = c, ss_State = st, ss_URL = u\<rparr>)"
proof
  fix c'
  have "map_option scan_session (find (\<lambda>s. fst s = c') (map (\<lambda>s. if fst s = c then (c, st, u) else s) rows))
     = (if c' = c \<and> find (\<lambda>s. fst s = c) rows \<noteq> None then Some \<lparr>ss_ChatID = c, ss_State = st, ss_URL = u\<rparr>
        else map_option scan_session (find (\<lambda>s. fst s = c') rows))" for rows
    by (induction rows) auto
  with assms show "session_of (d\<lparr>db_sessions := map (\<lambda>s. if fst s = c then (c, st, u) else s) (db_sessions d)\<rparr>) c'
     = ((session_of d)(c \<mapsto> \<lparr>ss_ChatID = c, ss_State = st, ss_URL = u\<rparr>)) c'"
    by (auto simp: session_of_def)
qed

lemma session_of_delete:
  "session_of (d\<lparr>db_sessions := filter (\<lambda>s. fst s \<noteq> c) (db_sessions d)\<rparr>) = (session_of d)(c := None)"
proof
  fix c'
  have "find (\<lambda>s. fst s = c') (filter (\<lambda>s. fst s \<noteq> c) rows)
     = (if c' = c then None else find (\<lambda>s. fst s = c') rows)" for rows :: "(i64 \<times> string \<times> string) list"
    by (induction rows) auto
  then show "session_of (d\<lparr>db_sessions := filter (\<lambda>s. fst s \<noteq> c) (db_sessions d)\<rparr>) c' = ((session_of d)(c := None)) c'"
    by (auto simp: session_of_def)
qed

lemma session_get_sessions:
  "session_of (snd (session_get c d)) = session_of d
   \<or> session_of d c = None \<and> session_of (snd (session_get c d)) = (session_of d)(c \<mapsto> new_session c)"
  by (auto simp: session_get_def session_of_append new_session_def split: option.splits)

lemma session_get_value: "fst (session_get c d) = Inr s \<Longrightarrow> session_of (snd (session_get c d)) c = Some s"
  by (auto simp: session_get_def session_of_append new_session_def split: option.splits if_splits)

text \<open>A state the check constraint admits, and a text the database can store.\<close>

definition storable_session :: "session \<Rightarrow> bool" where
  "storable_session s \<longleftrightarrow> ss_State s \<in> set session_states \<and> pg_text (ss_URL s)"

lemma session_states_text: "st \<in> set session_states \<Longrightarrow> pg_text st"
  using session_states_simps(1-4)
  by (auto simp: session_states_def session_state_defs)

lemma session_save_sessions:
  assumes "session_save s d = (r, d')"
  shows "(\<forall>x. r = Inr x \<longrightarrow> session_of d' = (session_of d)(ss_ChatID s \<mapsto> s)) \<and> (\<forall>e. r = Inl e \<longrightarrow> d' = d)"
  using assms session_of_append [of d "ss_ChatID s" "ss_State s" "ss_URL s"]
    session_of_update [of d "ss_ChatID s" _ "ss_State s" "ss_URL s"]
  by (auto simp: session_save_def upsert_session_def ebind_def ehandle_def session_of_def Let_def
      split: if_splits option.splits)

lemma session_save_ok:
  assumes "storable_session s" and "ss_ChatID s \<in> set (db_chats d) \<or> session_of d (ss_ChatID s) \<noteq> None"
  obtains d' where "session_save s d = (Inr (), d')" and "session_of d' = (session_of d)(ss_ChatID s \<mapsto> s)"
proof -
  have "\<exists>d'. session_save s d = (Inr (), d')"
    using assms session_states_text
    by (auto simp: session_save_def upsert_session_def ebind_def ehandle_def session_of_def storable_session_def Let_def
        split: option.splits)
  with session_save_sessions show thesis by (metis that)
qed

context session_store
begin

lemma get_rests:
  assumes "at_rest w" and "se_GetOrCreate R c w = (r, w')"
  shows "frame w w'" and "at_rest w'"
    and "session_of (w_db w') = session_of (w_db w)
      \<or> session_of (w_db w) c = None \<and> session_of (w_db w') = (session_of (w_db w))(c \<mapsto> new_session c)"
    and "r = Inr s \<Longrightarrow> session_of (w_db w') c = Some s"
proof -
  show fr: "frame w w'" by (rule keepsD [OF implements_frame [OF GetOrCreate] assms(2)])
  show "at_rest w'" by (rule at_rest_frame [OF fr assms(1)])
  have "w_db w' = w_db w \<or> w_db w' = snd (session_get c (w_db w))"
    using assms(1) by (intro singleD [OF GetOrCreate_single _ assms(2)]) (simp add: at_rest_def)
  then show "session_of (w_db w') = session_of (w_db w)
      \<or> session_of (w_db w) c = None \<and> session_of (w_db w') = (session_of (w_db w))(c \<mapsto> new_session c)"
    using session_get_sessions [of c "w_db w"] by auto
  show "session_of (w_db w') c = Some s" if "r = Inr s"
  proof -
    have "session_get c (w_db w) = (Inr s, w_db w')"
      by (rule implements_okD(2) [OF GetOrCreate at_rest_ready [OF assms(1)]]) (use assms(2) that in simp)
    with session_get_value [of c "w_db w" s] show ?thesis by simp
  qed
qed

lemma save_rests:
  assumes "at_rest w" and "se_Save R s w = (r, w')"
  shows "frame w w'" and "at_rest w'"
    and "session_of (w_db w') = session_of (w_db w) \<or> session_of (w_db w') = (session_of (w_db w))(ss_ChatID s \<mapsto> s)"
    and "r = Inr x \<Longrightarrow> session_of (w_db w') = (session_of (w_db w))(ss_ChatID s \<mapsto> s)"
proof -
  show fr: "frame w w'" by (rule keepsD [OF implements_frame [OF Save] assms(2)])
  show "at_rest w'" by (rule at_rest_frame [OF fr assms(1)])
  have "w_db w' = w_db w \<or> w_db w' = snd (session_save s (w_db w))"
    using assms(1) by (intro singleD [OF Save_single _ assms(2)]) (simp add: at_rest_def)
  then show "session_of (w_db w') = session_of (w_db w) \<or> session_of (w_db w') = (session_of (w_db w))(ss_ChatID s \<mapsto> s)"
    using session_save_sessions [of s "w_db w"] by (cases "session_save s (w_db w)"; cases "fst (session_save s (w_db w))") auto
  show "session_of (w_db w') = (session_of (w_db w))(ss_ChatID s \<mapsto> s)" if "r = Inr x"
  proof -
    have "session_save s (w_db w) = (Inr x, w_db w')"
      by (rule implements_okD(2) [OF Save at_rest_ready [OF assms(1)]]) (use assms(2) that in simp)
    with session_save_sessions show ?thesis by blast
  qed
qed

lemma delete_rests:
  assumes "at_rest w" and "se_Delete R c w = (r, w')"
  shows "frame w w'" and "at_rest w'"
    and "session_of (w_db w') = session_of (w_db w) \<or> session_of (w_db w') = (session_of (w_db w))(c := None)"
    and "r = Inr s \<Longrightarrow> session_of (w_db w) c = Some s \<and> session_of (w_db w') = (session_of (w_db w))(c := None)"
    and "r = Inl e \<Longrightarrow> errors_is B_ErrSessionNotFound e \<Longrightarrow> session_of (w_db w) c = None"
proof -
  show fr: "frame w w'" by (rule keepsD [OF implements_frame [OF Delete] assms(2)])
  show "at_rest w'" by (rule at_rest_frame [OF fr assms(1)])
  have "w_db w' = w_db w \<or> w_db w' = snd (session_remove c (w_db w))"
    using assms(1) by (intro singleD [OF Delete_single _ assms(2)]) (simp add: at_rest_def)
  then show "session_of (w_db w') = session_of (w_db w) \<or> session_of (w_db w') = (session_of (w_db w))(c := None)"
    by (auto simp: session_remove_def session_of_delete split: option.splits)
  show "session_of (w_db w) c = Some s \<and> session_of (w_db w') = (session_of (w_db w))(c := None)" if "r = Inr s"
  proof -
    have "session_remove c (w_db w) = (Inr s, w_db w')"
      by (rule implements_okD(2) [OF Delete at_rest_ready [OF assms(1)]]) (use assms(2) that in simp)
    then show ?thesis
      by (auto simp: session_remove_def session_of_delete [symmetric] simp del: fun_upd_apply split: option.splits)
  qed
  show "session_of (w_db w) c = None" if "r = Inl e" "errors_is B_ErrSessionNotFound e"
  proof -
    have "se_Delete R c w = (Inl e, w')" using assms(2) that(1) by simp
    from implements_errD [OF Delete at_rest_ready [OF assms(1)] this] meaningful_is [OF that(2)]
    obtain e' where "session_remove c (w_db w) = (Inl e', w_db w')" by blast
    then show ?thesis by (auto simp: session_remove_def split: option.splits)
  qed
qed

text \<open>Without faults.\<close>

lemma get_succeeds:
  assumes "at_rest w" and "w_faults w = []" and "c \<in> set (db_chats (w_db w)) \<or> session_of (w_db w) c \<noteq> None"
  obtains s w' where "se_GetOrCreate R c w = (Inr s, w')"
    and "s = (case session_of (w_db w) c of Some s \<Rightarrow> s | None \<Rightarrow> new_session c)"
    and "session_get c (w_db w) = (Inr s, w_db w')"
proof -
  obtain r w' where run: "se_GetOrCreate R c w = (r, w')" by (cases "se_GetOrCreate R c w")
  obtain s d' where s: "session_get c (w_db w) = (Inr s, d')"
      "s = (case session_of (w_db w) c of Some s \<Rightarrow> s | None \<Rightarrow> new_session c)"
    using assms(3) by (cases "session_of (w_db w) c") (simp_all add: session_get_def)
  have "outcome_ok (session_get c) w r w'" by (rule implementsD [OF GetOrCreate at_rest_ready [OF assms(1)] run])
  with s assms(2) have "r = Inr s" "d' = w_db w'" by (cases r; simp add: outcome_ok_def)+
  with that run s show thesis by simp
qed

lemma save_succeeds:
  assumes "at_rest w" and "w_faults w = []" and "storable_session s"
    and "ss_ChatID s \<in> set (db_chats (w_db w)) \<or> session_of (w_db w) (ss_ChatID s) \<noteq> None"
  obtains w' where "se_Save R s w = (Inr (), w')" and "session_save s (w_db w) = (Inr (), w_db w')"
proof -
  obtain r w' where run: "se_Save R s w = (r, w')" by (cases "se_Save R s w")
  obtain d' where d: "session_save s (w_db w) = (Inr (), d')" by (rule session_save_ok [OF assms(3,4)])
  have "outcome_ok (session_save s) w r w'" by (rule implementsD [OF Save at_rest_ready [OF assms(1)] run])
  with d assms(2) have "r = Inr ()" "d' = w_db w'" by (cases r; simp add: outcome_ok_def)+
  with that run d show thesis by simp
qed

end

subsection \<open>The configured repository\<close>

text \<open>\<open>buildRepos\<close> of \<open>bot/application/app.go\<close>.\<close>

definition bot_buildRepos :: "string \<Rightarrow> goerr + 'a world_scheme session_repo" where
  "bot_buildRepos accessType =
     (if accessType = ''SQL'' then Inr sql_session_repo
      else if accessType = ''BUILDER'' then Inr qb_session_repo
      else Inl (NewErr (''unsupported database access type: '' @ accessType)))"

lemma bot_buildRepos_store: "bot_buildRepos accessType = Inr R \<Longrightarrow> session_store R"
  by (auto simp: bot_buildRepos_def sql_sessions.session_store_axioms qb_sessions.session_store_axioms split: if_splits)

text \<open>C25. The session repository is a map from chats to sessions, for both access types and under any
  faults: \<open>GetOrCreate\<close> returns the session of the chat and at most adds a new idle one, \<open>Save\<close> writes
  exactly the given session, \<open>Delete\<close> removes exactly the chat's one and returns it; whatever
  fails, no other chat's session changes, and "not found" is genuine.\<close>

theorem sessions_refine_map:
  assumes "bot_buildRepos accessType = Inr R" and "at_rest w"
    and "se_GetOrCreate R c w = (r1, w1)" and "se_Save R s w = (r2, w2)" and "se_Delete R c w = (r3, w3)"
  shows "(session_of (w_db w1) = session_of (w_db w)
        \<or> session_of (w_db w) c = None \<and> session_of (w_db w1) = (session_of (w_db w))(c \<mapsto> new_session c))
    \<and> (\<forall>x. r1 = Inr x \<longrightarrow> session_of (w_db w1) c = Some x)
    \<and> (session_of (w_db w2) = session_of (w_db w) \<or> session_of (w_db w2) = (session_of (w_db w))(ss_ChatID s \<mapsto> s))
    \<and> (r2 = Inr () \<longrightarrow> session_of (w_db w2) = (session_of (w_db w))(ss_ChatID s \<mapsto> s))
    \<and> (session_of (w_db w3) = session_of (w_db w) \<or> session_of (w_db w3) = (session_of (w_db w))(c := None))
    \<and> (\<forall>x. r3 = Inr x \<longrightarrow> session_of (w_db w) c = Some x \<and> session_of (w_db w3) = (session_of (w_db w))(c := None))
    \<and> (\<forall>e. r3 = Inl e \<and> errors_is B_ErrSessionNotFound e \<longrightarrow> session_of (w_db w) c = None)"
proof -
  note R = bot_buildRepos_store [OF assms(1)]
  note g = session_store.get_rests [OF R assms(2,3)] and s = session_store.save_rests [OF R assms(2,4)]
    and d = session_store.delete_rests [OF R assms(2,5)]
  show ?thesis
    by (intro conjI allI impI; (elim conjE)?; (rule g(3) s(3) d(3) | erule g(4) s(4) d(5) | drule d(4); simp)?)
qed

lemma sample_at_rest: "db_wf d \<Longrightarrow> at_rest (sample_world d fs)"
  by (simp add: at_rest_def sample_world_top sample_env)

lemma sessions_refine_map_witness:
  "\<exists>x w1. se_GetOrCreate qb_session_repo 7 (sample_world sample_db [No_fault, Lost_reply]) = (Inl x, w1)
     \<and> session_of (w_db w1) 7 = Some (new_session 7)"
proof -
  let ?R = "qb_session_repo :: world session_repo"
  let ?w = "sample_world sample_db [No_fault, Lost_reply]"
  let ?s = "\<lparr>ss_ChatID = 7, ss_State = StateWaitingForTags, ss_URL = ''u''\<rparr>"
  have b: "bot_buildRepos ''BUILDER'' = Inr ?R" by (simp add: bot_buildRepos_def)
  have "isl (fst (se_GetOrCreate ?R 7 ?w))" by code_simp
  then obtain x w1 where r1: "se_GetOrCreate ?R 7 ?w = (Inl x, w1)" by (rule run_errE)
  obtain r2 w2 where r2: "se_Save ?R ?s ?w = (r2, w2)" by (cases "se_Save ?R ?s ?w")
  obtain r3 w3 where r3: "se_Delete ?R 7 ?w = (r3, w3)" by (cases "se_Delete ?R 7 ?w")
  have "session_of (w_db (snd (se_GetOrCreate ?R 7 ?w))) 7 \<noteq> None" by code_simp
  with r1 have some: "session_of (w_db w1) 7 \<noteq> None" by simp
  have none: "session_of (w_db ?w) = Map.empty"
    by (rule ext) (simp add: session_of_def sample_world_top sample_db_def empty_db_def)
  from sessions_refine_map [OF b sample_at_rest [OF sample_db_wf] r1 r2 r3, THEN conjunct1] some
  have "session_of (w_db w1) 7 = Some (new_session 7)" by (auto simp: none)
  with r1 show ?thesis by blast
qed

end
