(* ===== verification/Bot_Dialog.thy ===== *)
theory Bot_Dialog
  imports Bot_Sessions Grpc_Api "HOL-Library.AList"
begin

text \<open>
  The bot's conversation with a chat: messages and commands (\<open>bot/domain\<close>,
  \<open>bot/application/commands\<close>), the services that answer them (\<open>command_service.go\<close>,
  \<open>dialog_service.go\<close>) and the poller's handling of one message
  (\<open>bot/infrastructure/adapter/in/telegram/poller.go\<close>). An answer is a text and an optional error: the
  code returns both.
\<close>

subsection \<open>Messages\<close>

record message =
  mg_ID :: i64
  mg_ChatID :: i64
  mg_Text :: string

definition IsCommand :: "message \<Rightarrow> bool" where
  "IsCommand m \<longleftrightarrow> has_prefix (mg_Text m) ''/'' \<and> 1 < length (mg_Text m)"

definition ParseCommand :: "message \<Rightarrow> string \<times> string list" where
  "ParseCommand m =
     (if \<not> IsCommand m then ('''', [])
      else case Go_Strings.fields (mg_Text m) of
        [] \<Rightarrow> ('''', [])
      | arg # args \<Rightarrow> (trim_prefix arg ''/'', args))"

type_synonym reply = "string \<times> goerr option"

definition say :: "string \<Rightarrow> ('w, reply) prog" where
  "say text = eret (text, None)"

definition say_error :: "string \<Rightarrow> goerr \<Rightarrow> ('w, reply) prog" where
  "say_error text e = eret (text, Some e)"

definition NL :: string where
  "NL = [CHR 0x0A]"

subsection \<open>The commands\<close>

record 'w command =
  cmd_Name :: string
  cmd_Description :: string
  cmd_Execute :: "message \<Rightarrow> ('w, reply) prog"

definition command_info :: "'w command \<Rightarrow> string \<times> string" where
  "command_info c = (cmd_Name c, cmd_Description c)"

definition help_Execute :: "(string \<times> string) list \<Rightarrow> message \<Rightarrow> ('w, reply) prog" where
  "help_Execute commands msg =
     say (''Available commands:'' @ NL @
       concat (map (\<lambda>(name, desc). ''/'' @ name @ '' '' @ [CHR 0xE2, CHR 0x80, CHR 0x93] @ '' '' @ desc @ NL) commands))"

definition HelpCommand :: "(string \<times> string) list \<Rightarrow> 'w command" where
  "HelpCommand commands = \<lparr>cmd_Name = ''help'', cmd_Description = ''List all available commands'',
     cmd_Execute = help_Execute commands\<rparr>"

definition start_Execute :: "'w link_api \<Rightarrow> message \<Rightarrow> ('w, reply) prog" where
  "start_Execute scrapper msg =
     ehandle (la_RegisterChat scrapper (mg_ChatID msg))
       (\<lambda>err. if errors_is B_ErrChatAlreadyRegistered err
          then say ''Hi again! This bot can track updates on your links, so you won't miss on news! /help for list my commands''
          else say_error ''Something went wrong while registering your. Try again'' err)
       (\<lambda>_. say ''Hi! This bot can track updates on your links, so you won't miss on news! /help for list my commands'')"

definition StartCommand :: "'w link_api \<Rightarrow> 'w command" where
  "StartCommand scrapper = \<lparr>cmd_Name = ''start'', cmd_Description = ''What this bot can do'',
     cmd_Execute = start_Execute scrapper\<rparr>"

definition filterWithTags :: "tracked_link list \<Rightarrow> string list \<Rightarrow> tracked_link list" where
  "filterWithTags links tags =
     (if tags = [] then links
      else filter (\<lambda>link. list_all (\<lambda>requiredTag. List.member (tl_Tags link) requiredTag) tags) links)"

definition link_entry :: "tracked_link \<Rightarrow> string" where
  "link_entry link = tl_URL link @
     (if tl_Tags link = [] then '''' else NL @ ''  Tags: '' @ join_with '', '' (tl_Tags link))"

definition list_text :: "string list \<Rightarrow> tracked_link list \<Rightarrow> string" where
  "list_text args links =
     ''Your tracked links'' @ (if args = [] then '''' else '' with tags '' @ join_with '' '' args)
       @ '':'' @ NL @ join_with (NL @ NL) (map link_entry links)"

definition list_Execute :: "'w link_api \<Rightarrow> message \<Rightarrow> ('w, reply) prog" where
  "list_Execute scrapper msg =
     ehandle (la_GetTrackedLinks scrapper (mg_ChatID msg))
       (\<lambda>err. if errors_is B_ErrChatNotRegistered err then say ''You are not registered yet. Use /start''
          else say_error ''Something went wrong while getting your links. Try again'' err)
       (\<lambda>links.
          if links = [] then say ''You have no tracked links''
          else
            let args = snd (ParseCommand msg);
                found = filterWithTags links (map (\<lambda>arg. trim_space (trim_suffix arg '','')) args) in
            if args \<noteq> [] \<and> found = [] then say (''You have no tracked links with tags '' @ concat args)
            else say (list_text args found))"

definition ListCommand :: "'w link_api \<Rightarrow> 'w command" where
  "ListCommand scrapper = \<lparr>cmd_Name = ''list'',
     cmd_Description = ''List your tracked links. You can filter them by specifying tags'', cmd_Execute = list_Execute scrapper\<rparr>"

text \<open>\<open>/track\<close> and \<open>/untrack\<close> differ in the state they enter and their last answer.\<close>

definition enter_Execute :: "string \<Rightarrow> string \<Rightarrow> 'w session_repo \<Rightarrow> message \<Rightarrow> ('w, reply) prog" where
  "enter_Execute state answer sessionRepo msg =
     ehandle (se_GetOrCreate sessionRepo (mg_ChatID msg))
       (\<lambda>err. say_error ''Something went wrong while getting your session'' err) (\<lambda>session.
     ehandle (se_Save sessionRepo ((session_Reset session)\<lparr>ss_State := state\<rparr>))
       (\<lambda>err. say_error ''Something went wrong while getting your session'' err)
       (\<lambda>_. say answer))"

definition track_Execute :: "'w session_repo \<Rightarrow> message \<Rightarrow> ('w, reply) prog" where
  "track_Execute = enter_Execute StateWaitingForURLTrack
     ''Please send the link you want to track. Send /cancel to abort''"

definition TrackCommand :: "'w session_repo \<Rightarrow> 'w command" where
  "TrackCommand sessionRepo = \<lparr>cmd_Name = ''track'', cmd_Description = ''Track your link'',
     cmd_Execute = track_Execute sessionRepo\<rparr>"

definition untrack_Execute :: "'w session_repo \<Rightarrow> message \<Rightarrow> ('w, reply) prog" where
  "untrack_Execute = enter_Execute StateWaitingForURLUntrack
     ''Please send the link you want to untrack. Send /cancel to abort''"

definition UntrackCommand :: "'w session_repo \<Rightarrow> 'w command" where
  "UntrackCommand sessionRepo = \<lparr>cmd_Name = ''untrack'', cmd_Description = ''Stop tracking your link'',
     cmd_Execute = untrack_Execute sessionRepo\<rparr>"

definition cancel_Execute :: "'w session_repo \<Rightarrow> message \<Rightarrow> ('w, reply) prog" where
  "cancel_Execute sessionRepo msg =
     ehandle (se_Delete sessionRepo (mg_ChatID msg))
       (\<lambda>err. if errors_is B_ErrSessionNotFound err then say ''Nothing to cancel''
          else say_error ''Couldn't delete your session. Try again'' err)
       (\<lambda>session. if ss_State session = StateIdle then say ''Nothing to cancel'' else say ''Process canceled'')"

definition CancelCommand :: "'w session_repo \<Rightarrow> 'w command" where
  "CancelCommand sessionRepo = \<lparr>cmd_Name = ''cancel'', cmd_Description = ''Cancel adding link process'',
     cmd_Execute = cancel_Execute sessionRepo\<rparr>"

subsection \<open>The command service\<close>

text \<open>The commands by name. \<open>order\<close> is the order in which Go ranges over the map.\<close>

type_synonym 'w command_service = "(string \<times> 'w command) list"

definition NewCommandService :: "'w command list \<Rightarrow> 'w command_service" where
  "NewCommandService cmds = fold (\<lambda>c service. AList.update (cmd_Name c) c service) cmds []"

definition HandleCommand :: "'w command_service \<Rightarrow> message \<Rightarrow> ('w, reply) prog" where
  "HandleCommand service msg =
     (let command = fst (ParseCommand msg) in
      if command = '''' then say_error '''' (Sentinel B_ErrNotACommand)
      else case map_of service command of
        None \<Rightarrow> say ''Unknown command. Use /help to list all commands''
      | Some cmd \<Rightarrow> ebind (cmd_Execute cmd msg)
          (\<lambda>(resp, err). case err of Some e \<Rightarrow> say_error '''' e | None \<Rightarrow> say resp))"

definition GetCommandsInfo :: "((string \<times> string) list \<Rightarrow> (string \<times> string) list) \<Rightarrow> 'w command_service \<Rightarrow> (string \<times> string) list" where
  "GetCommandsInfo order service = order (map (command_info \<circ> snd) service)"

subsection \<open>The dialogue service\<close>

record 'w dialog_service =
  dl_scrapper :: "'w link_api"
  dl_sessionRepo :: "'w session_repo"

definition handleIdle :: "'w dialog_service \<Rightarrow> session \<Rightarrow> message \<Rightarrow> ('w, reply) prog" where
  "handleIdle service session msg =
     say ''I don't understand plain text right now. Please use commands from /help menu''"

definition error_empty_url :: string where
  "error_empty_url = ''Link cannot be empty. Please send a valid link or /cancel''"

definition unexpected_dialog_error :: string where
  "unexpected_dialog_error = ''Something went wrong. Please try again''"

definition handleWaitingForURLTrack :: "'w dialog_service \<Rightarrow> session \<Rightarrow> message \<Rightarrow> ('w, reply) prog" where
  "handleWaitingForURLTrack service session msg =
     (let url = trim_space (mg_Text msg) in
      if url = '''' then say error_empty_url
      else
        ehandle (se_Save (dl_sessionRepo service) (session\<lparr>ss_URL := url, ss_State := StateWaitingForTags\<rparr>))
          (\<lambda>err. say_error unexpected_dialog_error err)
          (\<lambda>_. say ''Link saved! Now send tags separated by commas (e.g., work, bug). Or send 'skip' to add without tags.''))"

definition dialog_tags :: "string \<Rightarrow> string list" where
  "dialog_tags text =
     (let rawText = trim_space text in
      if to_lower rawText \<noteq> ''skip''
      then filter (\<lambda>trimmed. trimmed \<noteq> '''') (map trim_space (split_char (CHR '','') rawText))
      else [])"

definition handleWaitingForTags :: "'w dialog_service \<Rightarrow> session \<Rightarrow> message \<Rightarrow> ('w, reply) prog" where
  "handleWaitingForTags service session msg =
     ehandle (la_AddLink (dl_scrapper service) (ss_ChatID session) (ss_URL session) (dialog_tags (mg_Text msg)))
       (\<lambda>err. if errors_is B_ErrAlreadySubscribed err then say ''You are already tracking this link''
          else if errors_is B_ErrChatNotRegistered err then say ''You are not registered yet. Use /start''
          else if errors_is B_ErrURLNotSupported err then say ''This link is not supported yet''
          else say_error ''Failed to track link. Please try again'' err)
       (\<lambda>_. ehandle (se_Save (dl_sessionRepo service) (session_Reset session))
         (\<lambda>err. say_error unexpected_dialog_error err)
         (\<lambda>_. say (''Success! Now tracking link: '' @ ss_URL session)))"

definition handleWaitingForURLUntrack :: "'w dialog_service \<Rightarrow> session \<Rightarrow> message \<Rightarrow> ('w, reply) prog" where
  "handleWaitingForURLUntrack service session msg =
     (let url = trim_space (mg_Text msg) in
      if url = '''' then say error_empty_url
      else
        ehandle (la_RemoveLink (dl_scrapper service) (ss_ChatID session) url)
          (\<lambda>err. if errors_is B_ErrNotSubscribed err then say ''You are not tracking this link''
             else if errors_is B_ErrChatNotRegisteredOrLinkNotFound err
             then say ''You are not registered yet or not tracking this link. To register use /start''
             else say_error ''Failed to untrack link'' err)
          (\<lambda>_. ehandle (se_Save (dl_sessionRepo service) (session_Reset session))
            (\<lambda>err. say_error unexpected_dialog_error err)
            (\<lambda>_. say (''Link '' @ url @ '' has been untracked''))))"

definition stateRegistry :: "'w dialog_service \<Rightarrow> (string \<times> (session \<Rightarrow> message \<Rightarrow> ('w, reply) prog)) list" where
  "stateRegistry service =
     [(StateIdle, handleIdle service),
      (StateWaitingForURLTrack, handleWaitingForURLTrack service),
      (StateWaitingForTags, handleWaitingForTags service),
      (StateWaitingForURLUntrack, handleWaitingForURLUntrack service)]"

definition HandleMessage :: "'w dialog_service \<Rightarrow> message \<Rightarrow> ('w, reply) prog" where
  "HandleMessage service msg =
     ehandle (se_GetOrCreate (dl_sessionRepo service) (mg_ChatID msg))
       (\<lambda>err. say_error ''Something went wrong while getting your session'' err) (\<lambda>session.
     case map_of (stateRegistry service) (ss_State session) of
       None \<Rightarrow>
         let answer = say_error ''Unknown state. Process reset. Please send a command'' (Sentinel B_ErrBadSessionState) in
         ehandle (se_Save (dl_sessionRepo service) (session_Reset session)) (\<lambda>_. answer) (\<lambda>_. answer)
     | Some handler \<Rightarrow> handler session msg)"

subsection \<open>One message\<close>

text \<open>The poller's \<open>handleMessage\<close>. \<open>pl_SendMessage\<close> is the Telegram client's operation.\<close>

record 'w poller =
  pl_commandService :: "'w command_service"
  pl_dialogService :: "'w dialog_service"
  pl_SendMessage :: "i64 \<Rightarrow> string \<Rightarrow> ('w, unit) prog"

definition try_again_later :: string where
  "try_again_later = ''Something went wrong. Try again later.'' @ [CHR 0xEF, CHR 0xB8, CHR 0x8F]"

definition process_message :: "'w poller \<Rightarrow> message \<Rightarrow> ('w, reply) prog" where
  "process_message poller msg =
     (if IsCommand msg then HandleCommand (pl_commandService poller) msg
      else HandleMessage (pl_dialogService poller) msg)"

definition final_text :: "reply \<Rightarrow> string" where
  "final_text = (\<lambda>(response, processErr). if processErr \<noteq> None \<and> response = '''' then try_again_later else response)"

definition handleMessage :: "'w poller \<Rightarrow> message \<Rightarrow> ('w, unit) prog" where
  "handleMessage poller msg =
     ebind (process_message poller msg) (\<lambda>answer.
       if final_text answer \<noteq> '''' then pl_SendMessage poller (mg_ChatID msg) (final_text answer) else eret ())"

subsection \<open>The wiring\<close>

text \<open>\<open>buildCommands\<close> of \<open>bot/application/app.go\<close>: \<open>/help\<close> lists all commands, itself included.\<close>

definition buildCommands :: "'w link_api \<Rightarrow> 'w session_repo \<Rightarrow> 'w command list" where
  "buildCommands scrapper sessionRepo =
     (let cmds = \<lambda>helpCommand. [helpCommand, StartCommand scrapper, ListCommand scrapper, TrackCommand sessionRepo,
            UntrackCommand sessionRepo, CancelCommand sessionRepo] in
      cmds (HelpCommand (map command_info (cmds (HelpCommand [])))))"

text \<open>The services and the poller that \<open>NewApp\<close> builds.\<close>

definition bot_poller :: "'w link_api \<Rightarrow> 'w session_repo \<Rightarrow> (i64 \<Rightarrow> string \<Rightarrow> ('w, unit) prog) \<Rightarrow> 'w poller" where
  "bot_poller scrapper sessionRepo SendMessage =
     \<lparr>pl_commandService = NewCommandService (buildCommands scrapper sessionRepo),
      pl_dialogService = \<lparr>dl_scrapper = scrapper, dl_sessionRepo = sessionRepo\<rparr>,
      pl_SendMessage = SendMessage\<rparr>"

text \<open>\<open>buildScrapperClient\<close>: the client of the configured protocol over a transport or a stub.\<close>

definition buildScrapperClient :: "string \<Rightarrow> 'w scrapper_client \<Rightarrow> 'w grpc_stub \<Rightarrow> goerr + 'w link_api" where
  "buildScrapperClient protocol client stub =
     (if protocol = ''http'' then Inr (http_client_api client)
      else if protocol = ''grpc'' then Inr (grpc_client_api stub)
      else Inl (NewErr (''unsupported protocol: '' @ protocol)))"

text \<open>The poller's loop over a batch: the error of a message is logged and the next one is handled.\<close>

fun handle_updates :: "'w poller \<Rightarrow> message list \<Rightarrow> 'w \<Rightarrow> 'w" where
  "handle_updates poller [] w = w"
| "handle_updates poller (update # updates) w = handle_updates poller updates (snd (handleMessage poller update w))"

end
