(* ===== verification/Bot_Moves.thy ===== *)
theory Bot_Moves
  imports Session_Effects Bot_Dialog Http_Api_Props
begin

text \<open>
  The bot's conversation as a state machine: whatever fails, one message moves the session of its chat
  along one edge of the dialogue and touches no other session. The scrapper is any implementation of
  its interface that leaves the sessions alone, as the subscription service does.
\<close>

subsection \<open>The scrapper leaves the sessions alone\<close>

definition same_sessions :: "pgdb \<Rightarrow> pgdb \<Rightarrow> bool" where
  "same_sessions d d' \<longleftrightarrow> db_sessions d' = db_sessions d"

interpretation sessions: state_preorder same_sessions
  by unfold_locales (simp_all add: same_sessions_def)

lemma same_sessions_batch:
  assumes "\<And>x. keeps same_sessions (f x)"
  shows "keeps same_sessions (batch_as_stmt f xs wrap)"
proof -
  have "db_sessions (snd (batch_stmt f xs d)) = db_sessions d" for d
  proof (induction xs arbitrary: d)
    case (Cons x xs)
    obtain r d' where f: "f x d = (r, d')" by (cases "f x d")
    then have "db_sessions d' = db_sessions d" using keepsD [OF assms f] by (simp add: same_sessions_def)
    with Cons [of d'] f show ?case by (cases r) auto
  qed simp
  then show ?thesis
    by (intro keepsI) (auto simp: batch_as_stmt_def same_sessions_def rollback_to_def split: prod.splits option.splits,
      metis snd_conv)
qed

lemma same_sessions_stmts:
  "keeps same_sessions (chat_get c)" "keeps same_sessions (link_by_url u)" "keeps same_sessions (link_save f k)"
  "keeps same_sessions (sub_exists c l)" "keeps same_sessions (sub_delete c l)" "keeps same_sessions (insert_sub c l)"
  "keeps same_sessions (insert_tag b c l t)" "keeps same_sessions (subs_by_chat order c)" "keeps same_sessions (link_get i)"
  by (auto intro!: keepsI simp: same_sessions_def chat_get_def link_by_url_def link_save_def upsert_link_def sub_exists_def
      sub_delete_def insert_sub_def insert_tag_def subs_by_chat_def link_get_def Let_def
      split: if_splits option.splits sum.splits)

lemma same_sessions_transactions:
  "keeps same_sessions (add_link_stmt stamp now c u ts)" "keeps same_sessions (remove_link_stmt c u)"
  "keeps same_sessions (list_links_stmt order c)"
  unfolding add_link_stmt_def remove_link_stmt_def list_links_stmt_def find_or_create_def sub_save_def insert_tags_def
  by (intro sessions.keeps_rules same_sessions_stmts same_sessions_batch)+

lemma tx_outcome_sessions:
  assumes "tx_outcome a w r w'" and "keeps same_sessions a"
  shows "same_sessions (w_db w) (w_db w')"
proof -
  have "same_sessions (w_db w) (w_db w')" if "a (w_db w) = (x, w_db w')" for x
    by (rule keepsD [OF assms(2) that])
  with assms(1) show ?thesis
    by (auto simp: tx_outcome_def same_tables_iff same_sessions_def split: sum.splits)
qed

text \<open>A call that leaves the sessions alone.\<close>

definition leaves_sessions :: "('a world_scheme, 'b) prog \<Rightarrow> bool" where
  "leaves_sessions m \<longleftrightarrow> (\<forall>w r w'. at_rest w \<longrightarrow> m w = (r, w') \<longrightarrow> frame w w' \<and> same_sessions (w_db w) (w_db w'))"

lemma leaves_sessionsD:
  "leaves_sessions m \<Longrightarrow> at_rest w \<Longrightarrow> m w = (r, w') \<Longrightarrow> frame w w' \<and> same_sessions (w_db w) (w_db w')"
  by (simp add: leaves_sessions_def)

definition session_blind :: "'a world_scheme link_api \<Rightarrow> bool" where
  "session_blind A \<longleftrightarrow> (\<forall>c u ts. leaves_sessions (la_RegisterChat A c) \<and> leaves_sessions (la_GetTrackedLinks A c)
     \<and> leaves_sessions (la_AddLink A c u ts) \<and> leaves_sessions (la_RemoveLink A c u))"

context stores
begin

lemma leaves_tx:
  assumes "\<And>w r w'. at_rest w \<Longrightarrow> m w = (r, w') \<Longrightarrow> tx_outcome (a w) w r w'" and "\<And>w. keeps same_sessions (a w)"
  shows "leaves_sessions m"
  unfolding leaves_sessions_def
proof (intro allI impI)
  fix w r w'
  assume "at_rest w" and "m w = (r, w')"
  then have o: "tx_outcome (a w) w r w'" by (rule assms(1))
  then show "frame w w' \<and> same_sessions (w_db w) (w_db w')"
    using tx_outcome_sessions [OF o assms(2)] by (simp add: tx_outcome_def)
qed

lemma service_leaves_sessions:
  "leaves_sessions (GetTrackedLinks svc c)" "leaves_sessions (AddLink svc c u ts)" "leaves_sessions (RemoveLink svc c u)"
proof -
  show "leaves_sessions (GetTrackedLinks svc c)"
    by (rule leaves_tx [where a = "\<lambda>w. list_links_stmt (order w) c"])
       (auto simp: at_rest_def same_sessions_transactions intro: GetTrackedLinks_outcome)
  show "leaves_sessions (RemoveLink svc c u)"
    by (rule leaves_tx [where a = "\<lambda>w. remove_link_stmt c u"])
       (auto simp: at_rest_def same_sessions_transactions intro: RemoveLink_outcome)
  show "leaves_sessions (AddLink svc c u ts)"
  proof (cases "canHandle u")
    case False
    then show ?thesis
      by (auto simp: leaves_sessions_def AddLink_def svc_def frame_refl sessions.Q_refl)
  next
    case True
    have "frame w w' \<and> same_sessions (w_db w) (w_db w')" if rest: "at_rest w" and run: "AddLink svc c u ts w = (r, w')" for w r w'
    proof -
      obtain r0 where o: "tx_outcome (add_link_stmt (w_stamp w) (w_now w) c u ts) w r0 w'"
        using AddLink_outcome [OF _ _ True run] rest unfolding at_rest_def by blast
      with tx_outcome_sessions [OF o same_sessions_transactions(1)] show ?thesis by (simp add: tx_outcome_def)
    qed
    then show ?thesis by (simp add: leaves_sessions_def)
  qed
qed

end

lemma same_sessions_run_stmt: "keeps same_sessions f \<Longrightarrow> run_stmt f w = (r, w') \<Longrightarrow> same_sessions (w_db w) (w_db w')"
  by (auto simp: run_stmt_def run_with_def same_sessions_def keeps_def split: if_splits fault.splits prod.splits sum.splits)
     (metis snd_conv)+

subsection \<open>The wired scrapper, behind either protocol\<close>

definition db_sessions_kept :: "'a world_scheme \<Rightarrow> 'a world_scheme \<Rightarrow> bool" where
  "db_sessions_kept w w' \<longleftrightarrow> same_sessions (w_db w) (w_db w')"

interpretation kept: state_preorder db_sessions_kept
  by unfold_locales (auto simp: db_sessions_kept_def intro: sessions.Q_refl sessions.Q_trans)

lemma register_kept:
  assumes "buildRepos accessType = Inr repos"
  shows "keeps db_sessions_kept (RegisterChat (NewService repos h) c)"
proof -
  have "keeps db_sessions_kept (run_stmt (insert_chat c))"
    by (rule keepsI, unfold db_sessions_kept_def, rule same_sessions_run_stmt)
       (auto intro: keepsI simp: insert_chat_def same_sessions_def split: if_splits)
  moreover have "keeps db_sessions_kept (to_sql msg)" for msg
    by (rule keepsI) (simp add: db_sessions_kept_def same_sessions_def to_sql_aborted)
  ultimately show ?thesis
    using assms
    by (auto simp: buildRepos_def NewService_def RegisterChat_def sql_repo_defs qb_repo_defs
        qb_behind sql_chat_Create_def split: if_splits intro!: kept.keeps_rules)
qed

lemma service_session_blind:
  assumes "buildRepos accessType = Inr repos"
  shows "session_blind (service_api (NewService repos h))"
proof -
  have fr: "keeps frame (RegisterChat (NewService repos h) c)" for c
    using assms
  proof (cases rule: NewService_cases [where h = h])
    case sql
    then show ?thesis by (simp add: implements_frame [OF sql_svc.RegisterChat_implements])
  next
    case builder
    then show ?thesis by (simp add: implements_frame [OF qb_svc.RegisterChat_implements])
  qed
  have "leaves_sessions (RegisterChat (NewService repos h) c)" for c
    using keepsD [OF fr] keepsD [OF register_kept [OF assms]]
    by (fastforce simp: leaves_sessions_def db_sessions_kept_def)
  moreover have "leaves_sessions (GetTrackedLinks (NewService repos h) c)" "leaves_sessions (AddLink (NewService repos h) c u ts)"
      "leaves_sessions (RemoveLink (NewService repos h) c u)" for c u ts
    using assms by (cases rule: NewService_cases [where h = h];
      simp add: sql_svc.service_leaves_sessions qb_svc.service_leaves_sessions)+
  ultimately show ?thesis by (simp add: session_blind_def service_api_def)
qed

lemma leaves_relayed:
  assumes "leaves_sessions m" and "\<And>w. n w = relayed f table other (m w)"
  shows "leaves_sessions n"
  using assms by (auto simp: leaves_sessions_def relayed_def split: prod.splits sum.splits)

lemma http_session_blind:
  assumes "session_blind A" and "hd_service h = A"
  shows "session_blind (http_client_api \<lparr>sl_Do = connected host (api_mux (\<lambda>f. f) h), sl_baseURL = host\<rparr>)"
  unfolding session_blind_def
proof (intro allI conjI)
  fix c u ts
  note A = assms(1) [unfolded session_blind_def, rule_format, folded assms(2)]
  let ?cl = "http_client_api \<lparr>sl_Do = connected host (api_mux (\<lambda>f. f) h), sl_baseURL = host\<rparr>"
  show "leaves_sessions (la_RegisterChat ?cl c)" by (rule leaves_relayed [OF A [THEN conjunct1] http_relay(1)])
  show "leaves_sessions (la_GetTrackedLinks ?cl c)"
    by (rule leaves_relayed [OF A [THEN conjunct2, THEN conjunct1] http_relay(3)])
  show "leaves_sessions (la_AddLink ?cl c u ts)"
    by (rule leaves_relayed [OF A [THEN conjunct2, THEN conjunct2, THEN conjunct1] http_relay(4)])
  show "leaves_sessions (la_RemoveLink ?cl c u)"
    by (rule leaves_relayed [OF A [THEN conjunct2, THEN conjunct2, THEN conjunct2] http_relay(5)])
qed

subsection \<open>The edges of the dialogue\<close>

inductive session_move :: "message \<Rightarrow> session option \<Rightarrow> session option \<Rightarrow> bool" for msg where
  stay: "session_move msg so so"
| create: "session_move msg None (Some (new_session (mg_ChatID msg)))"
| track: "fst (ParseCommand msg) = ''track'' \<Longrightarrow>
    session_move msg so (Some \<lparr>ss_ChatID = mg_ChatID msg, ss_State = StateWaitingForURLTrack, ss_URL = ''''\<rparr>)"
| untrack: "fst (ParseCommand msg) = ''untrack'' \<Longrightarrow>
    session_move msg so (Some \<lparr>ss_ChatID = mg_ChatID msg, ss_State = StateWaitingForURLUntrack, ss_URL = ''''\<rparr>)"
| cancel: "fst (ParseCommand msg) = ''cancel'' \<Longrightarrow> session_move msg so None"
| url: "\<not> IsCommand msg \<Longrightarrow> ss_State s = StateWaitingForURLTrack \<Longrightarrow> trim_space (mg_Text msg) \<noteq> '''' \<Longrightarrow>
    session_move msg (Some s) (Some (s\<lparr>ss_URL := trim_space (mg_Text msg), ss_State := StateWaitingForTags\<rparr>))"
| finish: "\<not> IsCommand msg \<Longrightarrow> ss_State s \<in> {StateWaitingForTags, StateWaitingForURLUntrack} \<Longrightarrow>
    session_move msg (Some s) (Some (new_session (ss_ChatID s)))"
| repair: "\<not> IsCommand msg \<Longrightarrow> ss_State s \<notin> set session_states \<Longrightarrow>
    session_move msg (Some s) (Some (new_session (ss_ChatID s)))"

inductive_cases session_moveE: "session_move msg so so'"

text \<open>A move of one chat's session, the others untouched.\<close>

definition moves :: "message \<Rightarrow> 'a world_scheme \<Rightarrow> 'a world_scheme \<Rightarrow> bool" where
  "moves msg w w' \<longleftrightarrow> frame w w' \<and> (\<exists>so. session_of (w_db w') = (session_of (w_db w))(mg_ChatID msg := so)
     \<and> session_move msg (session_of (w_db w) (mg_ChatID msg)) so)"

lemma movesI:
  assumes "frame w w'" and "session_of (w_db w') = (session_of (w_db w))(mg_ChatID msg := so)"
    and "session_move msg (session_of (w_db w) (mg_ChatID msg)) so"
  shows "moves msg w w'"
  using assms unfolding moves_def by blast

lemma moves_same: "frame w w' \<Longrightarrow> session_of (w_db w') = session_of (w_db w) \<Longrightarrow> moves msg w w'"
  by (rule movesI [OF _ _ session_move.stay]) auto

lemma Reset_eq: "session_Reset s = new_session (ss_ChatID s)"
  by (cases s) (simp add: session_Reset_def new_session_def)

locale dialogue = session_store R
  for R :: "'a world_scheme session_repo" +
  fixes A :: "'a world_scheme link_api"
  assumes blind: "session_blind A"
begin

lemma say_run [simp]: "say t w = (Inr (t, None), w)" "say_error t e w = (Inr (t, Some e), w)"
  by (simp_all add: say_def say_error_def)

lemma enter_moves:
  assumes "at_rest w" and "enter_Execute st ans R msg w = (r, w')"
    and st: "\<And>so. session_move msg so (Some \<lparr>ss_ChatID = mg_ChatID msg, ss_State = st, ss_URL = ''''\<rparr>)"
  shows "moves msg w w'"
  using assms(2) unfolding enter_Execute_def
proof (cases rule: ehandle_cases)
  case (fail e w1)
  then show ?thesis
    using get_rests(1,3) [OF assms(1) fail(1)] session_move.create [of msg]
    by (auto intro: moves_same movesI)
next
  case (ok s w1)
  note g = get_rests [OF assms(1) ok(1)]
  have key: "ss_ChatID s = mg_ChatID msg" by (rule session_key [OF g(4) [OF refl]])
  let ?s = "(session_Reset s)\<lparr>ss_State := st\<rparr>"
  have t: "?s = \<lparr>ss_ChatID = mg_ChatID msg, ss_State = st, ss_URL = ''''\<rparr>"
    using key by (simp add: Reset_eq new_session_def)
  obtain r2 w2 where sv: "se_Save R ?s w1 = (r2, w2)" by (cases "se_Save R ?s w1")
  have w': "w' = w2" using ok(2) sv by (cases r2) simp_all
  note v = save_rests [OF g(2) sv]
  have fr: "frame w w2" by (rule frame_trans [OF g(1) v(1)])
  from v(3) show ?thesis
  proof
    assume "session_of (w_db w2) = session_of (w_db w1)"
    with g(3) fr w' session_move.create [of msg] show ?thesis by (auto intro: moves_same movesI)
  next
    assume "session_of (w_db w2) = (session_of (w_db w1))(ss_ChatID ?s \<mapsto> ?s)"
    with g(3) have "session_of (w_db w2) = (session_of (w_db w))(mg_ChatID msg := Some ?s)"
      by (auto simp: t)
    with fr w' st show ?thesis by (auto simp: t intro: movesI)
  qed
qed

lemma cancel_moves:
  assumes "at_rest w" and "cancel_Execute R msg w = (r, w')" and "fst (ParseCommand msg) = ''cancel''"
  shows "moves msg w w'"
proof -
  obtain r1 w1 where d: "se_Delete R (mg_ChatID msg) w = (r1, w1)" by (cases "se_Delete R (mg_ChatID msg) w")
  then have "w' = w1" using assms(2) by (cases r1) (auto simp: cancel_Execute_def split: if_splits)
  with delete_rests(1,3) [OF assms(1) d] session_move.cancel [OF assms(3)] show ?thesis
    by (auto intro: moves_same movesI)
qed

lemma blind_same: "leaves_sessions m \<Longrightarrow> at_rest w \<Longrightarrow> m w = (r, w') \<Longrightarrow>
   frame w w' \<and> at_rest w' \<and> session_of (w_db w') = session_of (w_db w)"
  by (drule (2) leaves_sessionsD) (auto simp: at_rest_frame same_sessions_def session_of_def)

lemmas blind_calls = blind [unfolded session_blind_def, rule_format, THEN conjunct1]
  blind [unfolded session_blind_def, rule_format, THEN conjunct2, THEN conjunct1]
  blind [unfolded session_blind_def, rule_format, THEN conjunct2, THEN conjunct2, THEN conjunct1]
  blind [unfolded session_blind_def, rule_format, THEN conjunct2, THEN conjunct2, THEN conjunct2]

lemma start_moves:
  assumes "at_rest w" and "start_Execute A msg w = (r, w')"
  shows "moves msg w w'"
proof -
  obtain r1 w1 where d: "la_RegisterChat A (mg_ChatID msg) w = (r1, w1)" by (cases "la_RegisterChat A (mg_ChatID msg) w")
  then have "w' = w1" using assms(2) by (cases r1) (auto simp: start_Execute_def split: if_splits)
  with blind_same [OF blind_calls(1) assms(1) d] show ?thesis by (auto intro: moves_same)
qed

lemma list_moves:
  assumes "at_rest w" and "list_Execute A msg w = (r, w')"
  shows "moves msg w w'"
proof -
  obtain r1 w1 where d: "la_GetTrackedLinks A (mg_ChatID msg) w = (r1, w1)" by (cases "la_GetTrackedLinks A (mg_ChatID msg) w")
  then have "w' = w1" using assms(2) by (cases r1) (auto simp: list_Execute_def Let_def split: if_splits)
  with blind_same [OF blind_calls(2) assms(1) d] show ?thesis by (auto intro: moves_same)
qed

end

context dialogue
begin

abbreviation service :: "'a world_scheme dialog_service" where
  "service \<equiv> \<lparr>dl_scrapper = A, dl_sessionRepo = R\<rparr>"

text \<open>The handler of a state, run with the session it was given.\<close>

definition handler_moves :: "message \<Rightarrow> session \<Rightarrow> 'a world_scheme \<Rightarrow> 'a world_scheme \<Rightarrow> bool" where
  "handler_moves msg s w w' \<longleftrightarrow> frame w w' \<and> (\<exists>so. session_of (w_db w') = (session_of (w_db w))(mg_ChatID msg := so)
     \<and> (so = Some s \<or> session_move msg (Some s) so))"

lemma handler_same:
  "frame w w' \<Longrightarrow> session_of (w_db w') = session_of (w_db w) \<Longrightarrow> session_of (w_db w) (mg_ChatID msg) = Some s \<Longrightarrow>
   handler_moves msg s w w'"
  unfolding handler_moves_def by (metis fun_upd_triv)

lemma save_moves:
  assumes "at_rest w" and "session_of (w_db w) (mg_ChatID msg) = Some s" and "ss_ChatID s' = mg_ChatID msg"
    and "session_move msg (Some s) (Some s')" and "se_Save R s' w = (r, w')"
  shows "handler_moves msg s w w'"
  using save_rests(1,3) [OF assms(1,5)] assms(2-4) handler_same unfolding handler_moves_def by metis

lemma reset_moves:
  assumes "at_rest w" and "leaves_sessions m" and "session_of (w_db w) (mg_ChatID msg) = Some s"
    and "session_move msg (Some s) (Some (new_session (ss_ChatID s)))"
    and "ehandle m (\<lambda>e. efail' e) (\<lambda>x. ehandle (se_Save R (session_Reset s)) (\<lambda>e. say_error t e) (\<lambda>_. say t')) w = (r, w')"
    and "\<And>e w. snd (efail' e w) = w"
  shows "handler_moves msg s w w'"
  using assms(5)
proof (cases rule: ehandle_cases)
  case (fail e w1)
  then have "w' = w1" using assms(6) [of e w1] by simp
  with blind_same [OF assms(2,1) fail(1)] assms(3) show ?thesis by (auto intro: handler_same)
next
  case (ok x w1)
  note b = blind_same [OF assms(2,1) ok(1)]
  have key: "ss_ChatID s = mg_ChatID msg" by (rule session_key [OF assms(3)])
  obtain r2 w2 where sv: "se_Save R (session_Reset s) w1 = (r2, w2)" by (cases "se_Save R (session_Reset s) w1")
  have w': "w' = w2" using ok(2) sv by (cases r2) simp_all
  have "handler_moves msg s w1 w2"
    by (rule save_moves [OF _ _ _ _ sv]) (use b assms(3,4) key in \<open>simp_all add: Reset_eq new_session_def\<close>)
  with b w' show ?thesis unfolding handler_moves_def by (auto intro: frame_trans)
qed

lemma handlers_move:
  assumes rest: "at_rest w" and s: "session_of (w_db w) (mg_ChatID msg) = Some s" and nc: "\<not> IsCommand msg"
    and f: "map_of (stateRegistry service) (ss_State s) = Some f" and run: "f s msg w = (r, w')"
  shows "handler_moves msg s w w'"
proof -
  have key: "ss_ChatID s = mg_ChatID msg" by (rule session_key [OF s])
  consider (idle) "f = handleIdle service" | (url) "f = handleWaitingForURLTrack service" "ss_State s = StateWaitingForURLTrack"
    | (tags) "f = handleWaitingForTags service" "ss_State s = StateWaitingForTags"
    | (untrack) "f = handleWaitingForURLUntrack service" "ss_State s = StateWaitingForURLUntrack"
    using f by (auto simp: stateRegistry_def split: if_splits)
  then show ?thesis
  proof cases
    case idle
    with run s show ?thesis by (auto simp: handleIdle_def frame_refl intro: handler_same)
  next
    case url
    let ?s = "s\<lparr>ss_URL := trim_space (mg_Text msg), ss_State := StateWaitingForTags\<rparr>"
    show ?thesis
    proof (cases "trim_space (mg_Text msg) = ''''")
      case True
      with url run s show ?thesis by (auto simp: handleWaitingForURLTrack_def frame_refl intro: handler_same)
    next
      case False
      obtain r2 w2 where sv: "se_Save R ?s w = (r2, w2)" by (cases "se_Save R ?s w")
      with url run False have "w' = w2" by (cases r2) (simp_all add: handleWaitingForURLTrack_def)
      with save_moves [OF rest s _ session_move.url [OF nc url(2) False] sv] key show ?thesis by simp
    qed
  next
    case tags
    have mv: "session_move msg (Some s) (Some (new_session (ss_ChatID s)))"
      using nc tags(2) by (intro session_move.finish) auto
    show ?thesis
      by (rule reset_moves [OF rest blind_calls(3) s mv run [unfolded tags(1) handleWaitingForTags_def dialog_service.simps]])
         simp
  next
    case untrack
    have mv: "session_move msg (Some s) (Some (new_session (ss_ChatID s)))"
      using nc untrack(2) by (intro session_move.finish) auto
    show ?thesis
    proof (cases "trim_space (mg_Text msg) = ''''")
      case True
      with untrack run s show ?thesis by (auto simp: handleWaitingForURLUntrack_def frame_refl intro: handler_same)
    next
      case False
      show ?thesis
        by (rule reset_moves [OF rest blind_calls(4) s mv
              run [unfolded untrack(1) handleWaitingForURLUntrack_def Let_def dialog_service.simps if_not_P [OF False]]])
           simp
    qed
  qed
qed

end

lemma no_command: "\<not> IsCommand msg \<Longrightarrow> fst (ParseCommand msg) = ''''"
  by (simp add: ParseCommand_def)

lemma idle_stays: "session_move msg (Some (new_session c)) so \<Longrightarrow> \<not> IsCommand msg \<Longrightarrow> so = Some (new_session c)"
  by (erule session_moveE) (auto simp: no_command new_session_def session_state_defs session_states_def)

lemma registered_states: "map_of (stateRegistry svc) st = None \<longleftrightarrow> st \<notin> set session_states"
  by (auto simp: stateRegistry_def session_states_def session_state_defs map_of_eq_None_iff)

lemma bot_commands:
  "NewCommandService (buildCommands A R) =
     map (\<lambda>c. (cmd_Name c, c)) (buildCommands A R)"
  by (simp add: NewCommandService_def buildCommands_def Let_def HelpCommand_def StartCommand_def ListCommand_def
      TrackCommand_def UntrackCommand_def CancelCommand_def)

lemma bot_command_names:
  "map cmd_Name (buildCommands A R) = [''help'', ''start'', ''list'', ''track'', ''untrack'', ''cancel'']"
  by (simp add: buildCommands_def Let_def HelpCommand_def StartCommand_def ListCommand_def
      TrackCommand_def UntrackCommand_def CancelCommand_def)

context dialogue
begin

lemma dialog_moves:
  assumes rest: "at_rest w" and nc: "\<not> IsCommand msg" and run: "HandleMessage service msg w = (r, w')"
  shows "moves msg w w'"
  using run unfolding HandleMessage_def dialog_service.simps
proof (cases rule: ehandle_cases)
  case (fail e w1)
  then show ?thesis
    using get_rests(1,3) [OF rest fail(1)] session_move.create [of msg]
    by (auto intro: moves_same movesI)
next
  case (ok s w1)
  note g = get_rests [OF rest ok(1)]
  note s = g(4) [OF refl]
  have "handler_moves msg s w1 w'"
  proof (cases "map_of (stateRegistry service) (ss_State s)")
    case (Some f)
    with ok(2) handlers_move [OF g(2) s nc Some] show ?thesis by simp
  next
    case None
    obtain r2 w2 where sv: "se_Save R (session_Reset s) w1 = (r2, w2)" by (cases "se_Save R (session_Reset s) w1")
    with ok(2) None have "w' = w2" by (cases r2) (simp_all add: Let_def)
    moreover have "session_move msg (Some s) (Some (new_session (ss_ChatID s)))"
      using None nc by (intro session_move.repair) (simp_all only: registered_states not_False_eq_True)
    ultimately show ?thesis
      using save_moves [OF g(2) s _ _ sv] session_key [OF s] by (simp add: Reset_eq new_session_def)
  qed
  then obtain so where fr: "frame w1 w'" and so: "session_of (w_db w') = (session_of (w_db w1))(mg_ChatID msg := so)"
    and mv: "so = Some s \<or> session_move msg (Some s) so"
    unfolding handler_moves_def by blast
  have fr: "frame w w'" by (rule frame_trans [OF g(1) fr])
  from g(3) show ?thesis
  proof
    assume "session_of (w_db w1) = session_of (w_db w)"
    with fr so mv s show ?thesis by (intro movesI [of w w' msg so]) (auto intro: session_move.stay)
  next
    assume n: "session_of (w_db w) (mg_ChatID msg) = None
      \<and> session_of (w_db w1) = (session_of (w_db w))(mg_ChatID msg \<mapsto> new_session (mg_ChatID msg))"
    with s have "s = new_session (mg_ChatID msg)" by simp
    with mv idle_stays [OF _ nc] have "so = Some (new_session (mg_ChatID msg))" by auto
    with fr so n session_move.create [of msg] show ?thesis by (intro movesI [of w w' msg so]) auto
  qed
qed

lemma command_moves:
  assumes rest: "at_rest w" and run: "HandleCommand (NewCommandService (buildCommands A R)) msg w = (r, w')"
  shows "moves msg w w'"
proof (cases "fst (ParseCommand msg) = '''' \<or> map_of (NewCommandService (buildCommands A R)) (fst (ParseCommand msg)) = None")
  case True
  with run show ?thesis by (auto simp: HandleCommand_def Let_def split: if_splits intro!: moves_same frame_refl)
next
  case False
  then obtain cmd where cmd: "map_of (NewCommandService (buildCommands A R)) (fst (ParseCommand msg)) = Some cmd"
    by auto
  then have c: "cmd \<in> set (buildCommands A R)" "cmd_Name cmd = fst (ParseCommand msg)"
    by (auto simp: bot_commands dest!: map_of_SomeD)
  from run False cmd obtain r1 where ex: "cmd_Execute cmd msg w = (r1, w')"
    by (cases "cmd_Execute cmd msg w"; cases "fst (cmd_Execute cmd msg w)")
       (auto simp: HandleCommand_def Let_def split: option.splits)
  have en: "moves msg w w'" if "enter_Execute st ans R msg w = (r1, w')"
      "\<And>so. session_move msg so (Some \<lparr>ss_ChatID = mg_ChatID msg, ss_State = st, ss_URL = ''''\<rparr>)" for st ans
    by (rule enter_moves [OF rest that])
  have hlp: "moves msg w w'" if "help_Execute infos msg w = (r1, w')" for infos
    using that by (auto simp: help_Execute_def intro!: moves_same frame_refl)
  from c ex show ?thesis
    by (auto simp: buildCommands_def Let_def HelpCommand_def StartCommand_def ListCommand_def TrackCommand_def
        UntrackCommand_def CancelCommand_def track_Execute_def untrack_Execute_def
        intro: hlp start_moves [OF rest] list_moves [OF rest] cancel_moves [OF rest]
          session_move.track [OF sym] session_move.untrack [OF sym]
        elim!: en)
qed

lemma process_moves:
  assumes "at_rest w" and "process_message (bot_poller A R send) msg w = (r, w')"
  shows "moves msg w w'"
  using assms dialog_moves [OF assms(1)] command_moves [OF assms(1)]
  by (auto simp: process_message_def bot_poller_def split: if_splits)

end

end
