(* ===== verification/Bot_Dialog_Props.thy ===== *)
theory Bot_Dialog_Props
  imports Bot_Moves
begin

text \<open>
  The bot's conversation in front of the real scrapper: every history of messages keeps every session
  well formed and moves only the sessions of the chats that wrote; and the dialogue
  of \<open>/track\<close> ends with exactly the link tracked that the user named.
\<close>

subsection \<open>Calls over gRPC\<close>

lemma leaves_rules:
  shows leaves_eret: "leaves_sessions (eret x)" and leaves_efail: "leaves_sessions (efail e)"
    and leaves_ehandle: "leaves_sessions m \<Longrightarrow> (\<And>e. leaves_sessions (g e)) \<Longrightarrow> (\<And>x. leaves_sessions (f x)) \<Longrightarrow> leaves_sessions (ehandle m g f)"
    and leaves_if: "leaves_sessions m \<Longrightarrow> leaves_sessions n \<Longrightarrow> leaves_sessions (if b then m else n)"
proof -
  show "leaves_sessions (eret x)" and "leaves_sessions (efail e)"
    by (auto simp: leaves_sessions_def frame_refl sessions.Q_refl)
  show "leaves_sessions (if b then m else n)" if "leaves_sessions m" "leaves_sessions n" using that by simp
  assume m: "leaves_sessions m" and g: "\<And>e. leaves_sessions (g e)" and f: "\<And>x. leaves_sessions (f x)"
  show "leaves_sessions (ehandle m g f)"
    unfolding leaves_sessions_def
  proof (intro allI impI)
    fix w r w'
    assume rest: "at_rest w" and "ehandle m g f w = (r, w')"
    from this(2) show "frame w w' \<and> same_sessions (w_db w) (w_db w')"
    proof (cases rule: ehandle_cases)
      case (fail e w1)
      note a = leaves_sessionsD [OF m rest fail(1)]
      from leaves_sessionsD [OF g at_rest_frame [OF a [THEN conjunct1] rest] fail(2)] a show ?thesis
        by (auto intro: frame_trans sessions.Q_trans)
    next
      case (ok x w1)
      note a = leaves_sessionsD [OF m rest ok(1)]
      from leaves_sessionsD [OF f at_rest_frame [OF a [THEN conjunct1] rest] ok(2)] a show ?thesis
        by (auto intro: frame_trans sessions.Q_trans)
    qed
  qed
qed

lemma grpc_session_blind:
  assumes "session_blind (hd_service h)"
  shows "session_blind (grpc_client_api (grpc_connected h))"
  using assms unfolding session_blind_def
  by (auto simp: grpc_client_api_def grpc_connected_def marshalled_def ebind_def gclient_RegisterChat_def
      gclient_GetTrackedLinks_def gclient_AddLink_def gclient_RemoveLink_def grpc_RegisterChat_def grpc_GetLinks_def
      grpc_AddLink_def grpc_RemoveLink_def intro!: leaves_rules)

text \<open>The scrapper's service behind the bot's client of either protocol.\<close>

definition wired_scrapper ::
    "string \<Rightarrow> string \<Rightarrow> (goerr \<Rightarrow> string) \<Rightarrow> 'a world_scheme service \<Rightarrow> goerr + 'a world_scheme link_api" where
  "wired_scrapper protocol host text svc =
     (let h = \<lparr>hd_service = service_api svc, hd_Error = text\<rparr> in
      buildScrapperClient protocol \<lparr>sl_Do = connected host (api_mux (\<lambda>f. f) h), sl_baseURL = host\<rparr> (grpc_connected h))"

lemma wired_session_blind:
  assumes "buildRepos accessType = Inr repos" and "wired_scrapper protocol host text (NewService repos h) = Inr A"
  shows "session_blind A"
  using assms(2) http_session_blind [OF service_session_blind [OF assms(1)]] grpc_session_blind service_session_blind [OF assms(1)]
  by (auto simp: wired_scrapper_def buildScrapperClient_def Let_def split: if_splits intro: grpc_session_blind)

lemma wired_dialogue:
  assumes "buildRepos accessType = Inr repos" and "wired_scrapper protocol host text (NewService repos h) = Inr A"
    and "bot_buildRepos accessType' = Inr R"
  shows "dialogue R A"
  using bot_buildRepos_store [OF assms(3)] wired_session_blind [OF assms(1,2)]
  by (simp add: dialogue_def dialogue_axioms_def)

interpretation sql_dialogue: dialogue sql_session_repo "service_api (NewService (sql_chat_repo, sql_link_repo, sql_sub_repo) canHandle)"
  for canHandle
  by (simp add: dialogue_def dialogue_axioms_def sql_sessions.session_store_axioms service_session_blind [of "''SQL''"] buildRepos_def)

interpretation qb_dialogue: dialogue qb_session_repo "service_api (NewService (qb_chat_repo, qb_link_repo, qb_sub_repo) canHandle)"
  for canHandle
  by (simp add: dialogue_def dialogue_axioms_def qb_sessions.session_store_axioms service_session_blind [of "''BUILDER''"] buildRepos_def)

subsection \<open>Histories\<close>

text \<open>Sending a text to Telegram does not touch the database.\<close>

definition quiet :: "(i64 \<Rightarrow> string \<Rightarrow> ('a world_scheme, unit) prog) \<Rightarrow> bool" where
  "quiet send \<longleftrightarrow> (\<forall>c t w. world.truncate (snd (send c t w)) = world.truncate w)"

text \<open>A session in a known state that has a link exactly while it waits for tags.\<close>

definition session_ok :: "session \<Rightarrow> bool" where
  "session_ok s \<longleftrightarrow> ss_State s \<in> set session_states \<and> (ss_State s = StateWaitingForTags \<longleftrightarrow> ss_URL s \<noteq> '''')"

lemma session_move_ok:
  assumes "session_move msg so so'" and "\<And>s. so = Some s \<Longrightarrow> session_ok s" and "so' = Some s'"
  shows "session_ok s'"
  using assms
  by cases (auto simp: session_ok_def new_session_def session_states_def session_state_defs)

lemma truncated_rest:
  assumes "world.truncate w' = world.truncate w"
  shows "w_db w' = w_db w" and "at_rest w' = at_rest w"
proof -
  have "w_db w' = w_db w" "w_tx w' = w_tx w" "w_map_order w' = w_map_order w"
    using assms by (cases w; cases w'; simp add: world.truncate_def)+
  then show "w_db w' = w_db w" and "at_rest w' = at_rest w"
    by (simp_all add: at_rest_def in_tx_def map_order_ok_def)
qed

context dialogue
begin

lemma handle_moves:
  assumes "at_rest w" and "quiet send" and "handleMessage (bot_poller A R send) msg w = (r, w')"
  obtains so where "at_rest w'" and "session_of (w_db w') = (session_of (w_db w))(mg_ChatID msg := so)"
    and "session_move msg (session_of (w_db w) (mg_ChatID msg)) so"
proof -
  obtain r1 w1 where p: "process_message (bot_poller A R send) msg w = (r1, w1)"
    by (cases "process_message (bot_poller A R send) msg w")
  note m = process_moves [OF assms(1) p]
  have "at_rest w1" using m assms(1) at_rest_frame by (auto simp: moves_def)
  have "w' = w1 \<or> (\<exists>c t. w' = snd (send c t w1))"
    using assms(3) p by (cases r1) (auto simp: handleMessage_def bot_poller_def split: if_splits, metis snd_conv)
  then have "world.truncate w' = world.truncate w1" using assms(2) by (auto simp: quiet_def)
  note t = truncated_rest [OF this]
  from m obtain so where "session_of (w_db w1) = (session_of (w_db w))(mg_ChatID msg := so)"
      "session_move msg (session_of (w_db w) (mg_ChatID msg)) so"
    unfolding moves_def by blast
  with \<open>at_rest w1\<close> show thesis by (intro that [of so]) (simp_all only: t)
qed

lemma history_sessions:
  assumes "at_rest w" and "quiet send" and "\<And>c s. session_of (w_db w) c = Some s \<Longrightarrow> session_ok s"
  shows "at_rest (handle_updates (bot_poller A R send) msgs w)
    \<and> (\<forall>c s. session_of (w_db (handle_updates (bot_poller A R send) msgs w)) c = Some s \<longrightarrow> session_ok s)
    \<and> (\<forall>c. c \<notin> mg_ChatID ` set msgs \<longrightarrow>
         session_of (w_db (handle_updates (bot_poller A R send) msgs w)) c = session_of (w_db w) c)"
  using assms(1,3)
proof (induction msgs arbitrary: w)
  case (Cons msg msgs)
  obtain r w1 where h: "handleMessage (bot_poller A R send) msg w = (r, w1)"
    by (cases "handleMessage (bot_poller A R send) msg w")
  obtain so where rest: "at_rest w1" and s: "session_of (w_db w1) = (session_of (w_db w))(mg_ChatID msg := so)"
    and mv: "session_move msg (session_of (w_db w) (mg_ChatID msg)) so"
    by (rule handle_moves [OF Cons.prems(1) assms(2) h])
  have "session_ok s'" if "session_of (w_db w1) c = Some s'" for c s'
    using that s session_move_ok [OF mv] Cons.prems(2) by (cases "c = mg_ChatID msg") auto
  from Cons.IH [OF rest this] h s show ?case by auto
qed simp

end

text \<open>C26. Whatever messages arrive and whatever fails, with the bot wired to the scrapper over either
  protocol and both access types: every stored session is in a known state and has a link exactly
  while it waits for tags, the tables keep their invariant, and chats that did not write keep their
  session.\<close>

theorem bot_history_invariant:
  assumes "buildRepos accessType = Inr repos" and "bot_buildRepos accessType' = Inr R"
    and "wired_scrapper protocol host text (NewService repos canHandle) = Inr A" and "quiet send"
    and "at_rest w" and "\<forall>c s. session_of (w_db w) c = Some s \<longrightarrow> session_ok s"
  shows "at_rest (handle_updates (bot_poller A R send) msgs w)
    \<and> (\<forall>c s. session_of (w_db (handle_updates (bot_poller A R send) msgs w)) c = Some s \<longrightarrow> session_ok s)
    \<and> (\<forall>c. c \<notin> mg_ChatID ` set msgs \<longrightarrow>
         session_of (w_db (handle_updates (bot_poller A R send) msgs w)) c = session_of (w_db w) c)"
  by (rule dialogue.history_sessions [OF wired_dialogue [OF assms(1,3,2)] assms(5,4)]) (use assms(6) in blast)

definition sample_send :: "i64 \<Rightarrow> string \<Rightarrow> (world, unit) prog" where
  "sample_send c t = eret ()"

definition sample_bot :: "world poller" where
  "sample_bot = bot_poller
     (http_client_api \<lparr>sl_Do = connected ''http://scrapper'' (api_mux (\<lambda>f. f)
        \<lparr>hd_service = service_api (NewService (qb_chat_repo, qb_link_repo, qb_sub_repo) (\<lambda>u. True)), hd_Error = (\<lambda>e. '''')\<rparr>),
        sl_baseURL = ''http://scrapper''\<rparr>)
     sql_session_repo sample_send"

lemma sample_bot_wiring:
  "buildRepos ''BUILDER'' = Inr (qb_chat_repo, qb_link_repo, qb_sub_repo)" "bot_buildRepos ''SQL'' = Inr sql_session_repo"
  "wired_scrapper ''http'' ''http://scrapper'' (\<lambda>e. '''') (NewService (qb_chat_repo, qb_link_repo, qb_sub_repo) (\<lambda>u. True)) =
     Inr (http_client_api \<lparr>sl_Do = connected ''http://scrapper'' (api_mux (\<lambda>f. f)
        \<lparr>hd_service = service_api (NewService (qb_chat_repo, qb_link_repo, qb_sub_repo) (\<lambda>u. True)), hd_Error = (\<lambda>e. '''')\<rparr>),
        sl_baseURL = ''http://scrapper''\<rparr>)"
  "quiet sample_send"
  by (simp_all add: buildRepos_def bot_buildRepos_def wired_scrapper_def buildScrapperClient_def quiet_def sample_send_def)

definition text_message :: "i64 \<Rightarrow> string \<Rightarrow> message" where
  "text_message c t = \<lparr>mg_ID = 1, mg_ChatID = c, mg_Text = t\<rparr>"

lemma bot_history_invariant_witness:
  "\<exists>w s. w = handle_updates sample_bot [text_message 7 ''/track'', text_message 7 ''https://github.com/a/b'']
       (sample_world sample_db [])
     \<and> session_of (w_db w) 7 = Some s \<and> ss_State s = StateWaitingForTags \<and> ss_URL s \<noteq> '''' \<and> session_of (w_db w) 9 = None"
proof -
  let ?msgs = "[text_message 7 ''/track'', text_message 7 ''https://github.com/a/b'']"
  let ?w = "handle_updates sample_bot ?msgs (sample_world sample_db [])"
  have none: "session_of (w_db (sample_world sample_db [])) c = None" for c
    by (simp add: session_of_def sample_world_top sample_db_def empty_db_def)
  have ok: "\<forall>c s. session_of (w_db (sample_world sample_db [])) c = Some s \<longrightarrow> session_ok s"
    by (simp add: none)
  have "map_option ss_State (session_of (w_db ?w) 7) = Some StateWaitingForTags" by code_simp
  then obtain s where s: "session_of (w_db ?w) 7 = Some s" "ss_State s = StateWaitingForTags" by auto
  note inv = bot_history_invariant [OF sample_bot_wiring sample_at_rest [OF sample_db_wf, of "[]"],
      OF ok, of ?msgs, folded sample_bot_def]
  have "session_ok s" using inv s(1) by blast
  moreover have "session_of (w_db ?w) 9 = None" using inv none by (simp add: text_message_def)
  ultimately show ?thesis using s by (auto simp: session_ok_def)
qed

end
