(* ===== verification/Bot_Track.thy ===== *)
theory Bot_Track
  imports Bot_Dialog_Props
begin

text \<open>
  The dialogue of \<open>/start\<close>, \<open>/track\<close>, a link and its tags, from the first message to the tables, when
  nothing fails.
\<close>

definition same_store :: "pgdb \<Rightarrow> pgdb \<Rightarrow> bool" where
  "same_store d d' \<longleftrightarrow> d' = d\<lparr>db_sessions := db_sessions d'\<rparr>"

lemma same_store_simps:
  assumes "same_store d d'"
  shows "db_chats d' = db_chats d" and "abs_db d' = abs_db d" and "tracked d' = tracked d" and "db_link_seq d' = db_link_seq d"
proof -
  obtain ss where d': "d' = d\<lparr>db_sessions := ss\<rparr>" using assms unfolding same_store_def by blast
  then show ch: "db_chats d' = db_chats d" "db_link_seq d' = db_link_seq d" by simp_all
  have t: "db_links d' = db_links d" "db_subs d' = db_subs d" "db_tags d' = db_tags d"
    by (simp_all add: d')
  then show tr: "tracked d' = tracked d" by (rule tracked_cong)
  show "abs_db d' = abs_db d" by (rule ext) (simp add: abs_db_def ch tr)
qed

lemma same_store_refl [simp]: "same_store d d"
  by (simp add: same_store_def)

lemma same_store_trans: "same_store a b \<Longrightarrow> same_store b c \<Longrightarrow> same_store a c"
  by (cases a; cases b; cases c; simp add: same_store_def)

lemma session_get_store: "session_get c d = (Inr s, d') \<Longrightarrow> same_store d d'"
  by (auto simp: session_get_def same_store_def split: option.splits if_splits)

lemma session_get_kept: "session_get c d = (Inr s, d') \<Longrightarrow> session_of d c = Some s0 \<Longrightarrow> s = s0 \<and> d' = d"
  by (auto simp: session_get_def)

lemma session_save_store: "session_save s d = (Inr x, d') \<Longrightarrow> same_store d d'"
  by (auto simp: session_save_def upsert_session_def ebind_def ehandle_def same_store_def Let_def
      split: option.splits if_splits)

text \<open>Nothing fails: the state of the world between two messages.\<close>

definition fine :: "'a world_scheme \<Rightarrow> bool" where
  "fine w \<longleftrightarrow> at_rest w \<and> w_faults w = []"

lemma fine_frame: "frame w w' \<Longrightarrow> fine w \<Longrightarrow> fine w'"
  by (auto simp: fine_def intro: at_rest_frame) (simp add: frame_def)

context dialogue
begin

lemma get_fine:
  assumes "fine w" and "c \<in> set (db_chats (w_db w)) \<or> session_of (w_db w) c \<noteq> None"
  obtains s w' where "se_GetOrCreate R c w = (Inr s, w')" and "fine w'" and "session_get c (w_db w) = (Inr s, w_db w')"
    and "same_store (w_db w) (w_db w')" and "session_of (w_db w') c = Some s"
proof -
  obtain s w' where g: "se_GetOrCreate R c w = (Inr s, w')" "session_get c (w_db w) = (Inr s, w_db w')"
    using assms by (auto simp: fine_def intro: get_succeeds [of w c])
  from assms(1) get_rests [OF _ g(1)] have "fine w'" "session_of (w_db w') c = Some s"
    by (auto simp: fine_def dest: fine_frame [unfolded fine_def])
  with that g session_get_store [OF g(2)] show thesis by blast
qed

lemma save_fine:
  assumes "fine w" and "storable_session s" and "session_of (w_db w) (ss_ChatID s) \<noteq> None"
  obtains w' where "se_Save R s w = (Inr (), w')" and "fine w'" and "same_store (w_db w) (w_db w')"
    and "session_of (w_db w') (ss_ChatID s) = Some s"
proof -
  obtain w' where v: "se_Save R s w = (Inr (), w')" "session_save s (w_db w) = (Inr (), w_db w')"
    using assms by (auto simp: fine_def intro: save_succeeds [of w s])
  from assms(1) save_rests [OF _ v(1)] have "fine w'" "session_of (w_db w') (ss_ChatID s) = Some s"
    by (auto simp: fine_def dest: fine_frame [unfolded fine_def])
  with that v session_save_store [OF v(2)] show thesis by blast
qed

lemma enter_fine:
  assumes "fine w" and "mg_ChatID msg \<in> set (db_chats (w_db w))" and "st \<in> set session_states"
  obtains w' where "enter_Execute st ans R msg w = (Inr (ans, None), w')" and "fine w'" and "same_store (w_db w) (w_db w')"
    and "session_of (w_db w') (mg_ChatID msg) = Some \<lparr>ss_ChatID = mg_ChatID msg, ss_State = st, ss_URL = ''''\<rparr>"
proof -
  obtain s w1 where g: "se_GetOrCreate R (mg_ChatID msg) w = (Inr s, w1)" "fine w1" "same_store (w_db w) (w_db w1)"
      "session_of (w_db w1) (mg_ChatID msg) = Some s"
    using get_fine [OF assms(1)] assms(2) by blast
  let ?s = "(session_Reset s)\<lparr>ss_State := st\<rparr>"
  have t: "?s = \<lparr>ss_ChatID = mg_ChatID msg, ss_State = st, ss_URL = ''''\<rparr>"
    using session_key [OF g(4)] by (simp add: Reset_eq new_session_def)
  obtain w' where v: "se_Save R ?s w1 = (Inr (), w')" "fine w'" "same_store (w_db w1) (w_db w')"
      "session_of (w_db w') (mg_ChatID msg) = Some ?s"
    by (rule save_fine [OF g(2), of ?s]) (use g(4) assms(3) in \<open>auto simp: t storable_session_def\<close>)
  have "enter_Execute st ans R msg w = (Inr (ans, None), w')"
    using g(1) v(1) by (simp add: enter_Execute_def)
  with v(2,4) same_store_trans [OF g(3) v(3)] show thesis by (intro that) (simp_all add: t)
qed

lemma dialog_fine:
  assumes "fine w" and s: "session_of (w_db w) (mg_ChatID msg) = Some s"
    and f: "map_of (stateRegistry service) (ss_State s) = Some f"
  obtains w1 where "fine w1" and "w_db w1 = w_db w" and "HandleMessage service msg w = f s msg w1"
proof -
  obtain s1 w1 where g: "se_GetOrCreate R (mg_ChatID msg) w = (Inr s1, w1)" "fine w1"
      "session_get (mg_ChatID msg) (w_db w) = (Inr s1, w_db w1)"
    using get_fine [OF assms(1)] s by blast
  from session_get_kept [OF g(3) s] have "s1 = s" "w_db w1 = w_db w" by simp_all
  with g(1,2) f that show thesis by (simp add: HandleMessage_def)
qed

lemma url_fine:
  assumes "fine w" and s: "session_of (w_db w) (mg_ChatID msg) = Some s" "ss_State s = StateWaitingForURLTrack"
    and u: "trim_space (mg_Text msg) \<noteq> ''''" "pg_text (trim_space (mg_Text msg))"
  obtains w' where "HandleMessage service msg w = (Inr (''Link saved! Now send tags separated by commas (e.g., work, bug). Or send 'skip' to add without tags.'', None), w')"
    and "fine w'" and "same_store (w_db w) (w_db w')"
    and "session_of (w_db w') (mg_ChatID msg) =
      Some \<lparr>ss_ChatID = mg_ChatID msg, ss_State = StateWaitingForTags, ss_URL = trim_space (mg_Text msg)\<rparr>"
proof -
  have f: "map_of (stateRegistry service) (ss_State s) = Some (handleWaitingForURLTrack service)"
    by (simp add: s(2) stateRegistry_def session_state_defs)
  obtain w1 where w1: "fine w1" "w_db w1 = w_db w" "HandleMessage service msg w = handleWaitingForURLTrack service s msg w1"
    by (rule dialog_fine [OF assms(1) s(1) f])
  let ?s = "s\<lparr>ss_URL := trim_space (mg_Text msg), ss_State := StateWaitingForTags\<rparr>"
  have key: "ss_ChatID s = mg_ChatID msg" by (rule session_key [OF s(1)])
  obtain w' where v: "se_Save R ?s w1 = (Inr (), w')" "fine w'" "same_store (w_db w1) (w_db w')"
      "session_of (w_db w') (ss_ChatID ?s) = Some ?s"
    by (rule save_fine [OF w1(1), of ?s]) (use s(1) u(2) key in \<open>simp_all add: w1(2) storable_session_def\<close>)
  have "?s = \<lparr>ss_ChatID = mg_ChatID msg, ss_State = StateWaitingForTags, ss_URL = trim_space (mg_Text msg)\<rparr>"
    using key by (cases s) simp
  with v w1 u(1) key show thesis by (intro that [of w']) (simp_all add: handleWaitingForURLTrack_def)
qed

lemma tags_fine:
  assumes "fine w" and s: "session_of (w_db w) (mg_ChatID msg) = Some s" "ss_State s = StateWaitingForTags"
    and add: "\<And>w1. fine w1 \<Longrightarrow> w_db w1 = w_db w \<Longrightarrow>
      \<exists>k w2. la_AddLink A (mg_ChatID msg) (ss_URL s) (dialog_tags (mg_Text msg)) w1 = (Inr k, w2) \<and> P (w_db w2)"
  obtains d w' where "HandleMessage service msg w = (Inr (''Success! Now tracking link: '' @ ss_URL s, None), w')"
    and "fine w'" and "P d" and "same_store d (w_db w')"
    and "session_of (w_db w') (mg_ChatID msg) = Some (new_session (mg_ChatID msg))"
proof -
  have f: "map_of (stateRegistry service) (ss_State s) = Some (handleWaitingForTags service)"
    by (simp add: s(2) stateRegistry_def session_state_defs)
  obtain w1 where w1: "fine w1" "w_db w1 = w_db w" "HandleMessage service msg w = handleWaitingForTags service s msg w1"
    by (rule dialog_fine [OF assms(1) s(1) f])
  have key: "ss_ChatID s = mg_ChatID msg" by (rule session_key [OF s(1)])
  obtain k w2 where a: "la_AddLink A (mg_ChatID msg) (ss_URL s) (dialog_tags (mg_Text msg)) w1 = (Inr k, w2)" "P (w_db w2)"
    using add [OF w1(1,2)] by blast
  have b: "frame w1 w2" "session_of (w_db w2) = session_of (w_db w1)"
    using blind_same [OF blind_calls(3) _ a(1)] w1(1) by (simp_all add: fine_def)
  have "fine w2" by (rule fine_frame [OF b(1) w1(1)])
  then obtain w' where v: "se_Save R (session_Reset s) w2 = (Inr (), w')" "fine w'" "same_store (w_db w2) (w_db w')"
      "session_of (w_db w') (ss_ChatID (session_Reset s)) = Some (session_Reset s)"
    by (rule save_fine [of w2 "session_Reset s"])
       (use s(1) b(2) key in \<open>simp_all add: w1(2) storable_session_def Reset_eq new_session_def\<close>)
  have "handleWaitingForTags service s msg w1 = (Inr (''Success! Now tracking link: '' @ ss_URL s, None), w')"
    using a(1) v(1) key by (simp add: handleWaitingForTags_def)
  with w1(3) v(2-4) a(2) key show thesis by (intro that [of w' "w_db w2"]) (simp_all add: Reset_eq new_session_def)
qed

end

subsection \<open>The service behind the connection\<close>

lemma service_Register_fine:
  assumes "buildRepos accessType = Inr repos" and "fine w" and "c \<notin> set (db_chats (w_db w))"
  obtains w' where "RegisterChat (NewService repos h) c w = (Inr (), w')" and "fine w'"
    and "chat_create c (w_db w) = (Inr (), w_db w')"
proof -
  have imp: "implements w (RegisterChat (NewService repos h) c) (chat_create c)"
    using assms(1)
  proof (cases rule: NewService_cases [where h = h])
    case sql
    then show ?thesis by (simp only: sql_svc.RegisterChat_implements)
  next
    case builder
    then show ?thesis by (simp only: qb_svc.RegisterChat_implements)
  qed
  obtain r w' where run: "RegisterChat (NewService repos h) c w = (r, w')" by (cases "RegisterChat (NewService repos h) c w")
  have "ready w w" using assms(2) by (simp add: fine_def at_rest_ready)
  from implementsD [OF imp this run] assms(2,3) have "r = Inr ()" "chat_create c (w_db w) = (Inr (), w_db w')"
    by (cases r; simp add: outcome_ok_def chat_create_def fine_def)+
  moreover have "fine w'" by (rule fine_frame [OF keepsD [OF implements_frame [OF imp] run] assms(2)])
  ultimately show thesis using that run by simp
qed

lemma service_AddLink_fine:
  assumes "buildRepos accessType = Inr repos" and "fine w" and "db_link_seq (w_db w) + 1 < 2 ^ 63"
    and "h u" and "pg_text u" and "abs_db (w_db w) c \<noteq> None" and "tracked (w_db w) c u = None" and "tags_ok ts"
  obtains k w' where "AddLink (NewService repos h) c u ts w = (Inr k, w')" and "tl_URL k = u" and "tl_Tags k = ts"
    and "abs_db (w_db w') = (abs_db (w_db w))(c \<mapsto> (tracked (w_db w) c)(u \<mapsto> set ts))"
proof -
  have wf: "db_wf (w_db w)" "\<not> in_tx w" "w_faults w = []" using assms(2) by (simp_all add: fine_def at_rest_def)
  from assms(1) show thesis
  proof (cases rule: NewService_cases [where h = h])
    case sql
    obtain k w' where "AddLink (sql_svc.svc h) c u ts w = (Inr k, w')"
      using sql_svc.svc_AddLink_iff [OF wf assms(3)] assms(4-8) by blast
    with sql sql_svc.svc_AddLink [OF wf(1,2) this] that show thesis by simp
  next
    case builder
    obtain k w' where "AddLink (qb_svc.svc h) c u ts w = (Inr k, w')"
      using qb_svc.svc_AddLink_iff [OF wf assms(3)] assms(4-8) by blast
    with builder qb_svc.svc_AddLink [OF wf(1,2) this] that show thesis by simp
  qed
qed

lemma wired_Register:
  assumes "wired_scrapper protocol host text svc = Inr A" and "RegisterChat svc c w = (Inr (), w')"
  shows "la_RegisterChat A c w = (Inr (), w')"
  using assms
  by (auto simp: wired_scrapper_def buildScrapperClient_def Let_def http_relay service_api_def relayed_def
      grpc_client_api_def grpc_connected_def gclient_RegisterChat_def grpc_RegisterChat_def ehandle_def split: if_splits)

lemma pg_text_valid: "pg_text s \<Longrightarrow> valid_text s = s"
  by (simp add: pg_text_def)

lemma wired_AddLink:
  assumes "wired_scrapper protocol host text svc = Inr A" and "AddLink svc c u ts w = (Inr k, w')"
    and "pg_text u" and "tags_ok ts" and "tl_URL k = u" and "tl_Tags k = ts"
  obtains k' where "la_AddLink A c u ts w = (Inr k', w')"
proof -
  have ts: "map valid_text ts = ts" "list_all utf8 ts"
    using assms(4) by (auto simp: tags_ok_def utf8_def list_all_iff pg_text_valid intro: map_idI)
  have "utf8 u" "valid_text (tl_URL k) = tl_URL k" using assms(3,5) by (simp_all add: utf8_def pg_text_valid)
  then have "\<exists>k'. la_AddLink A c u ts w = (Inr k', w')"
    using assms(1,2) ts unfolding assms(5,6) [symmetric]
    by (auto simp: wired_scrapper_def buildScrapperClient_def Let_def http_relay service_api_def relayed_def
        grpc_client_api_def grpc_connected_def gclient_AddLink_def grpc_AddLink_def ehandle_def ebind_def marshalled_def
        utf8_link_def split: if_splits)
  then show thesis using that by blast
qed

subsection \<open>The conversation\<close>

lemma spoken_commands:
  "ParseCommand (text_message c ''/start'') = (''start'', [])" "IsCommand (text_message c ''/start'')"
  "ParseCommand (text_message c ''/track'') = (''track'', [])" "IsCommand (text_message c ''/track'')"
proof -
  have f: "Go_Strings.fields ''/start'' = [''/start'']" "Go_Strings.fields ''/track'' = [''/track'']" by code_simp+
  show i: "IsCommand (text_message c ''/start'')" "IsCommand (text_message c ''/track'')"
    by (simp_all add: IsCommand_def text_message_def has_prefix_def)
  then show "ParseCommand (text_message c ''/start'') = (''start'', [])" "ParseCommand (text_message c ''/track'') = (''track'', [])"
    by (simp_all add: ParseCommand_def f text_message_def trim_prefix_def has_prefix_def)
qed

lemma commands_found:
  "map_of (NewCommandService (buildCommands A R)) ''start'' = Some (StartCommand A)"
  "map_of (NewCommandService (buildCommands A R)) ''track'' = Some (TrackCommand R)"
  unfolding bot_commands
  by (simp_all add: buildCommands_def Let_def HelpCommand_def StartCommand_def ListCommand_def TrackCommand_def)

lemma spoken_start:
  assumes "la_RegisterChat A c w = (Inr (), w')"
  shows "process_message (bot_poller A R send) (text_message c ''/start'') w =
    (Inr (''Hi! This bot can track updates on your links, so you won't miss on news! /help for list my commands'', None), w')"
  using assms
  by (simp add: process_message_def spoken_commands bot_poller_def HandleCommand_def Let_def commands_found)
     (simp add: StartCommand_def start_Execute_def text_message_def say_def)

lemma spoken_track:
  assumes "enter_Execute StateWaitingForURLTrack ''Please send the link you want to track. Send /cancel to abort'' R
      (text_message c ''/track'') w = (Inr (t, None), w')"
  shows "process_message (bot_poller A R send) (text_message c ''/track'') w = (Inr (t, None), w')"
  using assms
  by (simp add: process_message_def spoken_commands bot_poller_def HandleCommand_def Let_def commands_found)
     (simp add: TrackCommand_def track_Execute_def say_def)

lemma spoken_text:
  assumes "\<not> IsCommand msg"
  shows "process_message (bot_poller A R send) msg w = HandleMessage \<lparr>dl_scrapper = A, dl_sessionRepo = R\<rparr> msg w"
  using assms by (simp add: process_message_def bot_poller_def)

text \<open>C27. The whole dialogue, from an unregistered chat, when nothing fails: after \<open>/start\<close>, \<open>/track\<close>, a
  link and its tags the bot has answered each message, the chat tracks exactly that link with exactly
  those tags, nobody else's links changed, and its session is idle again. The link must be one
  a fetcher handles and the database can store, the tags distinct and storable.\<close>

theorem track_dialogue:
  assumes "buildRepos accessType = Inr repos" and "bot_buildRepos accessType' = Inr R"
    and "wired_scrapper protocol host text (NewService repos canHandle) = Inr A"
    and "fine w" and "c \<notin> set (db_chats (w_db w))" and "db_link_seq (w_db w) + 1 < 2 ^ 63"
    and "\<not> IsCommand (text_message c url)" and "\<not> IsCommand (text_message c tags)"
    and "trim_space url \<noteq> ''''" and "pg_text (trim_space url)" and "canHandle (trim_space url)" and "tags_ok (dialog_tags tags)"
  shows "\<exists>answers w'. efor (process_message (bot_poller A R send))
        (map (text_message c) [''/start'', ''/track'', url, tags]) w = (Inr answers, w')
     \<and> map snd answers = replicate 4 None \<and> fst (last answers) = ''Success! Now tracking link: '' @ trim_space url
     \<and> abs_db (w_db w') = (abs_db (w_db w))(c \<mapsto> [trim_space url \<mapsto> set (dialog_tags tags)])
     \<and> session_of (w_db w') c = Some (new_session c)"
proof -
  note D = wired_dialogue [OF assms(1,3,2)]
  let ?m = "text_message c" and ?u = "trim_space url" and ?P = "process_message (bot_poller A R send)"
  let ?ask = "''Please send the link you want to track. Send /cancel to abort''"
  have chat [simp]: "mg_ChatID (?m t) = c" "mg_Text (?m t) = t" for t by (simp_all add: text_message_def)
  obtain w1 where reg: "RegisterChat (NewService repos canHandle) c w = (Inr (), w1)" "fine w1"
      "chat_create c (w_db w) = (Inr (), w_db w1)"
    by (rule service_Register_fine [OF assms(1,4,5)])
  have db1: "w_db w1 = (w_db w)\<lparr>db_chats := db_chats (w_db w) @ [c]\<rparr>"
    using reg(3) assms(5) by (auto simp: chat_create_def)
  have abs1: "abs_db (w_db w1) = (abs_db (w_db w))(c \<mapsto> Map.empty)"
    using chat_create_abs [OF _ reg(3)] assms(4) by (simp add: fine_def at_rest_def)
  obtain t1 where r1: "?P (?m ''/start'') w = (Inr (t1, None), w1)"
    using spoken_start [OF wired_Register [OF assms(3) reg(1)]] by blast
  obtain w2 where e2: "enter_Execute StateWaitingForURLTrack ?ask R (?m ''/track'') w1 = (Inr (?ask, None), w2)"
    and w2: "fine w2" "same_store (w_db w1) (w_db w2)"
      "session_of (w_db w2) c = Some \<lparr>ss_ChatID = c, ss_State = StateWaitingForURLTrack, ss_URL = ''''\<rparr>"
    by (rule dialogue.enter_fine [OF D reg(2), of "?m ''/track''" StateWaitingForURLTrack ?ask]) (use db1 in simp_all)
  note r2 = spoken_track [OF e2, of A send]
  obtain t3 w3 where r3: "?P (?m url) w2 = (Inr (t3, None), w3)"
    and w3: "fine w3" "same_store (w_db w2) (w_db w3)"
      "session_of (w_db w3) c = Some \<lparr>ss_ChatID = c, ss_State = StateWaitingForTags, ss_URL = ?u\<rparr>"
    by (rule dialogue.url_fine [OF D w2(1), of "?m url" "\<lparr>ss_ChatID = c, ss_State = StateWaitingForURLTrack, ss_URL = ''''\<rparr>"])
       (use w2(3) assms(9,10) in \<open>simp_all add: spoken_text [OF assms(7)]\<close>)
  have st: "same_store (w_db w1) (w_db w3)" by (rule same_store_trans [OF w2(2) w3(2)])
  have abs3: "abs_db (w_db w3) = (abs_db (w_db w))(c \<mapsto> Map.empty)" and seq3: "db_link_seq (w_db w3) + 1 < 2 ^ 63"
    using same_store_simps [OF st] abs1 assms(6) by (simp_all add: db1)
  have new: "tracked (w_db w3) c = Map.empty"
    using fun_cong [OF abs3, of c] by (auto simp: abs_db_def split: if_splits)
  let ?goal = "\<lambda>d. abs_db d = (abs_db (w_db w))(c \<mapsto> [?u \<mapsto> set (dialog_tags tags)])"
  have add: "\<exists>k w5. la_AddLink A c ?u (dialog_tags tags) w4 = (Inr k, w5) \<and> ?goal (w_db w5)"
    if w4: "fine w4" "w_db w4 = w_db w3" for w4
  proof -
    obtain k w5 where k: "AddLink (NewService repos canHandle) c ?u (dialog_tags tags) w4 = (Inr k, w5)"
        "tl_URL k = ?u" "tl_Tags k = dialog_tags tags"
        "abs_db (w_db w5) = (abs_db (w_db w4))(c \<mapsto> (tracked (w_db w4) c)(?u \<mapsto> set (dialog_tags tags)))"
      by (rule service_AddLink_fine [OF assms(1) w4(1), of canHandle ?u c "dialog_tags tags"])
         (use w4(2) seq3 abs3 new assms(10-12) in simp_all)
    obtain k' where "la_AddLink A c ?u (dialog_tags tags) w4 = (Inr k', w5)"
      by (rule wired_AddLink [OF assms(3) k(1) assms(10,12) k(2,3)])
    with k(4) w4(2) abs3 new show ?thesis by simp
  qed
  obtain d w6 where r6: "?P (?m tags) w3 = (Inr (''Success! Now tracking link: '' @ ?u, None), w6)"
    and d: "?goal d" "same_store d (w_db w6)" and s6: "session_of (w_db w6) c = Some (new_session c)"
    by (rule dialogue.tags_fine [OF D w3(1), of "?m tags" "\<lparr>ss_ChatID = c, ss_State = StateWaitingForTags, ss_URL = ?u\<rparr>" ?goal])
       (use w3(3) add in \<open>simp_all add: spoken_text [OF assms(8)]\<close>)
  have goal: "?goal (w_db w6)" using same_store_simps(2) [OF d(2)] d(1) by simp
  have "efor ?P (map ?m [''/start'', ''/track'', url, tags]) w =
      (Inr [(t1, None), (?ask, None), (t3, None), (''Success! Now tracking link: '' @ ?u, None)], w6)"
    using r1 r2 r3 r6 by simp
  with goal s6 show ?thesis by (intro exI conjI) (assumption | simp add: eval_nat_numeral)+
qed

lemma track_dialogue_witness:
  "\<exists>answers w'. efor (process_message sample_bot)
        (map (text_message 8) [''/start'', ''/track'', '' https://github.com/a/b '', ''go, bug,'']) (sample_world sample_db []) = (Inr answers, w')
     \<and> abs_db (w_db w') 8 = Some [''https://github.com/a/b'' \<mapsto> {''go'', ''bug''}]"
proof -
  let ?w = "sample_world sample_db []"
  have vals: "trim_space '' https://github.com/a/b '' = ''https://github.com/a/b''" "dialog_tags ''go, bug,'' = [''go'', ''bug'']"
    "pg_text ''https://github.com/a/b''" "tags_ok [''go'', ''bug'']"
    "\<not> IsCommand (text_message 8 '' https://github.com/a/b '')" "\<not> IsCommand (text_message 8 ''go, bug,'')"
    by code_simp+
  have "fine ?w" by (simp add: fine_def sample_at_rest [OF sample_db_wf] sample_env)
  moreover have "8 \<notin> set (db_chats (w_db ?w))" "db_link_seq (w_db ?w) + 1 < 2 ^ 63"
    by (simp_all add: sample_world_top sample_db_def empty_db_def)
  ultimately show ?thesis
    using track_dialogue [OF sample_bot_wiring(1-3), of ?w 8 "'' https://github.com/a/b ''" "''go, bug,''" sample_send]
    by (auto simp: vals sample_bot_def simp del: efor.simps)
qed

end
