(* ===== verification/Bot_Notify.thy ===== *)
theory Bot_Notify
  imports Consumer Grpc_Api
begin

text \<open>
  How an update reaches the chats: the scrapper's direct notifiers
  (\<open>scrapper/infrastructure/adapter/out/notifier/http\<close> and \<open>grpc\<close>), the bot's servers that receive it
  (\<open>bot/infrastructure/adapter/in/listener/server\<close>) and the service that sends it to every chat
  (\<open>bot/application/notify_service.go\<close>).
\<close>

subsection \<open>The notifier service\<close>

type_synonym 'w message_sender = "i64 \<Rightarrow> string \<Rightarrow> ('w, unit) prog"

text \<open>The loop over the chats: an error is kept and the next chat is served. \<open>errors.Join\<close> of no errors
  is no error.\<close>

fun send_all :: "'w message_sender \<Rightarrow> string \<Rightarrow> i64 list \<Rightarrow> goerr list \<Rightarrow> ('w, goerr list) prog" where
  "send_all sender text [] sendErr = eret sendErr"
| "send_all sender text (chatID # chats) sendErr =
     eguard (sender chatID text)
       (\<lambda>err. send_all sender text chats
          (sendErr @ [NewErr (''failed to send notification to chat='' @ format_i64 chatID)]))
       (\<lambda>_. send_all sender text chats sendErr)"

definition notification_text :: "processed_update \<Rightarrow> string" where
  "notification_text update = ''Update on '' @ pu_URL update @ '':'' @ [CHR 0x0A] @ pu_Description update"

definition NotifierService_HandleUpdate :: "'w message_sender \<Rightarrow> processed_update \<Rightarrow> ('w, unit) prog" where
  "NotifierService_HandleUpdate sender update =
     (if pu_URL update = '''' then efail (NewErr ''no url provided'')
      else if pu_TgChatIDs update = [] then efail (NewErr ''no telegram chat ids provided'')
      else ebind (send_all sender (notification_text update) (pu_TgChatIDs update) []) (\<lambda>sendErr.
        if sendErr = [] then eret () else efail (JoinErr sendErr)))"

subsection \<open>The bot's HTTP listener\<close>

text \<open>\<open>uh_Limit\<close>: the document in the first \<open>BodyBytesLimit\<close> bytes of a body, \<open>uh_Text\<close>: the text of those
  bytes.\<close>

record 'w update_handler =
  uh_HandleUpdate :: "processed_update \<Rightarrow> ('w, unit) prog"
  uh_Error :: "goerr \<Rightarrow> string"
  uh_Limit :: "json option \<Rightarrow> json option"
  uh_Text :: "json option \<Rightarrow> string"

definition dec_updateRequest :: "processed_update decoder" where
  "dec_updateRequest = dec_struct (\<lambda>ms old.
     sbind (dec_field ''url'' dec_str ms (pu_URL old)) (\<lambda>u.
     sbind (dec_field ''description'' dec_str ms (pu_Description old)) (\<lambda>d.
     sbind (dec_field ''priority'' dec_str ms (pu_Priority old)) (\<lambda>p.
     sbind (dec_field ''tgChatIds'' (dec_list dec_i64 0) ms (pu_TgChatIDs old)) (\<lambda>cs.
     Inr \<lparr>pu_URL = u, pu_Description = d, pu_Priority = p, pu_TgChatIDs = cs\<rparr>)))))"

definition updates_writeError ::
    "'w update_handler \<Rightarrow> nat \<Rightarrow> string \<Rightarrow> string \<Rightarrow> string \<Rightarrow> string \<Rightarrow> goerr \<Rightarrow> ('w, http_response) prog" where
  "updates_writeError h status desc code excName excMessage err =
     eret \<lparr>rs_status = status, rs_body = Some (JObj
       [(''description'', enc_str desc), (''code'', enc_str code), (''exceptionName'', enc_str excName),
        (''exceptionMessage'', enc_str excMessage), (''stacktrace'', enc_list enc_str [uh_Error h err])])\<rparr>"

definition HandleUpdates :: "'w update_handler \<Rightarrow> 'w http_handler" where
  "HandleUpdates h r =
     ehandle (lift_sum (sq_body r))
       (\<lambda>err. if errors_is ErrEOF err then plain_status 400
          else updates_writeError h 500 ''Error reading request body'' ''internal_error'' ''body_request_reading_exception''
            ''Error while reading request body'' err) (\<lambda>body.
     ehandle (lift_sum (unmarshal dec_updateRequest zero_processed (uh_Limit h body)))
       (\<lambda>err. updates_writeError h 400 ''Bad request parameters'' ''bad_request'' ''bad_request_parameters''
          (''Could not parse request body. Body: '' @ uh_Text h body) err) (\<lambda>linkUpdate.
     ehandle (uh_HandleUpdate h linkUpdate)
       (\<lambda>err. updates_writeError h 500 ''Error handling update on link'' ''internal_error'' ''update_handler_exception''
          ''Could not handle update on link'' err)
       (\<lambda>_. plain_status 200)))"

text \<open>The route of \<open>NewServer\<close> behind the middleware \<open>mw\<close>.\<close>

definition updates_mux :: "('w http_handler \<Rightarrow> 'w http_handler) \<Rightarrow> 'w update_handler \<Rightarrow> 'w http_handler" where
  "updates_mux mw h request =
     (if sq_path request = [''updates''] then
        (if sq_method request = ''POST'' then mw (HandleUpdates h) request else plain_status 405)
      else plain_status 404)"

subsection \<open>The bot's gRPC listener\<close>

text \<open>The message \<open>LinkUpdate\<close> of the protocol.\<close>

record pb_update =
  pb_Id :: i64
  pb_Url :: string
  pb_Description :: string
  pb_Priority :: string
  pb_TgChatIds :: "i64 list"

definition grpc_SendUpdate :: "'w update_handler \<Rightarrow> pb_update \<Rightarrow> ('w, unit) prog" where
  "grpc_SendUpdate server request =
     ehandle (uh_HandleUpdate server \<lparr>pu_URL = pb_Url request, pu_Description = pb_Description request,
         pu_Priority = pb_Priority request, pu_TgChatIDs = pb_TgChatIds request\<rparr>)
       (\<lambda>err. efail (StatusErr Internal
          (''failed to handle update for link '' @ pb_Url request @ '': '' @ uh_Error server err)))
       (\<lambda>_. eret ())"

subsection \<open>The scrapper's direct notifiers\<close>

record 'w http_bot =
  hb_url :: string
  hb_Do :: "'w http_do"

definition http_bot_request :: "string \<Rightarrow> link_update \<Rightarrow> http_request" where
  "http_bot_request url update =
     \<lparr>rq_method = ''POST'', rq_url = url @ ''/'' @ ''updates'', rq_header = [json_header],
      rq_body = Some (JObj [(''id'', enc_i64 (lu_ID update)), (''url'', enc_str (lu_URL update)),
        (''author'', enc_str (lu_Author update)), (''description'', enc_str (lu_Description update)),
        (''tgChatIds'', enc_list enc_i64 (lu_TgChatIDs update))])\<rparr>"

definition http_bot_SendUpdate :: "'w http_bot \<Rightarrow> 'w update_notifier" where
  "http_bot_SendUpdate b update =
     ehandle (hb_Do b (http_bot_request (hb_url b) update))
       (\<lambda>err. efail (timed_out ''send update request timed out: '' ''error sending request to bot: '' err)) (\<lambda>response.
     if rs_status response \<noteq> 200
     then efail (NewErr (''bot api returned unexpected status: '' @ show_nat (rs_status response)))
     else eret ())"

text \<open>The generated client's \<open>SendUpdate\<close> is the parameter \<open>stub\<close>.\<close>

definition grpc_bot_SendUpdate :: "(pb_update \<Rightarrow> ('w, unit) prog) \<Rightarrow> 'w update_notifier" where
  "grpc_bot_SendUpdate stub update =
     ehandle (stub \<lparr>pb_Id = lu_ID update, pb_Url = lu_URL update, pb_Description = lu_Description update,
         pb_Priority = '''', pb_TgChatIds = lu_TgChatIDs update\<rparr>)
       (\<lambda>err. efail (timed_out ''send update request timed out: '' ''failed to send update to bot via gRPC: '' err))
       (\<lambda>_. eret ())"

end
