(* ===== verification/Bot_Notify_Props.thy ===== *)
theory Bot_Notify_Props
  imports Bot_Notify Http_Api_Props
begin

text \<open>
  The notifier service serves every chat whatever fails, and the direct notifiers hand the update to it
  unchanged but for the fields their requests leave out.
\<close>

subsection \<open>Every chat is served\<close>

text \<open>A sender that does not panic.\<close>

definition no_panics :: "'w message_sender \<Rightarrow> bool" where
  "no_panics sender \<longleftrightarrow> (\<forall>c t w e w'. sender c t w = (Inl e, w') \<longrightarrow> \<not> is_panic e)"

text \<open>The calls in order, each on the world the one before left: what they answered, and the last world.\<close>

fun calls :: "'w message_sender \<Rightarrow> string \<Rightarrow> i64 list \<Rightarrow> 'w \<Rightarrow> (i64 \<times> (goerr + unit)) list \<times> 'w" where
  "calls sender t [] w = ([], w)"
| "calls sender t (c # cs) w =
     (let (r, w1) = sender c t w; (rs, w2) = calls sender t cs w1 in ((c, r) # rs, w2))"

definition send_failure :: "i64 \<Rightarrow> goerr" where
  "send_failure c = NewErr (''failed to send notification to chat='' @ format_i64 c)"

definition failures :: "(i64 \<times> (goerr + unit)) list \<Rightarrow> goerr list" where
  "failures rs = map (send_failure \<circ> fst) (filter (isl \<circ> snd) rs)"

lemma send_all_calls:
  assumes "no_panics sender"
  shows "send_all sender t cs es w = (let (rs, w') = calls sender t cs w in (Inr (es @ failures rs), w'))"
proof (induction cs arbitrary: es w)
  case (Cons c cs)
  obtain r w1 where s: "sender c t w = (r, w1)" by (cases "sender c t w")
  obtain rs w2 where k: "calls sender t cs w1 = (rs, w2)" by (cases "calls sender t cs w1")
  show ?case
  proof (cases r)
    case (Inl e)
    then have "\<not> is_panic e" using assms s unfolding no_panics_def by blast
    with Inl s k Cons show ?thesis by (simp add: failures_def send_failure_def)
  next
    case (Inr x)
    with s k Cons show ?thesis by (simp add: failures_def)
  qed
qed (simp add: failures_def)

lemma calls_chats: "map fst (fst (calls sender t cs w)) = cs"
  by (induction cs arbitrary: w) (auto simp: case_prod_unfold Let_def)

lemma failures_Nil: "failures rs = [] \<longleftrightarrow> (\<forall>(c, a) \<in> set rs. a = Inr ())"
proof (induction rs)
  case (Cons p rs)
  then show ?case by (cases p; cases "snd p") (auto simp: failures_def)
qed (simp add: failures_def)

lemma HandleUpdate_calls:
  assumes "no_panics sender" and "pu_URL u \<noteq> ''''" and "pu_TgChatIDs u \<noteq> []"
    and "calls sender (notification_text u) (pu_TgChatIDs u) w = (rs, w')"
  shows "NotifierService_HandleUpdate sender u w =
    (if failures rs = [] then Inr () else Inl (JoinErr (failures rs)), w')"
  using assms send_all_calls [OF assms(1), of "notification_text u" "pu_TgChatIDs u" "[]" w]
  by (simp add: NotifierService_HandleUpdate_def ebind_def ehandle_def)

text \<open>C28. An update with a link and chats is sent, with the same text, to each of its chats exactly once and
  in order, whatever sends before it failed; the answer is a success exactly when every send succeeded,
  and otherwise names exactly the chats whose send failed.\<close>

theorem notify_every_chat:
  assumes "no_panics sender" and "pu_URL u \<noteq> ''''" and "pu_TgChatIDs u \<noteq> []"
    and "NotifierService_HandleUpdate sender u w = (r, w')"
  shows "\<exists>rs. calls sender (notification_text u) (pu_TgChatIDs u) w = (rs, w') \<and> map fst rs = pu_TgChatIDs u
    \<and> (r = Inr () \<longleftrightarrow> (\<forall>(c, a) \<in> set rs. a = Inr ()))
    \<and> (\<forall>e. r = Inl e \<longrightarrow> e = JoinErr (map send_failure (map fst (filter (isl \<circ> snd) rs))))"
proof -
  obtain rs w1 where k: "calls sender (notification_text u) (pu_TgChatIDs u) w = (rs, w1)"
    by (cases "calls sender (notification_text u) (pu_TgChatIDs u) w")
  note h = HandleUpdate_calls [OF assms(1-3) k]
  have "w1 = w'" "r = (if failures rs = [] then Inr () else Inl (JoinErr (failures rs)))" using h assms(4) by simp_all
  moreover have "map fst rs = pu_TgChatIDs u"
    using calls_chats [of sender "notification_text u" "pu_TgChatIDs u" w] k by simp
  moreover have "failures rs = map send_failure (map fst (filter (isl \<circ> snd) rs))" by (simp add: failures_def)
  ultimately show ?thesis using k failures_Nil [of rs] by (intro exI [of _ rs]) simp
qed

lemma notify_every_chat_witness:
  "\<exists>rs e. calls (\<lambda>c t w. (if c = 2 then Inl (ExtErr ''blocked'') else Inr (), w @ [c]))
         (notification_text \<lparr>pu_URL = ''u'', pu_Description = ''d'', pu_Priority = '''', pu_TgChatIDs = [1, 2, 3]\<rparr>) [1, 2, 3] [] = (rs, [1, 2, 3 :: i64])
     \<and> e = JoinErr [send_failure 2]
     \<and> fst (NotifierService_HandleUpdate (\<lambda>c t w. (if c = 2 then Inl (ExtErr ''blocked'') else Inr (), w @ [c]))
         \<lparr>pu_URL = ''u'', pu_Description = ''d'', pu_Priority = '''', pu_TgChatIDs = [1, 2, 3]\<rparr> []) = Inl e"
proof -
  let ?s = "\<lambda>(c :: i64) (t :: string) w. (if c = 2 then Inl (ExtErr ''blocked'') else Inr (), w @ [c])"
  let ?u = "\<lparr>pu_URL = ''u'', pu_Description = ''d'', pu_Priority = '''', pu_TgChatIDs = [1, 2, 3 :: i64]\<rparr>"
  have np: "no_panics ?s" by (simp add: no_panics_def)
  obtain r w' where run: "NotifierService_HandleUpdate ?s ?u [] = (r, w')" by (cases "NotifierService_HandleUpdate ?s ?u []")
  obtain rs where rs: "calls ?s (notification_text ?u) [1, 2, 3] [] = (rs, w')"
      "r = Inr () \<longleftrightarrow> (\<forall>(c, a) \<in> set rs. a = Inr ())"
      "\<forall>e. r = Inl e \<longrightarrow> e = JoinErr (map send_failure (map fst (filter (isl \<circ> snd) rs)))"
    using notify_every_chat [OF np _ _ run] by auto
  have k: "calls ?s (notification_text ?u) [1, 2, 3] [] = ([(1, Inr ()), (2, Inl (ExtErr ''blocked'')), (3, Inr ())], [1, 2, 3])"
    by simp
  with rs obtain e where "r = Inl e" "e = JoinErr [send_failure 2]" by (cases r) auto
  with run k show ?thesis by auto
qed

subsection \<open>The direct notifiers\<close>

lemma arrives_updates:
  "arrives host \<lparr>rq_method = m, rq_url = host @ ''/'' @ ''updates'', rq_header = hs, rq_body = b\<rparr> =
     Some \<lparr>sq_method = m, sq_path = [''updates''], sq_header = hs, sq_body = Inr b\<rparr>"
  by (simp add: arrives_def)

text \<open>The update as the bot's service gets it: without its priority, its texts as JSON carries them.\<close>

definition direct_update :: "link_update \<Rightarrow> processed_update" where
  "direct_update u = \<lparr>pu_URL = valid_text (lu_URL u), pu_Description = valid_text (lu_Description u),
     pu_Priority = '''', pu_TgChatIDs = lu_TgChatIDs u\<rparr>"

lemma dec_direct_update: "unmarshal dec_updateRequest zero_processed (rq_body (http_bot_request url u)) = Inr (direct_update u)"
proof -
  have names: "fold_name ''author'' \<noteq> fold_name n" "fold_name ''id'' \<noteq> fold_name n"
    if "n \<in> {''url'', ''description'', ''priority'', ''tgChatIds''}" for n
    using that by (auto; code_simp)+
  have cs: "dec_list dec_i64 0 (enc_list enc_i64 cs) old = Inr cs" for cs old
    using dec_enc_list [of cs dec_i64 enc_i64 0 "\<lambda>x. x" old] by simp
  show ?thesis
    by (simp add: unmarshal_def http_bot_request_def dec_updateRequest_def dec_struct_def dec_field_def zero_processed_def
        cs direct_update_def)
qed

text \<open>C29. The direct notifiers hand an update to the bot's handler unchanged but for its priority, which they
  do not send. Over HTTP, for a body within the bot's limit, the texts arrive with invalid bytes
  replaced and every error of the handler is an unexpected status 500; over gRPC the texts must be
  UTF-8 and the error carries the handler's message.\<close>

theorem direct_notifiers_transparent:
  fixes h :: "'w update_handler" and host :: string
  assumes "uh_Limit h (rq_body (http_bot_request host u)) = rq_body (http_bot_request host u)"
    and "utf8 (lu_URL u)" and "utf8 (lu_Description u)"
  shows "http_bot_SendUpdate \<lparr>hb_url = host, hb_Do = connected host (updates_mux (\<lambda>f. f) h)\<rparr> u w =
      (case uh_HandleUpdate h (direct_update u) w of
         (Inr _, w') \<Rightarrow> (Inr (), w')
       | (Inl e, w') \<Rightarrow> (Inl (NewErr ''bot api returned unexpected status: 500''), w'))
    \<and> grpc_bot_SendUpdate (grpc_SendUpdate h) u w =
      (case uh_HandleUpdate h (direct_update u) w of
         (Inr _, w') \<Rightarrow> (Inr (), w')
       | (Inl e, w') \<Rightarrow> (Inl (WrapErr ''failed to send update to bot via gRPC: ''
             (StatusErr Internal (''failed to handle update for link '' @ lu_URL u @ '': '' @ uh_Error h e)) ''''), w'))"
proof
  have d: "unmarshal dec_updateRequest zero_processed (uh_Limit h (rq_body (http_bot_request host u))) = Inr (direct_update u)"
    by (simp add: assms(1) dec_direct_update)
  have a: "arrives host (http_bot_request host u) =
      Some \<lparr>sq_method = ''POST'', sq_path = [''updates''], sq_header = [json_header],
        sq_body = Inr (rq_body (http_bot_request host u))\<rparr>"
    unfolding http_bot_request_def http_request.simps by (rule arrives_updates)
  have s: "show_nat 500 = ''500''" by code_simp
  show "http_bot_SendUpdate \<lparr>hb_url = host, hb_Do = connected host (updates_mux (\<lambda>f. f) h)\<rparr> u w =
      (case uh_HandleUpdate h (direct_update u) w of
         (Inr _, w') \<Rightarrow> (Inr (), w')
       | (Inl e, w') \<Rightarrow> (Inl (NewErr ''bot api returned unexpected status: 500''), w'))"
    by (auto simp: http_bot_SendUpdate_def connected_def a updates_mux_def HandleUpdates_def d ehandle_def
        updates_writeError_def plain_status_def s split: sum.splits prod.splits)
  have t: "\<lparr>pu_URL = lu_URL u, pu_Description = lu_Description u, pu_Priority = '''', pu_TgChatIDs = lu_TgChatIDs u\<rparr> = direct_update u"
    using assms(2,3) by (simp add: direct_update_def utf8_def)
  show "grpc_bot_SendUpdate (grpc_SendUpdate h) u w =
      (case uh_HandleUpdate h (direct_update u) w of
         (Inr _, w') \<Rightarrow> (Inr (), w')
       | (Inl e, w') \<Rightarrow> (Inl (WrapErr ''failed to send update to bot via gRPC: ''
             (StatusErr Internal (''failed to handle update for link '' @ lu_URL u @ '': '' @ uh_Error h e)) ''''), w'))"
    by (auto simp: grpc_bot_SendUpdate_def grpc_SendUpdate_def t ehandle_def timed_out_def split: sum.splits prod.splits)
qed

definition sample_handler :: "(i64 \<times> string) list update_handler" where
  "sample_handler = \<lparr>uh_HandleUpdate = NotifierService_HandleUpdate (\<lambda>c t w. (Inr (), w @ [(c, t)])),
     uh_Error = (\<lambda>e. ''''), uh_Limit = (\<lambda>b. b), uh_Text = (\<lambda>b. '''')\<rparr>"

lemma direct_notifiers_transparent_witness:
  "http_bot_SendUpdate \<lparr>hb_url = ''http://bot'', hb_Do = connected ''http://bot'' (updates_mux (\<lambda>f. f) sample_handler)\<rparr>
     \<lparr>lu_ID = 1, lu_URL = ''u'', lu_Author = ''a'', lu_Description = ''d'', lu_TgChatIDs = [5, 6]\<rparr> [] =
   (Inr (), [(5, ''Update on u:'' @ [CHR 0x0A] @ ''d''), (6, ''Update on u:'' @ [CHR 0x0A] @ ''d'')])"
proof -
  let ?u = "\<lparr>lu_ID = 1, lu_URL = ''u'', lu_Author = ''a'', lu_Description = ''d'', lu_TgChatIDs = [5, 6]\<rparr> :: link_update"
  have u: "utf8 (lu_URL ?u)" "utf8 (lu_Description ?u)" by code_simp+
  have l: "uh_Limit sample_handler (rq_body (http_bot_request ''http://bot'' ?u)) = rq_body (http_bot_request ''http://bot'' ?u)"
    by (simp add: sample_handler_def)
  have "uh_HandleUpdate sample_handler (direct_update ?u) [] =
      (Inr (), [(5, ''Update on u:'' @ [CHR 0x0A] @ ''d''), (6, ''Update on u:'' @ [CHR 0x0A] @ ''d'')])"
    using u by (simp add: sample_handler_def direct_update_def utf8_def NotifierService_HandleUpdate_def
        notification_text_def ebind_def ehandle_def)
  with direct_notifiers_transparent [OF l u, of "[]"] show ?thesis by simp
qed

end
