(* ===== verification/Telegram.thy ===== *)
theory Telegram
  imports Bot_Dialog
begin

text \<open>
  The bot's Telegram client (\<open>bot/infrastructure/adapter/out/telegram/client.go\<close>) and the poller's loop
  (\<open>bot/infrastructure/adapter/in/telegram/poller.go\<close>). The Bot API is the transport \<open>tg_Do\<close>; the offset
  that the client keeps is passed along.
\<close>

subsection \<open>The client\<close>

text \<open>\<open>tg_poll\<close>: the seconds of a long poll, nine tenths of the timeout in floating point, rounded down.\<close>

record 'w tg_client =
  tg_url :: string
  tg_Do :: "'w http_do"
  tg_poll :: int

text \<open>The fields that every answer of the API has.\<close>

record tg_result =
  tr_Ok :: bool
  tr_ErrorCode :: i64
  tr_Description :: string

definition zero_tg_result :: tg_result where
  "zero_tg_result = \<lparr>tr_Ok = False, tr_ErrorCode = 0, tr_Description = ''''\<rparr>"

definition dec_tg_result :: "tg_result decoder" where
  "dec_tg_result = dec_struct (\<lambda>ms old.
     sbind (dec_field ''ok'' dec_bool ms (tr_Ok old)) (\<lambda>ok.
     sbind (dec_field ''error_code'' dec_i64 ms (tr_ErrorCode old)) (\<lambda>code.
     sbind (dec_field ''description'' dec_str ms (tr_Description old)) (\<lambda>desc.
     Inr \<lparr>tr_Ok = ok, tr_ErrorCode = code, tr_Description = desc\<rparr>))))"

definition telegram_NewClient :: "string \<Rightarrow> string \<Rightarrow> int \<Rightarrow> 'w http_do \<Rightarrow> ('w, 'w tg_client) prog" where
  "telegram_NewClient apiURL token poll Do =
     (let client = \<lparr>tg_url = apiURL @ token, tg_Do = Do, tg_poll = poll\<rparr> in
      ehandle (Do (rq_get (tg_url client @ ''/getMe'')))
        (\<lambda>err. efail (timed_out ''register bot timed out: '' ''error registering telegram bot: '' err)) (\<lambda>response.
      ehandle (lift_sum (unmarshal dec_tg_result zero_tg_result (rs_body response)))
        (\<lambda>err. efail (WrapErr ''error unmarshalling reposnse body: '' err '''')) (\<lambda>result.
      if \<not> tr_Ok result then efail (NewErr (tr_Description result)) else eret client)))"

definition tg_post :: "string \<Rightarrow> json \<Rightarrow> http_request" where
  "tg_post url body = \<lparr>rq_method = ''POST'', rq_url = url, rq_header = [json_header], rq_body = Some body\<rparr>"

definition telegram_SendMessage :: "'w tg_client \<Rightarrow> i64 \<Rightarrow> string \<Rightarrow> ('w, unit) prog" where
  "telegram_SendMessage client chatID text =
     ehandle (tg_Do client (tg_post (tg_url client @ ''/sendMessage'')
         (JObj [(''chat_id'', enc_i64 chatID), (''text'', enc_str text)])))
       (\<lambda>err. efail (timed_out ''send message timed out: '' ''error sending http request: '' err)) (\<lambda>resp.
     ehandle (lift_sum (unmarshal dec_tg_result zero_tg_result (rs_body resp)))
       (\<lambda>err. efail (WrapErr ''error unmarshalling response body: '' err '''')) (\<lambda>result.
     if \<not> tr_Ok result then efail (NewErr (tr_Description result)) else eret ()))"

text \<open>An update: its id, the sender, which is read and not used, the chat and the text.\<close>

definition dec_from :: "unit decoder" where
  "dec_from = dec_struct (\<lambda>ms old.
     sbind (dec_field ''id'' dec_i64 ms 0) (\<lambda>_.
     sbind (dec_field ''first_name'' dec_str ms '''') (\<lambda>_.
     sbind (dec_field ''last_name'' dec_str ms '''') (\<lambda>_.
     sbind (dec_field ''username'' dec_str ms '''') (\<lambda>_. Inr ())))))"

definition dec_chat :: "i64 decoder" where
  "dec_chat = dec_struct (dec_field ''id'' dec_i64)"

definition dec_tg_message :: "(i64 \<times> string) decoder" where
  "dec_tg_message = dec_struct (\<lambda>ms old.
     sbind (dec_field ''from'' dec_from ms ()) (\<lambda>_.
     sbind (dec_field ''chat'' dec_chat ms (fst old)) (\<lambda>c.
     sbind (dec_field ''text'' dec_str ms (snd old)) (\<lambda>t. Inr (c, t)))))"

definition zero_message :: message where
  "zero_message = \<lparr>mg_ID = 0, mg_ChatID = 0, mg_Text = ''''\<rparr>"

definition dec_update :: "message decoder" where
  "dec_update = dec_struct (\<lambda>ms old.
     sbind (dec_field ''update_id'' dec_i64 ms (mg_ID old)) (\<lambda>i.
     sbind (dec_field ''message'' dec_tg_message ms (mg_ChatID old, mg_Text old)) (\<lambda>(c, t).
     Inr \<lparr>mg_ID = i, mg_ChatID = c, mg_Text = t\<rparr>)))"

definition dec_updates :: "(tg_result \<times> message list) decoder" where
  "dec_updates = dec_struct (\<lambda>ms old.
     sbind (dec_tg_result (JObj ms) (fst old)) (\<lambda>res.
     sbind (dec_field ''result'' (dec_list dec_update zero_message) ms (snd old)) (\<lambda>us.
     Inr (res, us))))"

definition getUpdates_url :: "'w tg_client \<Rightarrow> i64 \<Rightarrow> string" where
  "getUpdates_url client offset = tg_url client @ ''/getUpdates?timeout='' @ show_int (tg_poll client) @ ''&offset=''
     @ format_i64 offset @ ''&allowed_updates=['' @ [CHR 0x22] @ ''message'' @ [CHR 0x22] @ '']''"

definition max_i64 :: "i64 \<Rightarrow> i64 \<Rightarrow> i64" where
  "max_i64 a b = (if sint a < sint b then b else a)"

text \<open>The new offset comes with the messages; after an error it is the old one.\<close>

definition telegram_GetUpdates :: "'w tg_client \<Rightarrow> i64 \<Rightarrow> ('w, message list \<times> i64) prog" where
  "telegram_GetUpdates client offset =
     ehandle (tg_Do client (rq_get (getUpdates_url client offset)))
       (\<lambda>err. efail (timed_out ''get updates timed out: '' ''error sending request: '' err)) (\<lambda>resp.
     ehandle (lift_sum (unmarshal dec_updates (zero_tg_result, []) (rs_body resp)))
       (\<lambda>err. efail (WrapErr ''error unmarshalling response body: '' err '''')) (\<lambda>(result, updates).
     if \<not> tr_Ok result then efail (NewErr (tr_Description result))
     else eret (updates, fold (\<lambda>res off. max_i64 off (mg_ID res)) updates offset + 1)))"

definition telegram_SetMyCommands :: "'w tg_client \<Rightarrow> (string \<times> string) list \<Rightarrow> ('w, unit) prog" where
  "telegram_SetMyCommands client cmds =
     ehandle (tg_Do client (tg_post (tg_url client @ ''/setMyCommands'')
         (JObj [(''commands'', if cmds = [] then JNull
            else enc_list (\<lambda>(name, desc). JObj [(''command'', enc_str name), (''description'', enc_str desc)]) cmds)])))
       (\<lambda>err. efail (timed_out ''set commands timed out: '' ''error senfing http request: '' err))
       (\<lambda>response. eret ())"

subsection \<open>The poller\<close>

text \<open>\<open>NewPoller\<close> tells Telegram the commands; \<open>order\<close> is the order in which Go ranges over their map.\<close>

definition NewPoller ::
    "((string \<times> string) list \<Rightarrow> (string \<times> string) list) \<Rightarrow> 'w tg_client \<Rightarrow> 'w command_service \<Rightarrow> 'w dialog_service \<Rightarrow>
     ('w, 'w poller) prog" where
  "NewPoller order tgClient commandService dialogService =
     ebind (telegram_SetMyCommands tgClient (GetCommandsInfo order commandService)) (\<lambda>_.
     eret \<lparr>pl_commandService = commandService, pl_dialogService = dialogService,
       pl_SendMessage = telegram_SendMessage tgClient\<rparr>)"

text \<open>The loop: \<open>stops\<close> says at each check whether the context is done. The answer is whether the loop
  returned, and the offset of the client.\<close>

fun poller_Start :: "'w tg_client \<Rightarrow> 'w poller \<Rightarrow> bool list \<Rightarrow> i64 \<Rightarrow> 'w \<Rightarrow> bool \<times> i64 \<times> 'w" where
  "poller_Start client poller [] offset w = (False, offset, w)"
| "poller_Start client poller (stop # stops) offset w =
     (if stop then (True, offset, w)
      else case telegram_GetUpdates client offset w of
        (Inl err, w') \<Rightarrow>
          if errors_is ErrDeadlineExceeded err then poller_Start client poller stops offset w'
          else if errors_is ErrCanceled err then (True, offset, w')
          else poller_Start client poller stops offset w'
      | (Inr (updates, offset'), w') \<Rightarrow>
          poller_Start client poller stops offset' (handle_updates poller updates w'))"

end
