(* ===== verification/Telegram_Props.thy ===== *)
theory Telegram_Props
  imports Telegram Http_Api_Props
begin

text \<open>
  The offset of the Telegram client: every update is delivered at most once, in the order of the answers,
  and an empty answer skips the next update.
\<close>

subsection \<open>What the poller handles\<close>

text \<open>The updates of the rounds of the loop, in the order they are handled.\<close>

fun polled :: "'w tg_client \<Rightarrow> 'w poller \<Rightarrow> bool list \<Rightarrow> i64 \<Rightarrow> 'w \<Rightarrow> message list" where
  "polled client poller [] offset w = []"
| "polled client poller (stop # stops) offset w =
     (if stop then []
      else case telegram_GetUpdates client offset w of
        (Inl err, w') \<Rightarrow>
          if errors_is ErrDeadlineExceeded err then polled client poller stops offset w'
          else if errors_is ErrCanceled err then []
          else polled client poller stops offset w'
      | (Inr (updates, offset'), w') \<Rightarrow>
          updates @ polled client poller stops offset' (handle_updates poller updates w'))"

text \<open>Answers as the client should read them: updates whose identifiers are at least the offset asked for,
  in ascending order and below 2^62. A server that keeps the contract of the next section answers like this.\<close>

definition serves_from_offset :: "'w tg_client \<Rightarrow> bool" where
  "serves_from_offset client \<longleftrightarrow> (\<forall>offset w updates offset' w'.
     telegram_GetUpdates client offset w = (Inr (updates, offset'), w') \<longrightarrow>
       sorted_wrt (<) (map (sint \<circ> mg_ID) updates)
       \<and> (\<forall>u \<in> set updates. sint offset \<le> sint (mg_ID u) \<and> sint (mg_ID u) < 2 ^ 62))"

subsection \<open>The server\<close>

text \<open>The document of an update, of its sender, and of an answer with these updates; an answer that is refused, by
  Telegram or on the way.\<close>

definition sender_document :: "json \<Rightarrow> bool" where
  "sender_document j \<longleftrightarrow> (\<exists>ms i f l u. j = JObj ms \<and> plain_object [''id'', ''first_name'', ''last_name'', ''username''] ms
     \<and> map_of ms ''id'' = Some (JInt (sint (i :: i64))) \<and> text_member ms ''first_name'' f \<and> text_member ms ''last_name'' l
     \<and> text_member ms ''username'' u)"

definition update_document :: "json \<Rightarrow> message \<Rightarrow> bool" where
  "update_document j u \<longleftrightarrow> (\<exists>ms gs cs. j = JObj ms \<and> plain_object [''update_id'', ''message''] ms
     \<and> map_of ms ''update_id'' = Some (JInt (sint (mg_ID u))) \<and> map_of ms ''message'' = Some (JObj gs)
     \<and> plain_object [''from'', ''chat'', ''text''] gs
     \<and> (case map_of gs ''from'' of None \<Rightarrow> True | Some j \<Rightarrow> sender_document j)
     \<and> map_of gs ''chat'' = Some (JObj cs) \<and> plain_object [''id''] cs \<and> map_of cs ''id'' = Some (JInt (sint (mg_ChatID u)))
     \<and> text_member gs ''text'' (mg_Text u))"

definition result_names :: "string list" where
  "result_names = [''ok'', ''error_code'', ''description'', ''result'']"

definition updates_document :: "json option \<Rightarrow> message list \<Rightarrow> bool" where
  "updates_document body us \<longleftrightarrow> (\<exists>ms js. body = Some (JObj ms) \<and> plain_object result_names ms
     \<and> map_of ms ''ok'' = Some (JBool True) \<and> map_of ms ''error_code'' = None \<and> map_of ms ''description'' = None
     \<and> map_of ms ''result'' = Some (JArr js) \<and> list_all2 update_document js us)"

definition refusal_document :: "json option \<Rightarrow> bool" where
  "refusal_document body \<longleftrightarrow> body = None \<or>
     (\<exists>ms. body = Some (JObj ms) \<and> plain_object result_names ms \<and> map_of ms ''ok'' = Some (JBool False))"

text \<open>The parameter \<open>offset\<close> of a query.\<close>

definition query_offset :: "string \<Rightarrow> i64 option" where
  "query_offset query =
     (case filter (\<lambda>p. has_prefix p ''offset='') (split_char (CHR ''&'') query) of
        [] \<Rightarrow> None
      | p # _ \<Rightarrow> (case parse_int (trim_prefix p ''offset='') of Inl e \<Rightarrow> None | Inr i \<Rightarrow> Some i))"

text \<open>The documented \<open>getUpdates\<close>, a contract on the request: it delivers updates in ascending order of their
  identifiers, none below the parameter \<open>offset\<close> of the query when it has one, or refuses, or the answer
  is lost. \<open>served\<close> is what it has delivered so far.\<close>

definition documented_server :: "string \<Rightarrow> 'w http_do \<Rightarrow> ('w \<Rightarrow> message list) \<Rightarrow> bool" where
  "documented_server url server served \<longleftrightarrow> (\<forall>query w answer w'.
     server (rq_get (url @ ''/getUpdates?'' @ query)) w = (answer, w') \<longrightarrow>
       (\<exists>us. served w' = served w @ us
          \<and> (case answer of Inl e \<Rightarrow> us = []
             | Inr r \<Rightarrow> updates_document (rs_body r) us \<or> us = [] \<and> refusal_document (rs_body r))
          \<and> sorted_wrt (<) (map (sint \<circ> mg_ID) us)
          \<and> (\<forall>u \<in> set us. sint (mg_ID u) < 2 ^ 62 \<and>
               (case query_offset query of None \<Rightarrow> True | Some i \<Rightarrow> sint i \<le> sint (mg_ID u)))))"

lemma i64_read: "dec_i64 (JInt (sint x)) old = Inr (x :: i64)"
  using dec_enc_i64 [of x old] by (simp add: enc_i64_def)

lemma sender_read:
  assumes "sender_document j"
  shows "dec_from j () = Inr ()"
proof -
  from assms obtain ms i f l u where j: "j = JObj ms" and p: "plain_object [''id'', ''first_name'', ''last_name'', ''username''] ms"
      and m: "map_of ms ''id'' = Some (JInt (sint (i :: i64)))" "text_member ms ''first_name'' f" "text_member ms ''last_name'' l"
        "text_member ms ''username'' u"
    unfolding sender_document_def by blast
  show ?thesis
    using text_member_read [OF p _ m(2)] text_member_read [OF p _ m(3)] text_member_read [OF p _ m(4)]
    by (simp add: j dec_from_def dec_struct_def dec_field_plain [OF p] m(1) i64_read del: dec_i64.simps)
qed

lemma update_read:
  assumes "update_document j u"
  shows "dec_update j zero_message = Inr u"
proof -
  from assms obtain ms gs cs where j: "j = JObj ms" and p: "plain_object [''update_id'', ''message''] ms"
      and i: "map_of ms ''update_id'' = Some (JInt (sint (mg_ID u)))" and g: "map_of ms ''message'' = Some (JObj gs)"
      and q: "plain_object [''from'', ''chat'', ''text''] gs" and f: "case map_of gs ''from'' of None \<Rightarrow> True | Some j \<Rightarrow> sender_document j"
      and c: "map_of gs ''chat'' = Some (JObj cs)" "plain_object [''id''] cs" "map_of cs ''id'' = Some (JInt (sint (mg_ChatID u)))"
      and t: "text_member gs ''text'' (mg_Text u)"
    unfolding update_document_def by blast
  have from_ok: "dec_field ''from'' dec_from gs () = Inr ()"
    using f by (auto simp: dec_field_plain [OF q] sender_read split: option.splits)
  have chat: "dec_chat (JObj cs) 0 = Inr (mg_ChatID u)"
    by (simp add: dec_chat_def dec_struct_def dec_field_plain [OF c(2)] c(3) i64_read del: dec_i64.simps)
  have "dec_tg_message (JObj gs) (0, '''') = Inr (mg_ChatID u, mg_Text u)"
    using text_member_read [OF q _ t]
    by (simp add: dec_tg_message_def dec_struct_def from_ok dec_field_plain [OF q, of "''chat''"] c(1) chat)
  then show ?thesis
    by (simp add: j dec_update_def dec_struct_def dec_field_plain [OF p] i g zero_message_def i64_read del: dec_i64.simps)
qed

lemma updates_read:
  assumes "updates_document body us"
  shows "\<exists>res. unmarshal dec_updates (zero_tg_result, []) body = Inr (res, us) \<and> tr_Ok res"
proof -
  from assms obtain ms js where b: "body = Some (JObj ms)" and p: "plain_object result_names ms"
      and m: "map_of ms ''ok'' = Some (JBool True)" "map_of ms ''error_code'' = None" "map_of ms ''description'' = None"
        "map_of ms ''result'' = Some (JArr js)" and js: "list_all2 update_document js us"
    unfolding updates_document_def by blast
  have "dec_all dec_update zero_message js = Inr us"
    using dec_all_shows [OF js, where d = dec_update and z = zero_message and g = "\<lambda>u. u"] update_read by simp
  moreover note read = dec_field_plain [OF p]
  ultimately show ?thesis
    by (simp add: b unmarshal_def dec_updates_def dec_tg_result_def dec_struct_def read result_names_def m)
qed

lemma refusal_read:
  assumes "refusal_document body" and "unmarshal dec_updates (zero_tg_result, []) body = Inr (res, us)"
  shows "\<not> tr_Ok res"
proof -
  from assms obtain ms where b: "body = Some (JObj ms)" and p: "plain_object result_names ms" and ok: "map_of ms ''ok'' = Some (JBool False)"
    unfolding refusal_document_def by (auto simp: unmarshal_def)
  have "dec_field ''ok'' dec_bool ms b = Inr False" for b
    by (simp add: dec_field_plain [OF p] result_names_def ok)
  then show ?thesis
    using assms(2) by (auto simp: b unmarshal_def dec_updates_def dec_tg_result_def dec_struct_def sbind_def split: sum.splits)
qed

text \<open>The loop runs its world as \<open>polled\<close> reads it.\<close>

lemma handle_updates_append: "handle_updates p (us @ vs) w = handle_updates p vs (handle_updates p us w)"
  by (induction us arbitrary: w) simp_all

subsection \<open>The offset\<close>

lemma sint_succ:
  fixes x :: i64
  assumes "sint x < 2 ^ 63 - 1"
  shows "sint (x + 1) = sint x + 1"
proof -
  have "- (2 ^ 63) \<le> sint x" using sint_i64_bounds by blast
  with assms show ?thesis by (simp add: sint_word_ariths(1) signed_take_bit_int_eq_self)
qed

lemma sint_max [simp]: "sint (max_i64 a b) = max (sint a) (sint b)"
  by (simp add: max_i64_def max_def)

lemma fold_max:
  "sint (fold (\<lambda>u off. max_i64 off (mg_ID u)) us off) = fold (\<lambda>u m. max m (sint (mg_ID u))) us (sint off)"
  by (induction us arbitrary: off) simp_all

lemma fold_max_above:
  fixes f :: "'u \<Rightarrow> int"
  shows "m \<le> fold (\<lambda>u m. max m (f u)) us m" and "u \<in> set us \<Longrightarrow> f u \<le> fold (\<lambda>u m. max m (f u)) us m"
proof -
  show le: "m \<le> fold (\<lambda>u m. max m (f u)) us m" for m us
    by (induction us arbitrary: m) (auto intro: order_trans [OF max.cobounded1])
  show "f u \<le> fold (\<lambda>u m. max m (f u)) us m" if "u \<in> set us"
    using that le by (induction us arbitrary: m) (auto intro: order_trans [OF max.cobounded2])
qed

lemma fold_max_bound:
  fixes f :: "'u \<Rightarrow> int"
  shows "m < b \<Longrightarrow> (\<And>u. u \<in> set us \<Longrightarrow> f u < b) \<Longrightarrow> fold (\<lambda>u m. max m (f u)) us m < b"
  by (induction us arbitrary: m) auto

lemma next_offset:
  assumes "telegram_GetUpdates client off w = (Inr (us, off'), w')" and "sint off < 2 ^ 63 - 1"
    and "\<And>u. u \<in> set us \<Longrightarrow> sint (mg_ID u) < 2 ^ 62"
  shows "sint off < sint off'" and "u \<in> set us \<Longrightarrow> sint (mg_ID u) < sint off'" and "sint off' \<le> max (sint off + 1) (2 ^ 62)"
proof -
  have off': "off' = fold (\<lambda>u off. max_i64 off (mg_ID u)) us off + 1"
    using assms(1) by (auto simp: telegram_GetUpdates_def ehandle_def split: prod.splits sum.splits if_splits)
  let ?m = "fold (\<lambda>u m. max m (sint (mg_ID u))) us (sint off)"
  have b: "?m < max (sint off + 1) (2 ^ 62)" by (rule fold_max_bound) (use assms(3) in fastforce)+
  then have "?m < 2 ^ 63 - 1" using assms(2) by simp
  then have s: "sint off' = ?m + 1" by (simp add: off' sint_succ fold_max)
  show "sint off < sint off'" using fold_max_above(1) [of "sint off" "\<lambda>u. sint (mg_ID u)" us] s by simp
  show "sint (mg_ID u) < sint off'" if "u \<in> set us"
    using fold_max_above(2) [OF that, of "\<lambda>u. sint (mg_ID u)" "sint off"] s by simp
  show "sint off' \<le> max (sint off + 1) (2 ^ 62)" using s b by simp
qed

text \<open>The offset stays in range for so many rounds.\<close>

definition room :: "i64 \<Rightarrow> bool list \<Rightarrow> bool" where
  "room off stops \<longleftrightarrow> sint off + int (length stops) < 2 ^ 63 - 1 \<and> int (length stops) < 2 ^ 62 - 1"

lemma polled_sorted:
  assumes "serves_from_offset client" and "room off stops"
  shows "sorted_wrt (<) (map (sint \<circ> mg_ID) (polled client poller stops off w))
    \<and> (\<forall>u \<in> set (polled client poller stops off w). sint off \<le> sint (mg_ID u))"
  using assms(2)
proof (induction stops arbitrary: off w)
  case (Cons stop stops)
  obtain r w1 where g: "telegram_GetUpdates client off w = (r, w1)" by (cases "telegram_GetUpdates client off w")
  show ?case
  proof (cases r)
    case (Inl e)
    have "room off stops" using Cons.prems by (simp add: room_def)
    with g Inl Cons.IH [of off w1] show ?thesis by simp
  next
    case (Inr p)
    then obtain us off' where p: "r = Inr (us, off')" by (cases p) auto
    with g have g: "telegram_GetUpdates client off w = (Inr (us, off'), w1)" by simp
    have s: "sorted_wrt (<) (map (sint \<circ> mg_ID) us)" "\<And>u. u \<in> set us \<Longrightarrow> sint off \<le> sint (mg_ID u) \<and> sint (mg_ID u) < 2 ^ 62"
      using assms(1) g unfolding serves_from_offset_def by blast+
    have off: "sint off < 2 ^ 63 - 1" using Cons.prems by (simp add: room_def)
    note n = next_offset [OF g off]
    let ?rest = "polled client poller stops off' (handle_updates poller us w1)"
    have up: "sint off < sint off'" by (rule n(1)) (use s(2) in blast)
    have "room off' stops" using n(3) s(2) Cons.prems by (fastforce simp: room_def)
    note rest = Cons.IH [OF this, of "handle_updates poller us w1"]
    have lt: "sint (mg_ID u) < sint (mg_ID v)" if "u \<in> set us" "v \<in> set ?rest" for u v
      using n(2) [OF _ that(1)] rest that(2) s(2) by fastforce
    show ?thesis
    proof (cases stop)
      case False
      with g have eq: "polled client poller (stop # stops) off w = us @ ?rest" by simp
      have "sorted_wrt (<) (map (sint \<circ> mg_ID) (us @ ?rest))"
        using s(1) rest lt by (auto simp: sorted_wrt_append comp_def)
      moreover have "sint off \<le> sint (mg_ID u)" if "u \<in> set (us @ ?rest)" for u
        using that s(2) rest up by fastforce
      ultimately show ?thesis unfolding eq by blast
    qed simp
  qed
qed simp

subsection \<open>A server to try it on\<close>

text \<open>It answers the first of its updates that is not below the offset.\<close>

definition sample_poll_prefix :: string where
  "sample_poll_prefix = ''http://t/bot/getUpdates?timeout=27&offset=''"

definition tg_sample_update :: "int \<Rightarrow> json" where
  "tg_sample_update i = JObj [(''update_id'', JInt i), (''message'', JObj [(''chat'', JObj [(''id'', JInt 5)]), (''text'', JStr ''hi'')])]"

definition sample_telegram :: "int list http_do" where
  "sample_telegram rq ids =
     (case parse_int (takeWhile (\<lambda>c. c \<noteq> CHR ''&'') (trim_prefix (rq_url rq) sample_poll_prefix)) of
        Inl e \<Rightarrow> (Inl e, ids)
      | Inr off \<Rightarrow> (Inr \<lparr>rs_status = 200, rs_body = Some (JObj [(''ok'', JBool True), (''result'', JArr
          (case find (\<lambda>i. sint off \<le> i \<and> i < 2 ^ 62) ids of None \<Rightarrow> [] | Some i \<Rightarrow> [tg_sample_update i]))])\<rparr>, ids))"

definition sample_client :: "int list tg_client" where
  "sample_client = \<lparr>tg_url = ''http://t/bot'', tg_Do = sample_telegram, tg_poll = 27\<rparr>"

lemma sample_request:
  "sample_telegram (rq_get (getUpdates_url sample_client off)) ids =
     (Inr \<lparr>rs_status = 200, rs_body = Some (JObj [(''ok'', JBool True), (''result'', JArr
        (case find (\<lambda>i. sint off \<le> i \<and> i < 2 ^ 62) ids of None \<Rightarrow> [] | Some i \<Rightarrow> [tg_sample_update i]))])\<rparr>, ids)"
proof -
  have "show_int 27 = ''27''" by code_simp
  then have url: "getUpdates_url sample_client off = sample_poll_prefix @ format_i64 off @
      (''&allowed_updates=['' @ [CHR 0x22] @ ''message'' @ [CHR 0x22] @ '']'')"
    by (simp add: getUpdates_url_def sample_client_def sample_poll_prefix_def)
  have "CHR ''&'' \<notin> set (format_i64 off)" using format_i64_chars [of "CHR ''&''" off] by auto
  then have t: "takeWhile (\<lambda>c. c \<noteq> CHR ''&'') (format_i64 off @ ''&allowed_updates=['' @ t) = format_i64 off" for t
    by (subst takeWhile_append2) auto
  show ?thesis
    by (simp add: sample_telegram_def rq_get_def url t [simplified append.simps] parse_format_i64)
qed

lemma sample_decoded:
  "- (2 ^ 63) \<le> i \<and> i < 2 ^ 63 \<Longrightarrow>
   unmarshal dec_updates (zero_tg_result, []) (Some (JObj [(''ok'', JBool True), (''result'', JArr [tg_sample_update i])])) =
     Inr (\<lparr>tr_Ok = True, tr_ErrorCode = 0, tr_Description = ''''\<rparr>, [\<lparr>mg_ID = of_int i, mg_ChatID = 5, mg_Text = ''hi''\<rparr>])"
  "unmarshal dec_updates (zero_tg_result, []) (Some (JObj [(''ok'', JBool True), (''result'', JArr [])])) =
     Inr (\<lparr>tr_Ok = True, tr_ErrorCode = 0, tr_Description = ''''\<rparr>, [])"
  by (simp_all add: unmarshal_def dec_updates_def dec_tg_result_def dec_struct_def dec_field_def tg_sample_update_def
      dec_update_def dec_tg_message_def dec_chat_def zero_tg_result_def zero_message_def fold_name_ascii fold_rune_def)

lemma sample_GetUpdates:
  "telegram_GetUpdates sample_client off ids =
     (case find (\<lambda>i. sint off \<le> i \<and> i < 2 ^ 62) ids of
        None \<Rightarrow> (Inr ([], off + 1), ids)
      | Some i \<Rightarrow> (Inr ([\<lparr>mg_ID = of_int i, mg_ChatID = 5, mg_Text = ''hi''\<rparr>], max_i64 off (of_int i) + 1), ids))"
proof -
  have Do: "tg_Do sample_client = sample_telegram" by (simp add: sample_client_def)
  show ?thesis
  proof (cases "find (\<lambda>i. sint off \<le> i \<and> i < 2 ^ 62) ids")
    case None
    show ?thesis unfolding telegram_GetUpdates_def ehandle_def Do sample_request None
      by (simp add: sample_decoded(2))
  next
    case (Some i)
    then have "- (2 ^ 63) \<le> i \<and> i < 2 ^ 63"
      using sint_i64_bounds [of off] by (auto simp: find_Some_iff)
    note d = sample_decoded(1) [OF this]
    show ?thesis unfolding telegram_GetUpdates_def ehandle_def Do sample_request Some
      by (simp add: d)
  qed
qed

lemma sample_serves: "serves_from_offset sample_client"
  unfolding serves_from_offset_def
proof (intro allI impI)
  fix off w us off' w'
  assume g: "telegram_GetUpdates sample_client off w = (Inr (us, off'), w')"
  have v: "sint (of_int i :: i64) = i" if "sint off \<le> i" "i < 2 ^ 62" for i
    using that sint_i64_bounds [of off] by (simp add: signed_of_int signed_take_bit_int_eq_self)
  show "sorted_wrt (<) (map (sint \<circ> mg_ID) us) \<and> (\<forall>u \<in> set us. sint off \<le> sint (mg_ID u) \<and> sint (mg_ID u) < 2 ^ 62)"
    using g v by (auto simp: sample_GetUpdates find_Some_iff split: option.splits)
qed

subsection \<open>Delivery\<close>

text \<open>The request that \<open>GetUpdates\<close> makes carries the offset of the client.\<close>

lemma getUpdates_query:
  "\<exists>query. getUpdates_url client off = tg_url client @ ''/getUpdates?'' @ query \<and> query_offset query = Some off"
proof (intro exI conjI)
  let ?amp = "CHR ''&''"
  let ?rest = "''allowed_updates=['' @ [CHR 0x22] @ ''message'' @ [CHR 0x22] @ '']''"
  let ?query = "(''timeout='' @ show_int (tg_poll client)) @ ?amp # (''offset='' @ format_i64 off) @ ?amp # ?rest"
  show "getUpdates_url client off = tg_url client @ ''/getUpdates?'' @ ?query" by (simp add: getUpdates_url_def)
  have "?amp \<notin> set (show_int (tg_poll client))" by (auto simp: show_int_def dest: show_nat_digits)
  then have poll: "?amp \<notin> set (''timeout='' @ show_int (tg_poll client))" by simp
  have off: "?amp \<notin> set (''offset='' @ format_i64 off)" using format_i64_chars [of ?amp off] by auto
  have rest: "?amp \<notin> set ?rest" by simp
  have "split_char ?amp ?query = [''timeout='' @ show_int (tg_poll client), ''offset='' @ format_i64 off, ?rest]"
    unfolding split_char_piece [OF poll] split_char_piece [OF off] split_char_single [OF rest] ..
  then show "query_offset ?query = Some off"
    using trim_prefix_append [of "''offset=''" "format_i64 off"]
    by (simp add: query_offset_def has_prefix_def parse_format_i64)
qed

lemma documented_GetUpdates:
  assumes "documented_server (tg_url client) (tg_Do client) served" and "telegram_GetUpdates client off w = (answer, w')"
  shows "case answer of Inl e \<Rightarrow> served w' = served w
    | Inr (us, off') \<Rightarrow> served w' = served w @ us \<and> sorted_wrt (<) (map (sint \<circ> mg_ID) us)
        \<and> (\<forall>u \<in> set us. sint off \<le> sint (mg_ID u) \<and> sint (mg_ID u) < 2 ^ 62)"
proof -
  obtain query where url: "getUpdates_url client off = tg_url client @ ''/getUpdates?'' @ query"
      and q: "query_offset query = Some off"
    using getUpdates_query by blast
  define rq where "rq = rq_get (getUpdates_url client off)"
  obtain r w1 where Do: "tg_Do client rq w = (r, w1)" by (cases "tg_Do client rq w")
  note read = telegram_GetUpdates_def ehandle_def rq_def [symmetric] Do
  obtain us where us: "served w1 = served w @ us" "case r of Inl e \<Rightarrow> us = []
        | Inr r \<Rightarrow> updates_document (rs_body r) us \<or> us = [] \<and> refusal_document (rs_body r)"
      "sorted_wrt (<) (map (sint \<circ> mg_ID) us)" "\<And>u. u \<in> set us \<Longrightarrow> sint off \<le> sint (mg_ID u) \<and> sint (mg_ID u) < 2 ^ 62"
    using assms(1) [unfolded documented_server_def, rule_format, OF Do [unfolded rq_def url]] by (auto simp: q)
  have w': "w' = w1"
    using assms(2) by (auto simp: read split: sum.splits prod.splits if_splits)
  show ?thesis
  proof (cases r)
    case (Inl e)
    then show ?thesis using assms(2) us(1,2) by (auto simp: read w')
  next
    case (Inr resp)
    consider "updates_document (rs_body resp) us" | "us = []" "refusal_document (rs_body resp)" using us(2) Inr by auto
    then show ?thesis
    proof cases
      case 1
      obtain res where "unmarshal dec_updates (zero_tg_result, []) (rs_body resp) = Inr (res, us)" "tr_Ok res"
        using updates_read [OF 1] by blast
      then show ?thesis using assms(2) us by (auto simp: read Inr w')
    next
      case 2
      then have "\<exists>e. answer = Inl e"
        using assms(2) refusal_read [OF 2(2)]
        by (auto simp: read Inr split: sum.splits if_splits)
      then show ?thesis using us(1) 2(1) w' by auto
    qed
  qed
qed

lemma documented_serves: "documented_server (tg_url client) (tg_Do client) served \<Longrightarrow> serves_from_offset client"
  unfolding serves_from_offset_def using documented_GetUpdates by fastforce

text \<open>Polling leaves the part \<open>\<pi>\<close> of the world alone and handling an update leaves the server alone; then the loop
  handles what is served to it.\<close>

lemma polled_effect:
  assumes poll: "\<And>off w. \<pi> (snd (telegram_GetUpdates client off w)) = \<pi> w"
    and step: "\<And>m w. \<pi> (snd (handleMessage poller m w)) = step m (\<pi> w)"
    and served: "documented_server (tg_url client) (tg_Do client) served" "\<And>m w. served (snd (handleMessage poller m w)) = served w"
  shows "\<pi> (snd (snd (poller_Start client poller stops off w))) = fold step (polled client poller stops off w) (\<pi> w)
    \<and> served (snd (snd (poller_Start client poller stops off w))) = served w @ polled client poller stops off w"
proof (induction stops arbitrary: off w)
  case (Cons stop stops)
  have h: "\<pi> (handle_updates poller us w) = fold step us (\<pi> w)" "served (handle_updates poller us w) = served w" for us w
    by (induction us arbitrary: w) (simp_all add: step served(2))
  obtain r w1 where g: "telegram_GetUpdates client off w = (r, w1)" by (cases "telegram_GetUpdates client off w")
  then have w1: "\<pi> w1 = \<pi> w" using poll [of off w] by simp
  note s = documented_GetUpdates [OF served(1) g]
  show ?case
  proof (cases r)
    case (Inl e)
    with g Cons.IH w1 s show ?thesis by simp
  next
    case (Inr p)
    with g Cons.IH w1 h s show ?thesis by (cases p) simp
  qed
qed simp

lemma telegram_poll_keeps:
  assumes "\<And>query w. \<pi> (snd (tg_Do client (rq_get (tg_url client @ ''/getUpdates?'' @ query)) w)) = \<pi> w"
  shows "\<pi> (snd (telegram_GetUpdates client off w)) = \<pi> w"
proof -
  obtain query where url: "getUpdates_url client off = tg_url client @ ''/getUpdates?'' @ query"
    using getUpdates_query by blast
  show ?thesis
    using assms [of query w] by (auto simp: telegram_GetUpdates_def ehandle_def url split: sum.splits prod.splits)
qed

text \<open>C30. With the server of Telegram as documented, and while the offset lasts, the poller handles exactly the
  updates that the server delivers to it, one after the other as they come, over all its rounds and whatever fails between
  them: what it leaves of the bot's own state is what handling these updates leaves. And every update is delivered, and so
  handled, at most once and in the order of the identifiers, none below the offset it starts with, because
  every request carries an offset above all updates before.\<close>

theorem updates_handled_at_most_once:
  assumes "documented_server (tg_url client) (tg_Do client) served"
    and "\<And>query w. \<pi> (snd (tg_Do client (rq_get (tg_url client @ ''/getUpdates?'' @ query)) w)) = \<pi> w"
    and "\<And>m w. \<pi> (snd (handleMessage poller m w)) = step m (\<pi> w)" and "\<And>m w. served (snd (handleMessage poller m w)) = served w"
    and "sint offset + int (length stops) < 2 ^ 63 - 1" and "int (length stops) < 2 ^ 62 - 1"
  shows "\<exists>msgs. served (snd (snd (poller_Start client poller stops offset w))) = served w @ msgs
    \<and> \<pi> (snd (snd (poller_Start client poller stops offset w))) = fold step msgs (\<pi> w)
    \<and> sorted_wrt (<) (map (sint \<circ> mg_ID) msgs) \<and> (\<forall>m \<in> set msgs. sint offset \<le> sint (mg_ID m))"
proof -
  have "room offset stops" using assms(5,6) by (simp add: room_def)
  with polled_sorted [OF documented_serves [OF assms(1)]]
    polled_effect [where \<pi> = \<pi> and step = step, OF telegram_poll_keeps [where \<pi> = \<pi>, OF assms(2)] assms(3) assms(1) assms(4)]
  show ?thesis by blast
qed

text \<open>C31. An empty answer loses the next update: once a poll has come back empty at an offset, no later
  round handles the update that has that identifier, although it was never delivered.\<close>

theorem empty_poll_skips_update:
  assumes "serves_from_offset client" and "telegram_GetUpdates client offset w = (Inr ([], offset'), w')"
    and "sint offset + 1 + int (length stops) < 2 ^ 63 - 1" and "int (length stops) < 2 ^ 62 - 1"
  shows "\<forall>m \<in> set (polled client poller stops offset' w''). mg_ID m \<noteq> offset"
proof
  fix m
  assume m: "m \<in> set (polled client poller stops offset' w'')"
  have off': "offset' = offset + 1"
    using assms(2) by (auto simp: telegram_GetUpdates_def ehandle_def split: prod.splits sum.splits if_splits)
  then have "sint offset' = sint offset + 1" using assms(3) by (simp add: sint_succ)
  with polled_sorted [OF assms(1), of offset' stops] assms(3,4) m show "mg_ID m \<noteq> offset"
    by (fastforce simp: room_def)
qed

definition sample_poller :: "int list poller" where
  "sample_poller = \<lparr>pl_commandService = [],
     pl_dialogService = \<lparr>dl_scrapper = http_client_api \<lparr>sl_Do = (\<lambda>rq w. (Inl (ExtErr ''down''), w)), sl_baseURL = ''''\<rparr>,
       dl_sessionRepo = \<lparr>se_GetOrCreate = (\<lambda>c w. (Inr \<lparr>ss_ChatID = c, ss_State = StateIdle, ss_URL = ''''\<rparr>, w)),
         se_Save = (\<lambda>s w. (Inr (), w)), se_Delete = (\<lambda>c w. (Inl (Sentinel B_ErrSessionNotFound), w))\<rparr>\<rparr>,
     pl_SendMessage = (\<lambda>c t w. (Inr (), w))\<rparr>"

lemma empty_poll_skips_update_witness:
  "telegram_GetUpdates sample_client 11 [] = (Inr ([], 12), [])
   \<and> 11 \<notin> mg_ID ` set (polled sample_client sample_poller [False, False] 12 [11, 12])
   \<and> polled sample_client sample_poller [False, False] 12 [11, 12] = [\<lparr>mg_ID = 12, mg_ChatID = 5, mg_Text = ''hi''\<rparr>]"
proof -
  have g: "telegram_GetUpdates sample_client 11 [] = (Inr ([], 12), [])" by (simp add: sample_GetUpdates)
  have "polled sample_client sample_poller [False, False] 12 [11, 12] = [\<lparr>mg_ID = 12, mg_ChatID = 5, mg_Text = ''hi''\<rparr>]"
    by code_simp
  with g empty_poll_skips_update [OF sample_serves g, of "[False, False]" sample_poller "[11, 12]"] show ?thesis by auto
qed


text \<open>A server with these updates, which delivers the first one that the offset allows; the world holds what it has
  delivered and the chats that the bot has answered.\<close>

type_synonym demo_world = "int list \<times> message list \<times> i64 list"

definition demo_update :: "int \<Rightarrow> json" where
  "demo_update i = JObj [(''update_id'', JInt i), (''message'', JObj [(''message_id'', JInt 77),
     (''from'', JObj [(''id'', JInt 9), (''first_name'', JStr ''Ann'')]), (''chat'', JObj [(''id'', JInt 5)]), (''text'', JStr ''hi'')])]"

definition demo_message :: "int \<Rightarrow> message" where
  "demo_message i = \<lparr>mg_ID = of_int i, mg_ChatID = 5, mg_Text = ''hi''\<rparr>"

definition demo_due :: "string \<Rightarrow> int list \<Rightarrow> int list" where
  "demo_due query ids = (case find (\<lambda>i. (case query_offset query of None \<Rightarrow> 0 | Some off \<Rightarrow> sint off) \<le> i \<and> i < 2 ^ 62) ids of
     None \<Rightarrow> [] | Some i \<Rightarrow> [i])"

definition demo_telegram :: "demo_world http_do" where
  "demo_telegram rq = (\<lambda>(ids, served, answered).
     let due = demo_due (trim_prefix (rq_url rq) ''http://t/bot/getUpdates?'') ids in
     (Inr \<lparr>rs_status = 200, rs_body = Some (JObj [(''ok'', JBool True), (''result'', JArr (map demo_update due))])\<rparr>,
      (ids, served @ map demo_message due, answered)))"

definition demo_client :: "demo_world tg_client" where
  "demo_client = \<lparr>tg_url = ''http://t/bot'', tg_Do = demo_telegram, tg_poll = 27\<rparr>"

definition demo_poller :: "demo_world poller" where
  "demo_poller = \<lparr>pl_commandService = [],
     pl_dialogService = \<lparr>dl_scrapper = http_client_api \<lparr>sl_Do = (\<lambda>rq w. (Inl (ExtErr ''down''), w)), sl_baseURL = ''''\<rparr>,
       dl_sessionRepo = \<lparr>se_GetOrCreate = (\<lambda>c w. (Inr \<lparr>ss_ChatID = c, ss_State = StateIdle, ss_URL = ''''\<rparr>, w)),
         se_Save = (\<lambda>s w. (Inr (), w)), se_Delete = (\<lambda>c w. (Inl (Sentinel B_ErrSessionNotFound), w))\<rparr>\<rparr>,
     pl_SendMessage = (\<lambda>c t (ids, served, answered). (Inr (), (ids, served, answered @ [c])))\<rparr>"

lemma demo_names:
  "plain_object [''id'', ''first_name'', ''last_name'', ''username''] [(''id'', a), (''first_name'', b)]"
  "plain_object [''update_id'', ''message''] [(''update_id'', a), (''message'', b)]"
  "plain_object [''from'', ''chat'', ''text''] [(''message_id'', a), (''from'', b), (''chat'', c), (''text'', d)]"
  "plain_object [''id''] [(''id'', a)]" "plain_object result_names [(''ok'', a), (''result'', b)]"
  by (simp_all add: plain_object_def fold_name_ascii fold_rune_def result_names_def)

lemma demo_documents:
  assumes "- (2 ^ 63) \<le> i" and "i < 2 ^ 63"
  shows "update_document (demo_update i) (demo_message i)"
proof -
  have i: "sint (mg_ID (demo_message i)) = i" "sint (mg_ChatID (demo_message i)) = 5" "mg_Text (demo_message i) = ''hi''"
    using assms by (simp_all add: demo_message_def signed_of_int signed_take_bit_int_eq_self)
  let ?from = "[(''id'', JInt 9), (''first_name'', JStr ''Ann'')]"
  let ?msg = "[(''message_id'', JInt 77), (''from'', JObj ?from), (''chat'', JObj [(''id'', JInt 5)]), (''text'', JStr ''hi'')]"
  have "sender_document (JObj ?from)"
    unfolding sender_document_def using demo_names(1)
    by (intro exI [of _ ?from] exI [of _ "9 :: i64"] exI [of _ "''Ann''"] exI [of _ "''''"]) (simp add: text_member_def)
  then have d: "case map_of ?msg ''from'' of None \<Rightarrow> True | Some j \<Rightarrow> sender_document j" by simp
  have t: "text_member ?msg ''text'' ''hi''" by (simp add: text_member_def)
  show ?thesis
    unfolding update_document_def i
    by (rule exI [of _ "[(''update_id'', JInt i), (''message'', JObj ?msg)]"], rule exI [of _ ?msg], rule exI [of _ "[(''id'', JInt 5)]"],
        intro conjI demo_names d t) (simp_all add: demo_update_def)
qed

lemma demo_documented: "documented_server (tg_url demo_client) (tg_Do demo_client) (\<lambda>(ids, served, answered). served)"
  unfolding documented_server_def
proof (intro allI impI)
  fix query answer and w w' :: demo_world
  obtain ids s a where w: "w = (ids, s, a)" by (cases w)
  let ?due = "demo_due query ids"
  have due: "?due = [] \<or> (\<exists>i. ?due = [i] \<and> - (2 ^ 63) \<le> i \<and> i < 2 ^ 62
      \<and> (case query_offset query of None \<Rightarrow> True | Some off \<Rightarrow> sint off \<le> i))"
  proof (cases "find (\<lambda>i. (case query_offset query of None \<Rightarrow> 0 | Some off \<Rightarrow> sint off) \<le> i \<and> i < 2 ^ 62) ids")
    case (Some i)
    then have i: "(case query_offset query of None \<Rightarrow> 0 | Some off \<Rightarrow> sint off) \<le> i" "i < 2 ^ 62"
      by (auto simp: find_Some_iff)
    have "- (2 ^ 63) \<le> (case query_offset query of None \<Rightarrow> 0 | Some off \<Rightarrow> sint off)"
      using sint_i64_bounds(1) by (simp split: option.split)
    then have "- (2 ^ 63) \<le> i" using i(1) by (rule order_trans)
    with Some i show ?thesis by (simp add: demo_due_def split: option.splits)
  qed (simp add: demo_due_def)
  assume "tg_Do demo_client (rq_get (tg_url demo_client @ ''/getUpdates?'' @ query)) w = (answer, w')"
  moreover have "trim_prefix (''http://t/bot/getUpdates?'' @ query) ''http://t/bot/getUpdates?'' = query"
    by (rule trim_prefix_append)
  ultimately have r: "answer = Inr \<lparr>rs_status = 200, rs_body = Some (JObj [(''ok'', JBool True), (''result'', JArr (map demo_update ?due))])\<rparr>"
      "w' = (ids, s @ map demo_message ?due, a)"
    by (simp_all add: demo_client_def demo_telegram_def rq_get_def w Let_def)
  have "list_all2 update_document (map demo_update ?due) (map demo_message ?due)"
    using due demo_documents by auto
  then have "updates_document (Some (JObj [(''ok'', JBool True), (''result'', JArr (map demo_update ?due))])) (map demo_message ?due)"
    unfolding updates_document_def using demo_names(5) by fastforce
  moreover have "sint (of_int i :: i64) = i" if "- (2 ^ 63) \<le> i" "i < 2 ^ 62" for i
    using that by (simp add: signed_of_int signed_take_bit_int_eq_self)
  ultimately show "\<exists>us. (\<lambda>(ids, served, answered). served) w' = (\<lambda>(ids, served, answered). served) w @ us
      \<and> (case answer of Inl e \<Rightarrow> us = [] | Inr r \<Rightarrow> updates_document (rs_body r) us \<or> us = [] \<and> refusal_document (rs_body r))
      \<and> sorted_wrt (<) (map (sint \<circ> mg_ID) us)
      \<and> (\<forall>u \<in> set us. sint (mg_ID u) < 2 ^ 62 \<and> (case query_offset query of None \<Rightarrow> True | Some i \<Rightarrow> sint i \<le> sint (mg_ID u)))"
    using due by (intro exI [of _ "map demo_message ?due"]) (auto simp: r w demo_message_def split: option.splits)
qed

lemma updates_handled_at_most_once_witness:
  "snd (snd (snd (poller_Start demo_client demo_poller [False, False] 0 ([3, 5], [], [])))) = ([demo_message 3, demo_message 5], [5, 5])"
proof -
  let ?pi = "\<lambda>(ids :: int list, served :: message list, answered :: i64 list). answered"
  have a: "?pi (snd (tg_Do demo_client rq w)) = ?pi w" for rq w
    by (cases w) (simp add: demo_client_def demo_telegram_def Let_def)
  have idle: "map_of (stateRegistry svc) StateIdle = Some (handleIdle svc)" for svc :: "demo_world dialog_service"
    by (simp add: stateRegistry_def)
  have "snd (handleMessage demo_poller m (ids, s, b)) = (ids, s, b @ [mg_ChatID m])" for m ids s b
    by (auto simp: handleMessage_def process_message_def demo_poller_def HandleCommand_def Let_def HandleMessage_def idle
        handleIdle_def say_def say_error_def ebind_def ehandle_def final_text_def try_again_later_def split: sum.splits prod.splits if_splits)
  then have b: "?pi (snd (handleMessage demo_poller m w)) = ?pi w @ [mg_ChatID m]"
    and c: "(\<lambda>(ids, served, answered). served) (snd (handleMessage demo_poller m w)) = (\<lambda>(ids, served, answered). served) w" for m w
    by (cases w; simp)+
  have chats: "fold (\<lambda>m acc. acc @ [mg_ChatID m]) msgs acc = acc @ map mg_ChatID msgs" for msgs :: "message list" and acc
    by (induction msgs arbitrary: acc) simp_all
  have run: "fst (snd (snd (snd (poller_Start demo_client demo_poller [False, False] 0 ([3, 5], [], []))))) = [demo_message 3, demo_message 5]"
    by code_simp
  from updates_handled_at_most_once [OF demo_documented, where \<pi> = ?pi and poller = demo_poller and step = "\<lambda>m acc. acc @ [mg_ChatID m]"
      and offset = 0 and stops = "[False, False]" and w = "([3, 5], [], [])", OF a b c]
  show ?thesis using run by (auto simp: chats demo_message_def prod_eq_iff case_prod_beta simp del: poller_Start.simps)
qed

end
