(* ===== verification/Resilience.thy ===== *)
theory Resilience
  imports Go_Http
begin

text \<open>
  The HTTP transports of \<open>internal/resilience/http.go\<close>: retries around a circuit breaker around the
  base transport. The libraries are parameters: \<open>Do\<close> of retry-go and \<open>Execute\<close> of gobreaker, with
  what their documentation promises as \<open>retry_law\<close> and \<open>breaker_law\<close>. The text of a log
  line is not modelled.
\<close>

subsection \<open>Requests and transports\<close>

text \<open>
  A request as a transport sees it: its message, its \<open>GetBody\<close> (\<open>nil\<close> is \<open>None\<close>), and its context,
  whose \<open>Err()\<close> may change with the world.
\<close>

record 'w round_request =
  rr_http :: http_request
  rr_GetBody :: "(goerr + json option) option"
  rr_ctx :: "'w \<Rightarrow> goerr option"

type_synonym 'w transport = "'w round_request \<Rightarrow> ('w, http_response) prog"

definition with_body :: "json option \<Rightarrow> 'w round_request \<Rightarrow> 'w round_request" where
  "with_body b req = req\<lparr>rr_http := (rr_http req)\<lparr>rq_body := b\<rparr>\<rparr>"

subsection \<open>Retries\<close>

definition DefaultRetryableStatuses :: "nat list" where
  "DefaultRetryableStatuses = [408, 425, 429, 500, 502, 503, 504]"

text \<open>\<open>time.Duration\<close> and \<open>float64\<close> values of the configurations: the floats are opaque.\<close>

record 'f retry_config =
  rc_Enabled :: bool
  rc_MaxRetries :: nat
  rc_Delay :: duration
  rc_Backoff :: bool
  rc_BackoffFactor :: 'f
  rc_MaxDelay :: duration
  rc_RetryableStatuses :: "nat list"

record 'f breaker_config =
  bc_Enabled :: bool
  bc_MaxRequests :: "32 word"
  bc_SlidingWindow :: duration
  bc_WaitInOpenState :: duration
  bc_MinimumNumberOfCalls :: "32 word"
  bc_FailureRateThreshold :: 'f

record 'f client_config =
  hc_Timeout :: duration
  hc_Retry :: "'f retry_config"
  hc_Breaker :: "'f breaker_config"

text \<open>What the retried function answers: no error, an error, or a \<open>retry.Unrecoverable\<close> one.\<close>

datatype retry_outcome = Success | Again goerr | Stop goerr

text \<open>
  \<open>Do\<close> of a retrier runs the function on the variables it captures and the world; the error it
  ends with is its own.
\<close>

type_synonym ('a, 'w) retried = "'a \<times> 'w \<Rightarrow> retry_outcome \<times> ('a \<times> 'w)"
type_synonym ('a, 'w) retry_do = "('a, 'w) retried \<Rightarrow> 'a \<times> 'w \<Rightarrow> goerr option \<times> ('a \<times> 'w)"

text \<open>The captured variables: the body the request has now, \<open>lastResp\<close> and \<open>lastErr\<close>.\<close>

record retry_vars =
  rv_body :: "json option"
  rv_lastResp :: "http_response option"
  rv_lastErr :: "goerr option"

text \<open>
  One call of the function given to \<open>Do\<close>. The previous response is discarded. A transport reads the
  body of the request it is given, so the next attempt has a body only if \<open>GetBody\<close> makes one.
\<close>

definition retry_attempt :: "'w transport \<Rightarrow> nat list \<Rightarrow> 'w round_request \<Rightarrow> (retry_vars, 'w) retried" where
  "retry_attempt base retryable req = (\<lambda>(v, w).
     (let v1 = v\<lparr>rv_lastResp := None\<rparr> in
      case rr_ctx req w of
        Some err \<Rightarrow> (Stop err, (v1, w))
      | None \<Rightarrow>
          (case rr_GetBody req of
             Some (Inl err) \<Rightarrow> (Stop err, (v1, w))
           | getBody \<Rightarrow>
               (let v2 = (case getBody of Some (Inr body) \<Rightarrow> v1\<lparr>rv_body := body\<rparr> | _ \<Rightarrow> v1) in
                case base (with_body (rv_body v2) req) w of
                  (Inl err, w') \<Rightarrow>
                    (if errors_is ErrOpenState err then Stop err else Again err,
                     (v2\<lparr>rv_body := None, rv_lastErr := Some err\<rparr>, w'))
                | (Inr resp, w') \<Rightarrow>
                    (if rs_status resp \<in> set retryable
                     then Again (NewErr (''retryable status code '' @ show_nat (rs_status resp))) else Success,
                     (v2\<lparr>rv_body := None, rv_lastResp := Some resp, rv_lastErr := None\<rparr>, w'))))))"

definition nil_response :: goerr where
  "nil_response = ExtErr ''http: RoundTripper implementation returned a nil *Response with a nil error''"

definition retry_RoundTrip ::
    "(retry_vars, 'w) retry_do \<Rightarrow> 'w transport \<Rightarrow> nat list \<Rightarrow> 'w transport" where
  "retry_RoundTrip Do base retryable req w =
     (case Do (retry_attempt base retryable req)
             (\<lparr>rv_body = rq_body (rr_http req), rv_lastResp = None, rv_lastErr = None\<rparr>, w) of
        (err, (v, w')) \<Rightarrow>
          (case (rv_lastErr v, rv_lastResp v) of
             (None, Some resp) \<Rightarrow> (Inr resp, w')
           | _ \<Rightarrow> (Inl (case err of Some e \<Rightarrow> e | None \<Rightarrow> nil_response), w')))"

text \<open>\<open>newRetryTransport\<close>: the retrier is built with its number of attempts and its delay function.\<close>

definition newRetryTransport ::
    "(nat \<Rightarrow> (retry_vars, 'w) retry_do) \<Rightarrow> 'w transport \<Rightarrow> 'f retry_config \<Rightarrow> 'w transport" where
  "newRetryTransport retrier base cfg =
     retry_RoundTrip (retrier (rc_MaxRetries cfg)) base
       (if rc_RetryableStatuses cfg = [] then DefaultRetryableStatuses else rc_RetryableStatuses cfg)"

text \<open>
  The delay before attempt \<open>n\<close>. The counter is a \<open>uint\<close>, so its decrement wraps; the operations on
  floats are parameters: \<open>scaled d f k\<close> is \<open>time.Duration(float64(d) * math.Pow(f, float64(k)))\<close>.
\<close>

definition exponentialBackoffDelay ::
    "(duration \<Rightarrow> 'f \<Rightarrow> 64 word \<Rightarrow> duration) \<Rightarrow> 'f \<Rightarrow> duration \<Rightarrow> 64 word \<Rightarrow> 64 word \<Rightarrow> duration \<Rightarrow> duration" where
  "exponentialBackoffDelay scaled backoffFactor maxDelay maxBackOffN n configDelay =
     (let n1 = (if maxBackOffN < n then maxBackOffN else n);
          delay = scaled configDelay backoffFactor (n1 - 1) in
      if 0 < maxDelay \<and> maxDelay < delay then maxDelay else delay)"

definition retry_delay ::
    "(duration \<Rightarrow> 'f \<Rightarrow> 64 word \<Rightarrow> duration) \<Rightarrow> 'f retry_config \<Rightarrow> 64 word \<Rightarrow> 64 word \<Rightarrow> duration" where
  "retry_delay scaled cfg maxBackOffN n =
     (if rc_Backoff cfg
      then exponentialBackoffDelay scaled (rc_BackoffFactor cfg) (rc_MaxDelay cfg) maxBackOffN n (rc_Delay cfg)
      else rc_Delay cfg)"

subsection \<open>The circuit breaker\<close>

text \<open>
  \<open>Execute\<close> of a breaker with state \<open>'b\<close>: it refuses the call, or makes it and passes on what it
  returns. A Go function returns its response and its error together.
\<close>

type_synonym 'w answered = "'w \<Rightarrow> (http_response option \<times> goerr option) \<times> 'w"
type_synonym ('b, 'w) execute =
  "'w answered \<Rightarrow> 'b \<times> 'w \<Rightarrow> (http_response option \<times> goerr option) \<times> ('b \<times> 'w)"

definition breaker_call :: "'w transport \<Rightarrow> 'w round_request \<Rightarrow> 'w answered" where
  "breaker_call base req w =
     (case rr_ctx req w of
        Some err \<Rightarrow> ((None, Some err), w)
      | None \<Rightarrow>
          (case base req w of
             (Inl err, w') \<Rightarrow> ((None, Some err), w')
           | (Inr resp, w') \<Rightarrow>
               (if 500 \<le> rs_status resp
                then ((Some (resp\<lparr>rs_body := None\<rparr>), Some (BreakerErr (int (rs_status resp)))), w')
                else ((Some resp, None), w'))))"

text \<open>\<open>errors.As\<close> into a \<open>breakerError\<close>.\<close>

fun as_breaker_error :: "goerr \<Rightarrow> bool" where
  "as_breaker_error (BreakerErr code) = True"
| "as_breaker_error (WrapErr p e q) = as_breaker_error e"
| "as_breaker_error (JoinErr es) = list_ex as_breaker_error es"
| "as_breaker_error _ = False"

text \<open>The transport works on the world inside; its request's context reads that world.\<close>

definition inner_request :: "'b \<Rightarrow> ('b \<times> 'w) round_request \<Rightarrow> 'w round_request" where
  "inner_request b req =
     \<lparr>rr_http = rr_http req, rr_GetBody = rr_GetBody req, rr_ctx = (\<lambda>w. rr_ctx req (b, w))\<rparr>"

definition breaker_RoundTrip :: "('b, 'w) execute \<Rightarrow> 'w transport \<Rightarrow> ('b \<times> 'w) transport" where
  "breaker_RoundTrip Execute base req bw =
     (case Execute (breaker_call base (inner_request (fst bw) req)) bw of
        ((resp, Some err), bw') \<Rightarrow>
          (if as_breaker_error err
           then ((case resp of Some r \<Rightarrow> Inr r | None \<Rightarrow> Inl nil_response), bw')
           else (Inl err, bw'))
      | ((resp, None), bw') \<Rightarrow>
          ((case resp of Some r \<Rightarrow> Inr r | None \<Rightarrow> Inl nil_response), bw'))"

record call_counts =
  ct_Requests :: "32 word"
  ct_TotalFailures :: "32 word"

text \<open>\<open>at_least a b t\<close> is the comparison \<open>float64(a) / float64(b) >= t\<close>.\<close>

definition readyToTrip :: "(32 word \<Rightarrow> 32 word \<Rightarrow> 'f \<Rightarrow> bool) \<Rightarrow> 32 word \<Rightarrow> 'f \<Rightarrow> call_counts \<Rightarrow> bool" where
  "readyToTrip at_least minNumOfCalls failureThreshold counts \<longleftrightarrow>
     minNumOfCalls \<le> ct_Requests counts \<and>
     at_least (ct_TotalFailures counts) (ct_Requests counts) failureThreshold"

subsection \<open>The client\<close>

text \<open>A transport without a breaker leaves the breaker's state alone.\<close>

definition bare_transport :: "'w transport \<Rightarrow> ('b \<times> 'w) transport" where
  "bare_transport base req bw =
     (case base (inner_request (fst bw) req) (snd bw) of (r, w') \<Rightarrow> (r, (fst bw, w')))"

definition NewHTTPClient ::
    "(nat \<Rightarrow> (retry_vars, 'b \<times> 'w) retry_do) \<Rightarrow> ('f breaker_config \<Rightarrow> ('b, 'w) execute) \<Rightarrow>
     'f client_config \<Rightarrow> 'w transport \<Rightarrow> ('b \<times> 'w) transport" where
  "NewHTTPClient retrier newBreaker cfg base =
     (let transport =
            (if bc_Enabled (hc_Breaker cfg) then breaker_RoundTrip (newBreaker (hc_Breaker cfg)) base
             else bare_transport base) in
      if rc_Enabled (hc_Retry cfg) then newRetryTransport retrier transport (hc_Retry cfg) else transport)"

end
