(* ===== verification/Resilience_Props.thy ===== *)
theory Resilience_Props
  imports Resilience
begin

text \<open>
  What the retries and the breaker promise: the retrying transport is a bounded loop around its base,
  and whatever a client built by \<open>NewHTTPClient\<close> answers is an answer of the base transport to the
  very request, after a bounded number of call_log.
\<close>

subsection \<open>The libraries\<close>

text \<open>
  The documentation of retry-go: the function is called until it succeeds, fails with an
  unrecoverable error or has been called \<open>n\<close> times, with a pause between two calls; the error is
  \<open>nil\<close> exactly when the last call succeeded.
\<close>

fun retry_calls :: "nat \<Rightarrow> ('w \<Rightarrow> 'w) \<Rightarrow> ('a, 'w) retry_do" where
  "retry_calls 0 pause f s = (None, s)"
| "retry_calls (Suc n) pause f s =
     (case f s of
        (Success, s') \<Rightarrow> (None, s')
      | (Stop err, s') \<Rightarrow> (Some err, s')
      | (Again err, s') \<Rightarrow>
          (if n = 0 then (Some err, s') else retry_calls n pause f (map_prod id pause s')))"

definition retry_law :: "nat \<Rightarrow> ('w \<Rightarrow> 'w) \<Rightarrow> ('a, 'w) retry_do \<Rightarrow> bool" where
  "retry_law n pause Do \<longleftrightarrow>
     0 < n \<and>
     (\<forall>f s. snd (Do f s) = snd (retry_calls n pause f s) \<and>
            (fst (Do f s) = None \<longleftrightarrow> fst (retry_calls n pause f s) = None))"

text \<open>
  The documentation of gobreaker: \<open>Execute\<close> rejects the call in the open state (or when the
  half-open state has enough requests), and returns the result of the function otherwise. Only the
  state of the breaker is its own.
\<close>

definition breaker_law :: "('b, 'w) execute \<Rightarrow> bool" where
  "breaker_law Execute \<longleftrightarrow>
     (\<forall>f b w. (\<exists>b' err. Execute f (b, w) = ((None, Some err), (b', w))) \<or>
              (\<exists>b'. Execute f (b, w) = (fst (f w), (b', snd (f w)))))"

text \<open>What \<open>http.NewRequest\<close> sets up: \<open>GetBody\<close> gives the body again, and is missing only without a body.\<close>

definition replayable :: "'w round_request \<Rightarrow> bool" where
  "replayable req \<longleftrightarrow>
     (case rr_GetBody req of
        None \<Rightarrow> rq_body (rr_http req) = None
      | Some (Inl err) \<Rightarrow> False
      | Some (Inr body) \<Rightarrow> body = rq_body (rr_http req))"

lemma with_own_body [simp]: "with_body (rq_body (rr_http req)) req = req"
  by (simp add: with_body_def)

lemma replayable_with_body:
  "replayable req \<Longrightarrow> rr_GetBody req = Some (Inr body) \<Longrightarrow> with_body body req = req"
  "replayable req \<Longrightarrow> rr_GetBody req = None \<Longrightarrow> with_body None req = req"
  by (simp_all add: replayable_def) (metis with_own_body)+

subsection \<open>The retrying transport is a bounded loop\<close>

fun retry_spec :: "nat \<Rightarrow> ('w \<Rightarrow> 'w) \<Rightarrow> 'w transport \<Rightarrow> nat list \<Rightarrow> 'w transport" where
  "retry_spec 0 pause base retryable req w = (Inl nil_response, w)"
| "retry_spec (Suc n) pause base retryable req w =
     (case rr_ctx req w of
        Some err \<Rightarrow> (Inl err, w)
      | None \<Rightarrow>
          (case base req w of
             (Inl err, w') \<Rightarrow>
               (if errors_is ErrOpenState err \<or> n = 0 then (Inl err, w')
                else retry_spec n pause base retryable req (pause w'))
           | (Inr resp, w') \<Rightarrow>
               (if rs_status resp \<notin> set retryable \<or> n = 0 then (Inr resp, w')
                else retry_spec n pause base retryable req (pause w'))))"

text \<open>What a transport answers, but for the text of its error.\<close>

definition answer :: "(goerr + 'a) \<times> 'w \<Rightarrow> 'a option \<times> 'w" where
  "answer rw = (case fst rw of Inl err \<Rightarrow> None | Inr x \<Rightarrow> Some x, snd rw)"

lemma answer_simps [simp]: "answer (Inl err, w) = (None, w)" "answer (Inr x, w) = (Some x, w)"
  by (simp_all add: answer_def)

text \<open>The response that the variables and the world after \<open>Do\<close> leave to \<open>RoundTrip\<close>.\<close>

definition left_over :: "retry_vars \<times> 'w \<Rightarrow> http_response option \<times> 'w" where
  "left_over s = (case (rv_lastErr (fst s), rv_lastResp (fst s)) of (None, Some r) \<Rightarrow> Some r | _ \<Rightarrow> None, snd s)"

lemma left_over_simps [simp]:
  "rv_lastErr v = Some err \<Longrightarrow> left_over (v, w) = (None, w)"
  "rv_lastResp v = None \<Longrightarrow> left_over (v, w) = (None, w)"
  "rv_lastErr v = None \<Longrightarrow> rv_lastResp v = Some r \<Longrightarrow> left_over (v, w) = (Some r, w)"
  by (simp_all add: left_over_def split: option.splits)

lemma retry_calls_spec:
  assumes "replayable req" and "rr_GetBody req = None \<Longrightarrow> rv_body v = None" and "0 < n"
  shows "left_over (snd (retry_calls n pause (retry_attempt base retryable req) (v, w)))
         = answer (retry_spec n pause base retryable req w)"
  using assms(2,3)
proof (induction n arbitrary: v w)
  case 0
  then show ?case by simp
next
  case (Suc n)
  define v2 where
    "v2 = (case rr_GetBody req of Some (Inr body) \<Rightarrow> v\<lparr>rv_lastResp := None, rv_body := body\<rparr> | _ \<Rightarrow> v\<lparr>rv_lastResp := None\<rparr>)"
  have body: "with_body (rv_body v2) req = req"
    using assms(1) Suc.prems(1) replayable_with_body [OF assms(1)]
    by (auto simp: v2_def replayable_def split: option.splits sum.splits)
  have attempt: "retry_attempt base retryable req (v, w) =
     (case rr_ctx req w of
        Some err \<Rightarrow> (Stop err, (v\<lparr>rv_lastResp := None\<rparr>, w))
      | None \<Rightarrow>
          (case base req w of
             (Inl err, w') \<Rightarrow>
               (if errors_is ErrOpenState err then Stop err else Again err,
                (v2\<lparr>rv_body := None, rv_lastErr := Some err\<rparr>, w'))
           | (Inr resp, w') \<Rightarrow>
               (if rs_status resp \<in> set retryable
                then Again (NewErr (''retryable status code '' @ show_nat (rs_status resp))) else Success,
                (v2\<lparr>rv_body := None, rv_lastResp := Some resp, rv_lastErr := None\<rparr>, w'))))"
  proof (cases "rr_GetBody req")
    case None
    then have "v2 = v\<lparr>rv_lastResp := None\<rparr>" by (simp add: v2_def)
    with None body show ?thesis by (simp add: retry_attempt_def Let_def split: option.split sum.split prod.split)
  next
    case (Some g)
    then obtain b where g: "g = Inr b" using assms(1) by (cases g) (auto simp: replayable_def)
    with Some have v2: "v2 = v\<lparr>rv_lastResp := None, rv_body := b\<rparr>" by (simp add: v2_def)
    then have "with_body b req = req" using body by simp
    with Some g v2 show ?thesis by (simp add: retry_attempt_def Let_def split: option.split sum.split prod.split)
  qed
  have none: "rv_lastResp v2 = None"
    by (simp add: v2_def split: option.splits sum.splits)
  show ?case
  proof (cases "rr_ctx req w")
    case (Some err)
    then show ?thesis by (simp add: attempt)
  next
    case None
    obtain r w' where base: "base req w = (r, w')" by (cases "base req w")
    show ?thesis
      using None base none Suc.IH
      by (cases r) (auto simp: attempt)
  qed
qed

lemma retry_loop:
  assumes "retry_law n pause Do" and "replayable req"
  shows "answer (retry_RoundTrip Do base retryable req w) = answer (retry_spec n pause base retryable req w)"
proof -
  let ?v = "\<lparr>rv_body = rq_body (rr_http req), rv_lastResp = None, rv_lastErr = None\<rparr>"
  let ?f = "retry_attempt base retryable req"
  have "answer (retry_RoundTrip Do base retryable req w) = left_over (snd (Do ?f (?v, w)))"
    by (auto simp: retry_RoundTrip_def left_over_def split: prod.splits option.splits)
  also have "\<dots> = left_over (snd (retry_calls n pause ?f (?v, w)))"
    using assms(1) by (simp add: retry_law_def)
  also have "\<dots> = answer (retry_spec n pause base retryable req w)"
    by (rule retry_calls_spec) (use assms in \<open>auto simp: retry_law_def replayable_def\<close>)
  finally show ?thesis .
qed


text \<open>C33. Retrying is a bounded loop: for a retrier that keeps the documented contract of retry-go with
  \<open>n\<close> attempts and a request whose body can be produced again, \<open>retryTransport.RoundTrip\<close> answers
  and changes the world exactly as the loop that stops at a cancelled context, at an open breaker, at
  a status not to be retried, or with whatever the \<open>n\<close>-th attempt gave; every attempt sends the
  whole request.\<close>

theorem retry_is_bounded_loop:
  assumes "retry_law n pause Do" and "replayable req"
  shows "answer (retry_RoundTrip Do base retryable req w) = answer (retry_spec n pause base retryable req w)"
  using assms by (rule retry_loop)

text \<open>A base that answers 503, then fails, then answers 200.\<close>

definition flaky_base :: "nat transport" where
  "flaky_base req n =
     (if n = 0 then Inr \<lparr>rs_status = 503, rs_body = None\<rparr>
      else if n = 1 then Inl (ExtErr ''connection reset'')
      else Inr \<lparr>rs_status = 200, rs_body = rq_body (rr_http req)\<rparr>, n + 1)"

definition sample_http :: http_request where
  "sample_http = \<lparr>rq_method = ''POST'', rq_url = ''/links'', rq_header = [], rq_body = Some (JStr ''x'')\<rparr>"

definition sample_round :: "'w round_request" where
  "sample_round =
     \<lparr>rr_http = sample_http,
      rr_GetBody = Some (Inr (Some (JStr ''x''))), rr_ctx = (\<lambda>w. None)\<rparr>"

lemma retry_calls_law: "0 < n \<Longrightarrow> retry_law n pause (retry_calls n pause)"
  by (simp add: retry_law_def)

lemma sample_replayable: "replayable sample_round"
  by (simp add: replayable_def sample_round_def sample_http_def)

lemma retry_is_bounded_loop_witness:
  "answer (retry_RoundTrip (retry_calls 3 id) flaky_base DefaultRetryableStatuses sample_round 0)
   = (Some \<lparr>rs_status = 200, rs_body = Some (JStr ''x'')\<rparr>, 3)"
proof -
  have "answer (retry_spec 3 id flaky_base DefaultRetryableStatuses sample_round 0)
        = (Some \<lparr>rs_status = 200, rs_body = Some (JStr ''x'')\<rparr>, 3)"
    by (simp add: numeral_3_eq_3 flaky_base_def sample_round_def sample_http_def DefaultRetryableStatuses_def)
  then show ?thesis
    using retry_is_bounded_loop [OF retry_calls_law sample_replayable,
        of 3 id flaky_base DefaultRetryableStatuses 0] by simp
qed

subsection \<open>What a client answers\<close>

text \<open>The base transport with a record of the requests it gets and what it answers to each.\<close>

type_synonym call_log = "(http_request \<times> (goerr + http_response)) list"

definition recorded :: "'w transport \<Rightarrow> (call_log \<times> 'w) transport" where
  "recorded base req = (\<lambda>(es, w).
     case base (inner_request es req) w of (r, w') \<Rightarrow> (r, (es @ [(rr_http req, r)], w')))"

text \<open>The breaker empties the body of a 5xx answer.\<close>

definition seen_through :: "bool \<Rightarrow> http_response \<Rightarrow> http_response" where
  "seen_through breaker resp = (if breaker \<and> 500 \<le> rs_status resp then resp\<lparr>rs_body := None\<rparr> else resp)"

text \<open>An entry whose answer makes another attempt worthwhile.\<close>

definition retried_entry :: "nat list \<Rightarrow> http_request \<times> (goerr + http_response) \<Rightarrow> bool" where
  "retried_entry retryable en = (case snd en of Inl err \<Rightarrow> True | Inr resp \<Rightarrow> rs_status resp \<in> set retryable)"

text \<open>
  The calls \<open>es\<close> that one call of a transport makes on its base, when it answers \<open>r\<close>: each sends the
  request; the ones that were not the last had an answer that is retried; a response is the last one's,
  and no response means that no call gave one to keep.
\<close>

definition calls_ok ::
    "bool \<Rightarrow> nat list \<Rightarrow> http_request \<Rightarrow> call_log \<Rightarrow> http_response option \<Rightarrow> bool" where
  "calls_ok breaker retryable rq es r \<longleftrightarrow>
     list_all (\<lambda>en. fst en = rq) es \<and>
     (case r of
        None \<Rightarrow> list_all (retried_entry retryable) es
      | Some x \<Rightarrow>
          es \<noteq> [] \<and> list_all (retried_entry retryable) (butlast es) \<and>
          (case snd (last es) of Inl err \<Rightarrow> False | Inr a \<Rightarrow> x = seen_through breaker a))"

definition makes_calls :: "bool \<Rightarrow> nat list \<Rightarrow> nat \<Rightarrow> ('b \<times> call_log \<times> 'w) transport \<Rightarrow> bool" where
  "makes_calls breaker retryable n T \<longleftrightarrow>
     (\<forall>req b es w. replayable req \<longrightarrow>
        (\<exists>es' b' w' r. answer (T req (b, es, w)) = (r, (b', es @ es', w')) \<and> length es' \<le> n \<and>
           calls_ok breaker retryable (rr_http req) es' r))"

lemma inner_simps [simp]:
  "rr_http (inner_request b req) = rr_http req" "rr_GetBody (inner_request b req) = rr_GetBody req"
  "rr_ctx (inner_request b req) w = rr_ctx req (b, w)"
  by (simp_all add: inner_request_def)

lemma replayable_inner [simp]: "replayable (inner_request b req) = replayable req"
  by (simp add: replayable_def split: option.splits sum.splits)

lemma calls_ok_Nil [simp]: "calls_ok breaker codes rq [] None"
  by (simp add: calls_ok_def)

lemma calls_ok_single:
  "calls_ok breaker codes rq [(rq, Inr a)] (Some (seen_through breaker a))"
  "calls_ok breaker codes rq [(rq, Inl err)] None"
  by (simp_all add: calls_ok_def retried_entry_def)

lemma calls_ok_append:
  "calls_ok breaker codes rq es r \<Longrightarrow> list_all (\<lambda>en. fst en = rq \<and> retried_entry codes en) es0 \<Longrightarrow>
     calls_ok breaker codes rq (es0 @ es) r"
  by (auto simp: calls_ok_def butlast_append list_all_iff split: option.splits)

lemma makes_callsI:
  assumes "\<And>req b es w. replayable req \<Longrightarrow>
     \<exists>es' b' w' r. answer (T req (b, es, w)) = (r, (b', es @ es', w')) \<and> length es' \<le> n \<and>
       calls_ok breaker codes (rr_http req) es' r"
  shows "makes_calls breaker codes n T"
  using assms by (simp add: makes_calls_def)

lemma bare_makes_calls:
  fixes base :: "'w transport"
  shows "makes_calls False codes 1 (bare_transport (recorded base) :: ('b \<times> call_log \<times> 'w) transport)"
proof (rule makes_callsI)
  fix req :: "('b \<times> call_log \<times> 'w) round_request" and b es w
  obtain r w' where base: "base (inner_request es (inner_request b req)) w = (r, w')"
    by (cases "base (inner_request es (inner_request b req)) w")
  let ?es = "[(rr_http req, r)]"
  have "answer (bare_transport (recorded base) req (b, es, w))
        = (case r of Inl err \<Rightarrow> None | Inr x \<Rightarrow> Some (seen_through False x), (b, es @ ?es, w'))"
    by (cases r) (simp_all add: bare_transport_def recorded_def base seen_through_def)
  moreover have "calls_ok False codes (rr_http req) ?es
      (case r of Inl err \<Rightarrow> None | Inr x \<Rightarrow> Some (seen_through False x))"
    by (cases r) (simp_all add: calls_ok_single)
  ultimately show "\<exists>es' b' w' r. answer (bare_transport (recorded base) req (b, es, w)) = (r, (b', es @ es', w'))
      \<and> length es' \<le> 1 \<and> calls_ok False codes (rr_http req) es' r"
    by fastforce
qed

lemma breaker_lawE:
  assumes "breaker_law Execute"
  obtains (rejected) b' err where "Execute f (b, w) = ((None, Some err), (b', w))"
    | (made) b' where "Execute f (b, w) = (fst (f w), (b', snd (f w)))"
  using assms by (meson breaker_law_def)

lemma breaker_makes_calls:
  fixes base :: "'w transport" and Execute :: "('b, call_log \<times> 'w) execute"
  assumes "breaker_law Execute"
  shows "makes_calls True codes 1 (breaker_RoundTrip Execute (recorded base))"
proof (rule makes_callsI)
  fix req :: "('b \<times> call_log \<times> 'w) round_request" and b es w
  let ?T = "breaker_RoundTrip Execute (recorded base)"
  let ?f = "breaker_call (recorded base) (inner_request b req)"
  consider (rejected) b' err where "Execute ?f (b, (es, w)) = ((None, Some err), (b', (es, w)))"
    | (made) b' where "Execute ?f (b, (es, w)) = (fst (?f (es, w)), (b', snd (?f (es, w))))"
    using assms by (rule breaker_lawE)
  then show "\<exists>es' b' w' r. answer (?T req (b, es, w)) = (r, (b', es @ es', w'))
      \<and> length es' \<le> 1 \<and> calls_ok True codes (rr_http req) es' r"
  proof cases
    case rejected
    then have "answer (?T req (b, es, w)) = (None, (b', es @ [], w))"
      by (simp add: breaker_RoundTrip_def)
    then show ?thesis using calls_ok_Nil by fastforce
  next
    case made
    show ?thesis
    proof (cases "rr_ctx req (b, es, w)")
      case (Some err)
      with made have "answer (?T req (b, es, w)) = (None, (b', es @ [], w))"
        by (simp add: breaker_RoundTrip_def breaker_call_def)
      then show ?thesis using calls_ok_Nil by fastforce
    next
      case None
      obtain r w' where base: "base (inner_request es (inner_request b req)) w = (r, w')"
        by (cases "base (inner_request es (inner_request b req)) w")
      let ?es = "[(rr_http req, r)]"
      have "answer (?T req (b, es, w))
            = (case r of Inl err \<Rightarrow> None | Inr x \<Rightarrow> Some (seen_through True x), (b', es @ ?es, w'))"
        using made None
        by (cases r) (simp_all add: breaker_RoundTrip_def breaker_call_def recorded_def base seen_through_def)
      moreover have "calls_ok True codes (rr_http req) ?es
          (case r of Inl err \<Rightarrow> None | Inr x \<Rightarrow> Some (seen_through True x))"
        by (cases r) (simp_all add: calls_ok_single)
      ultimately show ?thesis by fastforce
    qed
  qed
qed


text \<open>One round of the loop on a base that makes at most one call.\<close>

lemma one_call:
  assumes "makes_calls breaker codes 1 T" and "replayable req" and "T req (b, es, w) = (res, bw)"
  obtains b' e1 w' where "bw = (b', es @ e1, w')" and "length e1 \<le> 1"
    and "calls_ok breaker codes (rr_http req) e1 (case res of Inl err \<Rightarrow> None | Inr x \<Rightarrow> Some x)"
proof -
  obtain es' b' w' r where "answer (T req (b, es, w)) = (r, (b', es @ es', w'))" and "length es' \<le> 1"
    and "calls_ok breaker codes (rr_http req) es' r"
    using assms(1,2) unfolding makes_calls_def by meson
  then show thesis by (intro that [of b' es' w']) (auto simp: assms(3) answer_def)
qed

lemma calls_ok_None:
  "calls_ok breaker codes rq es None \<Longrightarrow> list_all (\<lambda>en. fst en = rq \<and> retried_entry codes en) es"
  by (simp add: calls_ok_def list_all_iff)

lemma calls_ok_retried:
  assumes "calls_ok breaker codes rq es (Some x)" and "rs_status x \<in> set codes"
  shows "list_all (\<lambda>en. fst en = rq \<and> retried_entry codes en) es"
proof -
  obtain es0 e where es: "es = es0 @ [e]" using assms(1) by (cases es rule: rev_cases) (auto simp: calls_ok_def)
  have "retried_entry codes e"
    using assms by (auto simp: es calls_ok_def retried_entry_def seen_through_def split: sum.splits if_splits)
  with assms(1) show ?thesis by (auto simp: es calls_ok_def list_all_iff)
qed

lemma retry_spec_calls:
  assumes one: "makes_calls breaker codes 1 T" and req: "replayable req"
    and p: "\<And>b es w. p (b, es, w) = (pb b, es, pw w)" and "0 < n"
  shows "\<exists>es' b' w' r. answer (retry_spec n p T codes req (b, es, w)) = (r, (b', es @ es', w'))
      \<and> length es' \<le> n \<and> calls_ok breaker codes (rr_http req) es' r"
  using assms(4)
proof (induction n arbitrary: b es w)
  case 0
  then show ?case by simp
next
  case (Suc n)
  have more: "\<exists>es' b' w' r. answer (retry_spec n p T codes req (p (b1, es @ e1, w1))) = (r, (b', es @ es', w'))
      \<and> length es' \<le> Suc n \<and> calls_ok breaker codes (rr_http req) es' r"
    if e1: "length e1 \<le> 1" "list_all (\<lambda>en. fst en = rr_http req \<and> retried_entry codes en) e1" and "0 < n"
    for b1 e1 w1
  proof -
    obtain es' b' w' r where "answer (retry_spec n p T codes req (p (b1, es @ e1, w1))) = (r, (b', (es @ e1) @ es', w'))"
      and "length es' \<le> n" and "calls_ok breaker codes (rr_http req) es' r"
      using Suc.IH [OF \<open>0 < n\<close>, of "pb b1" "es @ e1" "pw w1"] unfolding p by blast
    with e1 show ?thesis
      by (intro exI [of _ "e1 @ es'"] exI [of _ b'] exI [of _ w'] exI [of _ r]) (auto intro: calls_ok_append)
  qed
  show ?case
  proof (cases "rr_ctx req (b, es, w)")
    case (Some err)
    then show ?thesis by (intro exI [of _ "[]"]) simp
  next
    case None
    obtain res bw where T: "T req (b, es, w) = (res, bw)" by (cases "T req (b, es, w)")
    then obtain b1 e1 w1 where bw: "bw = (b1, es @ e1, w1)" and len: "length e1 \<le> 1"
      and ok: "calls_ok breaker codes (rr_http req) e1 (case res of Inl err \<Rightarrow> None | Inr x \<Rightarrow> Some x)"
      using one_call [OF one req] by metis
    have stop: "\<exists>es' b' w' r. (case res of Inl err \<Rightarrow> None | Inr x \<Rightarrow> Some x, bw) = (r, (b', es @ es', w'))
        \<and> length es' \<le> Suc n \<and> calls_ok breaker codes (rr_http req) es' r"
      using bw len ok by fastforce
    show ?thesis
    proof (cases res)
      case (Inl err)
      then have "calls_ok breaker codes (rr_http req) e1 None" using ok by simp
      note again = more [OF len calls_ok_None [OF this]]
      show ?thesis using Inl stop again by (simp add: None T bw)
    next
      case (Inr x)
      then have "calls_ok breaker codes (rr_http req) e1 (Some x)" using ok by simp
      note again = more [OF len calls_ok_retried [OF this]]
      show ?thesis using Inr stop again by (simp add: None T bw)
    qed
  qed
qed


text \<open>The pause between two attempts leaves the record of the calls alone.\<close>

definition pausing :: "('b \<Rightarrow> 'b) \<Rightarrow> ('w \<Rightarrow> 'w) \<Rightarrow> 'b \<times> call_log \<times> 'w \<Rightarrow> 'b \<times> call_log \<times> 'w" where
  "pausing pb pw = (\<lambda>(b, es, w). (pb b, es, pw w))"

lemma retry_makes_calls:
  fixes T :: "('b \<times> call_log \<times> 'w) transport"
  assumes "makes_calls breaker codes 1 T" and "retry_law n (pausing pb pw) Do"
  shows "makes_calls breaker codes n (retry_RoundTrip Do T codes)"
proof (rule makes_callsI)
  fix req :: "('b \<times> call_log \<times> 'w) round_request" and b es w
  assume req: "replayable req"
  have "0 < n" using assms(2) by (simp add: retry_law_def)
  then show "\<exists>es' b' w' r. answer (retry_RoundTrip Do T codes req (b, es, w)) = (r, (b', es @ es', w')) \<and> length es' \<le> n \<and>
      calls_ok breaker codes (rr_http req) es' r"
    unfolding retry_loop [OF assms(2) req]
    by (intro retry_spec_calls [OF assms(1) req]) (simp_all add: pausing_def)
qed

definition retry_codes :: "'f retry_config \<Rightarrow> nat list" where
  "retry_codes cfg = (if rc_RetryableStatuses cfg = [] then DefaultRetryableStatuses else rc_RetryableStatuses cfg)"

text \<open>C32. An HTTP client never asks more often than it is configured to, never sends anything but the
  request, and never makes an answer up: for every combination of retries and breaker, the calls that
  one round trip of \<open>NewHTTPClient\<close> makes on its base transport are at most \<open>MaxRetries\<close> (one without
  retries) copies of the request, each but the last failed or had a status to be retried, and a
  response is the one of the last call, without its body when it is a 5xx behind the breaker; when no
  response comes back every call failed or had such a status.\<close>

theorem client_answer_is_last_answer:
  assumes "breaker_law (newBreaker (hc_Breaker cfg))"
    and "\<not> rc_Enabled (hc_Retry cfg) \<or>
         retry_law (rc_MaxRetries (hc_Retry cfg)) (pausing pb pw) (retrier (rc_MaxRetries (hc_Retry cfg)))"
    and "replayable req"
    and "answer (NewHTTPClient retrier newBreaker cfg (recorded base) req (b, [], w)) = (r, (b', es, w'))"
  shows "length es \<le> (if rc_Enabled (hc_Retry cfg) then rc_MaxRetries (hc_Retry cfg) else 1) \<and>
         calls_ok (bc_Enabled (hc_Breaker cfg)) (retry_codes (hc_Retry cfg)) (rr_http req) es r"
proof -
  define T where "T = (if bc_Enabled (hc_Breaker cfg) then breaker_RoundTrip (newBreaker (hc_Breaker cfg)) (recorded base)
    else bare_transport (recorded base))"
  let ?codes = "retry_codes (hc_Retry cfg)" and ?on = "bc_Enabled (hc_Breaker cfg)"
  have T: "makes_calls ?on ?codes 1 T"
    unfolding T_def by (cases ?on) (simp_all only: if_True if_False bare_makes_calls breaker_makes_calls [OF assms(1)])
  have "makes_calls ?on ?codes (if rc_Enabled (hc_Retry cfg) then rc_MaxRetries (hc_Retry cfg) else 1)
      (NewHTTPClient retrier newBreaker cfg (recorded base))"
    using T assms(2) retry_makes_calls [OF T, of _ pb pw]
    by (simp add: NewHTTPClient_def T_def [symmetric] newRetryTransport_def retry_codes_def [symmetric])
  with assms(3) obtain es' b2 w2 r2 where
    "answer (NewHTTPClient retrier newBreaker cfg (recorded base) req (b, [], w)) = (r2, (b2, [] @ es', w2))"
    and "length es' \<le> (if rc_Enabled (hc_Retry cfg) then rc_MaxRetries (hc_Retry cfg) else 1)"
    and "calls_ok ?on ?codes (rr_http req) es' r2"
    unfolding makes_calls_def by blast
  with assms(4) show ?thesis by simp
qed


text \<open>A breaker that opens after \<open>limit\<close> failures, and a client of three attempts behind it.\<close>

definition counting_breaker :: "nat \<Rightarrow> (nat, 'w) execute" where
  "counting_breaker limit f = (\<lambda>(b, w).
     if limit \<le> b then ((None, Some (Sentinel ErrOpenState)), (b, w))
     else (fst (f w), (if snd (fst (f w)) = None then b else b + 1, snd (f w))))"

lemma counting_breaker_law: "breaker_law (counting_breaker limit)"
  by (simp add: breaker_law_def counting_breaker_def)

definition sample_client_config :: "unit client_config" where
  "sample_client_config =
     \<lparr>hc_Timeout = 5,
      hc_Retry = \<lparr>rc_Enabled = True, rc_MaxRetries = 3, rc_Delay = 1, rc_Backoff = False, rc_BackoffFactor = (),
        rc_MaxDelay = 0, rc_RetryableStatuses = []\<rparr>,
      hc_Breaker = \<lparr>bc_Enabled = True, bc_MaxRequests = 1, bc_SlidingWindow = 1, bc_WaitInOpenState = 1,
        bc_MinimumNumberOfCalls = 1, bc_FailureRateThreshold = ()\<rparr>\<rparr>"

definition retry_go :: "('w \<Rightarrow> 'w) \<Rightarrow> nat \<Rightarrow> (retry_vars, 'w) retry_do" where
  "retry_go pause n = retry_calls n pause"

definition failing_base :: "unit transport" where
  "failing_base req w = (Inr \<lparr>rs_status = 503, rs_body = Some (JStr ''busy'')\<rparr>, w)"

definition sample_calls :: call_log where
  "sample_calls = replicate 2 (sample_http, Inr \<lparr>rs_status = 503, rs_body = Some (JStr ''busy'')\<rparr>)"

lemma sample_answer:
  "answer (NewHTTPClient (retry_go (pausing id id)) (\<lambda>cfg. counting_breaker 2) sample_client_config (recorded failing_base)
      sample_round (0, [], ())) = (None, (2, sample_calls, ()))"
  by (simp add: NewHTTPClient_def sample_client_config_def newRetryTransport_def retry_go_def numeral_3_eq_3 numeral_2_eq_2
      retry_RoundTrip_def retry_attempt_def sample_round_def with_body_def breaker_RoundTrip_def breaker_call_def
      counting_breaker_def inner_request_def recorded_def failing_base_def DefaultRetryableStatuses_def pausing_def
      sample_calls_def sample_http_def Let_def)

lemma client_answer_is_last_answer_witness:
  "length sample_calls \<le> 3 \<and> calls_ok True DefaultRetryableStatuses sample_http sample_calls None"
proof -
  have "retry_law 3 (pausing id id) (retry_go (pausing id id :: nat \<times> call_log \<times> unit \<Rightarrow> nat \<times> call_log \<times> unit) 3)"
    by (simp add: retry_go_def retry_calls_law)
  then show ?thesis
    using client_answer_is_last_answer [OF counting_breaker_law _ sample_replayable sample_answer, of id id]
    by (simp add: sample_client_config_def retry_codes_def sample_round_def)
qed

end
