(* ===== verification/Rate_Limit.thy ===== *)
theory Rate_Limit
  imports Bot_Notify
begin

text \<open>
  The rate limiter of the HTTP servers (\<open>internal/resilience/ratelimit.go\<close>): one token bucket per client
  address, the middleware that answers 429, and the cleaner. The buckets are those of
  \<open>golang.org/x/time/rate\<close>, a parameter.
\<close>

subsection \<open>The limiter\<close>

record rate_config =
  rl_Enabled :: bool
  rl_RPS :: int
  rl_Burst :: int
  rl_TTL :: duration

text \<open>\<open>rate.NewLimiter(limit, burst)\<close>, and \<open>Allow\<close> at an instant.\<close>

record 'l rate_lib =
  rt_NewLimiter :: "int \<Rightarrow> int \<Rightarrow> 'l"
  rt_Allow :: "instant \<Rightarrow> 'l \<Rightarrow> bool \<times> 'l"

record 'l limiter_entry =
  le_limiter :: 'l
  le_lastSeen :: instant

text \<open>\<open>ip_cleaner\<close>: the cleaner's goroutine still waits in its \<open>select\<close>.\<close>

record 'l ip_limiter =
  ip_limiters :: "string \<Rightarrow> 'l limiter_entry option"
  ip_limit :: int
  ip_burst :: int
  ip_ttl :: duration
  ip_enabled :: bool
  ip_cleaner :: bool

definition NewIPRateLimiter :: "rate_config \<Rightarrow> 'l ip_limiter" where
  "NewIPRateLimiter cfg =
     \<lparr>ip_limiters = Map.empty, ip_limit = rl_RPS cfg, ip_burst = rl_Burst cfg, ip_ttl = rl_TTL cfg,
      ip_enabled = rl_Enabled cfg, ip_cleaner = rl_Enabled cfg\<rparr>"

definition allow :: "'l rate_lib \<Rightarrow> instant \<Rightarrow> string \<Rightarrow> 'l ip_limiter \<Rightarrow> bool \<times> 'l ip_limiter" where
  "allow lib now ip rl =
     (let limiter = (case ip_limiters rl ip of
                       Some en \<Rightarrow> le_limiter en
                     | None \<Rightarrow> rt_NewLimiter lib (ip_limit rl) (ip_burst rl)) in
      case rt_Allow lib now limiter of
        (ok, limiter') \<Rightarrow>
          (ok, rl\<lparr>ip_limiters := (ip_limiters rl)(ip \<mapsto> \<lparr>le_limiter = limiter', le_lastSeen = now\<rparr>)\<rparr>))"

text \<open>
  The cleaner waits for one tick or for \<open>Stop\<close>. A tick forgets the clients not seen for longer than
  the TTL, and then the function returns: its \<open>select\<close> stands in no loop.
\<close>

definition cleaner_tick :: "instant \<Rightarrow> 'l ip_limiter \<Rightarrow> 'l ip_limiter" where
  "cleaner_tick now rl =
     (if ip_cleaner rl then
        rl\<lparr>ip_limiters := (\<lambda>key. case ip_limiters rl key of
                             None \<Rightarrow> None
                           | Some e \<Rightarrow> if ip_ttl rl < now - le_lastSeen e then None else Some e),
           ip_cleaner := False\<rparr>
      else rl)"

definition limiter_Stop :: "'l ip_limiter \<Rightarrow> 'l ip_limiter" where
  "limiter_Stop rl = rl\<lparr>ip_cleaner := False\<rparr>"

subsection \<open>The address of a client\<close>

text \<open>\<open>strings.LastIndexByte\<close> as the text before and after the last occurrence.\<close>

fun cut_last :: "char \<Rightarrow> string \<Rightarrow> (string \<times> string) option" where
  "cut_last c [] = None"
| "cut_last c (x # xs) =
     (case cut_last c xs of
        Some (a, b) \<Rightarrow> Some (x # a, b)
      | None \<Rightarrow> if x = c then Some ([], xs) else None)"

text \<open>The host of \<open>net.SplitHostPort\<close>; \<open>None\<close> is its error.\<close>

definition split_host :: "string \<Rightarrow> string option" where
  "split_host hostport =
     (case cut_last (CHR '':'') hostport of
        None \<Rightarrow> None
      | Some (before, port) \<Rightarrow>
          if hostport \<noteq> [] \<and> hd hostport = CHR ''['' then
            (let host = takeWhile (\<lambda>c. c \<noteq> CHR '']'') (tl hostport) in
             if CHR '']'' \<in> set hostport \<and> Suc (Suc (length host)) = length before
                \<and> CHR ''['' \<notin> set (tl hostport) \<and> CHR '']'' \<notin> set (drop (Suc (Suc (length host))) hostport)
             then Some host else None)
          else if CHR '':'' \<in> set before then None
          else if CHR ''['' \<in> set hostport \<or> CHR '']'' \<in> set hostport then None
          else Some before)"

definition clientIP :: "string \<Rightarrow> string" where
  "clientIP RemoteAddr = (case split_host RemoteAddr of None \<Rightarrow> RemoteAddr | Some host \<Rightarrow> host)"

subsection \<open>The middleware\<close>

text \<open>
  A handler behind the middleware works on the limiter's state and the world. \<open>now\<close> and \<open>RemoteAddr\<close> are
  the instant and the address of the request that is served.
\<close>

definition Middleware ::
    "'l rate_lib \<Rightarrow> instant \<Rightarrow> string \<Rightarrow> ('l ip_limiter \<times> 'w) http_handler \<Rightarrow> ('l ip_limiter \<times> 'w) http_handler" where
  "Middleware lib now RemoteAddr nxt req = (\<lambda>(rl, w).
     if \<not> ip_enabled rl then nxt req (rl, w)
     else (case allow lib now (clientIP RemoteAddr) rl of
             (ok, rl') \<Rightarrow>
               if \<not> ok then (Inr \<lparr>rs_status = 429, rs_body = None\<rparr>, (rl', w)) else nxt req (rl', w)))"

text \<open>The handlers themselves do not touch the limiter.\<close>

definition unlimited :: "'w http_handler \<Rightarrow> ('l ip_limiter \<times> 'w) http_handler" where
  "unlimited h req = (\<lambda>(rl, w). case h req w of (r, w') \<Rightarrow> (r, (rl, w')))"

text \<open>A server's life: requests, each with its instant and address, and ticks of the cleaner.\<close>

datatype server_event = Request instant string server_request | Tick instant

fun serve :: "'l rate_lib \<Rightarrow> 'w http_handler \<Rightarrow> server_event list \<Rightarrow> 'l ip_limiter \<times> 'w \<Rightarrow>
    (goerr + http_response) list \<times> ('l ip_limiter \<times> 'w)" where
  "serve lib h [] s = ([], s)"
| "serve lib h (Tick now # es) s = serve lib h es (cleaner_tick now (fst s), snd s)"
| "serve lib h (Request now addr req # es) s =
     (case Middleware lib now addr (unlimited h) req s of
        (r, s') \<Rightarrow> (case serve lib h es s' of (rs, s'') \<Rightarrow> (r # rs, s'')))"

subsection \<open>Every client has a bucket of its own\<close>

text \<open>The contract: a bucket for each address, full at the start.\<close>

fun serve_spec :: "'l rate_lib \<Rightarrow> bool \<Rightarrow> 'w http_handler \<Rightarrow> server_event list \<Rightarrow> (string \<Rightarrow> 'l) \<times> 'w \<Rightarrow>
    (goerr + http_response) list \<times> 'w" where
  "serve_spec lib on h [] (B, w) = ([], w)"
| "serve_spec lib on h (Tick now # es) (B, w) = serve_spec lib on h es (B, w)"
| "serve_spec lib on h (Request now addr req # es) (B, w) =
     (let ip = clientIP addr; (ok, l) = rt_Allow lib now (B ip) in
      if on \<and> \<not> ok then
        (case serve_spec lib on h es (B(ip := l), w) of (rs, w') \<Rightarrow> (Inr \<lparr>rs_status = 429, rs_body = None\<rparr> # rs, w'))
      else
        (case h req w of
           (r, w1) \<Rightarrow> (case serve_spec lib on h es (B(ip := l), w1) of (rs, w') \<Rightarrow> (r # rs, w'))))"

definition buckets :: "'l rate_lib \<Rightarrow> 'l ip_limiter \<Rightarrow> string \<Rightarrow> 'l" where
  "buckets lib rl ip =
     (case ip_limiters rl ip of None \<Rightarrow> rt_NewLimiter lib (ip_limit rl) (ip_burst rl) | Some e \<Rightarrow> le_limiter e)"

lemma allow_buckets:
  assumes "allow lib now ip rl = (ok, rl')"
  shows "rt_Allow lib now (buckets lib rl ip) = (ok, buckets lib rl' ip)"
    and "buckets lib rl' = (buckets lib rl)(ip := buckets lib rl' ip)"
    and "ip_enabled rl' = ip_enabled rl" and "ip_cleaner rl' = ip_cleaner rl"
  using assms by (auto simp: allow_def buckets_def Let_def fun_eq_iff split: prod.splits option.splits)

lemma Middleware_off: "\<not> ip_enabled rl \<Longrightarrow> Middleware lib now addr nxt req (rl, w) = nxt req (rl, w)"
  by (simp add: Middleware_def)


text \<open>Without ticks the limited server refines the contract.\<close>

definition is_request :: "server_event \<Rightarrow> bool" where
  "is_request e \<longleftrightarrow> (case e of Request now addr req \<Rightarrow> True | Tick now \<Rightarrow> False)"

lemma spec_off:
  "serve_spec lib False h es (B, w) = serve_spec lib False h es (B', w)"
proof (induction es arbitrary: B B' w)
  case (Cons e es)
  show ?case
  proof (cases e)
    case (Request now addr req)
    obtain ok l where a: "rt_Allow lib now (B (clientIP addr)) = (ok, l)" by fastforce
    obtain ok' l' where a': "rt_Allow lib now (B' (clientIP addr)) = (ok', l')" by fastforce
    have "\<And>w1. serve_spec lib False h es (B(clientIP addr := l), w1) = serve_spec lib False h es (B'(clientIP addr := l'), w1)"
      by (rule Cons.IH)
    then show ?thesis by (simp add: Request a a')
  qed (use Cons.IH in simp)
qed simp

lemma serve_refines:
  assumes "\<not> ip_cleaner rl \<or> list_all is_request es"
  shows "(case serve lib h es (rl, w) of (rs, s) \<Rightarrow> (rs, snd s))
         = serve_spec lib (ip_enabled rl) h es (buckets lib rl, w)"
  using assms
proof (induction es arbitrary: rl w)
  case (Cons e es)
  show ?case
  proof (cases e)
    case (Tick now)
    with Cons.prems have "cleaner_tick now rl = rl" by (simp add: cleaner_tick_def is_request_def)
    with Cons Tick show ?thesis by simp
  next
    case (Request now addr req)
    have prem: "\<not> ip_cleaner rl \<or> list_all is_request es" using Cons.prems by auto
    obtain r w1 where h: "h req w = (r, w1)" by fastforce
    obtain ok rl' where a: "allow lib now (clientIP addr) rl = (ok, rl')" by fastforce
    note step = allow_buckets [OF a]
    have upd: "(buckets lib rl)(clientIP addr := buckets lib rl' (clientIP addr)) = buckets lib rl'"
      using step(2) by simp
    have next_rl: "(case serve lib h es (rl', w2) of (rs, s) \<Rightarrow> (rs, snd s))
        = serve_spec lib (ip_enabled rl) h es (buckets lib rl', w2)" for w2
      using Cons.IH [of rl' w2] prem step(3,4) by simp
    show ?thesis
    proof (cases "ip_enabled rl")
      case True
      then show ?thesis
        using next_rl [of w] next_rl [of w1]
        by (cases ok)
          (auto simp: Request Middleware_def a h unlimited_def step(1) upd Let_def split: prod.splits)
    next
      case False
      have "serve_spec lib False h es (buckets lib rl', w1) = serve_spec lib False h es (buckets lib rl, w1)"
        by (rule spec_off)
      with False Cons.IH [of rl w1] prem show ?thesis
        by (auto simp: Request Middleware_off h unlimited_def step(1) upd Let_def split: prod.splits)
    qed
  qed
qed simp

text \<open>Disabled, ticks and requests leave the replies to the handler.\<close>

lemma serve_off:
  assumes "\<not> ip_enabled rl"
  shows "(case serve lib h es (rl, w) of (rs, s) \<Rightarrow> (rs, snd s)) = serve_spec lib False h es (B, w)"
  using assms
proof (induction es arbitrary: rl w B)
  case (Cons e es)
  show ?case
  proof (cases e)
    case (Tick now)
    have "\<not> ip_enabled (cleaner_tick now rl)" using Cons.prems by (simp add: cleaner_tick_def)
    with Cons.IH Tick show ?thesis by simp
  next
    case (Request now addr req)
    obtain r w1 where h: "h req w = (r, w1)" by fastforce
    obtain ok l where a: "rt_Allow lib now (B (clientIP addr)) = (ok, l)" by fastforce
    obtain B' where B: "B' = B(clientIP addr := l)" by blast
    show ?thesis
      using B [symmetric] Cons.IH [OF Cons.prems, of w1 B'] Cons.prems
      by (auto simp: Request Middleware_off h unlimited_def a split: prod.splits)
  qed
qed simp

subsection \<open>Ticks and refilling buckets\<close>

text \<open>The answers of a bucket to requests at these instants, and what it is then. Two buckets are alike from an
  instant on when they answer alike whatever follows. A bucket of the library refills: used in the order of time
  and then left alone for longer than the TTL it is like a new one.\<close>

fun uses :: "'l rate_lib \<Rightarrow> instant list \<Rightarrow> 'l \<Rightarrow> bool list \<times> 'l" where
  "uses lib [] l = ([], l)"
| "uses lib (t # ts) l =
     (case rt_Allow lib t l of (ok, l') \<Rightarrow> (case uses lib ts l' of (oks, l'') \<Rightarrow> (ok # oks, l'')))"

definition alike :: "'l rate_lib \<Rightarrow> instant \<Rightarrow> 'l \<Rightarrow> 'l \<Rightarrow> bool" where
  "alike lib now l l' \<longleftrightarrow> (\<forall>ts. sorted (now # ts) \<longrightarrow> fst (uses lib ts l) = fst (uses lib ts l'))"

definition refills :: "'l rate_lib \<Rightarrow> int \<Rightarrow> int \<Rightarrow> duration \<Rightarrow> bool" where
  "refills lib limit burst ttl \<longleftrightarrow> (\<forall>ts now. ts \<noteq> [] \<and> sorted ts \<and> ttl < now - last ts \<longrightarrow>
     alike lib now (rt_NewLimiter lib limit burst) (snd (uses lib ts (rt_NewLimiter lib limit burst))))"

lemma uses_snoc: "snd (uses lib (ts @ [t]) l) = snd (rt_Allow lib t (snd (uses lib ts l)))"
  by (induction ts arbitrary: l) (simp_all add: case_prod_beta)

lemma alike_refl [simp]: "alike lib now l l"
  by (simp add: alike_def)

lemma alike_mono: "alike lib now l l' \<Longrightarrow> now \<le> later \<Longrightarrow> alike lib later l l'"
  unfolding alike_def by (auto intro: order_trans)

lemma alike_Allow:
  assumes "alike lib now l l'" and "now \<le> t" and "rt_Allow lib t l = (ok, m)" and "rt_Allow lib t l' = (ok', m')"
  shows "ok = ok'" and "alike lib t m m'"
proof -
  have both: "fst (uses lib (t # ts) l) = fst (uses lib (t # ts) l')" if "sorted (t # ts)" for ts
  proof -
    have "sorted (now # t # ts)" using that assms(2) by auto
    then show ?thesis using assms(1) unfolding alike_def by blast
  qed
  show "ok = ok'" using both [of "[]"] by (simp add: assms(3,4))
  show "alike lib t m m'"
    using both unfolding alike_def by (auto simp: assms(3,4) case_prod_beta)
qed

fun event_time :: "server_event \<Rightarrow> instant" where
  "event_time (Request now addr req) = now"
| "event_time (Tick now) = now"

text \<open>After the cleaner's tick the server goes on like one whose buckets are like its own.\<close>

lemma serve_alike:
  assumes "ip_enabled rl" and "\<not> ip_cleaner rl" and "\<And>ip. alike lib now (buckets lib rl ip) (B ip)"
    and "sorted (now # map event_time es)"
  shows "(case serve lib h es (rl, w) of (rs, s) \<Rightarrow> (rs, snd s)) = serve_spec lib True h es (B, w)"
  using assms
proof (induction es arbitrary: rl w B now)
  case (Cons e es)
  show ?case
  proof (cases e)
    case (Tick t)
    with Cons.prems(2) have "cleaner_tick t rl = rl" by (simp add: cleaner_tick_def)
    moreover have "now \<le> t" "sorted (t # map event_time es)" using Cons.prems(4) Tick by simp_all
    ultimately show ?thesis
      using Cons.IH [OF Cons.prems(1,2), of t B w] alike_mono [OF Cons.prems(3)] Tick by simp
  next
    case (Request t addr req)
    obtain r w1 where h: "h req w = (r, w1)" by fastforce
    obtain ok rl' where a: "allow lib t (clientIP addr) rl = (ok, rl')" by fastforce
    note step = allow_buckets [OF a]
    obtain ok' l where b: "rt_Allow lib t (B (clientIP addr)) = (ok', l)" by fastforce
    have t: "now \<le> t" "sorted (t # map event_time es)" using Cons.prems(4) Request by simp_all
    note al = alike_Allow [OF Cons.prems(3) t(1) step(1) b]
    obtain B' where B': "B' = B(clientIP addr := l)" by blast
    have "alike lib t (buckets lib rl' ip) (B' ip)" for ip
    proof (cases "ip = clientIP addr")
      case False
      then have "buckets lib rl' ip = buckets lib rl ip" using fun_cong [OF step(2), of ip] by simp
      with False show ?thesis using alike_mono [OF Cons.prems(3) t(1), of ip] by (simp add: B')
    qed (use al(2) in \<open>simp add: B'\<close>)
    then have "(case serve lib h es (rl', w2) of (rs, s) \<Rightarrow> (rs, snd s)) = serve_spec lib True h es (B', w2)" for w2
      using Cons.IH [of rl' t B' w2] Cons.prems(1,2) step(3,4) t(2) by simp
    from this [of w] this [of w1] show ?thesis
      using al(1) Cons.prems(1) B' [symmetric]
      by (cases ok) (auto simp: Request Middleware_def a h unlimited_def b Let_def split: prod.splits)
  qed
qed simp

text \<open>Until then every bucket in the map is a new one with its uses, the last at the entry's time.\<close>

definition entries_used :: "'l rate_lib \<Rightarrow> instant \<Rightarrow> 'l ip_limiter \<Rightarrow> bool" where
  "entries_used lib now rl \<longleftrightarrow> (\<forall>ip e. ip_limiters rl ip = Some e \<longrightarrow> le_lastSeen e \<le> now \<and>
     (\<exists>ts. ts \<noteq> [] \<and> sorted ts \<and> last ts = le_lastSeen e
        \<and> le_limiter e = snd (uses lib ts (rt_NewLimiter lib (ip_limit rl) (ip_burst rl)))))"

lemma allow_used:
  assumes "entries_used lib now rl" and "now \<le> t" and "allow lib t ip rl = (ok, rl')"
  shows "entries_used lib t rl'" and "ip_limit rl' = ip_limit rl" and "ip_burst rl' = ip_burst rl" and "ip_ttl rl' = ip_ttl rl"
proof -
  let ?new = "rt_NewLimiter lib (ip_limit rl) (ip_burst rl)"
  obtain l where l: "rt_Allow lib t (buckets lib rl ip) = (ok, l)"
      and rl': "rl' = rl\<lparr>ip_limiters := (ip_limiters rl)(ip \<mapsto> \<lparr>le_limiter = l, le_lastSeen = t\<rparr>)\<rparr>"
    using assms(3) by (auto simp: allow_def buckets_def Let_def split: prod.splits option.splits)
  show "ip_limit rl' = ip_limit rl" "ip_burst rl' = ip_burst rl" "ip_ttl rl' = ip_ttl rl" by (simp_all add: rl')
  obtain ts where ts: "sorted ts" "ts \<noteq> [] \<longrightarrow> last ts \<le> t" "buckets lib rl ip = snd (uses lib ts ?new)"
  proof (cases "ip_limiters rl ip")
    case None
    then show ?thesis using that [of "[]"] by (simp add: buckets_def)
  next
    case (Some e)
    then obtain ts where "ts \<noteq> []" "sorted ts" "last ts = le_lastSeen e" "le_limiter e = snd (uses lib ts ?new)" "le_lastSeen e \<le> now"
      using assms(1) unfolding entries_used_def by blast
    then show ?thesis using that [of ts] assms(2) Some by (simp add: buckets_def)
  qed
  have "\<forall>x \<in> set ts. x \<le> last ts" using ts(1) by (induction ts) auto
  then have "sorted (ts @ [t])" using ts(1,2) by (cases "ts = []") (auto simp: sorted_append)
  then have "\<exists>ts. ts \<noteq> [] \<and> sorted ts \<and> last ts = t \<and> l = snd (uses lib ts ?new)"
    by (intro exI [of _ "ts @ [t]"]) (simp add: uses_snoc ts(3) [symmetric] l)
  then show "entries_used lib t rl'"
    using assms(1,2) unfolding entries_used_def rl' by (auto intro: order_trans)
qed

lemma tick_alike:
  assumes "entries_used lib now rl" and "now \<le> t" and "refills lib (ip_limit rl) (ip_burst rl) (ip_ttl rl)"
  shows "alike lib t (buckets lib (cleaner_tick t rl) ip) (buckets lib rl ip)"
proof (cases "ip_limiters rl ip")
  case (Some e)
  then obtain ts where ts: "ts \<noteq> []" "sorted ts" "last ts = le_lastSeen e"
      "le_limiter e = snd (uses lib ts (rt_NewLimiter lib (ip_limit rl) (ip_burst rl)))"
    using assms(1) unfolding entries_used_def by blast
  then have "alike lib t (rt_NewLimiter lib (ip_limit rl) (ip_burst rl)) (le_limiter e)" if "ip_ttl rl < t - le_lastSeen e"
    using assms(3) that unfolding refills_def by auto
  with Some show ?thesis by (auto simp: buckets_def cleaner_tick_def)
qed (simp add: buckets_def cleaner_tick_def)

lemma serve_refilling:
  assumes "ip_enabled rl" and "ip_cleaner rl" and "entries_used lib now rl" and "refills lib (ip_limit rl) (ip_burst rl) (ip_ttl rl)"
    and "sorted (now # map event_time es)"
  shows "(case serve lib h es (rl, w) of (rs, s) \<Rightarrow> (rs, snd s)) = serve_spec lib True h es (buckets lib rl, w)"
  using assms
proof (induction es arbitrary: rl w now)
  case (Cons e es)
  show ?case
  proof (cases e)
    case (Tick t)
    have t: "now \<le> t" "sorted (t # map event_time es)" using Cons.prems(5) Tick by simp_all
    have "ip_enabled (cleaner_tick t rl)" "\<not> ip_cleaner (cleaner_tick t rl)"
      using Cons.prems(1) by (simp_all add: cleaner_tick_def)
    from serve_alike [OF this, of lib t "buckets lib rl" es h w] tick_alike [OF Cons.prems(3) t(1) Cons.prems(4)] t(2) Tick
    show ?thesis by simp
  next
    case (Request t addr req)
    have t: "now \<le> t" "sorted (t # map event_time es)" using Cons.prems(5) Request by simp_all
    obtain r w1 where h: "h req w = (r, w1)" by fastforce
    obtain ok rl' where a: "allow lib t (clientIP addr) rl = (ok, rl')" by fastforce
    note step = allow_buckets [OF a] and used = allow_used [OF Cons.prems(3) t(1) a]
    have upd: "(buckets lib rl)(clientIP addr := buckets lib rl' (clientIP addr)) = buckets lib rl'" using step(2) by simp
    have "(case serve lib h es (rl', w2) of (rs, s) \<Rightarrow> (rs, snd s)) = serve_spec lib True h es (buckets lib rl', w2)" for w2
      using Cons.IH [of rl' t w2] Cons.prems(1,2,4) step(3,4) used t(2) by simp
    from this [of w] this [of w1] show ?thesis
      using Cons.prems(1)
      by (cases ok) (auto simp: Request Middleware_def a h unlimited_def step(1) upd Let_def split: prod.splits)
  qed
qed simp

text \<open>C34. Clients do not share their limits: a server behind the middleware gives the replies and reaches the state of
  a server that holds a full bucket of its own for every client address from the start, answers 429 without
  running the handler when the client's bucket refuses, and runs the handler otherwise; with the limiter disabled it is
  the handler alone. This holds for all histories of requests, and for histories with ticks of the cleaner if the
  events are in the order of time and the buckets refill within the TTL: then forgetting an idle client cannot
  be seen. (With a shorter TTL the one tick of the cleaner hands idle clients a full bucket early.)\<close>

theorem clients_have_own_buckets:
  assumes "list_all is_request es \<or>
    sorted (map event_time es) \<and> refills lib (rl_RPS cfg) (rl_Burst cfg) (rl_TTL cfg)"
  shows "(case serve lib h es (NewIPRateLimiter cfg, w) of (rs, s) \<Rightarrow> (rs, snd s))
         = serve_spec lib (rl_Enabled cfg) h es (\<lambda>ip. rt_NewLimiter lib (rl_RPS cfg) (rl_Burst cfg), w)"
proof -
  have new: "buckets lib (NewIPRateLimiter cfg) = (\<lambda>ip. rt_NewLimiter lib (rl_RPS cfg) (rl_Burst cfg))"
    by (rule ext) (simp add: buckets_def NewIPRateLimiter_def)
  show ?thesis
  proof (cases "list_all is_request es \<or> \<not> rl_Enabled cfg")
    case True
    then show ?thesis
      using serve_refines [of "NewIPRateLimiter cfg" es lib h w] new by (auto simp: NewIPRateLimiter_def)
  next
    case False
    then have "sorted (map event_time es)" "refills lib (rl_RPS cfg) (rl_Burst cfg) (rl_TTL cfg)" using assms by blast+
    moreover from this(1) have "\<exists>now. sorted (now # map event_time es)"
      by (cases es) (auto intro: exI [of _ "event_time (hd es)"])
    ultimately show ?thesis
      using serve_refilling [of "NewIPRateLimiter cfg" lib _ es h w] new False
      by (auto simp: NewIPRateLimiter_def entries_used_def)
  qed
qed

text \<open>The token bucket of \<open>golang.org/x/time/rate\<close>, with its tokens in billionths: it gains the rate for
  the time since its last use, up to the burst, and spends one token for a request.\<close>

record token_bucket =
  tb_rate :: int
  tb_burst :: int
  tb_tokens :: int
  tb_last :: instant

definition token_allow :: "instant \<Rightarrow> token_bucket \<Rightarrow> bool \<times> token_bucket" where
  "token_allow now b =
     (let tokens = min (tb_burst b * 1000000000) (tb_tokens b + tb_rate b * max 0 (now - tb_last b)) in
      if 1000000000 \<le> tokens then (True, b\<lparr>tb_tokens := tokens - 1000000000, tb_last := now\<rparr>)
      else (False, b\<lparr>tb_tokens := tokens, tb_last := now\<rparr>))"

definition token_lib :: "token_bucket rate_lib" where
  "token_lib = \<lparr>rt_NewLimiter = (\<lambda>rate burst. \<lparr>tb_rate = rate, tb_burst = burst, tb_tokens = burst * 1000000000, tb_last = 0\<rparr>),
     rt_Allow = token_allow\<rparr>"

text \<open>It refills within the TTL if the TTL gives as many tokens as the burst.\<close>

lemma token_uses:
  assumes "0 \<le> rate" and "0 \<le> burst"
    and "tb_rate b = rate" and "tb_burst b = burst" and "0 \<le> tb_tokens b"
  shows "tb_rate (snd (uses token_lib ts b)) = rate \<and> tb_burst (snd (uses token_lib ts b)) = burst
    \<and> 0 \<le> tb_tokens (snd (uses token_lib ts b)) \<and> (ts \<noteq> [] \<longrightarrow> tb_last (snd (uses token_lib ts b)) = last ts)"
  using assms
proof (induction ts arbitrary: b)
  case (Cons t ts)
  obtain ok b' where a: "token_allow t b = (ok, b')" by fastforce
  have "tb_rate b' = rate \<and> tb_burst b' = burst \<and> 0 \<le> tb_tokens b' \<and> tb_last b' = t"
    using a Cons.prems by (auto simp: token_allow_def Let_def split: if_splits)
  with Cons.IH [of b'] Cons.prems(1,2) a show ?case
    by (cases ts) (auto simp: token_lib_def split: prod.splits)
qed simp

lemma token_bucket_refills:
  assumes "0 \<le> rate" and "0 \<le> burst" and "burst * 1000000000 \<le> rate * ttl"
  shows "refills token_lib rate burst ttl"
  unfolding refills_def alike_def
proof (intro allI impI)
  fix ts us :: "instant list" and now
  let ?new = "rt_NewLimiter token_lib rate burst"
  assume h: "ts \<noteq> [] \<and> sorted ts \<and> ttl < now - last ts" and us: "sorted (now # us)"
  let ?old = "snd (uses token_lib ts ?new)"
  have new: "tb_rate ?new = rate" "tb_burst ?new = burst" "tb_tokens ?new = burst * 1000000000" by (simp_all add: token_lib_def)
  have old: "tb_rate ?old = rate" "tb_burst ?old = burst" "0 \<le> tb_tokens ?old" "tb_last ?old = last ts"
    using token_uses [OF assms(1,2) new(1,2), of ts] new(3) assms(2) h by simp_all
  show "fst (uses token_lib us ?new) = fst (uses token_lib us ?old)"
  proof (cases us)
    case (Cons t vs)
    then have "ttl \<le> t - last ts" using us h by simp
    then have "rate * ttl \<le> rate * max 0 (t - last ts)" using assms(1) by (intro mult_left_mono) auto
    then have full: "min (burst * 1000000000) (tb_tokens ?old + rate * max 0 (t - last ts)) = burst * 1000000000"
      using assms(3) old(3) by simp
    have "0 \<le> rate * max 0 (t - tb_last ?new)" using assms(1) by simp
    then have "min (burst * 1000000000) (tb_tokens ?new + rate * max 0 (t - tb_last ?new)) = burst * 1000000000"
      using new(3) by simp
    then have "token_allow t ?new = token_allow t ?old"
      unfolding token_allow_def using full old new by (simp add: Let_def)
    then show ?thesis by (simp add: Cons token_lib_def)
  qed simp
qed

text \<open>Buckets that only count down, and three requests from two clients.\<close>

definition count_down :: "int rate_lib" where
  "count_down = \<lparr>rt_NewLimiter = (\<lambda>limit burst. burst), rt_Allow = (\<lambda>now n. (0 < n, n - 1))\<rparr>"

definition count_handler :: "nat http_handler" where
  "count_handler req n = (Inr \<lparr>rs_status = 200, rs_body = None\<rparr>, n + 1)"

definition sample_server_request :: server_request where
  "sample_server_request = \<lparr>sq_method = ''GET'', sq_path = [''links''], sq_header = [], sq_body = Inr None\<rparr>"

definition sample_requests :: "server_event list" where
  "sample_requests =
     [Request 1 ''10.0.0.1:4000'' sample_server_request, Request 2 ''10.0.0.1:4001'' sample_server_request,
      Request 3 ''[::1]:80'' sample_server_request]"

lemma sample_clients: "map clientIP [''10.0.0.1:4000'', ''10.0.0.1:4001'', ''[::1]:80''] = [''10.0.0.1'', ''10.0.0.1'', ''::1'']"
  by code_simp

definition sample_limit :: rate_config where
  "sample_limit = \<lparr>rl_Enabled = True, rl_RPS = 1, rl_Burst = 1, rl_TTL = 60\<rparr>"

text \<open>Tokens of one a second and a burst of one: a second request is refused, the tick after three minutes
  forgets the client, and its next request is served as it would be without the tick.\<close>

definition ticked_requests :: "server_event list" where
  "ticked_requests =
     [Request 1000000000 ''10.0.0.1:4000'' sample_server_request, Request 1000000001 ''10.0.0.1:4001'' sample_server_request,
      Request 1000000002 ''[::1]:80'' sample_server_request, Tick 180000000000,
      Request 190000000000 ''10.0.0.1:4000'' sample_server_request, Request 190000000001 ''10.0.0.1:4000'' sample_server_request]"

definition token_limit :: rate_config where
  "token_limit = \<lparr>rl_Enabled = True, rl_RPS = 1, rl_Burst = 1, rl_TTL = 60000000000\<rparr>"

lemma clients_have_own_buckets_witness:
  "map (\<lambda>r. case r of Inl err \<Rightarrow> 0 | Inr x \<Rightarrow> rs_status x)
     (fst (serve token_lib count_handler ticked_requests (NewIPRateLimiter token_limit, 0))) = [200, 429, 200, 200, 429]"
proof -
  have "fst (serve_spec token_lib True count_handler ticked_requests (\<lambda>ip. rt_NewLimiter token_lib 1 1, 0))
        = [Inr \<lparr>rs_status = 200, rs_body = None\<rparr>, Inr \<lparr>rs_status = 429, rs_body = None\<rparr>, Inr \<lparr>rs_status = 200, rs_body = None\<rparr>,
           Inr \<lparr>rs_status = 200, rs_body = None\<rparr>, Inr \<lparr>rs_status = 429, rs_body = None\<rparr>]"
    using sample_clients by (simp add: ticked_requests_def token_lib_def token_allow_def count_handler_def Let_def)
  moreover have "refills token_lib 1 1 60000000000" by (rule token_bucket_refills) simp_all
  then have "list_all is_request ticked_requests \<or> sorted (map event_time ticked_requests)
      \<and> refills token_lib (rl_RPS token_limit) (rl_Burst token_limit) (rl_TTL token_limit)"
    by (simp add: ticked_requests_def token_limit_def)
  from clients_have_own_buckets [OF this, where h = count_handler and w = 0]
  have "fst (serve token_lib count_handler ticked_requests (NewIPRateLimiter token_limit, 0))
      = fst (serve_spec token_lib True count_handler ticked_requests (\<lambda>ip. rt_NewLimiter token_lib 1 1, 0))"
    unfolding case_prod_beta prod_eq_iff fst_conv by (simp add: token_limit_def)
  ultimately show ?thesis by simp
qed

subsection \<open>The cleaner runs once\<close>

lemma cleaner_kept: "ip_cleaner (snd (allow lib now ip rl)) = ip_cleaner rl"
  by (simp add: allow_def Let_def split: prod.splits)



fun clients :: "server_event list \<Rightarrow> string list" where
  "clients [] = []"
| "clients (Request now addr req # es) = clientIP addr # clients es"
| "clients (Tick now # es) = clients es"

definition known :: "'l ip_limiter \<times> 'w \<Rightarrow> string set" where
  "known s = dom (ip_limiters (fst s))"

lemma snd_serve_Request [simp]:
  "snd (serve lib h (Request now addr req # es) s)
   = snd (serve lib h es (snd (Middleware lib now addr (unlimited h) req s)))"
  by (simp split: prod.splits)

lemma serve_append:
  "snd (serve lib h (es1 @ es2) s) = snd (serve lib h es2 (snd (serve lib h es1 s)))"
  by (induction lib h es1 s rule: serve.induct) (auto split: prod.splits)

lemma allow_enabled: "ip_enabled (snd (allow lib now ip rl)) = ip_enabled rl"
  by (simp add: allow_def Let_def split: prod.splits)

lemma Middleware_limiter:
  "fst (snd (Middleware lib now addr (unlimited h) req (rl, w)))
   = (if ip_enabled rl then snd (allow lib now (clientIP addr) rl) else rl)"
  by (auto simp: Middleware_def unlimited_def split: prod.splits)

lemma serve_enabled: "ip_enabled (fst (snd (serve lib h es s))) = ip_enabled (fst s)"
proof (induction lib h es s rule: serve.induct)
  case (3 lib h now addr req es s)
  obtain rl w r s' where s: "s = (rl, w)" and m: "Middleware lib now addr (unlimited h) req (rl, w) = (r, s')"
    by (metis prod.exhaust)
  have "ip_enabled (fst s') = ip_enabled rl"
    using Middleware_limiter [of lib now addr h req rl w] allow_enabled [of lib now "clientIP addr" rl]
    by (simp add: m split: if_splits)
  with 3 show ?case by (simp add: s m del: serve.simps(3))
qed (auto simp: cleaner_tick_def)

text \<open>Once the cleaner is gone, ticks change nothing and requests only add addresses.\<close>

lemma known_after:
  assumes "ip_enabled rl" and "\<not> ip_cleaner rl"
  shows "known (snd (serve lib h es (rl, w))) = known (rl, w) \<union> set (clients es)"
  using assms
proof (induction es arbitrary: rl w)
  case (Cons e es)
  show ?case
  proof (cases e)
    case (Tick now)
    with Cons show ?thesis by (simp add: cleaner_tick_def)
  next
    case (Request now addr req)
    obtain r rl' w' where m: "Middleware lib now addr (unlimited h) req (rl, w) = (r, (rl', w'))"
      by (metis prod.exhaust)
    have rl': "rl' = snd (allow lib now (clientIP addr) rl)"
      using Middleware_limiter [of lib now addr h req rl w] Cons.prems by (simp add: m)
    then have "known (rl', w') = insert (clientIP addr) (known (rl, w))"
      by (auto simp: known_def allow_def Let_def split: prod.splits)
    moreover have "known (snd (serve lib h es (rl', w'))) = known (rl', w') \<union> set (clients es)"
      using Cons.prems by (intro Cons.IH) (simp_all add: rl' allow_enabled cleaner_kept)
    ultimately show ?thesis by (simp add: Request m del: serve.simps(3))
  qed
qed (simp add: known_def)

text \<open>C35. The cleaner works once: after its first tick, however many more ticks follow and however long
  the clients stay away, the limiter holds an entry for every address that has sent a request since,
  so the map grows with the number of distinct clients.\<close>

theorem cleaner_works_once:
  assumes "rl_Enabled cfg"
  shows "set (clients es) \<subseteq> known (snd (serve lib h (before @ Tick t # es) (NewIPRateLimiter cfg, w)))"
proof -
  obtain rl w' where s: "snd (serve lib h before (NewIPRateLimiter cfg, w)) = (rl, w')" by fastforce
  have "ip_enabled rl"
    using serve_enabled [of lib h before "(NewIPRateLimiter cfg, w)"] assms s
    by (simp add: NewIPRateLimiter_def)
  then show ?thesis
    using known_after [of "cleaner_tick t rl" lib h es w']
    by (auto simp: serve_append s cleaner_tick_def)
qed

lemma cleaner_works_once_witness:
  "''10.0.0.1'' \<in> known (snd (serve count_down count_handler
     (sample_requests @ Tick 100 # sample_requests @ [Tick 1000000, Tick 2000000]) (NewIPRateLimiter sample_limit, 0)))"
  using cleaner_works_once [of sample_limit "sample_requests @ [Tick 1000000, Tick 2000000]" count_down count_handler
      sample_requests 100 0] sample_clients
  by (auto simp: sample_limit_def sample_requests_def)

end

