(* ===== verification/Caching.thy ===== *)
theory Caching
  imports Http_Api_Props Subscription_Props
begin

text \<open>
  The cache of link lists: the interface \<open>LinksCache\<close> with the service that uses it
  (\<open>scrapper/application/subscription/caching_service.go\<close>), its implementation over Valkey
  (\<open>scrapper/infrastructure/adapter/out/cache/valkey/cache.go\<close>), and their wiring
  (\<open>buildSubscriptionService\<close> of \<open>scrapper/application/app.go\<close>). The Valkey client is a parameter.
\<close>

subsection \<open>The interface\<close>

text \<open>A get answers a hit with its links, a miss, or an error.\<close>

record 'c links_cache_ops =
  lc_GetLinks :: "i64 \<Rightarrow> ('c, tracked_link list option) prog"
  lc_SetLinks :: "i64 \<Rightarrow> tracked_link list \<Rightarrow> ('c, unit) prog"
  lc_Invalidate :: "i64 \<Rightarrow> ('c, unit) prog"

subsection \<open>Valkey\<close>

text \<open>
  The client's commands: \<open>GET\<close> (through the client's own cache or not), \<open>SET\<close> with an expiry, and
  \<open>DEL\<close>. A reply to \<open>GET\<close> is nil, a string (its JSON document if it is one), or not a string.
\<close>

datatype valkey_reply = VNil | VString "json option" | VOther

record 'c valkey_client =
  vk_Get :: "duration option \<Rightarrow> string \<Rightarrow> ('c, valkey_reply) prog"
  vk_Set :: "string \<Rightarrow> json \<Rightarrow> duration \<Rightarrow> ('c, unit) prog"
  vk_Del :: "string \<Rightarrow> ('c, unit) prog"

record 'c valkey_cache =
  vc_client :: "'c valkey_client"
  vc_ttl :: duration
  vc_keyPrefix :: string
  vc_clientSideCaching :: bool

definition valkey_New ::
    "(string list \<Rightarrow> bool \<Rightarrow> goerr + 'c valkey_client) \<Rightarrow> string list \<Rightarrow> duration \<Rightarrow> string \<Rightarrow> bool \<Rightarrow>
     goerr + 'c valkey_cache" where
  "valkey_New NewClient addresses ttl keyPrefix clientSideCaching =
     (case NewClient addresses (\<not> clientSideCaching) of
        Inl err \<Rightarrow> Inl (WrapErr ''valkey cache: failed to create client: '' err '''')
      | Inr client \<Rightarrow> Inr \<lparr>vc_client = client, vc_ttl = ttl, vc_keyPrefix = keyPrefix,
                           vc_clientSideCaching = clientSideCaching\<rparr>)"

definition cache_key :: "'c valkey_cache \<Rightarrow> i64 \<Rightarrow> string" where
  "cache_key cache chatID = vc_keyPrefix cache @ format_i64 chatID"

definition cachedLink_json :: "tracked_link \<Rightarrow> json" where
  "cachedLink_json link = JObj
     [(''id'', enc_i64 (tl_ID link)), (''url'', enc_str (tl_URL link)), (''tags'', enc_list enc_str (tl_Tags link))]"

definition dec_cachedLink :: "tracked_link decoder" where
  "dec_cachedLink = dec_struct (\<lambda>ms old.
     sbind (dec_field ''id'' dec_i64 ms (tl_ID old)) (\<lambda>i.
     sbind (dec_field ''url'' dec_str ms (tl_URL old)) (\<lambda>u.
     sbind (dec_field ''tags'' (dec_list dec_str '''') ms (tl_Tags old)) (\<lambda>ts.
     Inr \<lparr>tl_ID = i, tl_URL = u, tl_Tags = ts\<rparr>))))"

definition not_a_string :: goerr where
  "not_a_string = ExtErr ''valkey message is not a string''"

definition valkey_GetLinks :: "'c valkey_cache \<Rightarrow> i64 \<Rightarrow> ('c, tracked_link list option) prog" where
  "valkey_GetLinks cache chatID =
     ehandle (vk_Get (vc_client cache) (if vc_clientSideCaching cache then Some (vc_ttl cache) else None)
                (cache_key cache chatID))
       (\<lambda>err. efail (WrapErr ''error getting cache entry: '' err ''''))
       (\<lambda>resp. case resp of
          VNil \<Rightarrow> eret None
        | VOther \<Rightarrow> efail (WrapErr ''error reading cache body as bytes: '' not_a_string '''')
        | VString body \<Rightarrow>
            (case unmarshal (dec_list dec_cachedLink zero_link) [] body of
               Inl err \<Rightarrow> efail (WrapErr ''error unmarshalling cached links: '' err '''')
             | Inr links \<Rightarrow> eret (Some links)))"

definition valkey_SetLinks :: "'c valkey_cache \<Rightarrow> i64 \<Rightarrow> tracked_link list \<Rightarrow> ('c, unit) prog" where
  "valkey_SetLinks cache chatID links =
     (let key = cache_key cache chatID in
      ehandle (vk_Set (vc_client cache) key (enc_list cachedLink_json links) (vc_ttl cache))
        (\<lambda>err. efail (WrapErr (''error setting cache entry for '' @ key @ '': '') err ''''))
        (\<lambda>_. eret ()))"

definition valkey_Invalidate :: "'c valkey_cache \<Rightarrow> i64 \<Rightarrow> ('c, unit) prog" where
  "valkey_Invalidate cache chatID =
     ehandle (vk_Del (vc_client cache) (cache_key cache chatID))
       (\<lambda>err. efail (WrapErr ''error invalidating cache entry: '' err ''''))
       (\<lambda>_. eret ())"

definition valkey_ops :: "'c valkey_cache \<Rightarrow> 'c links_cache_ops" where
  "valkey_ops cache = \<lparr>lc_GetLinks = valkey_GetLinks cache, lc_SetLinks = valkey_SetLinks cache,
     lc_Invalidate = valkey_Invalidate cache\<rparr>"

subsection \<open>The caching service\<close>

text \<open>The caching service works on the cache and the database.\<close>

definition on_cache :: "('c, 'a) prog \<Rightarrow> ('c \<times> 'w, 'a) prog" where
  "on_cache m = (\<lambda>(s, w). case m s of (r, s') \<Rightarrow> (r, (s', w)))"

definition on_db :: "('w, 'a) prog \<Rightarrow> ('c \<times> 'w, 'a) prog" where
  "on_db m = (\<lambda>(s, w). case m w of (r, w') \<Rightarrow> (r, (s, w')))"

record ('c, 'w) caching_service =
  cs_service :: "'w service"
  cs_cache :: "'c links_cache_ops"

definition NewCachingService :: "'w service \<Rightarrow> 'c links_cache_ops \<Rightarrow> ('c, 'w) caching_service" where
  "NewCachingService service cache = \<lparr>cs_service = service, cs_cache = cache\<rparr>"

definition caching_RegisterChat ::
    "('c, 'a world_scheme) caching_service \<Rightarrow> i64 \<Rightarrow> ('c \<times> 'a world_scheme, unit) prog" where
  "caching_RegisterChat service chatID = on_db (RegisterChat (cs_service service) chatID)"

definition caching_DeleteChat ::
    "('c, 'a world_scheme) caching_service \<Rightarrow> i64 \<Rightarrow> ('c \<times> 'a world_scheme, unit) prog" where
  "caching_DeleteChat service chatID =
     ebind (on_db (DeleteChat (cs_service service) chatID)) (\<lambda>_.
     on_cache (lc_Invalidate (cs_cache service) chatID))"

text \<open>What a miss does: read the list, then fill the cache, whose error is only logged.\<close>

definition caching_fill ::
    "('c, 'a world_scheme) caching_service \<Rightarrow> i64 \<Rightarrow> tracked_link list \<Rightarrow> ('c \<times> 'a world_scheme, tracked_link list) prog" where
  "caching_fill service chatID links =
     ehandle (on_cache (lc_SetLinks (cs_cache service) chatID links)) (\<lambda>err. eret links) (\<lambda>_. eret links)"

definition caching_GetTrackedLinks ::
    "('c, 'a world_scheme) caching_service \<Rightarrow> i64 \<Rightarrow> ('c \<times> 'a world_scheme, tracked_link list) prog" where
  "caching_GetTrackedLinks service chatID =
     (let miss = ebind (on_db (GetTrackedLinks (cs_service service) chatID)) (caching_fill service chatID) in
      ehandle (on_cache (lc_GetLinks (cs_cache service) chatID))
        (\<lambda>err. miss)
        (\<lambda>found. case found of Some links \<Rightarrow> eret links | None \<Rightarrow> miss))"

definition caching_AddLink ::
    "('c, 'a world_scheme) caching_service \<Rightarrow> i64 \<Rightarrow> string \<Rightarrow> string list \<Rightarrow> ('c \<times> 'a world_scheme, tracked_link) prog" where
  "caching_AddLink service chatID url tags =
     ebind (on_db (AddLink (cs_service service) chatID url tags)) (\<lambda>link.
     ehandle (on_cache (lc_Invalidate (cs_cache service) chatID)) (\<lambda>err. eret link) (\<lambda>_. eret link))"

definition caching_RemoveLink ::
    "('c, 'a world_scheme) caching_service \<Rightarrow> i64 \<Rightarrow> string \<Rightarrow> ('c \<times> 'a world_scheme, tracked_link) prog" where
  "caching_RemoveLink service chatID url =
     ebind (on_db (RemoveLink (cs_service service) chatID url)) (\<lambda>link.
     ehandle (on_cache (lc_Invalidate (cs_cache service) chatID)) (\<lambda>err. eret link) (\<lambda>_. eret link))"

subsection \<open>The wiring\<close>

record valkey_config =
  vf_Enabled :: bool
  vf_Addresses :: "string list"
  vf_TTL :: duration
  vf_KeyPrefix :: string
  vf_ClientSideCache :: bool

definition caching_api :: "('c, 'a world_scheme) caching_service \<Rightarrow> ('c \<times> 'a world_scheme) link_api" where
  "caching_api service = \<lparr>la_RegisterChat = caching_RegisterChat service, la_DeleteChat = caching_DeleteChat service,
     la_GetTrackedLinks = caching_GetTrackedLinks service, la_AddLink = caching_AddLink service,
     la_RemoveLink = caching_RemoveLink service\<rparr>"

definition uncached_api :: "'a world_scheme service \<Rightarrow> ('c \<times> 'a world_scheme) link_api" where
  "uncached_api svc = \<lparr>la_RegisterChat = (\<lambda>c. on_db (RegisterChat svc c)), la_DeleteChat = (\<lambda>c. on_db (DeleteChat svc c)),
     la_GetTrackedLinks = (\<lambda>c. on_db (GetTrackedLinks svc c)), la_AddLink = (\<lambda>c u ts. on_db (AddLink svc c u ts)),
     la_RemoveLink = (\<lambda>c u. on_db (RemoveLink svc c u))\<rparr>"

definition buildSubscriptionService ::
    "(string list \<Rightarrow> bool \<Rightarrow> goerr + 'c valkey_client) \<Rightarrow> valkey_config \<Rightarrow> 'a world_scheme repos \<Rightarrow> (string \<Rightarrow> bool) \<Rightarrow>
     goerr + ('c \<times> 'a world_scheme) link_api" where
  "buildSubscriptionService NewClient cfg repos canHandle =
     (let service = NewService repos canHandle in
      if \<not> vf_Enabled cfg then Inr (uncached_api service)
      else (case valkey_New NewClient (vf_Addresses cfg) (vf_TTL cfg) (vf_KeyPrefix cfg) (vf_ClientSideCache cfg) of
              Inl err \<Rightarrow> Inl err
            | Inr cache \<Rightarrow> Inr (caching_api (NewCachingService service (valkey_ops cache)))))"

lemma on_cache_run: "on_cache m (s, w) = (fst (m s), (snd (m s), w))"
  by (simp add: on_cache_def split: prod.splits)

lemma on_db_run: "on_db m (s, w) = (fst (m w), (s, snd (m w)))"
  by (simp add: on_db_def split: prod.splits)

end
