(* ===== verification/Caching_Props.thy ===== *)
theory Caching_Props
  imports Caching
begin

text \<open>
  Coherence of the cache of link lists: the contracts of the service and of the cache, the caching
  service between them, and what remains when an invalidation fails or two operations race.
\<close>

subsection \<open>What the service promises on a sound connection\<close>

definition steady :: "'a world_scheme \<Rightarrow> bool" where
  "steady w \<longleftrightarrow> db_wf (w_db w) \<and> \<not> in_tx w \<and> map_order_ok w \<and> w_faults w = []"

abbreviation store_of :: "'a world_scheme \<Rightarrow> tracking" where
  "store_of w \<equiv> abs_db (w_db w)"

text \<open>A list of links that shows exactly the urls of a chat, with their tags.\<close>

definition shows_links :: "tracked_link list \<Rightarrow> (string \<rightharpoonup> string set) \<Rightarrow> bool" where
  "shows_links ls M \<longleftrightarrow> distinct (map tl_URL ls) \<and>
     (\<forall>u T. M u = Some T \<longleftrightarrow> (\<exists>l \<in> set ls. tl_URL l = u \<and> set (tl_Tags l) = T))"

locale tracking_service =
  fixes svc :: "'a world_scheme service"
  assumes register: "steady w \<Longrightarrow> RegisterChat svc c w = (r, w') \<Longrightarrow> steady w' \<and>
      (case r of Inl e \<Rightarrow> store_of w' = store_of w
       | Inr x \<Rightarrow> store_of w c = None \<and> store_of w' = (store_of w)(c \<mapsto> Map.empty))"
    and delete: "steady w \<Longrightarrow> DeleteChat svc c w = (r, w') \<Longrightarrow> steady w' \<and>
      (case r of Inl e \<Rightarrow> store_of w' = store_of w | Inr x \<Rightarrow> store_of w' = (store_of w)(c := None))"
    and add: "steady w \<Longrightarrow> AddLink svc c u ts w = (k, w') \<Longrightarrow> steady w' \<and>
      (case k of Inl e \<Rightarrow> store_of w' = store_of w
       | Inr x \<Rightarrow> (\<exists>M. store_of w c = Some M \<and> M u = None \<and> store_of w' = (store_of w)(c \<mapsto> M(u \<mapsto> set ts))))"
    and remove: "steady w \<Longrightarrow> RemoveLink svc c u w = (k, w') \<Longrightarrow> steady w' \<and>
      (case k of Inl e \<Rightarrow> store_of w' = store_of w
       | Inr x \<Rightarrow> (\<exists>M. store_of w c = Some M \<and> M u \<noteq> None \<and> store_of w' = (store_of w)(c \<mapsto> M(u := None))))"
    and list: "steady w \<Longrightarrow> GetTrackedLinks svc c w = (rs, w') \<Longrightarrow> steady w' \<and> store_of w' = store_of w \<and>
      (case rs of Inl e \<Rightarrow> store_of w c = None \<and> errors_is S_ErrChatNotRegistered e
       | Inr ls \<Rightarrow> (\<exists>M. store_of w c = Some M \<and> shows_links ls M))"

lemma steady_frame: "steady w \<Longrightarrow> frame w w' \<Longrightarrow> steady w'"
  by (simp add: steady_def frame_wf frame_in_tx frame_map_order) (simp add: frame_def)

lemma store_tracked: "store_of w c = None \<or> store_of w c = Some (tracked (w_db w) c)"
  by (simp add: abs_db_def)

context stores
begin

lemma calm_command: "steady w \<Longrightarrow> steady (run_command svc cmd w)"
  by (rule steady_frame [OF _ svc_command_frame]) (simp_all add: steady_def)

lemma tracking_service: "tracking_service svc"
proof
  fix w w' :: "'a world_scheme" and c :: i64 and r
  assume w: "steady w" and run: "RegisterChat svc c w = (r, w')"
  show "steady w' \<and> (case r of Inl e \<Rightarrow> store_of w' = store_of w
       | Inr x \<Rightarrow> store_of w c = None \<and> store_of w' = (store_of w)(c \<mapsto> Map.empty))"
    using calm_command [OF w, of "Cmd_Register c"] svc_RegisterChat [OF _ _ run] w run
    by (simp add: steady_def split: sum.splits)
next
  fix w w' :: "'a world_scheme" and c :: i64 and r
  assume w: "steady w" and run: "DeleteChat svc c w = (r, w')"
  show "steady w' \<and> (case r of Inl e \<Rightarrow> store_of w' = store_of w | Inr x \<Rightarrow> store_of w' = (store_of w)(c := None))"
    using calm_command [OF w, of "Cmd_Delete c"] svc_DeleteChat [OF _ _ run] w run
    by (simp add: steady_def split: sum.splits)
next
  fix w w' :: "'a world_scheme" and c :: i64 and u ts r
  assume w: "steady w" and run: "AddLink svc c u ts w = (r, w')"
  show "steady w' \<and> (case r of Inl e \<Rightarrow> store_of w' = store_of w
       | Inr x \<Rightarrow> (\<exists>M. store_of w c = Some M \<and> M u = None \<and> store_of w' = (store_of w)(c \<mapsto> M(u \<mapsto> set ts))))"
    using calm_command [OF w, of "Cmd_Add c u ts"] svc_AddLink [OF _ _ run] w run store_tracked [of w c]
    by (cases r) (auto simp: steady_def same_tables_abs)
next
  fix w w' :: "'a world_scheme" and c :: i64 and u r
  assume w: "steady w" and run: "RemoveLink svc c u w = (r, w')"
  show "steady w' \<and> (case r of Inl e \<Rightarrow> store_of w' = store_of w
       | Inr x \<Rightarrow> (\<exists>M. store_of w c = Some M \<and> M u \<noteq> None \<and> store_of w' = (store_of w)(c \<mapsto> M(u := None))))"
    using calm_command [OF w, of "Cmd_Remove c u"] svc_RemoveLink [OF _ _ run] w run store_tracked [of w c]
    by (cases r) (auto simp: steady_def same_tables_abs)
next
  fix w w' :: "'a world_scheme" and c :: i64 and r
  assume w: "steady w" and run: "GetTrackedLinks svc c w = (r, w')"
  show "steady w' \<and> store_of w' = store_of w \<and>
      (case r of Inl e \<Rightarrow> store_of w c = None \<and> errors_is S_ErrChatNotRegistered e
       | Inr ls \<Rightarrow> (\<exists>M. store_of w c = Some M \<and> shows_links ls M))"
    using calm_command [OF w, of "Cmd_List c"] svc_GetTrackedLinks [OF _ _ _ run] w run store_tracked [of w c]
    by (cases r) (auto simp: steady_def same_tables_abs shows_links_def)
qed

end

interpretation sql_tracking: tracking_service "sql_svc.svc h" for h
  by (rule sql_svc.tracking_service)

interpretation qb_tracking: tracking_service "qb_svc.svc h" for h
  by (rule qb_svc.tracking_service)

lemma wired_tracking:
  assumes "buildRepos accessType = Inr repos"
  shows "tracking_service (NewService repos h)"
  using assms
  by (cases rule: NewService_cases [where h = h]) (simp_all add: sql_svc.tracking_service qb_svc.tracking_service)


subsection \<open>What a cache promises\<close>

text \<open>
  \<open>contents s c\<close> are the lists that the cache in state \<open>s\<close> may answer for the chat \<open>c\<close>. Entries may
  expire at any time, and a command that reports an error may or may not have been done.
\<close>

locale links_cache =
  fixes cache :: "'c links_cache_ops" and contents :: "'c \<Rightarrow> i64 \<Rightarrow> tracked_link list set"
  assumes get_hit: "lc_GetLinks cache c s = (Inr (Some ls), s') \<Longrightarrow> ls \<in> contents s c"
    and get_keeps: "lc_GetLinks cache c s = (h, s') \<Longrightarrow> contents s' d \<subseteq> contents s d"
    and set_entry: "lc_SetLinks cache c ls s = (x, s') \<Longrightarrow> ls' \<in> contents s' d \<Longrightarrow>
      ls' \<in> contents s d \<or> d = c \<and> ls' = map link_text ls"
    and inv_done: "lc_Invalidate cache c s = (Inr (), s') \<Longrightarrow> contents s' c = {}"
    and inv_keeps: "lc_Invalidate cache c s = (x, s') \<Longrightarrow> contents s' d \<subseteq> contents s d"

text \<open>Every cached list shows what the chat tracks, up to the text that JSON can carry.\<close>

definition current :: "tracked_link list \<Rightarrow> (string \<rightharpoonup> string set) \<Rightarrow> bool" where
  "current ls M \<longleftrightarrow> (\<exists>ls0. map link_text ls = map link_text ls0 \<and> shows_links ls0 M)"

definition coherent :: "(i64 \<Rightarrow> tracked_link list set) \<Rightarrow> tracking \<Rightarrow> bool" where
  "coherent K T \<longleftrightarrow> (\<forall>c. \<forall>ls \<in> K c. \<exists>M. T c = Some M \<and> current ls M)"

lemma coherent_sub: "coherent K T \<Longrightarrow> (\<And>d. K' d \<subseteq> K d) \<Longrightarrow> coherent K' T"
  unfolding coherent_def by blast

lemma coherent_None: "coherent K T \<Longrightarrow> T c = None \<Longrightarrow> K c = {}"
  unfolding coherent_def by fastforce

lemma coherent_other:
  assumes "coherent K T" and "K c = {}" and "\<And>d. d \<noteq> c \<Longrightarrow> T' d = T d"
  shows "coherent K T'"
  using assms unfolding coherent_def by (metis empty_iff)

lemma link_text_idem [simp]: "link_text (link_text l) = link_text l"
  by (simp add: link_text_def)

lemma current_shows: "shows_links ls M \<Longrightarrow> current ls M" "shows_links ls M \<Longrightarrow> current (map link_text ls) M"
  unfolding current_def by (rule exI [of _ ls]; simp)+

fun cached_command ::
    "('c, 'a world_scheme) caching_service \<Rightarrow> command \<Rightarrow> 'c \<times> 'a world_scheme \<Rightarrow> 'c \<times> 'a world_scheme" where
  "cached_command sv (Cmd_Register c) sw = snd (caching_RegisterChat sv c sw)"
| "cached_command sv (Cmd_Delete c) sw = snd (caching_DeleteChat sv c sw)"
| "cached_command sv (Cmd_Add c u ts) sw = snd (caching_AddLink sv c u ts sw)"
| "cached_command sv (Cmd_Remove c u) sw = snd (caching_RemoveLink sv c u sw)"
| "cached_command sv (Cmd_List c) sw = snd (caching_GetTrackedLinks sv c sw)"

locale caching = links_cache cache contents + tracking_service svc
  for cache :: "'c links_cache_ops" and contents and svc :: "'a world_scheme service"
begin

definition sv where "sv = NewCachingService svc cache"

definition coh :: "'c \<times> 'a world_scheme \<Rightarrow> bool" where
  "coh sw \<longleftrightarrow> steady (snd sw) \<and> coherent (contents (fst sw)) (store_of (snd sw))"

lemma sv_sel [simp]: "cs_service sv = svc" "cs_cache sv = cache"
  by (simp_all add: sv_def NewCachingService_def)

lemma fill:
  assumes "coh (s, w)" and "store_of w c = Some M" and "shows_links ls M"
  shows "fst (caching_fill sv c ls (s, w)) = Inr ls" and "coh (snd (caching_fill sv c ls (s, w)))"
    and "snd (snd (caching_fill sv c ls (s, w))) = w"
proof -
  obtain x s' where set: "lc_SetLinks cache c ls s = (x, s')" by fastforce
  have run: "caching_fill sv c ls (s, w) = (Inr ls, (s', w))"
    by (cases x) (simp_all add: caching_fill_def ehandle_def on_cache_run set)
  have "coherent (contents s') (store_of w)"
    using assms set_entry [OF set] current_shows(2) [OF assms(3)]
    unfolding coh_def coherent_def by fastforce
  with assms(1) run show "fst (caching_fill sv c ls (s, w)) = Inr ls" "coh (snd (caching_fill sv c ls (s, w)))"
    "snd (snd (caching_fill sv c ls (s, w))) = w"
    by (simp_all add: coh_def)
qed

lemma read_through:
  assumes "coh (s, w)" and "ebind (on_db (GetTrackedLinks svc c)) (caching_fill sv c) (s, w) = (r, sw')"
  shows "coh sw' \<and> store_of (snd sw') = store_of w \<and>
    (case r of Inl e \<Rightarrow> store_of w c = None \<and> errors_is S_ErrChatNotRegistered e
     | Inr ls \<Rightarrow> (\<exists>M. store_of w c = Some M \<and> current ls M))"
proof -
  obtain r1 w1 where db: "GetTrackedLinks svc c w = (r1, w1)" by fastforce
  have l: "steady w1 \<and> store_of w1 = store_of w \<and>
      (case r1 of Inl e \<Rightarrow> store_of w c = None \<and> errors_is S_ErrChatNotRegistered e
       | Inr ls \<Rightarrow> (\<exists>M. store_of w c = Some M \<and> shows_links ls M))"
    using list [OF _ db] assms(1) by (simp add: coh_def)
  with assms(1) have coh1: "coh (s, w1)" by (simp add: coh_def)
  show ?thesis
  proof (cases r1)
    case (Inl e)
    with l coh1 assms(2) show ?thesis by (auto simp: ebind_def ehandle_def on_db_run db)
  next
    case (Inr ls)
    with l obtain M where M: "store_of w1 c = Some M" "shows_links ls M" by auto
    have "(r, sw') = caching_fill sv c ls (s, w1)"
      using assms(2) Inr by (simp add: ebind_def ehandle_def on_db_run db)
    then have "r = Inr ls" "coh sw'" "snd sw' = w1"
      using fill [OF coh1 M] by (cases "caching_fill sv c ls (s, w1)"; simp)+
    then show ?thesis using l M current_shows(1) [OF M(2)] by auto
  qed
qed

lemma get_run:
  "caching_GetTrackedLinks sv c (s, w) =
     (case lc_GetLinks cache c s of (h, s1) \<Rightarrow>
        (case h of
           Inl e \<Rightarrow> ebind (on_db (GetTrackedLinks svc c)) (caching_fill sv c) (s1, w)
         | Inr None \<Rightarrow> ebind (on_db (GetTrackedLinks svc c)) (caching_fill sv c) (s1, w)
         | Inr (Some ls) \<Rightarrow> (Inr ls, (s1, w))))"
proof -
  obtain h s1 where get: "lc_GetLinks cache c s = (h, s1)" by fastforce
  then have cached: "on_cache (lc_GetLinks cache c) (s, w) = (h, (s1, w))" by (simp add: on_cache_run)
  show ?thesis
  proof (cases h)
    case (Inl e)
    with cached show ?thesis by (simp add: caching_GetTrackedLinks_def Let_def get)
  next
    case (Inr found)
    with cached show ?thesis by (cases found) (simp_all add: caching_GetTrackedLinks_def Let_def get)
  qed
qed

lemma get_list:
  assumes "coh (s, w)" and "caching_GetTrackedLinks sv c (s, w) = (r, sw')"
  shows "coh sw' \<and> store_of (snd sw') = store_of w \<and>
    (case r of Inl e \<Rightarrow> store_of w c = None \<and> errors_is S_ErrChatNotRegistered e
     | Inr ls \<Rightarrow> (\<exists>M. store_of w c = Some M \<and> current ls M))"
proof -
  obtain h s1 where get: "lc_GetLinks cache c s = (h, s1)" by fastforce
  have coh1: "coh (s1, w)"
    using assms(1) coherent_sub [OF _ get_keeps [OF get]] by (simp add: coh_def)
  note run = assms(2) [unfolded get_run get prod.case]
  consider (miss) "ebind (on_db (GetTrackedLinks svc c)) (caching_fill sv c) (s1, w) = (r, sw')"
    | (hit) ls where "h = Inr (Some ls)" "r = Inr ls" "sw' = (s1, w)"
  proof (cases h)
    case (Inl e)
    with run show thesis by (intro that(1)) simp
  next
    case (Inr found)
    with run show thesis by (cases found) (simp_all add: that)
  qed
  then show ?thesis
  proof cases
    case miss
    then show ?thesis by (rule read_through [OF coh1])
  next
    case hit
    then have "ls \<in> contents s c" using get by (simp add: get_hit)
    with assms(1) hit coh1 show ?thesis by (auto simp: coh_def coherent_def)
  qed
qed

text \<open>An operation that changes one chat and then invalidates its list.\<close>

lemma invalidated:
  assumes "coh (s, w)" and "steady w'" and "\<And>d. d \<noteq> c \<Longrightarrow> store_of w' d = store_of w d"
    and "lc_Invalidate cache c s = (Inr (), s')"
  shows "coh (s', w')"
proof -
  have "coherent (contents s') (store_of w)"
    using assms(1) coherent_sub [OF _ inv_keeps [OF assms(4)]] by (simp add: coh_def)
  then have "coherent (contents s') (store_of w')"
    by (rule coherent_other) (use assms(3) inv_done [OF assms(4)] in auto)
  with assms(2) show ?thesis by (simp add: coh_def)
qed

lemma unchanged: "coh (s, w) \<Longrightarrow> steady w' \<Longrightarrow> store_of w' = store_of w \<Longrightarrow> coh (s, w')"
  by (simp add: coh_def)

lemma register_coh:
  assumes "coh (s, w)"
  shows "coh (snd (caching_RegisterChat sv c (s, w)))"
proof -
  obtain r w' where run: "RegisterChat svc c w = (r, w')" by fastforce
  have "steady w" using assms by (simp add: coh_def)
  note reg = register [OF this run]
  have "coh (s, w')"
  proof (cases r)
    case (Inl e)
    with reg assms show ?thesis by (auto intro: unchanged)
  next
    case (Inr x)
    with reg have new: "store_of w c = None" "store_of w' = (store_of w)(c \<mapsto> Map.empty)" by simp_all
    then have none: "contents s c = {}"
      using assms coherent_None [of "contents s" "store_of w" c] by (simp add: coh_def)
    have "coherent (contents s) (store_of w')"
      by (rule coherent_other [of "contents s" "store_of w" c]) (use assms new none in \<open>simp_all add: coh_def\<close>)
    with reg show ?thesis by (simp add: coh_def)
  qed
  then show ?thesis by (simp add: caching_RegisterChat_def on_db_run run)
qed

text \<open>The three operations that invalidate.\<close>

lemma change_coh:
  assumes "coh (s, w)" and "m w = (r, w')" and "steady w'"
    and "case r of Inl e \<Rightarrow> store_of w' = store_of w | Inr x \<Rightarrow> (\<forall>d. d \<noteq> c \<longrightarrow> store_of w' d = store_of w d)"
    and "lc_Invalidate cache c s = (Inr (), s')" and "\<And>x. snd (k x (s, w')) = (s', w')"
  shows "coh (snd (ebind (on_db m) k (s, w)))"
proof (cases r)
  case (Inl e)
  have "on_db m (s, w) = (Inl e, (s, w'))" using assms(2) Inl by (simp add: on_db_run)
  with assms(1,3,4) Inl show ?thesis by (simp add: unchanged)
next
  case (Inr x)
  have "on_db m (s, w) = (Inr x, (s, w'))" using assms(2) Inr by (simp add: on_db_run)
  moreover have "coh (s', w')"
    using assms(4) Inr by (intro invalidated [OF assms(1,3) _ assms(5)]) simp
  ultimately show ?thesis using assms(6) by simp
qed

lemma inv_run:
  assumes "lc_Invalidate cache c s = (Inr (), s')"
  shows "snd (on_cache (lc_Invalidate cache c) (s, w)) = (s', w)"
    and "snd (ehandle (on_cache (lc_Invalidate cache c)) (\<lambda>err. eret x) (\<lambda>_. eret x) (s, w)) = (s', w)"
  using assms by (simp_all add: on_cache_run ehandle_def)

lemma command_coh:
  assumes "coh (s, w)" and "\<And>c s. fst (lc_Invalidate cache c s) = Inr ()"
  shows "coh (cached_command sv cmd (s, w))"
proof -
  have steady: "steady w" using assms(1) by (simp add: coh_def)
  have inv: "lc_Invalidate cache c s = (Inr (), snd (lc_Invalidate cache c s))" for c
    using assms(2) [of c s] by (cases "lc_Invalidate cache c s") simp
  show ?thesis
  proof (cases cmd)
    case (Cmd_Register c)
    then show ?thesis using register_coh [OF assms(1)] by simp
  next
    case (Cmd_Delete c)
    obtain r w' where run: "DeleteChat svc c w = (r, w')" by fastforce
    have "coh (snd (ebind (on_db (DeleteChat svc c)) (\<lambda>_. on_cache (lc_Invalidate cache c)) (s, w)))"
      by (rule change_coh [where m = "DeleteChat svc c", OF assms(1) run _ _ inv [of c]]) (use delete [OF steady run] in \<open>auto split: sum.splits simp: inv_run [OF inv]\<close>)
    with Cmd_Delete show ?thesis by (simp add: caching_DeleteChat_def)
  next
    case (Cmd_Add c u ts)
    obtain r w' where run: "AddLink svc c u ts w = (r, w')" by fastforce
    have "coh (snd (caching_AddLink sv c u ts (s, w)))" unfolding caching_AddLink_def sv_sel
      by (rule change_coh [where m = "AddLink svc c u ts", OF assms(1) run _ _ inv [of c]]) (use add [OF steady run] in \<open>auto split: sum.splits simp: inv_run [OF inv]\<close>)
    with Cmd_Add show ?thesis by simp
  next
    case (Cmd_Remove c u)
    obtain r w' where run: "RemoveLink svc c u w = (r, w')" by fastforce
    have "coh (snd (caching_RemoveLink sv c u (s, w)))" unfolding caching_RemoveLink_def sv_sel
      by (rule change_coh [where m = "RemoveLink svc c u", OF assms(1) run _ _ inv [of c]]) (use remove [OF steady run] in \<open>auto split: sum.splits simp: inv_run [OF inv]\<close>)
    with Cmd_Remove show ?thesis by simp
  next
    case (Cmd_List c)
    have "coh (snd (caching_GetTrackedLinks sv c (s, w)))"
      using get_list [OF assms(1) prod.collapse [symmetric]] by simp
    with Cmd_List show ?thesis by simp
  qed
qed

lemma commands_coh:
  assumes "coh sw" and "\<And>c s. fst (lc_Invalidate cache c s) = Inr ()"
  shows "coh (fold (cached_command sv) cmds sw)"
  using assms(1)
proof (induction cmds arbitrary: sw)
  case (Cons cmd cmds)
  then show ?case using command_coh [OF _ assms(2), of "fst sw" "snd sw" cmd] by simp
qed simp

lemma list_after_commands:
  assumes "coh sw" and "\<And>c s. fst (lc_Invalidate cache c s) = Inr ()"
    and "fold (cached_command sv) cmds sw = (s', w')" and "caching_GetTrackedLinks sv c (s', w') = (r, sw'')"
  shows "case r of Inl e \<Rightarrow> store_of w' c = None \<and> errors_is S_ErrChatNotRegistered e
    | Inr ls \<Rightarrow> (\<exists>M. store_of w' c = Some M \<and> current ls M)"
  using get_list [OF _ assms(4)] commands_coh [OF assms(1,2), of cmds] assms(3) by simp

text \<open>A hit is served as it is, whatever the store holds now.\<close>

lemma hit_served: "lc_GetLinks cache c s = (Inr (Some ls), s') \<Longrightarrow> fst (caching_GetTrackedLinks sv c (s, w)) = Inr ls"
  by (simp add: get_run)

end

subsection \<open>The Valkey cache keeps the contract\<close>

text \<open>
  How the cache reads: straight from the server, or with client-side caching through copies that the client
  keeps for the TTL. \<open>answers s k\<close> are the documents with which a \<open>GET\<close> of the key \<open>k\<close> may be answered: the one that
  is stored and, with client-side caching, the copy. The commands do what their documentation says: \<open>GET\<close> answers one of
  these, \<open>SET\<close> adds the new one, \<open>DEL\<close> leaves none (the client has dropped its copy when the invalidation message
  has arrived, which is taken to be before the next command); a command that fails may have been done, and keys expire.
\<close>

definition read_mode :: "bool \<Rightarrow> duration \<Rightarrow> duration option" where
  "read_mode clientSide ttl = (if clientSide then Some ttl else None)"

definition valkey_law :: "duration option \<Rightarrow> 'c valkey_client \<Rightarrow> ('c \<Rightarrow> string \<Rightarrow> json set) \<Rightarrow> bool" where
  "valkey_law mode conn answers \<longleftrightarrow>
     (\<forall>k s r s'. vk_Get conn mode k s = (r, s') \<longrightarrow>
        (\<forall>k'. answers s' k' \<subseteq> answers s k') \<and> (\<forall>j. r = Inr (VString (Some j)) \<longrightarrow> j \<in> answers s k)) \<and>
     (\<forall>k j t s r s' k'. vk_Set conn k j t s = (r, s') \<longrightarrow> answers s' k' \<subseteq> answers s k' \<union> (if k' = k then {j} else {})) \<and>
     (\<forall>k s r s'. vk_Del conn k s = (r, s') \<longrightarrow>
        (\<forall>k'. answers s' k' \<subseteq> answers s k') \<and> (r = Inr () \<longrightarrow> answers s' k = {}))"

definition decoded :: "json \<Rightarrow> tracked_link list option" where
  "decoded j = (case dec_list dec_cachedLink zero_link j [] of Inl e \<Rightarrow> None | Inr ls \<Rightarrow> Some ls)"

definition valkey_contents ::
    "'c valkey_cache \<Rightarrow> ('c \<Rightarrow> string \<Rightarrow> json set) \<Rightarrow> 'c \<Rightarrow> i64 \<Rightarrow> tracked_link list set" where
  "valkey_contents cache answers s c = {ls. \<exists>j \<in> answers s (cache_key cache c). decoded j = Some ls}"

lemma decoded_links: "decoded (enc_list cachedLink_json ls) = Some (map link_text ls)"
proof -
  have "dec_list dec_cachedLink zero_link (enc_list cachedLink_json ls) [] = Inr (map link_text ls)"
    by (rule dec_enc_list) (simp add: dec_cachedLink_def cachedLink_json_def dec_struct_def dec_field_def link_text_def dec_tags)
  then show ?thesis by (simp add: decoded_def)
qed

lemma contents_sub:
  "(\<And>k. answers s' k \<subseteq> answers s k) \<Longrightarrow> valkey_contents cache answers s' c \<subseteq> valkey_contents cache answers s c"
  unfolding valkey_contents_def by blast

lemma cache_key_inj: "cache_key cache c = cache_key cache d \<Longrightarrow> c = d"
  by (simp add: cache_key_def format_i64_inj)

abbreviation cache_mode :: "'c valkey_cache \<Rightarrow> duration option" where
  "cache_mode cache \<equiv> read_mode (vc_clientSideCaching cache) (vc_ttl cache)"

lemma valkey_keeps_contract:
  assumes law: "valkey_law (cache_mode cache) (vc_client cache) answers"
  shows "links_cache (valkey_ops cache) (valkey_contents cache answers)"
proof
  fix c s ls s'
  assume "lc_GetLinks (valkey_ops cache) c s = (Inr (Some ls), s')"
  then obtain j where get: "vk_Get (vc_client cache) (cache_mode cache) (cache_key cache c) s = (Inr (VString (Some j)), s')"
    and j: "dec_list dec_cachedLink zero_link j [] = Inr ls"
    by (auto simp: valkey_ops_def valkey_GetLinks_def unmarshal_def read_mode_def elim!: ehandle_cases
        split: valkey_reply.splits sum.splits option.splits)
  have "j \<in> answers s (cache_key cache c)"
    using law [unfolded valkey_law_def, THEN conjunct1, rule_format, OF get] by blast
  with j show "ls \<in> valkey_contents cache answers s c"
    unfolding valkey_contents_def by (auto simp: decoded_def intro!: bexI [of _ j])
next
  fix c s h s' d
  assume "lc_GetLinks (valkey_ops cache) c s = (h, s')"
  then obtain r where "vk_Get (vc_client cache) (cache_mode cache) (cache_key cache c) s = (r, s')"
    by (auto simp: valkey_ops_def valkey_GetLinks_def read_mode_def elim!: ehandle_cases split: valkey_reply.splits sum.splits)
  with law show "valkey_contents cache answers s' d \<subseteq> valkey_contents cache answers s d"
    unfolding valkey_law_def by (intro contents_sub) blast
next
  fix c ls s x s' d ls'
  assume set: "lc_SetLinks (valkey_ops cache) c ls s = (x, s')" and hit: "ls' \<in> valkey_contents cache answers s' d"
  obtain r where "vk_Set (vc_client cache) (cache_key cache c) (enc_list cachedLink_json ls) (vc_ttl cache) s = (r, s')"
    using set by (auto simp: valkey_ops_def valkey_SetLinks_def Let_def elim!: ehandle_cases)
  then have set: "vk_Set (vc_client cache) (cache_key cache c) (enc_list cachedLink_json ls) (vc_ttl cache) s = (r, s')" .
  have sub: "answers s' k \<subseteq> answers s k \<union> (if k = cache_key cache c then {enc_list cachedLink_json ls} else {})" for k
    using law [unfolded valkey_law_def, THEN conjunct2, THEN conjunct1, rule_format, OF set] .
  obtain j where "j \<in> answers s' (cache_key cache d)" and j: "decoded j = Some ls'"
    using hit by (auto simp: valkey_contents_def)
  with sub [of "cache_key cache d"] have "j \<in> answers s (cache_key cache d) \<or> cache_key cache d = cache_key cache c \<and> j = enc_list cachedLink_json ls"
    by (auto split: if_splits)
  then show "ls' \<in> valkey_contents cache answers s d \<or> d = c \<and> ls' = map link_text ls"
    using j by (auto simp: valkey_contents_def decoded_links dest: cache_key_inj)
next
  fix c s s'
  assume "lc_Invalidate (valkey_ops cache) c s = (Inr (), s')"
  then have "vk_Del (vc_client cache) (cache_key cache c) s = (Inr (), s')"
    by (auto simp: valkey_ops_def valkey_Invalidate_def elim!: ehandle_cases)
  with law show "valkey_contents cache answers s' c = {}"
    by (auto simp: valkey_law_def valkey_contents_def)
next
  fix c s x s' d
  assume "lc_Invalidate (valkey_ops cache) c s = (x, s')"
  then obtain r where "vk_Del (vc_client cache) (cache_key cache c) s = (r, s')"
    by (auto simp: valkey_ops_def valkey_Invalidate_def elim!: ehandle_cases)
  with law show "valkey_contents cache answers s' d \<subseteq> valkey_contents cache answers s d"
    unfolding valkey_law_def by (intro contents_sub) blast
qed

lemma wired_caching:
  assumes "buildRepos accessType = Inr repos" and "valkey_law (cache_mode cache) (vc_client cache) answers"
  shows "caching (valkey_ops cache) (valkey_contents cache answers) (NewService repos h)"
  by (intro caching.intro wired_tracking [OF assms(1)] valkey_keeps_contract [OF assms(2)])

text \<open>A server in memory with a client that keeps copies; its commands fail by a script, \<open>rwFails\<close> and \<open>delFails\<close> say which.\<close>

type_synonym memory = "(string \<rightharpoonup> json) \<times> (string \<rightharpoonup> json) \<times> bool list"

definition memory_step :: "bool \<Rightarrow> memory \<Rightarrow> 'a \<Rightarrow> memory \<Rightarrow> (goerr + 'a) \<times> memory" where
  "memory_step fails = (\<lambda>(m, near, fs) x s'.
     if fails \<and> fs \<noteq> [] \<and> hd fs then (Inl (ExtErr ''connection refused''), (m, near, tl fs)) else (Inr x, s'))"

definition memory_valkey :: "bool \<Rightarrow> bool \<Rightarrow> memory valkey_client" where
  "memory_valkey rwFails delFails =
     \<lparr>vk_Get = (\<lambda>t k (m, near, fs).
        let found = (case t of None \<Rightarrow> m k | Some ttl \<Rightarrow> (case near k of None \<Rightarrow> m k | Some j \<Rightarrow> Some j)) in
        memory_step rwFails (m, near, fs) (case found of None \<Rightarrow> VNil | Some j \<Rightarrow> VString (Some j))
          (m, (if t = None then near else near(k := found)), tl fs)),
      vk_Set = (\<lambda>k j t (m, near, fs). memory_step rwFails (m, near, fs) () (m(k \<mapsto> j), near(k := None), tl fs)),
      vk_Del = (\<lambda>k (m, near, fs). memory_step delFails (m, near, fs) () (m(k := None), near(k := None), tl fs))\<rparr>"

definition memory_answers :: "memory \<Rightarrow> string \<Rightarrow> json set" where
  "memory_answers = (\<lambda>(m, near, fs) k. {j. m k = Some j \<or> near k = Some j})"

lemma memory_valkey_law: "valkey_law mode (memory_valkey rwFails delFails) memory_answers"
  unfolding valkey_law_def
proof (intro conjI allI impI)
  fix k k' and s s' :: memory and r
  assume get: "vk_Get (memory_valkey rwFails delFails) mode k s = (r, s')"
  obtain m near fs where s: "s = (m, near, fs)" by (cases s)
  from get show "memory_answers s' k' \<subseteq> memory_answers s k'"
    by (cases mode; cases "near k"; cases "m k")
      (auto simp: memory_valkey_def memory_step_def memory_answers_def Let_def s split: if_splits)
  show "j \<in> memory_answers s k" if "r = Inr (VString (Some j))" for j
    using get that by (cases mode; cases "near k"; cases "m k")
      (auto simp: memory_valkey_def memory_step_def memory_answers_def Let_def s split: if_splits)
next
  fix k k' j t and s s' :: memory and r
  assume "vk_Set (memory_valkey rwFails delFails) k j t s = (r, s')"
  then show "memory_answers s' k' \<subseteq> memory_answers s k' \<union> (if k' = k then {j} else {})"
    by (cases s) (auto simp: memory_valkey_def memory_step_def memory_answers_def split: if_splits)
next
  fix k k' and s s' :: memory and r
  assume del: "vk_Del (memory_valkey rwFails delFails) k s = (r, s')"
  then show "memory_answers s' k' \<subseteq> memory_answers s k'"
    by (cases s) (auto simp: memory_valkey_def memory_step_def memory_answers_def split: if_splits)
  show "memory_answers s' k = {}" if "r = Inr ()"
    using del that by (cases s) (auto simp: memory_valkey_def memory_step_def memory_answers_def split: if_splits)
qed

definition memory_cache :: "bool \<Rightarrow> bool \<Rightarrow> memory valkey_cache" where
  "memory_cache rwFails delFails = \<lparr>vc_client = memory_valkey rwFails delFails, vc_ttl = 60, vc_keyPrefix = ''links:'',
     vc_clientSideCaching = True\<rparr>"

lemma memory_cache_sel: "vc_client (memory_cache b f) = memory_valkey b f" "cache_mode (memory_cache b f) = Some 60"
  by (simp_all add: memory_cache_def read_mode_def)

interpretation valkey: links_cache "valkey_ops (memory_cache b f)" "valkey_contents (memory_cache b f) memory_answers" for b f
  by (rule valkey_keeps_contract) (simp add: memory_cache_sel memory_valkey_law)

interpretation cached_sql: caching "valkey_ops (memory_cache b f)" "valkey_contents (memory_cache b f) memory_answers" "sql_svc.svc h" for b f h ..


subsection \<open>The built service\<close>

fun api_command :: "'w link_api \<Rightarrow> command \<Rightarrow> 'w \<Rightarrow> 'w" where
  "api_command api (Cmd_Register c) w = snd (la_RegisterChat api c w)"
| "api_command api (Cmd_Delete c) w = snd (la_DeleteChat api c w)"
| "api_command api (Cmd_Add c u ts) w = snd (la_AddLink api c u ts w)"
| "api_command api (Cmd_Remove c u) w = snd (la_RemoveLink api c u w)"
| "api_command api (Cmd_List c) w = snd (la_GetTrackedLinks api c w)"

lemma caching_command: "api_command (caching_api sv) = cached_command sv"
proof (intro ext)
  fix cmd sw
  show "api_command (caching_api sv) cmd sw = cached_command sv cmd sw"
    by (cases cmd) (simp_all add: caching_api_def)
qed

context tracking_service
begin

lemma uncached_calm: "steady (snd sw) \<Longrightarrow> steady (snd (api_command (uncached_api svc) cmd sw))"
  using register [OF _ prod.collapse [symmetric], of "snd sw"] delete [OF _ prod.collapse [symmetric], of "snd sw"]
    add [OF _ prod.collapse [symmetric], of "snd sw"] remove [OF _ prod.collapse [symmetric], of "snd sw"]
    list [OF _ prod.collapse [symmetric], of "snd sw"]
  by (cases sw; cases cmd) (simp_all add: uncached_api_def on_db_run)

lemma uncached_commands: "steady (snd sw) \<Longrightarrow> steady (snd (fold (api_command (uncached_api svc)) cmds sw))"
  by (induction cmds arbitrary: sw) (simp_all add: uncached_calm)

lemma uncached_list:
  assumes "steady (snd sw)" and "fold (api_command (uncached_api svc)) cmds sw = (s', w')"
    and "la_GetTrackedLinks (uncached_api svc) c (s', w') = (r, sw')"
  shows "case r of Inl e \<Rightarrow> store_of w' c = None \<and> errors_is S_ErrChatNotRegistered e
    | Inr ls \<Rightarrow> (\<exists>M. store_of w' c = Some M \<and> current ls M)"
proof -
  have "steady w'" using uncached_commands [OF assms(1), of cmds] assms(2) by simp
  moreover have "GetTrackedLinks svc c w' = (r, snd sw')"
    using assms(3) by (cases "GetTrackedLinks svc c w'") (auto simp: uncached_api_def on_db_run)
  ultimately have "case r of Inl e \<Rightarrow> store_of w' c = None \<and> errors_is S_ErrChatNotRegistered e
       | Inr ls \<Rightarrow> (\<exists>M. store_of w' c = Some M \<and> shows_links ls M)"
    using list by blast
  then show ?thesis by (cases r) (auto intro: current_shows)
qed

end

text \<open>C36. With the cache or without, a list is never out of date on a working database connection as long as
  invalidations succeed: from a coherent cache on and after any commands through the service that
  \<open>buildSubscriptionService\<close> builds, with reads and writes of the cache failing and entries expiring at
  will, \<open>GetTrackedLinks\<close> answers exactly what the chat tracks in the database at that moment (in the text that JSON
  can carry), and an error only for a chat that is not registered. With client-side caching the client's own copies
  are covered as well, if it has seen an invalidation message before it serves the next command.\<close>

theorem lists_are_current:
  assumes "buildRepos accessType = Inr repos" and "buildSubscriptionService NewClient cfg repos canHandle = Inr api"
    and "\<forall>as b conn. NewClient as b = Inr conn \<longrightarrow>
      valkey_law (read_mode (vf_ClientSideCache cfg) (vf_TTL cfg)) conn answers \<and> (\<forall>k s. fst (vk_Del conn k s) = Inr ())"
    and "steady w"
    and "coherent (\<lambda>c. {ls. \<exists>j \<in> answers s (vf_KeyPrefix cfg @ format_i64 c). decoded j = Some ls}) (abs_db (w_db w))"
    and "fold (api_command api) cmds (s, w) = (s', w')" and "la_GetTrackedLinks api c (s', w') = (r, sw')"
  shows "case r of
      Inl e \<Rightarrow> abs_db (w_db w') c = None \<and> errors_is S_ErrChatNotRegistered e
    | Inr ls \<Rightarrow> (\<exists>M. abs_db (w_db w') c = Some M \<and> current ls M)"
proof (cases "vf_Enabled cfg")
  case False
  with assms(2) have api: "api = uncached_api (NewService repos canHandle)"
    by (simp add: buildSubscriptionService_def)
  show ?thesis
    using tracking_service.uncached_list [OF wired_tracking [OF assms(1)] _ assms(6,7) [unfolded api]] assms(4) by simp
next
  case True
  with assms(2) obtain conn where "NewClient (vf_Addresses cfg) (\<not> vf_ClientSideCache cfg) = Inr conn"
    and api: "api = caching_api (NewCachingService (NewService repos canHandle) (valkey_ops
      \<lparr>vc_client = conn, vc_ttl = vf_TTL cfg, vc_keyPrefix = vf_KeyPrefix cfg, vc_clientSideCaching = vf_ClientSideCache cfg\<rparr>))"
    by (auto simp: buildSubscriptionService_def valkey_New_def Let_def split: sum.splits)
  with assms(3) have law: "valkey_law (read_mode (vf_ClientSideCache cfg) (vf_TTL cfg)) conn answers"
    and del: "\<And>k s. fst (vk_Del conn k s) = Inr ()" by blast+
  define cache where "cache = \<lparr>vc_client = conn, vc_ttl = vf_TTL cfg, vc_keyPrefix = vf_KeyPrefix cfg,
    vc_clientSideCaching = vf_ClientSideCache cfg\<rparr>"
  have conn: "vc_client cache = conn" and mode: "cache_mode cache = read_mode (vf_ClientSideCache cfg) (vf_TTL cfg)"
    by (simp_all add: cache_def)
  note cached = wired_caching [OF assms(1), of cache answers canHandle, unfolded mode conn, OF law]
  let ?sv = "NewCachingService (NewService repos canHandle) (valkey_ops cache)"
  have sv: "caching.sv (valkey_ops cache) (NewService repos canHandle) = ?sv"
    by (rule caching.sv_def [OF cached])
  have "valkey_contents cache answers s = (\<lambda>c. {ls. \<exists>j \<in> answers s (vf_KeyPrefix cfg @ format_i64 c). decoded j = Some ls})"
    by (rule ext) (simp add: valkey_contents_def cache_key_def cache_def)
  with assms(4,5) have coh: "caching.coh (valkey_contents cache answers) (s, w)"
    using caching.coh_def [OF cached] by simp
  have del_ok: "\<And>c s. fst (lc_Invalidate (valkey_ops cache) c s) = Inr ()"
    using del by (simp add: valkey_ops_def valkey_Invalidate_def conn ehandle_def split: prod.splits sum.splits) (metis fst_conv sum.distinct(1))
  have cmds: "fold (cached_command ?sv) cmds (s, w) = (s', w')"
    using assms(6) by (simp add: api caching_command cache_def [symmetric])
  have lst: "caching_GetTrackedLinks ?sv c (s', w') = (r, sw')"
    using assms(7) by (simp add: api caching_api_def cache_def [symmetric])
  show ?thesis
    by (rule caching.list_after_commands [OF cached coh del_ok cmds [folded sv] lst [folded sv]])
qed

text \<open>The configuration as shipped, with client-side caching, over the server in memory.\<close>

definition memory_config :: valkey_config where
  "memory_config = \<lparr>vf_Enabled = True, vf_Addresses = [''valkey:6379''], vf_TTL = 60, vf_KeyPrefix = ''links:'',
     vf_ClientSideCache = True\<rparr>"

definition memory_service :: "bool \<Rightarrow> bool \<Rightarrow> (memory, world) caching_service" where
  "memory_service rwFails delFails = NewCachingService (NewService (sql_chat_repo, sql_link_repo, sql_sub_repo) (\<lambda>u. True))
     (valkey_ops (memory_cache rwFails delFails))"

definition sample_commands :: "command list" where
  "sample_commands = [Cmd_Register 7, Cmd_List 7, Cmd_Add 7 ''https://github.com/a/b'' [''go''], Cmd_List 7]"

lemma sql_built: "buildRepos ''SQL'' = Inr (sql_chat_repo, sql_link_repo, sql_sub_repo)"
  by (simp add: buildRepos_def)

lemma sample_calm: "db_wf d \<Longrightarrow> steady (sample_world d [])"
  by (simp add: steady_def sample_world_top sample_env)

lemma sample_list_answered:
  "\<not> isl (fst (la_GetTrackedLinks (caching_api (memory_service True False)) 7
     (fold (api_command (caching_api (memory_service True False))) sample_commands
       ((Map.empty, Map.empty, [True]), sample_world empty_db []))))"
  by code_simp

lemma lists_are_current_witness:
  "\<exists>ls M s' w'. fold (api_command (caching_api (memory_service True False))) sample_commands
       ((Map.empty, Map.empty, [True]), sample_world empty_db []) = (s', w')
     \<and> fst (la_GetTrackedLinks (caching_api (memory_service True False)) 7 (s', w')) = Inr ls
     \<and> abs_db (w_db w') 7 = Some M \<and> current ls M"
proof -
  let ?api = "caching_api (memory_service True False)"
  let ?s = "(Map.empty, Map.empty, [True]) :: memory"
  let ?w = "sample_world empty_db []"
  have api: "buildSubscriptionService (\<lambda>as b. Inr (memory_valkey True False)) memory_config
      (sql_chat_repo, sql_link_repo, sql_sub_repo) (\<lambda>u. True) = Inr ?api"
    by (simp add: buildSubscriptionService_def memory_config_def valkey_New_def memory_service_def memory_cache_def)
  obtain s' w' where run: "fold (api_command ?api) sample_commands (?s, ?w) = (s', w')" by fastforce
  obtain r sw' where get: "la_GetTrackedLinks ?api 7 (s', w') = (r, sw')" by (metis prod.exhaust)
  have del: "fst (vk_Del (memory_valkey True False) k s) = Inr ()" for k s
    by (simp add: memory_valkey_def memory_step_def split: prod.splits)
  have "case r of Inl e \<Rightarrow> abs_db (w_db w') 7 = None \<and> errors_is S_ErrChatNotRegistered e
    | Inr ls \<Rightarrow> (\<exists>M. abs_db (w_db w') 7 = Some M \<and> current ls M)"
    by (rule lists_are_current [where answers = memory_answers, OF sql_built api _ sample_calm [OF db_wf_empty] _ run get])
       (simp add: memory_valkey_law del, simp add: coherent_def memory_answers_def)
  moreover obtain ls where "r = Inr ls"
    using sample_list_answered by (cases r) (auto simp: run get)
  ultimately show ?thesis using run get by auto
qed

subsection \<open>Stale lists\<close>


context tracking_service
begin

text \<open>What the store holds when the invalidation after a command failed, and when a miss read it before an addition.\<close>

lemma add_kept:
  assumes "steady w" and "store_of w c = Some M" and "caching_AddLink (NewCachingService svc cache) c u ts (s, w) = (Inr k, (s1, w1))"
  shows "s1 = snd (lc_Invalidate cache c s)" and "store_of w1 c = Some (M(u \<mapsto> set ts)) \<and> M u = None"
proof -
  obtain x w2 where run: "AddLink svc c u ts w = (x, w2)" by fastforce
  from assms(3) obtain k' where x: "x = Inr k'" and "s1 = snd (lc_Invalidate cache c s)" "w1 = w2"
    by (cases x) (auto simp: caching_AddLink_def ebind_def ehandle_def NewCachingService_def on_db_run on_cache_run run split: sum.splits)
  with add [OF assms(1) run] assms(2)
  show "s1 = snd (lc_Invalidate cache c s)" "store_of w1 c = Some (M(u \<mapsto> set ts)) \<and> M u = None" by auto
qed

lemma remove_kept:
  assumes "steady w" and "store_of w c = Some M" and "caching_RemoveLink (NewCachingService svc cache) c u (s, w) = (Inr k, (s1, w1))"
  shows "s1 = snd (lc_Invalidate cache c s)" and "store_of w1 c = Some (M(u := None)) \<and> M u \<noteq> None"
proof -
  obtain x w2 where run: "RemoveLink svc c u w = (x, w2)" by fastforce
  from assms(3) obtain k' where x: "x = Inr k'" and "s1 = snd (lc_Invalidate cache c s)" "w1 = w2"
    by (cases x) (auto simp: caching_RemoveLink_def ebind_def ehandle_def NewCachingService_def on_db_run on_cache_run run split: sum.splits)
  with remove [OF assms(1) run] assms(2)
  show "s1 = snd (lc_Invalidate cache c s)" "store_of w1 c = Some (M(u := None)) \<and> M u \<noteq> None" by auto
qed

lemma delete_kept:
  assumes "steady w" and "DeleteChat svc c w = (Inr x, w1)" and "lc_Invalidate cache c s = (Inl e, s1)"
  shows "caching_DeleteChat (NewCachingService svc cache) c (s, w) = (Inl e, (s1, w1))" and "store_of w1 c = None"
  using delete [OF assms(1,2)]
  by (simp_all add: caching_DeleteChat_def ebind_def ehandle_def NewCachingService_def on_db_run on_cache_run assms(2,3))

lemma race_kept:
  assumes "steady w" and "GetTrackedLinks svc c w = (Inr ls, w1)" and "AddLink svc c u ts w1 = (Inr k, w2)"
    and "caching_fill (NewCachingService svc cache) c ls (s, w2) = (r, (s3, w3))" and "store_of w c = Some M"
  shows "r = Inr ls" and "s3 = snd (lc_SetLinks cache c ls s)"
    and "store_of w3 c = Some (M(u \<mapsto> set ts)) \<and> M u = None \<and> shows_links ls M"
proof -
  note l = list [OF assms(1,2)]
  have "r = Inr ls \<and> s3 = snd (lc_SetLinks cache c ls s) \<and> w3 = w2"
    using assms(4) by (cases "fst (lc_SetLinks cache c ls s)"; cases "lc_SetLinks cache c ls s")
      (auto simp: caching_fill_def NewCachingService_def ehandle_def on_cache_run)
  with l add [OF _ assms(3)] assms(5)
  show "r = Inr ls" "s3 = snd (lc_SetLinks cache c ls s)" "store_of w3 c = Some (M(u \<mapsto> set ts)) \<and> M u = None \<and> shows_links ls M"
    by auto
qed

end











end
