(* ===== verification/Config.thy ===== *)
theory Config
  imports Resilience Rate_Limit Caching
begin

text \<open>
  The configurations of the three programs (\<open>internal/*/config/config.go\<close>): their records, and the
  setters of the two kinds of value that are checked when they are read. Reading the file and the
  environment is the work of cleanenv. The structs for retries, breaker, client, rate limit and cache
  are those of \<open>resilience\<close> and of the cache, which the code copies field by field.
\<close>

subsection \<open>Checked values\<close>

text \<open>A setter changes the value it points to only when it accepts the text; \<open>quote\<close> is \<open>%q\<close>.\<close>

definition single :: "string \<Rightarrow> string" where
  "single s = [CHR 0x27] @ s @ [CHR 0x27]"

definition ProtocolHTTP :: string where "ProtocolHTTP = ''http''"
definition ProtocolGRPC :: string where "ProtocolGRPC = ''grpc''"

definition protocol_SetValue :: "(string \<Rightarrow> string) \<Rightarrow> string \<Rightarrow> string \<Rightarrow> goerr option \<times> string" where
  "protocol_SetValue quote s protocol =
     (if s = ''http'' then (None, ProtocolHTTP)
      else if s = ''grpc'' then (None, ProtocolGRPC)
      else (Some (NewErr (''invalid protocol: '' @ quote s @ ''. Allowed values are '' @ single ''http'' @ '' or '' @ single ''grpc'')), protocol))"

definition AccessTypeBUILDER :: string where "AccessTypeBUILDER = ''BUILDER''"
definition AccessTypeSQL :: string where "AccessTypeSQL = ''SQL''"

definition access_SetValue :: "(string \<Rightarrow> string) \<Rightarrow> string \<Rightarrow> string \<Rightarrow> goerr option \<times> string" where
  "access_SetValue quote s accessType =
     (if s = ''BUILDER'' then (None, AccessTypeBUILDER)
      else if s = ''SQL'' then (None, AccessTypeSQL)
      else (Some (NewErr (''invalid access type: '' @ quote s @ ''. Allowed values are '' @ single ''SQL'' @ '' or '' @ single ''BUILDER'')), accessType))"


subsection \<open>The records\<close>

record logger_config =
  lc_File :: string
  lc_Level :: string

record database_config =
  dc_MigrationsDirURL :: string
  dc_URL :: string
  dc_AccessType :: string

record scheduler_config =
  sc_JobInterval :: duration
  sc_JobTimeout :: duration

text \<open>A service that is called: the bot of the scrapper, the scrapper of the bot.\<close>

record 'f remote_config =
  rm_URL :: string
  rm_Protocol :: string
  rm_Resilience :: "'f client_config"

record server_config =
  sf_Port :: "16 word"
  sf_Protocol :: string
  sf_RateLimit :: rate_config

record 'f fetchers_config =
  fc_DescriptionLimit :: int
  fc_Concurrency :: int
  fc_Batch :: int
  fc_StackOverflowKey :: string
  fc_Resilience :: "'f client_config"

record worker_config =
  wc_Count :: int
  wc_Interval :: duration
  wc_EventLimit :: int
  wc_MaxRetries :: int

record scrapper_kafka_config =
  kc_Enable :: bool
  kc_Brokers :: "string list"
  kc_SchemaRegistryURL :: string
  kc_Topic :: string
  kc_SchemaPath :: string
  kc_Workers :: worker_config

record 'f scrapper_config =
  sp_Logger :: logger_config
  sp_Scheduler :: scheduler_config
  sp_BotService :: "'f remote_config"
  sp_Server :: server_config
  sp_Database :: database_config
  sp_Fetchers :: "'f fetchers_config"
  sp_Kafka :: scrapper_kafka_config
  sp_Valkey :: valkey_config

record 'f telegram_config =
  tc_Token :: string
  tc_ApiURL :: string
  tc_Resilience :: "'f client_config"

record 'f kafka_retry_config =
  kr_MaxRetries :: int
  kr_Delay :: duration
  kr_MaxDelay :: duration
  kr_BackoffFactor :: 'f

record 'f bot_kafka_config =
  bk_Enable :: bool
  bk_Brokers :: "string list"
  bk_Topic :: string
  bk_DLQTopic :: string
  bk_SchemaRegistryURL :: string
  bk_ConsumerGroup :: string
  bk_Retries :: "'f kafka_retry_config"

text \<open>The database of the bot has no migrations of its own: that field stays empty.\<close>

record 'f bot_config =
  bo_Telegram :: "'f telegram_config"
  bo_Logger :: logger_config
  bo_ScrapperService :: "'f remote_config"
  bo_Server :: server_config
  bo_Database :: database_config
  bo_Kafka :: "'f bot_kafka_config"

text \<open>\<open>Load\<close>: what the reader makes of the file, or its error.\<close>

definition Load :: "(string \<Rightarrow> goerr + 'c) \<Rightarrow> string \<Rightarrow> goerr + 'c" where
  "Load ReadConfig configPath = (case ReadConfig configPath of Inl err \<Rightarrow> Inl err | Inr cfg \<Rightarrow> Inr cfg)"

subsection \<open>Well-typed configurations\<close>

text \<open>The values that the setters let through.\<close>

definition protocol_value :: "string \<Rightarrow> bool" where
  "protocol_value p \<longleftrightarrow> p = ProtocolHTTP \<or> p = ProtocolGRPC"

definition access_value :: "string \<Rightarrow> bool" where
  "access_value a \<longleftrightarrow> a = AccessTypeSQL \<or> a = AccessTypeBUILDER"

lemma setters_give_values:
  "protocol_SetValue quote s p = (None, p') \<Longrightarrow> protocol_value p'"
  "access_SetValue quote s a = (None, a') \<Longrightarrow> access_value a'"
  by (auto simp: protocol_SetValue_def access_SetValue_def protocol_value_def access_value_def split: if_splits)

lemma setters_keep_values:
  "protocol_value p \<Longrightarrow> protocol_value (snd (protocol_SetValue quote s p))"
  "access_value a \<Longrightarrow> access_value (snd (access_SetValue quote s a))"
  by (auto simp: protocol_SetValue_def access_SetValue_def protocol_value_def access_value_def)


subsection \<open>The agent\<close>

record author_config =
  au_Enabled :: bool
  au_Excluded :: "string list"

record words_config =
  wd_Enabled :: bool
  wd_StopWords :: "string list"

record length_config =
  lg_Enabled :: bool
  lg_MinLength :: int

record filters_config =
  fl_Author :: author_config
  fl_StopWords :: words_config
  fl_Length :: length_config

record 'f gemini_config =
  ge_APIKey :: string
  ge_Resilience :: "'f client_config"

record transformer_config =
  tr_SummarizerEnabled :: bool
  tr_Threshold :: int

record 'f agent_kafka_config =
  ak_Enable :: bool
  ak_Brokers :: "string list"
  ak_RawUpdateTopic :: string
  ak_ProcessedUpdateTopic :: string
  ak_DLQTopic :: string
  ak_SchemaRegistryURL :: string
  ak_SchemaPath :: string
  ak_ConsumerGroup :: string
  ak_Retries :: "'f kafka_retry_config"
  ak_Workers :: worker_config

record 'f agent_full_config =
  ag_Logger :: logger_config
  ag_Kafka :: "'f agent_kafka_config"
  ag_Database :: database_config
  ag_Filters :: filters_config
  ag_Transformers :: transformer_config
  ag_Gemini :: "'f gemini_config"

end
