(* ===== verification/Wiring.thy ===== *)
theory Wiring
  imports Config Session_Effects Scrapper_Service Agent Bot_Notify Telegram Bot_Dialog
begin

text \<open>
  How the programs are put together: \<open>NewApp\<close> of the scrapper, the bot and the agent with the functions
  it calls (\<open>*/application/app.go\<close>; the agent's is \<open>agent_StartApp\<close>, \<open>agent_NewApp\<close> being its service
  alone), the scheduler, the Kafka listeners (\<open>.../kafka/listener.go\<close>), and \<open>Shutdown\<close>. What the libraries and the operating system create
  is a record of constructors; the log lines are left out.
\<close>

subsection \<open>The scrapper\<close>

text \<open>The constructors that can fail, and the clients they give.\<close>

record ('f, 'c, 'w) scrapper_env =
  se_OpenFile :: "string \<Rightarrow> goerr + unit"
  se_RunMigrations :: "string \<Rightarrow> string \<Rightarrow> ('w, unit) prog"
  se_NewPool :: "string \<Rightarrow> goerr + unit"
  se_Open :: "string \<Rightarrow> goerr + (goerr + string)"
  se_GetLatestSchema :: "string \<Rightarrow> string \<Rightarrow> ('w, (i64 \<times> codec) option) prog"
  se_CreateSchema :: "string \<Rightarrow> string \<Rightarrow> string \<Rightarrow> ('w, i64 \<times> codec) prog"
  se_NewSyncProducer :: "string list \<Rightarrow> ('w, kafka_message \<Rightarrow> ('w, unit) prog) prog"
  se_NewValkey :: "string list \<Rightarrow> bool \<Rightarrow> goerr + 'c valkey_client"
  se_HTTPClient :: "string \<Rightarrow> 'f client_config \<Rightarrow> 'w http_do"
  se_GRPCBot :: "string \<Rightarrow> goerr + (pb_update \<Rightarrow> ('w, unit) prog)"
  se_NewScheduler :: "goerr option"
  se_NewJob :: "duration \<Rightarrow> goerr option"
  se_unescape :: "string \<Rightarrow> string"
  se_Error :: "goerr \<Rightarrow> string"

text \<open>\<open>fmt.Errorf\<close> with \<open>%v\<close> around the error of a step.\<close>

definition step :: "string \<Rightarrow> goerr + 'a \<Rightarrow> ('w, 'a) prog" where
  "step msg r = (case r of Inl err \<Rightarrow> efail (TextErr msg err) | Inr x \<Rightarrow> eret x)"


text \<open>What is closed at the end.\<close>

datatype closer = Close_File | Close_Pool | Close_Cache | Close_Producer | Close_Bot | Close_Scheduler | Close_Scrapper

text \<open>Both transactors run their function as \<open>WithinTransaction\<close> does.\<close>

datatype transactor = SqlTransactor | BuilderTransactor

definition buildTransactor :: "string \<Rightarrow> goerr + transactor" where
  "buildTransactor accessType =
     (if accessType = AccessTypeSQL then Inr SqlTransactor
      else if accessType = AccessTypeBUILDER then Inr BuilderTransactor
      else Inl (NewErr (''unsupported database access type: '' @ accessType)))"

text \<open>A topic: its name, its schema and the function that writes its messages.\<close>

type_synonym topic_config = "string \<times> string \<times> (json \<Rightarrow> goerr + native)"

definition buildSchemaTopic :: "('f, 'c, 'w) scrapper_env \<Rightarrow> scrapper_kafka_config \<Rightarrow> goerr + topic_config" where
  "buildSchemaTopic env cfg =
     (case se_Open env (kc_SchemaPath cfg) of
        Inl err \<Rightarrow> Inl (TextErr ''error opening kafka raw update schema file: '' err)
      | Inr (Inl err) \<Rightarrow> Inl (TextErr ''error reading kafka raw update schema file: '' err)
      | Inr (Inr schemaBytes) \<Rightarrow> Inr (kc_Topic cfg, schemaBytes, RawLinkUpdateToNative))"

definition outbox_repo_for :: "string \<Rightarrow> goerr + ('a world_scheme) outbox_repo" where
  "outbox_repo_for accessType =
     (if accessType = AccessTypeSQL then Inr sql_outbox_repo
      else if accessType = AccessTypeBUILDER then Inr qb_outbox_repo
      else Inl (NewErr (''unsupported database access type: '' @ accessType)))"

text \<open>The workers are started as goroutines, each on the producer with the interval: here the list of them.\<close>

definition runWorkers :: "worker_config \<Rightarrow> 'p \<Rightarrow> ('p \<times> duration) list" where
  "runWorkers cfg producer = replicate (nat (wc_Count cfg)) (producer, wc_Interval cfg)"

type_synonym 'w kafka_part = "'w update_notifier \<times> ('w producer \<times> duration) list"

definition scrapper_buildKafka ::
    "('f, 'c, 'a world_scheme) scrapper_env \<Rightarrow> 'f scrapper_config \<Rightarrow> ('a world_scheme, ('a world_scheme) kafka_part) prog" where
  "scrapper_buildKafka env cfg =
     (let kafka = sp_Kafka cfg in
      ebind (lift_sum (outbox_repo_for (dc_AccessType (sp_Database cfg)))) (\<lambda>outRepo.
      ebind (step ''error building schemas configs: '' (buildSchemaTopic env kafka)) (\<lambda>(topic, schema, parse).
      ehandle (NewProducer (se_GetLatestSchema env (kc_SchemaRegistryURL kafka)) (se_CreateSchema env (kc_SchemaRegistryURL kafka))
                 (se_NewSyncProducer env (kc_Brokers kafka)) topic schema parse outRepo
                 (nat (wc_EventLimit (kc_Workers kafka))) (wc_MaxRetries (kc_Workers kafka)))
        (\<lambda>err. efail (TextErr ''error creating kafka producer: '' err)) (\<lambda>producer.
      eret (Notifier_SendUpdate outRepo (kc_Topic kafka), runWorkers (kc_Workers kafka) producer)))))"

text \<open>The notifier, with what it leaves to close and the workers that run.\<close>

definition buildNotifier ::
    "('f, 'c, 'a world_scheme) scrapper_env \<Rightarrow> 'f scrapper_config \<Rightarrow>
     ('a world_scheme, ('a world_scheme) kafka_part \<times> closer list) prog" where
  "buildNotifier env cfg =
     (let bot = sp_BotService cfg in
      ehandle (scrapper_buildKafka env cfg)
        (\<lambda>err. efail (TextErr ''error creating kafka notifier: '' err)) (\<lambda>(kafkaNotifier, workers).
      if kc_Enable (sp_Kafka cfg) then eret ((kafkaNotifier, workers), [Close_Producer])
      else if rm_Protocol bot = ProtocolHTTP then
        (let primary = http_bot_SendUpdate \<lparr>hb_url = rm_URL bot, hb_Do = se_HTTPClient env ''bot-api'' (rm_Resilience bot)\<rparr> in
         eret ((fallback_SendUpdate primary kafkaNotifier, workers), [Close_Producer]))
      else if rm_Protocol bot = ProtocolGRPC then
        ebind (lift_sum (se_GRPCBot env (rm_URL bot))) (\<lambda>stub.
        eret ((fallback_SendUpdate (grpc_bot_SendUpdate stub) kafkaNotifier, workers), [Close_Producer, Close_Bot]))
      else efail (NewErr (''unsupported notifier protocol: '' @ rm_Protocol bot))))"

text \<open>
  The API server: over HTTP the routes behind the middleware, with the configuration of the
  limiter that \<open>NewServer\<close> makes; over gRPC the calls.
\<close>

datatype 'w api_server =
    HTTPServer "16 word" rate_config "('w http_handler \<Rightarrow> 'w http_handler) \<Rightarrow> 'w http_handler"
  | GRPCServer "16 word" "'w api_handler"

definition buildAPIServer :: "(goerr \<Rightarrow> string) \<Rightarrow> server_config \<Rightarrow> 'w link_api \<Rightarrow> goerr + 'w api_server" where
  "buildAPIServer Error cfg subsService =
     (let h = \<lparr>hd_service = subsService, hd_Error = Error\<rparr> in
      if sf_Protocol cfg = ProtocolHTTP
      then Inr (HTTPServer (sf_Port cfg) (sf_RateLimit cfg) (\<lambda>mw. api_mux mw h))
      else if sf_Protocol cfg = ProtocolGRPC then Inr (GRPCServer (sf_Port cfg) h)
      else Inl (NewErr (''unsupported server protocol: '' @ sf_Protocol cfg)))"

text \<open>
  The scheduler keeps its jobs: the interval, the timeout of the context that the job gets, and the job.
\<close>

record 'j scheduler =
  sd_jobs :: "(duration \<times> duration \<times> 'j) list"
  sd_canceled :: bool

definition scheduler_New :: "goerr option \<Rightarrow> goerr + 'j scheduler" where
  "scheduler_New cron = (case cron of Some err \<Rightarrow> Inl err | None \<Rightarrow> Inr \<lparr>sd_jobs = [], sd_canceled = False\<rparr>)"

definition scheduler_Schedule ::
    "goerr option \<Rightarrow> 'j scheduler \<Rightarrow> duration \<Rightarrow> duration \<Rightarrow> 'j \<Rightarrow> goerr + 'j scheduler" where
  "scheduler_Schedule newJob s interval jobTimeout jobFunc =
     (case newJob of Some err \<Rightarrow> Inl err
      | None \<Rightarrow> Inr (s\<lparr>sd_jobs := sd_jobs s @ [(interval, jobTimeout, jobFunc)]\<rparr>))"

definition scheduler_Shutdown :: "goerr option \<Rightarrow> 'j scheduler \<Rightarrow> goerr option \<times> 'j scheduler" where
  "scheduler_Shutdown cron s = (cron, s\<lparr>sd_canceled := True\<rparr>)"

text \<open>The application: its job is a run of the scrapper service.\<close>

record ('c, 'w) scrapper_app =
  sa_server :: "('c \<times> 'w) api_server"
  sa_scheduler :: "'w scrapper_service scheduler"
  sa_workers :: "('w producer \<times> duration) list"
  sa_closers :: "closer list"

definition scrapper_NewApp ::
    "('f, 'c, 'a world_scheme) scrapper_env \<Rightarrow> (string \<Rightarrow> goerr + 'f scrapper_config) \<Rightarrow> string \<Rightarrow>
     ('a world_scheme, ('c, 'a world_scheme) scrapper_app) prog" where
  "scrapper_NewApp env ReadConfig cfgPath =
     ebind (lift_sum (Load ReadConfig cfgPath)) (\<lambda>cfg.
     let file = lc_File (sp_Logger cfg); access = dc_AccessType (sp_Database cfg); fs = sp_Fetchers cfg in
     ebind (if file = '''' then eret []
            else step ''error opening log file: '' (map_sum id (\<lambda>_. [Close_File]) (se_OpenFile env file))) (\<lambda>opened.
     ehandle (se_RunMigrations env (dc_URL (sp_Database cfg)) (dc_MigrationsDirURL (sp_Database cfg)))
       (\<lambda>err. efail (TextErr ''error running migrations: '' err)) (\<lambda>_.
     ebind (step ''unable to connect to database: '' (se_NewPool env (dc_URL (sp_Database cfg)))) (\<lambda>_.
     ebind (step ''error creating transactor: '' (buildTransactor access)) (\<lambda>transactor.
     ebind (step ''error creating repository: '' (buildRepos access)) (\<lambda>repos.
     let fetcher = FetcherService (buildFetchers (se_HTTPClient env ''github-fetcher'' (fc_Resilience fs))
                     (se_HTTPClient env ''stackoverflow-fetcher'' (fc_Resilience fs)) (fc_DescriptionLimit fs)
                     (fc_StackOverflowKey fs) (se_unescape env)) in
     ebind (step ''error creating subscription service: ''
             (buildSubscriptionService (se_NewValkey env) (sp_Valkey cfg) repos (lf_CanHandle fetcher))) (\<lambda>subsService.
     ebind (step ''error creating API server: '' (buildAPIServer (se_Error env) (sp_Server cfg) subsService)) (\<lambda>server.
     ehandle (buildNotifier env cfg)
       (\<lambda>err. efail (TextErr ''error creating notifier: '' err)) (\<lambda>((notifier, workers), opened').
     ebind (step ''error creating scheduler: '' (scheduler_New (se_NewScheduler env))) (\<lambda>scheduler.
     ebind (step ''error creating scrapper: '' (NewScrapperService (fst (snd repos)) (snd (snd repos)) fetcher notifier
             (fc_Batch fs) (fc_Concurrency fs))) (\<lambda>scrapperService.
     ebind (step ''error scheduling job: '' (scheduler_Schedule (se_NewJob env (sc_JobInterval (sp_Scheduler cfg))) scheduler
             (sc_JobInterval (sp_Scheduler cfg)) (sc_JobTimeout (sp_Scheduler cfg)) scrapperService)) (\<lambda>scheduler'.
     eret \<lparr>sa_server = server, sa_scheduler = scheduler', sa_workers = workers,
       sa_closers = opened @ [Close_Pool] @ (if vf_Enabled (sp_Valkey cfg) then [Close_Cache] else []) @ opened' @ [Close_Scheduler]\<rparr>))))))))))))"

text \<open>
  \<open>Shutdown\<close>: the server, then every closer from the last to the first; errors are logged. \<open>close\<close> is
  what closing does to the world.
\<close>

fun close_all :: "(closer \<Rightarrow> ('w, unit) prog) \<Rightarrow> closer list \<Rightarrow> 'w \<Rightarrow> 'w" where
  "close_all close [] w = w"
| "close_all close (c # cs) w = close_all close cs (snd (close c w))"

definition scrapper_Shutdown :: "('w, unit) prog \<Rightarrow> (closer \<Rightarrow> ('w, unit) prog) \<Rightarrow> closer list \<Rightarrow> 'w \<Rightarrow> 'w" where
  "scrapper_Shutdown stopServer close closers w = close_all close (rev closers) (snd (stopServer w))"

text \<open>\<open>Start\<close>: the scheduler starts, then the server serves until it returns.\<close>

definition scrapper_Start :: "('w \<Rightarrow> 'w) \<Rightarrow> ('w, unit) prog \<Rightarrow> ('w, unit) prog" where
  "scrapper_Start startScheduler startServer w =
     ehandle startServer (\<lambda>err. efail (WrapErr ''api server stopped with error: '' err '''')) (\<lambda>_. eret ()) (startScheduler w)"


subsection \<open>Listening to Kafka\<close>

text \<open>What \<open>newConfig\<close> sets: offsets start at the newest message, and are not committed by themselves.\<close>

record sarama_config =
  sm_Version :: string
  sm_HashPartitioner :: bool
  sm_ReturnSuccesses :: bool
  sm_WaitForAll :: bool
  sm_GZIP :: bool
  sm_OffsetNewest :: bool
  sm_AutoCommit :: bool

definition newConfig :: "(sarama_config \<Rightarrow> sarama_config) list \<Rightarrow> sarama_config" where
  "newConfig opts =
     fold (\<lambda>opt. opt) opts
       \<lparr>sm_Version = ''4.0.0.0'', sm_HashPartitioner = True, sm_ReturnSuccesses = True, sm_WaitForAll = True, sm_GZIP = True,
        sm_OffsetNewest = True, sm_AutoCommit = False\<rparr>"

text \<open>
  The listener, with the consumer group (\<open>kl_Consume\<close>: one session of it, which hands the claims to
  the handler) and the two closings. \<open>kl_canceled\<close>: its context is cancelled; \<open>kl_done\<close>: \<open>Start\<close> has
  returned.
\<close>

record ('w, 'h) kafka_listener =
  kl_Consume :: "string list \<Rightarrow> 'h \<Rightarrow> ('w, unit) prog"
  kl_CloseConsumer :: "('w, unit) prog"
  kl_CloseProducer :: "('w, unit) prog"
  kl_handler :: 'h
  kl_topic :: string
  kl_canceled :: bool
  kl_done :: bool

text \<open>
  \<open>NewListener\<close>: \<open>NewConsumerGroup\<close> gives the session and the closing of the consumer, \<open>NewSyncProducer\<close>
  the sending and the closing of the producer; a consumer whose producer fails is closed.
\<close>

definition NewListener ::
    "(string list \<Rightarrow> string \<Rightarrow> sarama_config \<Rightarrow> ('w, (string list \<Rightarrow> 'h \<Rightarrow> ('w, unit) prog) \<times> ('w, unit) prog) prog) \<Rightarrow>
     (string list \<Rightarrow> sarama_config \<Rightarrow> ('w, (kafka_message \<Rightarrow> ('w, unit) prog) \<times> ('w, unit) prog) prog) \<Rightarrow>
     string list \<Rightarrow> string \<Rightarrow> string \<Rightarrow> ((kafka_message \<Rightarrow> ('w, unit) prog) \<Rightarrow> 'h) \<Rightarrow> ('w, ('w, 'h) kafka_listener) prog" where
  "NewListener NewConsumerGroup NewSyncProducer brokers consumerGroup topic NewHandler =
     (let config = newConfig [] in
      ebind (NewConsumerGroup brokers consumerGroup config) (\<lambda>(Consume, closeConsumer).
      ehandle (NewSyncProducer brokers config)
        (\<lambda>err w. (Inl (WrapErr ''failed to create producer for dlq: '' err ''''), snd (closeConsumer w)))
        (\<lambda>(SendMessage, closeProducer).
      eret \<lparr>kl_Consume = Consume, kl_CloseConsumer = closeConsumer, kl_CloseProducer = closeProducer,
        kl_handler = NewHandler SendMessage, kl_topic = topic, kl_canceled = False, kl_done = False\<rparr>)))"

text \<open>
  \<open>Start\<close>: sessions until one fails or the context is found cancelled after one. \<open>cancels\<close> says at
  each check whether it is; the answer is \<open>None\<close> while the loop goes on. A return closes \<open>done\<close>.
\<close>

fun listener_Start ::
    "('w, 'h) kafka_listener \<Rightarrow> bool list \<Rightarrow> 'w \<Rightarrow> (goerr + unit) option \<times> ('w, 'h) kafka_listener \<times> 'w" where
  "listener_Start l [] w = (None, l, w)"
| "listener_Start l (canceled # cancels) w =
     (case kl_Consume l [kl_topic l] (kl_handler l) w of
        (Inl err, w') \<Rightarrow> (Some (Inl err), l\<lparr>kl_done := True\<rparr>, w')
      | (Inr x, w') \<Rightarrow> if canceled then (Some (Inr ()), l\<lparr>kl_done := True\<rparr>, w') else listener_Start l cancels w')"

text \<open>
  \<open>Stop\<close> cancels, waits for \<open>Start\<close> or the end of its own context (which leaves the same state), and
  closes both clients whatever the first one answers.
\<close>

definition err_of :: "goerr + unit \<Rightarrow> goerr list" where
  "err_of r = (case r of Inl err \<Rightarrow> [err] | Inr x \<Rightarrow> [])"

definition listener_Stop ::
    "('w, 'h) kafka_listener \<Rightarrow> 'w \<Rightarrow> (goerr + unit) \<times> ('w, 'h) kafka_listener \<times> 'w" where
  "listener_Stop l w =
     (case kl_CloseConsumer l w of
        (errConsumer, w1) \<Rightarrow>
          (case kl_CloseProducer l w1 of
             (errProducer, w2) \<Rightarrow>
               (let errs = err_of errConsumer @ err_of errProducer in
                (if errs = [] then Inr () else Inl (JoinErr errs), (l\<lparr>kl_canceled := True\<rparr>, w2)))))"

subsection \<open>The bot\<close>

record ('f, 'w) bot_env =
  be_OpenFile :: "string \<Rightarrow> goerr + unit"
  be_HTTPClient :: "string \<Rightarrow> 'f client_config \<Rightarrow> 'w http_do"
  be_poll :: "duration \<Rightarrow> int"
  be_NewConsumerGroup :: "string list \<Rightarrow> string \<Rightarrow> sarama_config \<Rightarrow>
      ('w, (string list \<Rightarrow> ('w, processed_update) handler \<Rightarrow> ('w, unit) prog) \<times> ('w, unit) prog) prog"
  be_NewSyncProducer :: "string list \<Rightarrow> sarama_config \<Rightarrow> ('w, (kafka_message \<Rightarrow> ('w, unit) prog) \<times> ('w, unit) prog) prog"
  be_registry :: "string \<Rightarrow> int \<Rightarrow> ('w, codec) prog"
  be_problem_order :: "problems \<Rightarrow> problems"
  be_scaled :: "duration \<Rightarrow> 'f \<Rightarrow> nat \<Rightarrow> duration"
  be_GRPCScrapper :: "string \<Rightarrow> goerr + 'w grpc_stub"
  be_NewPool :: "string \<Rightarrow> goerr + unit"
  be_command_order :: "(string \<times> string) list \<Rightarrow> (string \<times> string) list"
  be_Error :: "goerr \<Rightarrow> string"
  be_Limit :: "json option \<Rightarrow> json option"
  be_Text :: "json option \<Rightarrow> string"

definition buildTelegramClient :: "('f, 'w) bot_env \<Rightarrow> 'f telegram_config \<Rightarrow> ('w, 'w tg_client) prog" where
  "buildTelegramClient env cfg =
     ehandle (telegram_NewClient (tc_ApiURL cfg) (tc_Token cfg) (be_poll env (hc_Timeout (tc_Resilience cfg)))
                (be_HTTPClient env ''telegram-in'' (tc_Resilience cfg)))
       (\<lambda>err. efail (TextErr ''error creating telegram client: '' err)) eret"

datatype 'w update_listener =
    KafkaListener "('w, ('w, processed_update) handler) kafka_listener"
  | HTTPListener "16 word" rate_config "('w http_handler \<Rightarrow> 'w http_handler) \<Rightarrow> 'w http_handler"
  | GRPCListener "16 word" "'w update_handler"

definition buildListener ::
    "('f, 'w) bot_env \<Rightarrow> 'f bot_config \<Rightarrow> (processed_update \<Rightarrow> ('w, unit) prog) \<Rightarrow> ('w, 'w update_listener) prog" where
  "buildListener env cfg notifier =
     (let kafka = bo_Kafka cfg; retries = bk_Retries kafka; server = bo_Server cfg;
          h = \<lparr>uh_HandleUpdate = notifier, uh_Error = be_Error env, uh_Limit = be_Limit env, uh_Text = be_Text env\<rparr> in
      if bk_Enable kafka then
        ehandle (NewListener (be_NewConsumerGroup env) (be_NewSyncProducer env) (bk_Brokers kafka) (bk_ConsumerGroup kafka)
                   (bk_Topic kafka)
                   (\<lambda>SendMessage. bot_NewHandler notifier (be_registry env (bk_SchemaRegistryURL kafka)) (be_problem_order env)
                      SendMessage (bk_DLQTopic kafka) (kr_Delay retries) (kr_MaxDelay retries)
                      (be_scaled env (kr_Delay retries) (kr_BackoffFactor retries)) (kr_MaxRetries retries) (be_Error env)))
          (\<lambda>err. efail (TextErr ''error creating kafka listener: '' err)) (\<lambda>l. eret (KafkaListener l))
      else if sf_Protocol server = ProtocolHTTP then
        eret (HTTPListener (sf_Port server) (sf_RateLimit server) (\<lambda>mw. updates_mux mw h))
      else if sf_Protocol server = ProtocolGRPC then eret (GRPCListener (sf_Port server) h)
      else efail (NewErr (''unsupported protocol: '' @ sf_Protocol server)))"

definition buildScrapper :: "('f, 'w) bot_env \<Rightarrow> 'f remote_config \<Rightarrow> goerr + 'w link_api" where
  "buildScrapper env cfg =
     (if rm_Protocol cfg = ProtocolHTTP then
        Inr (http_client_api \<lparr>sl_Do = be_HTTPClient env ''scrapper'' (rm_Resilience cfg), sl_baseURL = rm_URL cfg\<rparr>)
      else if rm_Protocol cfg = ProtocolGRPC then
        (case be_GRPCScrapper env (rm_URL cfg) of
           Inl err \<Rightarrow> Inl (TextErr ''error creating scrapper: '' err)
         | Inr stub \<Rightarrow> Inr (grpc_client_api stub))
      else Inl (NewErr (''unsupported protocol: '' @ rm_Protocol cfg)))"

record 'w bot_app =
  ba_listener :: "'w update_listener"
  ba_client :: "'w tg_client"
  ba_poller :: "'w poller"
  ba_closers :: "closer list"

definition bot_NewApp ::
    "('f, 'a world_scheme) bot_env \<Rightarrow> (string \<Rightarrow> goerr + 'f bot_config) \<Rightarrow> string \<Rightarrow> ('a world_scheme, ('a world_scheme) bot_app) prog" where
  "bot_NewApp env ReadConfig configPath =
     ebind (step ''error loading config: '' (Load ReadConfig configPath)) (\<lambda>cfg.
     let file = lc_File (bo_Logger cfg) in
     ebind (if file = '''' then eret []
            else step ''error opening file: '' (map_sum id (\<lambda>_. [Close_File]) (be_OpenFile env file))) (\<lambda>opened.
     ehandle (buildTelegramClient env (bo_Telegram cfg))
       (\<lambda>err. efail (TextErr ''error creating telegram client: '' err)) (\<lambda>tgClient.
     ehandle (buildListener env cfg (NotifierService_HandleUpdate (telegram_SendMessage tgClient)))
       (\<lambda>err. efail (TextErr ''error creating update listener: '' err)) (\<lambda>listener.
     ebind (step ''error creating scrapper client: '' (buildScrapper env (bo_ScrapperService cfg))) (\<lambda>scrapper.
     ebind (step ''error connecting to database: '' (be_NewPool env (dc_URL (bo_Database cfg)))) (\<lambda>_.
     ebind (step ''error creating session repository: '' (bot_buildRepos (dc_AccessType (bo_Database cfg)))) (\<lambda>sessionRepo.
     let cmds = buildCommands scrapper sessionRepo in
     ehandle (NewPoller (be_command_order env) tgClient (NewCommandService cmds) \<lparr>dl_scrapper = scrapper, dl_sessionRepo = sessionRepo\<rparr>)
       (\<lambda>err. efail (TextErr ''error creating telegram poller: '' err)) (\<lambda>poller.
     eret \<lparr>ba_listener = listener, ba_client = tgClient, ba_poller = poller,
       ba_closers = opened @ [Close_Scrapper, Close_Pool]\<rparr>))))))))"

definition bot_Shutdown :: "('w, unit) prog \<Rightarrow> (closer \<Rightarrow> ('w, unit) prog) \<Rightarrow> closer list \<Rightarrow> 'w \<Rightarrow> 'w" where
  "bot_Shutdown stopListener close closers w = close_all close (rev closers) (snd (stopListener w))"


subsection \<open>The agent\<close>

text \<open>The part of the configuration that the service is made of.\<close>

definition agent_core :: "'f agent_full_config \<Rightarrow> agent_config" where
  "agent_core cfg =
     \<lparr>ac_AuthorEnabled = au_Enabled (fl_Author (ag_Filters cfg)), ac_AuthorExcluded = au_Excluded (fl_Author (ag_Filters cfg)),
      ac_StopWordsEnabled = wd_Enabled (fl_StopWords (ag_Filters cfg)), ac_StopWords = wd_StopWords (fl_StopWords (ag_Filters cfg)),
      ac_LengthEnabled = lg_Enabled (fl_Length (ag_Filters cfg)), ac_MinLength = lg_MinLength (fl_Length (ag_Filters cfg)),
      ac_SummarizerEnabled = tr_SummarizerEnabled (ag_Transformers cfg), ac_Threshold = tr_Threshold (ag_Transformers cfg),
      ac_AccessType = dc_AccessType (ag_Database cfg), ac_ProcessedUpdateTopic = ak_ProcessedUpdateTopic (ag_Kafka cfg)\<rparr>"

record ('f, 'w) agent_env =
  ae_OpenFile :: "string \<Rightarrow> goerr + unit"
  ae_NewPool :: "string \<Rightarrow> goerr + unit"
  ae_Open :: "string \<Rightarrow> goerr + (goerr + string)"
  ae_GetLatestSchema :: "string \<Rightarrow> string \<Rightarrow> ('w, (i64 \<times> codec) option) prog"
  ae_CreateSchema :: "string \<Rightarrow> string \<Rightarrow> string \<Rightarrow> ('w, i64 \<times> codec) prog"
  ae_NewProducer :: "string list \<Rightarrow> ('w, kafka_message \<Rightarrow> ('w, unit) prog) prog"
  ae_NewConsumerGroup :: "string list \<Rightarrow> string \<Rightarrow> sarama_config \<Rightarrow>
      ('w, (string list \<Rightarrow> ('w, link_update) handler \<Rightarrow> ('w, unit) prog) \<times> ('w, unit) prog) prog"
  ae_NewSyncProducer :: "string list \<Rightarrow> sarama_config \<Rightarrow> ('w, (kafka_message \<Rightarrow> ('w, unit) prog) \<times> ('w, unit) prog) prog"
  ae_registry :: "string \<Rightarrow> int \<Rightarrow> ('w, codec) prog"
  ae_problem_order :: "problems \<Rightarrow> problems"
  ae_scaled :: "duration \<Rightarrow> 'f \<Rightarrow> nat \<Rightarrow> duration"
  ae_HTTPClient :: "string \<Rightarrow> 'f client_config \<Rightarrow> 'w http_do"
  ae_Text :: "http_response \<Rightarrow> string"
  ae_Error :: "goerr \<Rightarrow> string"

definition agent_buildSchemaTopic :: "('f, 'w) agent_env \<Rightarrow> 'f agent_kafka_config \<Rightarrow> goerr + topic_config" where
  "agent_buildSchemaTopic env cfg =
     (case ae_Open env (ak_SchemaPath cfg) of
        Inl err \<Rightarrow> Inl (TextErr ''error opening kafka raw update schema file: '' err)
      | Inr (Inl err) \<Rightarrow> Inl (TextErr ''error reading kafka raw update schema file: '' err)
      | Inr (Inr schemaBytes) \<Rightarrow> Inr (ak_ProcessedUpdateTopic cfg, schemaBytes, ProcessedLinkUpdateToNative))"

definition agent_runWorkers :: "worker_config \<Rightarrow> 'p \<Rightarrow> ('p \<times> duration) list" where
  "agent_runWorkers cfg producer = replicate (nat (wc_Count cfg)) (producer, wc_Interval cfg)"

text \<open>\<open>buildSender\<close> whole: the repository, the producer and its workers, and the sender.\<close>

definition agent_buildSender ::
    "('f, 'a world_scheme) agent_env \<Rightarrow> 'f agent_full_config \<Rightarrow>
     ('a world_scheme, (processed_update \<Rightarrow> ('a world_scheme, unit) prog) \<times> (('a world_scheme) producer \<times> duration) list) prog" where
  "agent_buildSender env cfg =
     (let kafka = ag_Kafka cfg; access = dc_AccessType (ag_Database cfg) in
      ebind (lift_sum (if access = AccessTypeSQL then Inr agent_sql_outbox_repo
                       else if access = AccessTypeBUILDER then Inr agent_qb_outbox_repo
                       else Inl (NewErr (''unsupported database access type: '' @ access)))) (\<lambda>outRepo.
      ebind (step ''error building schemas configs: '' (agent_buildSchemaTopic env kafka)) (\<lambda>(topic, schema, parse).
      ehandle (agent_NewProducer (ae_GetLatestSchema env (ak_SchemaRegistryURL kafka)) (ae_CreateSchema env (ak_SchemaRegistryURL kafka))
                 (ae_NewProducer env (ak_Brokers kafka)) topic schema parse outRepo
                 (nat (wc_EventLimit (ak_Workers kafka))) (wc_MaxRetries (ak_Workers kafka)))
        (\<lambda>err. efail (TextErr ''error creating kafka producer: '' err)) (\<lambda>producer.
      eret (agent_Notifier_SendUpdate outRepo (ak_ProcessedUpdateTopic kafka), agent_runWorkers (ak_Workers kafka) producer)))))"

definition agent_transformer :: "('f, 'w) agent_env \<Rightarrow> 'f agent_full_config \<Rightarrow> link_update \<Rightarrow> ('w, processed_update) prog" where
  "agent_transformer env cfg =
     buildTransformer
       (GenerateText (ae_Text env) (gemini_New (ae_HTTPClient env ''gemini'' (ge_Resilience (ag_Gemini cfg))) (ge_APIKey (ag_Gemini cfg))))
       (agent_core cfg)"

definition agent_buildListener ::
    "('f, 'w) agent_env \<Rightarrow> 'f agent_kafka_config \<Rightarrow> (link_update \<Rightarrow> ('w, unit) prog) \<Rightarrow>
     ('w, ('w, ('w, link_update) handler) kafka_listener) prog" where
  "agent_buildListener env cfg notifier =
     (let retries = ak_Retries cfg in
      ehandle (NewListener (ae_NewConsumerGroup env) (ae_NewSyncProducer env) (ak_Brokers cfg) (ak_ConsumerGroup cfg)
                 (ak_RawUpdateTopic cfg)
                 (\<lambda>SendMessage. agent_NewHandler notifier (ae_registry env (ak_SchemaRegistryURL cfg)) (ae_problem_order env)
                    SendMessage (ak_DLQTopic cfg) (kr_Delay retries) (kr_MaxDelay retries)
                    (ae_scaled env (kr_Delay retries) (kr_BackoffFactor retries)) (kr_MaxRetries retries) (ae_Error env)))
        (\<lambda>err. efail (TextErr ''error creating kafka listener: '' err)) eret)"

record 'w agent_app =
  aa_listener :: "('w, ('w, link_update) handler) kafka_listener"
  aa_workers :: "('w producer \<times> duration) list"
  aa_closers :: "closer list"

definition agent_StartApp ::
    "('f, 'a world_scheme) agent_env \<Rightarrow> (string \<Rightarrow> goerr + 'f agent_full_config) \<Rightarrow> string \<Rightarrow>
     ('a world_scheme, ('a world_scheme) agent_app) prog" where
  "agent_StartApp env ReadConfig cfgPath =
     ebind (lift_sum (Load ReadConfig cfgPath)) (\<lambda>cfg.
     let file = lc_File (ag_Logger cfg) in
     ebind (if file = '''' then eret []
            else step ''error opening log file: '' (map_sum id (\<lambda>_. [Close_File]) (ae_OpenFile env file))) (\<lambda>opened.
     ebind (step ''unable to connect to database: '' (ae_NewPool env (dc_URL (ag_Database cfg)))) (\<lambda>_.
     let filters = buildFilters (agent_core cfg); transformer = agent_transformer env cfg in
     ehandle (agent_buildSender env cfg)
       (\<lambda>err. efail (TextErr ''error creating sender: '' err)) (\<lambda>(kafkaSender, workers).
     let service = \<lparr>as_filters = filters, as_transformer = transformer, as_sender = kafkaSender\<rparr> in
     ehandle (agent_buildListener env (ag_Kafka cfg) (agent_HandleUpdate service))
       (\<lambda>err. efail (TextErr ''error creating listener: '' err)) (\<lambda>listener.
     eret \<lparr>aa_listener = listener, aa_workers = workers, aa_closers = opened @ [Close_Pool, Close_Producer]\<rparr>)))))"

text \<open>\<open>Start\<close> and \<open>Shutdown\<close> are those of the listener.\<close>

definition agent_Shutdown :: "'w agent_app \<Rightarrow> 'w \<Rightarrow> (goerr + unit) \<times> 'w" where
  "agent_Shutdown app w = (case listener_Stop (aa_listener app) w of (r, l, w') \<Rightarrow> (r, w'))"

end
