(* ===== verification/Wiring_Props.thy ===== *)
theory Wiring_Props
  imports Wiring Resilience_Props Agent_Props
begin

text \<open>
  Which configurations the programs start with, what they leave to close, and what they are made of:
  \<open>NewApp\<close> succeeds only for the well-typed configurations, and does where nothing fails; the
  closers are run in the order that the clients need; the handler of the agent and the job of the
  scrapper are those of the services verified before.
\<close>

subsection \<open>Programs that succeed, and what they give\<close>

definition succeeds :: "('w, 'a) prog \<Rightarrow> 'w \<Rightarrow> bool" where
  "succeeds m w \<longleftrightarrow> (\<exists>x w'. m w = (Inr x, w'))"

text \<open>\<open>starts b m\<close>: whether \<open>m\<close> succeeds is \<open>b\<close>, in every state.\<close>

definition starts :: "bool \<Rightarrow> ('w, 'a) prog \<Rightarrow> bool" where
  "starts b m \<longleftrightarrow> (\<forall>w. succeeds m w \<longleftrightarrow> b)"

lemma starts_eret: "starts True (eret x)"
  by (simp add: starts_def succeeds_def)

lemma starts_efail: "starts False (efail e)"
  by (simp add: starts_def succeeds_def)

lemma starts_lift: "starts (\<not> isl r) (lift_sum r)"
  by (cases r) (simp_all add: starts_def succeeds_def)

lemma starts_step: "starts (\<not> isl r) (step msg r)"
  by (cases r) (simp_all add: starts_def succeeds_def step_def)

lemma starts_ehandle:
  assumes "starts b m" and "\<And>x w w'. m w = (Inr x, w') \<Longrightarrow> starts c (f x)"
  shows "starts (b \<and> c) (ehandle m (\<lambda>e. efail (g e)) f)"
  unfolding starts_def
proof
  fix w
  obtain r w' where m: "m w = (r, w')" by fastforce
  have b: "b \<longleftrightarrow> \<not> isl r"
    using assms(1) by (cases r) (auto simp: starts_def succeeds_def m dest!: spec [where x = w])
  show "succeeds (ehandle m (\<lambda>e. efail (g e)) f) w \<longleftrightarrow> b \<and> c"
  proof (cases r)
    case (Inl e)
    with b show ?thesis by (simp add: succeeds_def ehandle_Inl [where m = m, OF m [unfolded Inl]])
  next
    case (Inr x)
    with assms(2) m have "starts c (f x)" by blast
    with Inr b show ?thesis
      by (simp add: starts_def succeeds_def ehandle_Inr [where m = m, OF m [unfolded Inr]])
  qed
qed

lemma starts_ebind:
  assumes "starts b m" and "\<And>x w w'. m w = (Inr x, w') \<Longrightarrow> starts c (f x)"
  shows "starts (b \<and> c) (ebind m f)"
  unfolding ebind_def by (rule starts_ehandle [where g = "\<lambda>e. e", OF assms])

lemma starts_if: "starts b m \<Longrightarrow> starts c n \<Longrightarrow> starts (if p then b else c) (if p then m else n)"
  by simp

lemma starts_pair: "(\<And>x y. starts c (f x y)) \<Longrightarrow> starts c (case p of (x, y) \<Rightarrow> f x y)"
  by (simp split: prod.split)

lemma starts_pair2: "(\<And>x y. starts c (f x y z)) \<Longrightarrow> starts c ((case p of (x, y) \<Rightarrow> f x y) z)"
  by (simp split: prod.split)

lemma starts_eq: "starts b m \<Longrightarrow> b = c \<Longrightarrow> starts c m"
  by simp

lemmas starts_rules = starts_eret starts_efail starts_lift starts_step starts_ehandle starts_ebind starts_if starts_pair

text \<open>\<open>gives P m\<close>: every value that \<open>m\<close> returns has the property \<open>P\<close>.\<close>

definition gives :: "('a \<Rightarrow> bool) \<Rightarrow> ('w, 'a) prog \<Rightarrow> bool" where
  "gives P m \<longleftrightarrow> (\<forall>w x w'. m w = (Inr x, w') \<longrightarrow> P x)"

lemma gives_eret: "P x \<Longrightarrow> gives P (eret x)"
  by (simp add: gives_def)

lemma gives_efail: "gives P (efail e)"
  by (simp add: gives_def)

lemma gives_any: "gives (\<lambda>x. True) m"
  by (simp add: gives_def)

lemma gives_ehandle:
  assumes "gives Q m" and "\<And>x. Q x \<Longrightarrow> gives P (f x)"
  shows "gives P (ehandle m (\<lambda>e. efail (g e)) f)"
  unfolding gives_def
proof (intro allI impI)
  fix w x w'
  assume "ehandle m (\<lambda>e. efail (g e)) f w = (Inr x, w')"
  then show "P x"
  proof (cases rule: ehandle_cases)
    case (fail e w1)
    then show ?thesis by simp
  next
    case (ok y w1)
    then have "Q y" using assms(1) unfolding gives_def by blast
    with assms(2) ok(2) show ?thesis unfolding gives_def by blast
  qed
qed

lemma gives_ebind: "gives Q m \<Longrightarrow> (\<And>x. Q x \<Longrightarrow> gives P (f x)) \<Longrightarrow> gives P (ebind m f)"
  unfolding ebind_def by (rule gives_ehandle [where g = "\<lambda>e. e"])

lemma gives_pair: "(\<And>x y. p = (x, y) \<Longrightarrow> gives P (f x y)) \<Longrightarrow> gives P (case p of (x, y) \<Rightarrow> f x y)"
  by (simp split: prod.split)

lemma gives_pair2: "(\<And>x y. p = (x, y) \<Longrightarrow> gives P (f x y z)) \<Longrightarrow> gives P ((case p of (x, y) \<Rightarrow> f x y) z)"
  by (simp split: prod.split)

lemma gives_if: "(b \<Longrightarrow> gives P m) \<Longrightarrow> (\<not> b \<Longrightarrow> gives P n) \<Longrightarrow> gives P (if b then m else n)"
  by simp

lemma givesD: "gives P m \<Longrightarrow> m w = (Inr x, w') \<Longrightarrow> P x"
  unfolding gives_def by blast

subsection \<open>Environments in which nothing fails\<close>

definition willing :: "('w, 'a) prog \<Rightarrow> bool" where
  "willing m \<longleftrightarrow> starts True m"

definition willing_scrapper :: "('f, 'c, 'w) scrapper_env \<Rightarrow> bool" where
  "willing_scrapper env \<longleftrightarrow>
     (\<forall>f. se_OpenFile env f = Inr ()) \<and> (\<forall>u d. willing (se_RunMigrations env u d)) \<and> (\<forall>u. se_NewPool env u = Inr ()) \<and>
     (\<forall>p. \<exists>s. se_Open env p = Inr (Inr s)) \<and> (\<forall>r t s. willing (se_CreateSchema env r t s)) \<and>
     (\<forall>b. willing (se_NewSyncProducer env b)) \<and> (\<forall>as d. \<not> isl (se_NewValkey env as d)) \<and>
     (\<forall>u. \<not> isl (se_GRPCBot env u)) \<and> se_NewScheduler env = None \<and> (\<forall>i. se_NewJob env i = None)"

definition willing_bot :: "('f, 'w) bot_env \<Rightarrow> bool" where
  "willing_bot env \<longleftrightarrow>
     (\<forall>f. be_OpenFile env f = Inr ()) \<and> (\<forall>u. be_NewPool env u = Inr ()) \<and> (\<forall>u. \<not> isl (be_GRPCScrapper env u)) \<and>
     (\<forall>b g c. willing (be_NewConsumerGroup env b g c)) \<and> (\<forall>b c. willing (be_NewSyncProducer env b c)) \<and>
     (\<forall>c rq w. \<exists>resp r w'. be_HTTPClient env ''telegram-in'' c rq w = (Inr resp, w') \<and>
        unmarshal dec_tg_result zero_tg_result (rs_body resp) = Inr r \<and> tr_Ok r)"

definition willing_agent :: "('f, 'w) agent_env \<Rightarrow> bool" where
  "willing_agent env \<longleftrightarrow>
     (\<forall>f. ae_OpenFile env f = Inr ()) \<and> (\<forall>u. ae_NewPool env u = Inr ()) \<and>
     (\<forall>p. \<exists>s. ae_Open env p = Inr (Inr s)) \<and> (\<forall>r t s. willing (ae_CreateSchema env r t s)) \<and>
     (\<forall>b. willing (ae_NewProducer env b)) \<and>
     (\<forall>b g c. willing (ae_NewConsumerGroup env b g c)) \<and> (\<forall>b c. willing (ae_NewSyncProducer env b c))"

lemma getSchema_starts:
  assumes "\<And>s. willing (CreateSchema topic s)"
  shows "starts True (getSchema GetLatestSchema CreateSchema topic schemaString)"
proof -
  have latest: "starts True (ehandle (GetLatestSchema topic) (\<lambda>_. eret None) eret)"
    by (simp add: starts_def succeeds_def ehandle_def split: prod.splits sum.splits)
  show ?thesis
    unfolding getSchema_def
    by (rule starts_eq, rule starts_ehandle [where g = "\<lambda>e. e", OF latest, where c = True])
       (use assms in \<open>auto simp: willing_def split: option.split intro!: starts_eret
          starts_eq [OF starts_ehandle [OF _ starts_eret]]\<close>)
qed

lemma NewProducer_starts:
  assumes "\<And>s. willing (CreateSchema topic s)" and "willing NewSyncProducer"
  shows "starts True (NewProducer GetLatestSchema CreateSchema NewSyncProducer topic schemaString ParseFunc outRepo limit maxRetries)"
proof -
  have "starts True (getSchema GetLatestSchema CreateSchema topic schemaString)"
    by (rule getSchema_starts) (rule assms(1))
  then have "starts (True \<and> (True \<and> True)) (NewProducer GetLatestSchema CreateSchema NewSyncProducer topic schemaString
      ParseFunc outRepo limit maxRetries)"
    unfolding NewProducer_def using assms(2) unfolding willing_def
    by (intro starts_ehandle starts_ebind starts_eret)
  then show ?thesis by simp
qed

lemma NewListener_starts:
  assumes "willing (NewConsumerGroup brokers cgroup (newConfig []))" and "willing (NewSyncProducer brokers (newConfig []))"
  shows "starts True (NewListener NewConsumerGroup NewSyncProducer brokers cgroup topic NewHandler)"
proof -
  have "succeeds (ehandle (NewSyncProducer brokers (newConfig [])) h (\<lambda>(s, c). eret (F s c))) w" for h F w
    using assms(2) by (auto simp: willing_def starts_def succeeds_def ehandle_def dest!: spec [where x = w])
  then show ?thesis
    unfolding NewListener_def Let_def
    by (intro starts_eq [OF starts_ebind [OF assms(1) [unfolded willing_def], where c = True]])
       (auto simp: starts_def split: prod.split)
qed


subsection \<open>The configurations that start\<close>

text \<open>What each checked step needs.\<close>

lemma ebind_known: "ebind (lift_sum (Inr x)) f = f x"
  by (rule ext) simp

lemma starts_known: "\<not> isl r \<Longrightarrow> starts True (step msg r)"
  using starts_step [of r msg] by simp

lemma starts_choices:
  "starts (access_value a) (step msg (buildTransactor a))"
  "starts (access_value a) (step msg (buildRepos a))"
  "starts (access_value a) (step msg (bot_buildRepos a))"
  "starts (access_value a) (lift_sum (outbox_repo_for a))"
  "starts (protocol_value (sf_Protocol srv)) (step msg (buildAPIServer Error srv svc))"
  "starts (0 < b \<and> 0 < n) (step msg (NewScrapperService links subs fetcher notifier b n))"
  by (rule starts_eq, rule starts_step starts_lift,
      simp add: buildTransactor_def buildRepos_def bot_buildRepos_def outbox_repo_for_def buildAPIServer_def NewScrapperService_def
        access_value_def protocol_value_def AccessTypeSQL_def AccessTypeBUILDER_def ProtocolHTTP_def ProtocolGRPC_def Let_def)+

definition scrapper_typed :: "'f scrapper_config \<Rightarrow> bool" where
  "scrapper_typed cfg \<longleftrightarrow>
     access_value (dc_AccessType (sp_Database cfg)) \<and> protocol_value (sf_Protocol (sp_Server cfg)) \<and>
     (kc_Enable (sp_Kafka cfg) \<or> protocol_value (rm_Protocol (sp_BotService cfg))) \<and>
     0 < fc_Batch (sp_Fetchers cfg) \<and> 0 < fc_Concurrency (sp_Fetchers cfg)"

definition bot_typed :: "'f bot_config \<Rightarrow> bool" where
  "bot_typed cfg \<longleftrightarrow>
     access_value (dc_AccessType (bo_Database cfg)) \<and> protocol_value (rm_Protocol (bo_ScrapperService cfg)) \<and>
     (bk_Enable (bo_Kafka cfg) \<or> protocol_value (sf_Protocol (bo_Server cfg)))"

definition agent_typed :: "'f agent_full_config \<Rightarrow> bool" where
  "agent_typed cfg \<longleftrightarrow> access_value (dc_AccessType (ag_Database cfg))"

lemma schema_known:
  "willing_scrapper env \<Longrightarrow> \<not> isl (buildSchemaTopic env kafka)"
  "willing_agent env' \<Longrightarrow> \<not> isl (agent_buildSchemaTopic env' kafka')"
  unfolding willing_scrapper_def willing_agent_def buildSchemaTopic_def agent_buildSchemaTopic_def
  by (metis old.sum.simps(6) sum.disc(2))+

lemma scrapper_buildKafka_starts:
  assumes "willing_scrapper env"
  shows "starts (access_value (dc_AccessType (sp_Database cfg))) (scrapper_buildKafka env cfg)"
proof -
  have "starts (access_value (dc_AccessType (sp_Database cfg)) \<and> (True \<and> (True \<and> True))) (scrapper_buildKafka env cfg)"
    unfolding scrapper_buildKafka_def Let_def
    by (intro starts_pair starts_ebind starts_ehandle starts_choices NewProducer_starts starts_known starts_eret)
       (use assms schema_known in \<open>auto simp: willing_scrapper_def\<close>)
  then show ?thesis by simp
qed

lemma buildNotifier_starts:
  assumes "willing_scrapper env"
  shows "starts (access_value (dc_AccessType (sp_Database cfg)) \<and>
      (kc_Enable (sp_Kafka cfg) \<or> protocol_value (rm_Protocol (sp_BotService cfg)))) (buildNotifier env cfg)"
proof -
  have grpc: "starts True (lift_sum (se_GRPCBot env u))" for u
    using assms starts_lift [of "se_GRPCBot env u"] by (simp add: willing_scrapper_def)
  let ?bot = "sp_BotService cfg"
  have "starts (access_value (dc_AccessType (sp_Database cfg)) \<and>
      (if kc_Enable (sp_Kafka cfg) then True else if rm_Protocol ?bot = ProtocolHTTP then True
       else if rm_Protocol ?bot = ProtocolGRPC then True \<and> True else False)) (buildNotifier env cfg)"
    unfolding buildNotifier_def Let_def
    by (intro starts_pair starts_ehandle starts_ebind starts_if scrapper_buildKafka_starts assms grpc starts_eret starts_efail)
  then show ?thesis by (simp add: protocol_value_def split: if_splits)
qed

lemma scrapper_starts:
  assumes "willing_scrapper env" and "ReadConfig p = Inr cfg"
  shows "starts (scrapper_typed cfg) (scrapper_NewApp env ReadConfig p)"
proof -
  have cfg: "Load ReadConfig p = Inr cfg" using assms(2) by (simp add: Load_def)
  have known: "\<not> isl (se_NewPool env u)" "\<not> isl (scheduler_New (se_NewScheduler env))"
      "\<not> isl (scheduler_Schedule (se_NewJob env i) s i t j)" "\<not> isl (map_sum id (\<lambda>_. [Close_File]) (se_OpenFile env f))"
      "\<not> isl (buildSubscriptionService (se_NewValkey env) v repos h)" "starts True (se_RunMigrations env u d)"
    for u i t j f v h d and s :: "'j scheduler" and repos
    using assms(1) unfolding willing_scrapper_def willing_def scheduler_New_def scheduler_Schedule_def
      buildSubscriptionService_def valkey_New_def Let_def
    by (auto split: sum.split) (metis sum.disc(1))
  have "starts ((if lc_File (sp_Logger cfg) = [] then True else True) \<and> (True \<and> (True \<and>
      (access_value (dc_AccessType (sp_Database cfg)) \<and> (access_value (dc_AccessType (sp_Database cfg)) \<and> (True \<and>
      (protocol_value (sf_Protocol (sp_Server cfg)) \<and>
      ((access_value (dc_AccessType (sp_Database cfg)) \<and>
      (kc_Enable (sp_Kafka cfg) \<or> protocol_value (rm_Protocol (sp_BotService cfg)))) \<and> (True \<and>
      ((0 < fc_Batch (sp_Fetchers cfg) \<and> 0 < fc_Concurrency (sp_Fetchers cfg)) \<and> (True \<and> True)))))))))))
     (scrapper_NewApp env ReadConfig p)"
    unfolding scrapper_NewApp_def Let_def cfg ebind_known
    by (intro starts_ebind starts_ehandle starts_pair starts_pair2 starts_if starts_choices starts_eret buildNotifier_starts
        assms(1) starts_known known)
  then show ?thesis by (simp add: scrapper_typed_def conj_ac)
qed


lemma telegram_starts:
  assumes "willing_bot env"
  shows "starts True (buildTelegramClient env cfg)"
proof -
  have "succeeds (buildTelegramClient env cfg) w" for w
  proof -
    define client where "client = \<lparr>tg_url = tc_ApiURL cfg @ tc_Token cfg, tg_Do = be_HTTPClient env ''telegram-in'' (tc_Resilience cfg),
      tg_poll = be_poll env (hc_Timeout (tc_Resilience cfg))\<rparr>"
    obtain resp r w' where "be_HTTPClient env ''telegram-in'' (tc_Resilience cfg) (rq_get (tg_url client @ ''/getMe'')) w = (Inr resp, w')"
        and r: "unmarshal dec_tg_result zero_tg_result (rs_body resp) = Inr r" "tr_Ok r"
      using assms unfolding willing_bot_def by meson
    then have "buildTelegramClient env cfg w = (Inr client, w')"
      by (simp add: buildTelegramClient_def telegram_NewClient_def Let_def client_def ehandle_def)
    then show ?thesis by (auto simp: succeeds_def)
  qed
  then show ?thesis by (simp add: starts_def)
qed

lemma poller_starts:
  assumes "willing_bot env" and "buildTelegramClient env cfg w = (Inr client, w')"
  shows "starts True (NewPoller order client commands dialog)"
proof -
  have "tg_Do client = be_HTTPClient env ''telegram-in'' (tc_Resilience cfg)"
    using assms(2) unfolding buildTelegramClient_def telegram_NewClient_def Let_def
    by (auto elim!: ehandle_cases split: if_splits)
  then have "succeeds (tg_Do client rq) w" for rq w
    using assms(1) unfolding willing_bot_def succeeds_def by metis
  then have "starts True (tg_Do client rq)" for rq
    by (simp add: starts_def)
  then have "starts ((True \<and> True) \<and> True) (NewPoller order client commands dialog)"
    unfolding NewPoller_def telegram_SetMyCommands_def by (intro starts_ebind starts_ehandle starts_eret)
  then show ?thesis by simp
qed

lemma buildListener_starts:
  assumes "willing_bot env"
  shows "starts (bk_Enable (bo_Kafka cfg) \<or> protocol_value (sf_Protocol (bo_Server cfg))) (buildListener env cfg notifier)"
proof -
  let ?p = "sf_Protocol (bo_Server cfg)"
  have "starts (if bk_Enable (bo_Kafka cfg) then True \<and> True else if ?p = ProtocolHTTP then True
      else if ?p = ProtocolGRPC then True else False) (buildListener env cfg notifier)"
    unfolding buildListener_def Let_def
    by (intro starts_if starts_ehandle starts_eret starts_efail NewListener_starts) (use assms in \<open>simp_all add: willing_bot_def\<close>)
  then show ?thesis by (simp add: protocol_value_def split: if_splits)
qed

lemma buildScrapper_starts:
  "willing_bot env \<Longrightarrow> starts (protocol_value (rm_Protocol cfg)) (step msg (buildScrapper env cfg))"
  by (rule starts_eq, rule starts_step)
    (auto simp: buildScrapper_def protocol_value_def willing_bot_def ProtocolHTTP_def ProtocolGRPC_def split: sum.split
      dest!: spec [where x = "rm_URL cfg"])

lemma bot_starts:
  assumes "willing_bot env" and "ReadConfig p = Inr cfg"
  shows "starts (bot_typed cfg) (bot_NewApp env ReadConfig p)"
proof -
  have known: "\<not> isl (Load ReadConfig p)" "\<not> isl (be_NewPool env u)" "\<not> isl (map_sum id (\<lambda>_. [Close_File]) (be_OpenFile env f))" for u f
    using assms by (simp_all add: willing_bot_def Load_def)
  have cfg: "ebind (step msg (Load ReadConfig p)) F = F cfg" for msg F
    using assms(2) by (intro ext) (simp add: Load_def step_def)
  have "starts ((if lc_File (bo_Logger cfg) = [] then True else True) \<and> (True \<and>
      ((bk_Enable (bo_Kafka cfg) \<or> protocol_value (sf_Protocol (bo_Server cfg))) \<and>
      (protocol_value (rm_Protocol (bo_ScrapperService cfg)) \<and> (True \<and> (access_value (dc_AccessType (bo_Database cfg)) \<and> (True \<and> True)))))))
     (bot_NewApp env ReadConfig p)"
    unfolding bot_NewApp_def Let_def cfg
    by (rule starts_ebind starts_ehandle starts_if starts_choices starts_eret telegram_starts [OF assms(1)] buildListener_starts [OF assms(1)]
        buildScrapper_starts [OF assms(1)] poller_starts [OF assms(1)] starts_known known | assumption)+
  then show ?thesis by (simp add: bot_typed_def conj_ac)
qed

lemma agent_parts_start:
  assumes "willing_agent env"
  shows "starts (access_value (dc_AccessType (ag_Database cfg))) (agent_buildSender env cfg)"
    and "starts True (agent_buildListener env kcfg notifier)"
proof -
  let ?a = "dc_AccessType (ag_Database cfg)"
  have access: "starts (access_value ?a) (lift_sum (if ?a = AccessTypeSQL then Inr agent_sql_outbox_repo
      else if ?a = AccessTypeBUILDER then Inr agent_qb_outbox_repo else Inl (NewErr (''unsupported database access type: '' @ ?a))))"
    by (rule starts_eq, rule starts_lift) (simp add: access_value_def)
  have "starts (access_value ?a \<and> (True \<and> (True \<and> True))) (agent_buildSender env cfg)"
    unfolding agent_buildSender_def Let_def agent_NewProducer_def
    by (intro starts_pair starts_ebind starts_ehandle access NewProducer_starts starts_known starts_eret)
       (use assms schema_known in \<open>auto simp: willing_agent_def\<close>)
  then show "starts (access_value ?a) (agent_buildSender env cfg)" by simp
  have "starts (True \<and> True) (agent_buildListener env kcfg notifier)"
    unfolding agent_buildListener_def Let_def
    by (intro starts_ehandle starts_eret NewListener_starts) (use assms in \<open>simp_all add: willing_agent_def\<close>)
  then show "starts True (agent_buildListener env kcfg notifier)" by simp
qed

lemma agent_starts:
  assumes "willing_agent env" and "ReadConfig p = Inr cfg"
  shows "starts (agent_typed cfg) (agent_StartApp env ReadConfig p)"
proof -
  have known: "\<not> isl (ae_NewPool env u)" "\<not> isl (map_sum id (\<lambda>_. [Close_File]) (ae_OpenFile env f))" for u f
    using assms by (simp_all add: willing_agent_def)
  have cfg: "Load ReadConfig p = Inr cfg" using assms(2) by (simp add: Load_def)
  have "starts ((if lc_File (ag_Logger cfg) = [] then True else True) \<and> (True \<and>
      (access_value (dc_AccessType (ag_Database cfg)) \<and> (True \<and> True)))) (agent_StartApp env ReadConfig p)"
    unfolding agent_StartApp_def Let_def cfg ebind_known
    by (intro starts_ebind starts_ehandle starts_pair starts_if starts_eret agent_parts_start [OF assms(1)] starts_known known)
  then show ?thesis by (simp add: agent_typed_def)
qed



subsection \<open>What is left to close\<close>

definition scrapper_closers :: "'f scrapper_config \<Rightarrow> closer list" where
  "scrapper_closers cfg =
     (if lc_File (sp_Logger cfg) = '''' then [] else [Close_File]) @ [Close_Pool] @
     (if vf_Enabled (sp_Valkey cfg) then [Close_Cache] else []) @ [Close_Producer] @
     (if \<not> kc_Enable (sp_Kafka cfg) \<and> rm_Protocol (sp_BotService cfg) = ProtocolGRPC then [Close_Bot] else []) @ [Close_Scheduler]"

lemma opened_gives:
  "gives (\<lambda>opened. opened = (if file = '''' then [] else [Close_File]))
     (if file = '''' then eret [] else step msg (map_sum id (\<lambda>_. [Close_File]) r))"
  by (cases r) (simp_all add: gives_def step_def)

lemma buildNotifier_gives:
  "gives (\<lambda>part. snd part = Close_Producer #
       (if \<not> kc_Enable (sp_Kafka cfg) \<and> rm_Protocol (sp_BotService cfg) = ProtocolGRPC then [Close_Bot] else []))
     (buildNotifier env cfg)"
  unfolding buildNotifier_def Let_def
  by (intro gives_ehandle [OF gives_any] gives_pair gives_if gives_ebind [OF gives_any] gives_eret gives_efail)
     (simp_all add: ProtocolHTTP_def ProtocolGRPC_def)

lemma scrapper_gives:
  assumes "ReadConfig p = Inr cfg"
  shows "gives (\<lambda>app. sa_closers app = scrapper_closers cfg) (scrapper_NewApp env ReadConfig p)"
proof -
  have cfg: "Load ReadConfig p = Inr cfg" using assms by (simp add: Load_def)
  show ?thesis
    unfolding scrapper_NewApp_def Let_def cfg ebind_known
    by (rule gives_ebind [OF opened_gives] gives_ehandle [OF buildNotifier_gives] gives_ebind [OF gives_any]
          gives_ehandle [OF gives_any] gives_pair gives_pair2 | (auto simp: gives_def scrapper_closers_def)[1])+
qed

lemma bot_gives:
  assumes "ReadConfig p = Inr cfg"
  shows "gives (\<lambda>app. ba_closers app = (if lc_File (bo_Logger cfg) = '''' then [] else [Close_File]) @ [Close_Scrapper, Close_Pool])
    (bot_NewApp env ReadConfig p)"
proof -
  have cfg: "ebind (step msg (Load ReadConfig p)) F = F cfg" for msg F
    using assms by (intro ext) (simp add: Load_def step_def)
  show ?thesis
    unfolding bot_NewApp_def Let_def cfg
    by (rule gives_ebind [OF opened_gives] gives_ebind [OF gives_any] gives_ehandle [OF gives_any]
        | (auto simp: gives_def split: prod.splits)[1])+
qed

lemma agent_gives:
  assumes "ReadConfig p = Inr cfg"
  shows "gives (\<lambda>app. aa_closers app = (if lc_File (ag_Logger cfg) = '''' then [] else [Close_File]) @ [Close_Pool, Close_Producer])
    (agent_StartApp env ReadConfig p)"
proof -
  have cfg: "Load ReadConfig p = Inr cfg" using assms by (simp add: Load_def)
  show ?thesis
    unfolding agent_StartApp_def Let_def cfg ebind_known
    by (rule gives_ebind [OF opened_gives] gives_ebind [OF gives_any] gives_ehandle [OF gives_any] gives_pair
        | (auto simp: gives_def split: prod.splits)[1])+
qed

text \<open>Closings that are logged, whatever each of them answers.\<close>

definition logged :: "('c \<Rightarrow> goerr + unit) \<Rightarrow> 'c \<Rightarrow> ('c list, unit) prog" where
  "logged says c log = (says c, log @ [c])"

lemma close_all_logged: "close_all (logged says) cs log = log @ cs"
  by (induction cs arbitrary: log) (simp_all add: logged_def)

lemma agent_Shutdown_closes:
  "snd (agent_Shutdown app w) = snd (kl_CloseProducer (aa_listener app) (snd (kl_CloseConsumer (aa_listener app) w)))"
  by (simp add: agent_Shutdown_def listener_Stop_def Let_def split: prod.split)



subsection \<open>Configurations that are well-typed start\<close>

text \<open>What success needs, whatever the environment does.\<close>

lemma starts_gives: "starts b m \<Longrightarrow> gives (\<lambda>x. b) m"
  by (auto simp: starts_def succeeds_def gives_def)

lemmas choices_give = starts_choices [THEN starts_gives]

lemma buildNotifier_needs:
  "gives (\<lambda>x. kc_Enable (sp_Kafka cfg) \<or> protocol_value (rm_Protocol (sp_BotService cfg))) (buildNotifier env cfg)"
  unfolding buildNotifier_def Let_def
  by (intro gives_ehandle [OF gives_any] gives_pair gives_if gives_ebind [OF gives_any] gives_eret gives_efail)
     (simp_all add: protocol_value_def)

lemma scrapper_needs:
  assumes "ReadConfig p = Inr cfg"
  shows "gives (\<lambda>app. scrapper_typed cfg) (scrapper_NewApp env ReadConfig p)"
proof -
  have cfg: "Load ReadConfig p = Inr cfg" using assms by (simp add: Load_def)
  show ?thesis
    unfolding scrapper_NewApp_def Let_def cfg ebind_known
    by (rule gives_ebind [OF opened_gives] gives_ehandle [OF buildNotifier_needs] gives_ebind [OF choices_give(1)]
          gives_ebind [OF choices_give(5)] gives_ebind [OF choices_give(6)] gives_ebind [OF gives_any]
          gives_ehandle [OF gives_any] gives_pair gives_pair2 | (auto simp: gives_def scrapper_typed_def)[1])+
qed

lemma buildListener_needs:
  "gives (\<lambda>x. bk_Enable (bo_Kafka cfg) \<or> protocol_value (sf_Protocol (bo_Server cfg))) (buildListener env cfg notifier)"
  unfolding buildListener_def Let_def
  by (intro gives_if gives_ehandle [OF gives_any] gives_eret gives_efail) (simp_all add: protocol_value_def)

lemma buildScrapper_needs: "gives (\<lambda>x. protocol_value (rm_Protocol cfg)) (step msg (buildScrapper env cfg))"
  by (simp add: gives_def step_def buildScrapper_def protocol_value_def split: sum.split)

lemma bot_needs:
  assumes "ReadConfig p = Inr cfg"
  shows "gives (\<lambda>app. bot_typed cfg) (bot_NewApp env ReadConfig p)"
proof -
  have cfg: "ebind (step msg (Load ReadConfig p)) F = F cfg" for msg F
    using assms by (intro ext) (simp add: Load_def step_def)
  show ?thesis
    unfolding bot_NewApp_def Let_def cfg
    by (rule gives_ebind [OF opened_gives] gives_ehandle [OF buildListener_needs] gives_ebind [OF buildScrapper_needs]
          gives_ebind [OF choices_give(3)] gives_ebind [OF gives_any] gives_ehandle [OF gives_any]
        | (auto simp: gives_def bot_typed_def)[1])+
qed

lemma agent_buildSender_needs:
  "gives (\<lambda>x. access_value (dc_AccessType (ag_Database cfg))) (agent_buildSender env cfg)"
  unfolding agent_buildSender_def Let_def
  by (rule gives_ebind [where Q = "\<lambda>x. access_value (dc_AccessType (ag_Database cfg))"])
     (auto simp: gives_def access_value_def elim!: ebind_okE ehandle_cases)

lemma agent_needs:
  assumes "ReadConfig p = Inr cfg"
  shows "gives (\<lambda>app. agent_typed cfg) (agent_StartApp env ReadConfig p)"
proof -
  have cfg: "Load ReadConfig p = Inr cfg" using assms by (simp add: Load_def)
  show ?thesis
    unfolding agent_StartApp_def Let_def cfg ebind_known
    by (rule gives_ebind [OF opened_gives] gives_ehandle [OF agent_buildSender_needs] gives_ebind [OF gives_any]
          gives_ehandle [OF gives_any] gives_pair | (auto simp: gives_def agent_typed_def)[1])+
qed

lemma starts_exactly_typed:
  assumes "gives (\<lambda>x. t) m" and "will \<Longrightarrow> starts t m"
  shows "(succeeds m w \<longrightarrow> t) \<and> (will \<and> t \<longrightarrow> succeeds m w)"
  using assms unfolding gives_def starts_def succeeds_def by metis

text \<open>C38. The well-typed configurations are the ones that start. Whatever the environment does, \<open>NewApp\<close> of
  the scrapper, of the bot and of the agent returns an application only when the access type is
  SQL or BUILDER, the protocols that are used are http or grpc (the one of the bot only without Kafka),
  and the batch and the concurrency are positive; and with such a configuration it does, where nothing that the
  libraries create fails. The setters accept exactly these values and store only them.\<close>

theorem well_typed_configurations_start:
  assumes "read_s ps = Inr sc" and "read_b pb = Inr bc" and "read_a pa = Inr ac"
    and "scrapper_ok = (access_value (dc_AccessType (sp_Database sc)) \<and> protocol_value (sf_Protocol (sp_Server sc)) \<and>
      (kc_Enable (sp_Kafka sc) \<or> protocol_value (rm_Protocol (sp_BotService sc))) \<and>
      0 < fc_Batch (sp_Fetchers sc) \<and> 0 < fc_Concurrency (sp_Fetchers sc))"
    and "bot_ok = (access_value (dc_AccessType (bo_Database bc)) \<and> protocol_value (rm_Protocol (bo_ScrapperService bc)) \<and>
      (bk_Enable (bo_Kafka bc) \<or> protocol_value (sf_Protocol (bo_Server bc))))"
    and "agent_ok = access_value (dc_AccessType (ag_Database ac))"
  shows "((succeeds (scrapper_NewApp se read_s ps) w \<longrightarrow> scrapper_ok) \<and>
      (willing_scrapper se \<and> scrapper_ok \<longrightarrow> succeeds (scrapper_NewApp se read_s ps) w)) \<and>
    ((succeeds (bot_NewApp be read_b pb) w' \<longrightarrow> bot_ok) \<and>
      (willing_bot be \<and> bot_ok \<longrightarrow> succeeds (bot_NewApp be read_b pb) w')) \<and>
    ((succeeds (agent_StartApp ae read_a pa) w'' \<longrightarrow> agent_ok) \<and>
      (willing_agent ae \<and> agent_ok \<longrightarrow> succeeds (agent_StartApp ae read_a pa) w'')) \<and>
    (fst (protocol_SetValue quote s old) = None \<longleftrightarrow> protocol_value s) \<and>
    (snd (protocol_SetValue quote s old) = (if protocol_value s then s else old)) \<and>
    (fst (access_SetValue quote s old) = None \<longleftrightarrow> access_value s) \<and>
    (snd (access_SetValue quote s old) = (if access_value s then s else old))"
proof -
  have ok: "scrapper_ok = scrapper_typed sc" "bot_ok = bot_typed bc" "agent_ok = agent_typed ac"
    by (simp_all add: assms(4-6) scrapper_typed_def bot_typed_def agent_typed_def)
  show ?thesis
    unfolding ok
    using starts_exactly_typed [OF scrapper_needs [of read_s ps sc se] scrapper_starts [of se read_s ps sc]]
      starts_exactly_typed [OF bot_needs [of read_b pb bc be] bot_starts [of be read_b pb bc]]
      starts_exactly_typed [OF agent_needs [of read_a pa ac ae] agent_starts [of ae read_a pa ac]] assms(1-3)
    by (simp add: protocol_SetValue_def access_SetValue_def protocol_value_def access_value_def ProtocolHTTP_def ProtocolGRPC_def
      AccessTypeSQL_def AccessTypeBUILDER_def)
qed

definition sample_codec :: codec where
  "sample_codec = \<lparr>BinaryFromNative = (\<lambda>n. Inr [1]), NativeFromBinary = (\<lambda>b. Inl (NewErr ''no schema''))\<rparr>"

definition sample_valkey :: "unit valkey_client" where
  "sample_valkey = \<lparr>vk_Get = (\<lambda>ttl k. efail (NewErr ''offline'')), vk_Set = (\<lambda>k v ttl. eret ()), vk_Del = (\<lambda>k. eret ())\<rparr>"

definition sample_telegram_answer :: "'w http_do" where
  "sample_telegram_answer rq w = (Inr \<lparr>rs_status = 200, rs_body = Some (JObj [(''ok'', JBool True)])\<rparr>, w)"

definition sample_consumers :: "('w, (string list \<Rightarrow> 'h \<Rightarrow> ('w, unit) prog) \<times> ('w, unit) prog) prog" where
  "sample_consumers = eret (\<lambda>topics h. eret (), eret ())"

definition sample_scrapper_env :: "(unit, unit, world) scrapper_env" where
  "sample_scrapper_env =
     \<lparr>se_OpenFile = (\<lambda>f. Inr ()), se_RunMigrations = (\<lambda>u d. eret ()), se_NewPool = (\<lambda>u. Inr ()), se_Open = (\<lambda>p. Inr (Inr ''{}'')),
      se_GetLatestSchema = (\<lambda>r t. eret None), se_CreateSchema = (\<lambda>r t s. eret (1, sample_codec)),
      se_NewSyncProducer = (\<lambda>b. eret (\<lambda>m. eret ())), se_NewValkey = (\<lambda>as d. Inr sample_valkey),
      se_HTTPClient = (\<lambda>n c. sample_telegram_answer), se_GRPCBot = (\<lambda>u. Inr (\<lambda>x. eret ())), se_NewScheduler = None,
      se_NewJob = (\<lambda>i. None), se_unescape = id, se_Error = (\<lambda>e. ''error'')\<rparr>"

definition sample_stub :: "'w grpc_stub" where
  "sample_stub =
     \<lparr>gs_RegisterChat = (\<lambda>c. eret ()), gs_DeleteChat = (\<lambda>c. eret ()), gs_GetLinks = (\<lambda>c. eret ([], 0)),
      gs_AddLink = (\<lambda>c u t. efail (NewErr ''offline'')), gs_RemoveLink = (\<lambda>c u. efail (NewErr ''offline''))\<rparr>"

definition sample_bot_env :: "(unit, world) bot_env" where
  "sample_bot_env =
     \<lparr>be_OpenFile = (\<lambda>f. Inr ()), be_HTTPClient = (\<lambda>n c. sample_telegram_answer), be_poll = id,
      be_NewConsumerGroup = (\<lambda>b g c. sample_consumers), be_NewSyncProducer = (\<lambda>b c. eret (\<lambda>m. eret (), eret ())),
      be_registry = (\<lambda>u n. eret sample_codec), be_problem_order = id, be_scaled = (\<lambda>d f n. d),
      be_GRPCScrapper = (\<lambda>u. Inr sample_stub), be_NewPool = (\<lambda>u. Inr ()), be_command_order = id,
      be_Error = (\<lambda>e. ''error''), be_Limit = id, be_Text = (\<lambda>j. '''')\<rparr>"

definition sample_agent_env :: "(unit, world) agent_env" where
  "sample_agent_env =
     \<lparr>ae_OpenFile = (\<lambda>f. Inr ()), ae_NewPool = (\<lambda>u. Inr ()), ae_Open = (\<lambda>p. Inr (Inr ''{}'')),
      ae_GetLatestSchema = (\<lambda>r t. eret None), ae_CreateSchema = (\<lambda>r t s. eret (1, sample_codec)),
      ae_NewProducer = (\<lambda>b. eret (\<lambda>m. eret ())), ae_NewConsumerGroup = (\<lambda>b g c. sample_consumers),
      ae_NewSyncProducer = (\<lambda>b c. eret (\<lambda>m. eret (), eret ())), ae_registry = (\<lambda>u n. eret sample_codec), ae_problem_order = id,
      ae_scaled = (\<lambda>d f n. d), ae_HTTPClient = (\<lambda>n c. sample_telegram_answer), ae_Text = (\<lambda>r. ''''), ae_Error = (\<lambda>e. ''error'')\<rparr>"

lemma sample_telegram_ok:
  "unmarshal dec_tg_result zero_tg_result (Some (JObj [(''ok'', JBool True)])) = Inr \<lparr>tr_Ok = True, tr_ErrorCode = 0, tr_Description = []\<rparr>"
  by code_simp

lemma sample_envs: "willing_scrapper sample_scrapper_env" "willing_bot sample_bot_env" "willing_agent sample_agent_env"
  by (simp_all add: willing_scrapper_def willing_bot_def willing_agent_def willing_def starts_def succeeds_def
      sample_scrapper_env_def sample_bot_env_def sample_agent_env_def sample_consumers_def sample_telegram_answer_def
      sample_telegram_ok)

definition sample_logger :: logger_config where
  "sample_logger = \<lparr>lc_File = ''app.log'', lc_Level = ''ERROR''\<rparr>"

definition sample_database :: database_config where
  "sample_database = \<lparr>dc_MigrationsDirURL = ''file://migrations'', dc_URL = ''postgres://db'', dc_AccessType = ''SQL''\<rparr>"

definition sample_server :: server_config where
  "sample_server = \<lparr>sf_Port = 8080, sf_Protocol = ''grpc'',
     sf_RateLimit = \<lparr>rl_Enabled = True, rl_RPS = 10, rl_Burst = 5, rl_TTL = 60\<rparr>\<rparr>"

definition sample_remote :: "unit remote_config" where
  "sample_remote = \<lparr>rm_URL = ''bot:8081'', rm_Protocol = ''grpc'', rm_Resilience = sample_client_config\<rparr>"

definition sample_workers :: worker_config where
  "sample_workers = \<lparr>wc_Count = 1, wc_Interval = 60, wc_EventLimit = 10, wc_MaxRetries = 5\<rparr>"

definition sample_retries :: "unit kafka_retry_config" where
  "sample_retries = \<lparr>kr_MaxRetries = 5, kr_Delay = 1, kr_MaxDelay = 30, kr_BackoffFactor = ()\<rparr>"

definition sample_scrapper_config :: "unit scrapper_config" where
  "sample_scrapper_config =
     \<lparr>sp_Logger = sample_logger, sp_Scheduler = \<lparr>sc_JobInterval = 300, sc_JobTimeout = 300\<rparr>, sp_BotService = sample_remote,
      sp_Server = sample_server, sp_Database = sample_database,
      sp_Fetchers = \<lparr>fc_DescriptionLimit = 200, fc_Concurrency = 4, fc_Batch = 50, fc_StackOverflowKey = ''key'',
        fc_Resilience = sample_client_config\<rparr>,
      sp_Kafka = \<lparr>kc_Enable = False, kc_Brokers = [''kafka:9092''], kc_SchemaRegistryURL = ''registry'', kc_Topic = ''raw'',
        kc_SchemaPath = ''raw.avsc'', kc_Workers = sample_workers\<rparr>,
      sp_Valkey = \<lparr>vf_Enabled = True, vf_Addresses = [''valkey:6379''], vf_TTL = 60, vf_KeyPrefix = ''links'',
        vf_ClientSideCache = False\<rparr>\<rparr>"

definition sample_bot_config :: "unit bot_config" where
  "sample_bot_config =
     \<lparr>bo_Telegram = \<lparr>tc_Token = ''t'', tc_ApiURL = ''https://api/bot'', tc_Resilience = sample_client_config\<rparr>,
      bo_Logger = sample_logger, bo_ScrapperService = sample_remote, bo_Server = sample_server, bo_Database = sample_database,
      bo_Kafka = \<lparr>bk_Enable = True, bk_Brokers = [''kafka:9092''], bk_Topic = ''processed'', bk_DLQTopic = ''dlq'',
        bk_SchemaRegistryURL = ''registry'', bk_ConsumerGroup = ''bot'', bk_Retries = sample_retries\<rparr>\<rparr>"

definition sample_agent_config :: "unit agent_full_config" where
  "sample_agent_config =
     \<lparr>ag_Logger = sample_logger,
      ag_Kafka = \<lparr>ak_Enable = True, ak_Brokers = [''kafka:9092''], ak_RawUpdateTopic = ''raw'', ak_ProcessedUpdateTopic = ''processed'',
        ak_DLQTopic = ''dlq'', ak_SchemaRegistryURL = ''registry'', ak_SchemaPath = ''processed.avsc'', ak_ConsumerGroup = ''agent'',
        ak_Retries = sample_retries, ak_Workers = sample_workers\<rparr>,
      ag_Database = sample_database,
      ag_Filters = \<lparr>fl_Author = \<lparr>au_Enabled = False, au_Excluded = []\<rparr>, fl_StopWords = \<lparr>wd_Enabled = False, wd_StopWords = []\<rparr>,
        fl_Length = \<lparr>lg_Enabled = False, lg_MinLength = 20\<rparr>\<rparr>,
      ag_Transformers = \<lparr>tr_SummarizerEnabled = False, tr_Threshold = 500\<rparr>,
      ag_Gemini = \<lparr>ge_APIKey = ''key'', ge_Resilience = sample_client_config\<rparr>\<rparr>"

lemmas sample_configs = sample_scrapper_config_def sample_bot_config_def sample_agent_config_def sample_logger_def
  sample_database_def sample_server_def sample_remote_def access_value_def protocol_value_def AccessTypeSQL_def
  AccessTypeBUILDER_def ProtocolHTTP_def ProtocolGRPC_def

definition sample_read :: "'c \<Rightarrow> string \<Rightarrow> goerr + 'c" where
  "sample_read cfg path = Inr cfg"

abbreviation sample_wrong_config :: "unit bot_config" where
  "sample_wrong_config \<equiv> sample_bot_config\<lparr>bo_ScrapperService := sample_remote\<lparr>rm_Protocol := ''HTTP''\<rparr>\<rparr>"

lemma well_typed_configurations_start_witness:
  "\<forall>w. succeeds (scrapper_NewApp sample_scrapper_env (sample_read sample_scrapper_config) ''c'') w \<and>
     \<not> succeeds (bot_NewApp sample_bot_env (sample_read sample_wrong_config) ''c'') w \<and>
     succeeds (agent_StartApp sample_agent_env (sample_read sample_agent_config) ''c'') w"
  using well_typed_configurations_start [of "sample_read sample_scrapper_config" "''c''" sample_scrapper_config
      "sample_read sample_wrong_config" "''c''" sample_wrong_config "sample_read sample_agent_config" "''c''" sample_agent_config,
      OF sample_read_def sample_read_def sample_read_def refl refl refl,
      where se = sample_scrapper_env and be = sample_bot_env and ae = sample_agent_env] sample_envs
  by (simp add: sample_configs)


subsection \<open>Shutting down\<close>

text \<open>C39. Shutting down closes what was opened, in the reverse order, whatever the closings answer: the
  scrapper stops its scheduler first, then closes the clients that the configuration made, then the
  database pool they work on, and the log file last; the bot closes the pool, then the client of the
  scrapper, then the log file. The agent closes the two Kafka clients of its listener, whatever they
  answer, and nothing else: the pool and the producer that it registered are never closed.\<close>

theorem shutdown_closes_in_order:
  assumes "scrapper_NewApp se read_s ps w = (Inr sapp, w1)" and "read_s ps = Inr sc"
    and "bot_NewApp be read_b pb w = (Inr bapp, w2)" and "read_b pb = Inr bc"
    and "agent_StartApp ae read_a pa w = (Inr aapp, w3)" and "read_a pa = Inr ac"
  shows "(scrapper_Shutdown (\<lambda>log. (stopped, log)) (logged says) (sa_closers sapp) [] =
      [Close_Scheduler] @
      (if \<not> kc_Enable (sp_Kafka sc) \<and> rm_Protocol (sp_BotService sc) = ProtocolGRPC then [Close_Bot] else []) @
      [Close_Producer] @ (if vf_Enabled (sp_Valkey sc) then [Close_Cache] else []) @ [Close_Pool] @
      (if lc_File (sp_Logger sc) = '''' then [] else [Close_File])) \<and>
    (bot_Shutdown (\<lambda>log. (stopped, log)) (logged says) (ba_closers bapp) [] =
      [Close_Pool, Close_Scrapper] @ (if lc_File (bo_Logger bc) = '''' then [] else [Close_File])) \<and>
    ({Close_Pool, Close_Producer} \<subseteq> set (aa_closers aapp)) \<and>
    (snd (agent_Shutdown aapp w) = snd (kl_CloseProducer (aa_listener aapp) (snd (kl_CloseConsumer (aa_listener aapp) w))))"
  using givesD [OF scrapper_gives [of read_s ps sc se, OF assms(2)] assms(1)] givesD [OF bot_gives [of read_b pb bc be, OF assms(4)] assms(3)]
    givesD [OF agent_gives [of read_a pa ac ae, OF assms(6)] assms(5)]
  by (simp add: scrapper_Shutdown_def bot_Shutdown_def close_all_logged scrapper_closers_def agent_Shutdown_closes logged_def)

lemma sample_apps:
  "\<exists>app w'. scrapper_NewApp sample_scrapper_env (sample_read sample_scrapper_config) ''c'' w = (Inr app, w')"
  "\<exists>app w'. bot_NewApp sample_bot_env (sample_read sample_bot_config) ''c'' w = (Inr app, w')"
  "\<exists>app w'. agent_StartApp sample_agent_env (sample_read sample_agent_config) ''c'' w = (Inr app, w')"
  using scrapper_starts [of sample_scrapper_env "sample_read sample_scrapper_config" "''c''" sample_scrapper_config,
      OF sample_envs(1) sample_read_def]
    bot_starts [of sample_bot_env "sample_read sample_bot_config" "''c''" sample_bot_config, OF sample_envs(2) sample_read_def]
    agent_starts [of sample_agent_env "sample_read sample_agent_config" "''c''" sample_agent_config, OF sample_envs(3) sample_read_def]
  by (simp_all add: starts_def succeeds_def scrapper_typed_def bot_typed_def agent_typed_def sample_configs)

lemma shutdown_closes_in_order_witness:
  "\<forall>w :: world. \<exists>sapp bapp. fst (scrapper_NewApp sample_scrapper_env (sample_read sample_scrapper_config) ''c'' w) = Inr sapp \<and>
     scrapper_Shutdown (\<lambda>log. (Inr (), log)) (logged (\<lambda>c. Inl (NewErr ''closed''))) (sa_closers sapp) [] =
       [Close_Scheduler, Close_Bot, Close_Producer, Close_Cache, Close_Pool, Close_File] \<and>
     fst (bot_NewApp sample_bot_env (sample_read sample_bot_config) ''c'' w) = Inr bapp \<and>
     bot_Shutdown (\<lambda>log. (Inr (), log)) (logged (\<lambda>c. Inl (NewErr ''closed''))) (ba_closers bapp) [] =
       [Close_Pool, Close_Scrapper, Close_File]"
proof
  fix w :: world
  obtain sapp w1 bapp w2 aapp w3
    where s: "scrapper_NewApp sample_scrapper_env (sample_read sample_scrapper_config) ''c'' w = (Inr sapp, w1)"
      and b: "bot_NewApp sample_bot_env (sample_read sample_bot_config) ''c'' w = (Inr bapp, w2)"
      and a: "agent_StartApp sample_agent_env (sample_read sample_agent_config) ''c'' w = (Inr aapp, w3)"
    using sample_apps by metis
  show "\<exists>sapp bapp. fst (scrapper_NewApp sample_scrapper_env (sample_read sample_scrapper_config) ''c'' w) = Inr sapp \<and>
      scrapper_Shutdown (\<lambda>log. (Inr (), log)) (logged (\<lambda>c. Inl (NewErr ''closed''))) (sa_closers sapp) [] =
        [Close_Scheduler, Close_Bot, Close_Producer, Close_Cache, Close_Pool, Close_File] \<and>
      fst (bot_NewApp sample_bot_env (sample_read sample_bot_config) ''c'' w) = Inr bapp \<and>
      bot_Shutdown (\<lambda>log. (Inr (), log)) (logged (\<lambda>c. Inl (NewErr ''closed''))) (ba_closers bapp) [] =
        [Close_Pool, Close_Scrapper, Close_File]"
    using s b shutdown_closes_in_order [OF s sample_read_def b sample_read_def a sample_read_def,
        where stopped = "Inr ()" and says = "\<lambda>c. Inl (NewErr ''closed'')"]
    by (simp add: sample_configs)
qed



subsection \<open>The parts that the applications are made of\<close>

text \<open>The agent listens with the handler of the service that \<open>agent_NewApp\<close> builds, so what is shown of that
  service and of its claims holds of the running agent.\<close>

lemma NewListener_gives:
  "gives (\<lambda>l. \<exists>SendMessage. kl_handler l = NewHandler SendMessage)
     (NewListener NewConsumerGroup NewSyncProducer brokers cgroup topic NewHandler)"
  unfolding NewListener_def Let_def gives_def by (auto elim!: ebind_okE ehandle_cases split: prod.splits; rule exI, rule refl)

lemma agent_buildSender_gives:
  "gives (\<lambda>part. buildSender (agent_core cfg) = Inr (fst part)) (agent_buildSender env cfg)"
  unfolding agent_buildSender_def Let_def gives_def buildSender_def agent_core_def AccessTypeSQL_def AccessTypeBUILDER_def
  by (auto elim!: ebind_okE ehandle_cases split: prod.splits if_splits)

lemma agent_buildListener_gives:
  "gives (\<lambda>l. agent_handler_of (kl_handler l) svc (ae_registry env (ak_SchemaRegistryURL kcfg)))
     (agent_buildListener env kcfg (agent_HandleUpdate svc))"
  unfolding agent_buildListener_def Let_def
  by (rule gives_ehandle [OF NewListener_gives], rule gives_eret) (unfold agent_handler_of_def, blast)

lemma agent_app_handles:
  assumes "ReadConfig p = Inr cfg"
  shows "gives (\<lambda>app. \<exists>svc. agent_NewApp (GenerateText (ae_Text env)
         (gemini_New (ae_HTTPClient env ''gemini'' (ge_Resilience (ag_Gemini cfg))) (ge_APIKey (ag_Gemini cfg)))) (agent_core cfg) = Inr svc
       \<and> agent_handler_of (kl_handler (aa_listener app)) svc (ae_registry env (ak_SchemaRegistryURL (ag_Kafka cfg))))
    (agent_StartApp env ReadConfig p)"
proof -
  have cfg: "Load ReadConfig p = Inr cfg" using assms by (simp add: Load_def)
  show ?thesis
    unfolding agent_StartApp_def Let_def cfg ebind_known
    by (rule gives_ehandle [OF agent_buildSender_gives] gives_ehandle [OF agent_buildListener_gives] gives_ebind [OF gives_any] gives_pair
        | (auto simp: agent_NewApp_def agent_transformer_def intro!: gives_eret)[1])+
qed

text \<open>The job of the scrapper is a run of the service that \<open>scrapper_with\<close> makes, over the fetchers of
  \<open>buildFetchers\<close>; with Kafka as the way of the updates its notifier is that of \<open>buildKafka\<close>.\<close>

lemma buildNotifier_kafka:
  "gives (\<lambda>((notifier, workers), opened). kc_Enable (sp_Kafka cfg) \<longrightarrow>
       buildKafka (dc_AccessType (sp_Database cfg)) (kc_Topic (sp_Kafka cfg)) = Inr notifier) (buildNotifier env cfg)"
proof -
  have "gives (\<lambda>(notifier, workers). buildKafka (dc_AccessType (sp_Database cfg)) (kc_Topic (sp_Kafka cfg)) = Inr notifier)
      (scrapper_buildKafka env cfg)"
    unfolding scrapper_buildKafka_def Let_def gives_def buildKafka_def outbox_repo_for_def AccessTypeSQL_def AccessTypeBUILDER_def
    by (auto elim!: ebind_okE ehandle_cases split: prod.splits if_splits)
  then show ?thesis
    unfolding buildNotifier_def Let_def
    by (rule gives_ehandle) (auto simp: gives_def elim!: ebind_okE split: if_splits)
qed

lemma scrapper_app_runs:
  assumes "ReadConfig p = Inr cfg" and "kc_Enable (sp_Kafka cfg)"
  shows "gives (\<lambda>app. \<exists>svc. sd_jobs (sa_scheduler app) = [(sc_JobInterval (sp_Scheduler cfg), sc_JobTimeout (sp_Scheduler cfg), svc)]
       \<and> scrapper_with (dc_AccessType (sp_Database cfg))
           (FetcherService (buildFetchers (se_HTTPClient env ''github-fetcher'' (fc_Resilience (sp_Fetchers cfg)))
             (se_HTTPClient env ''stackoverflow-fetcher'' (fc_Resilience (sp_Fetchers cfg))) (fc_DescriptionLimit (sp_Fetchers cfg))
             (fc_StackOverflowKey (sp_Fetchers cfg)) (se_unescape env)))
           (buildKafka (dc_AccessType (sp_Database cfg)) (kc_Topic (sp_Kafka cfg)))
           (fc_Batch (sp_Fetchers cfg)) (fc_Concurrency (sp_Fetchers cfg)) = Inr svc)
    (scrapper_NewApp env ReadConfig p)"
proof -
  have cfg: "Load ReadConfig p = Inr cfg" using assms by (simp add: Load_def)
  have ok: "gives (\<lambda>x. r = Inr x) (step msg r)" for msg and r :: "goerr + 'z"
    by (cases r) (simp_all add: gives_def step_def)
  show ?thesis
    unfolding scrapper_NewApp_def Let_def cfg ebind_known
    by (rule gives_ebind [OF opened_gives] gives_ehandle [OF buildNotifier_kafka] gives_ebind [OF ok] gives_ehandle [OF gives_any]
          gives_pair gives_pair2
        | (use assms(2) in \<open>auto simp: scrapper_with_def sbind_Inr scheduler_New_def scheduler_Schedule_def split: option.splits intro!: gives_eret\<close>)[1])+
qed

end
