(* ===== verification/Spec2Isabelle.thy ===== *)
theory Spec2Isabelle
  imports Fetchers_Props Outbox_Props Agent_Outbox Scrapper_Run_Props Agent_Props Grpc_Api Bot_Track Bot_Notify_Props
    Telegram_Props Resilience_Props Rate_Limit Caching_Props Wiring_Props
begin

text \<open>
  A verification of link-tracker: a Telegram bot that follows GitHub repositories and StackOverflow
  questions for its chats. All paths are below \<open>src/\<close>.

  The parts and how they interact

  Three programs share a PostgreSQL database and talk through Kafka, HTTP and gRPC.

  The scrapper (\<open>internal/scrapper\<close>) keeps which chat tracks which link. Its subscription service is
  called by the bot over HTTP or gRPC, directly or behind a cache in Valkey. A scheduled run pages through
  the links, asks GitHub or StackOverflow for what is newer, and in one transaction per event writes
  an update for all subscribers into the outbox and moves the time of the link. Workers send the
  rows of the outbox to the raw topic; without Kafka as the primary way, an update goes straight to
  the bot first, and to the outbox when that fails.

  The agent (\<open>internal/agent\<close>) consumes the raw topic, drops what its filters reject, cuts or
  summarises the description (with the Gemini API), and sends the processed update through an outbox
  of its own to the processed topic.

  The bot (\<open>internal/bot\<close>) consumes the processed topic, or serves the scrapper's calls, and sends
  each update to its chats; and it polls Telegram for messages, which are commands or steps of a
  dialogue whose state is a session per chat in the database.

  Every HTTP client goes through a retrying transport and a circuit breaker, every HTTP server
  through a rate limiter (\<open>internal/resilience\<close>).

  How programs are modelled

  A Go function with effects is a function of type \<open>('w, 'a) prog\<close>: it takes the state to its error
  (\<open>Inl\<close>) or its value (\<open>Inr\<close>) and the state after it, so every early return is a branch. Errors keep
  the chain that \<open>errors.Is\<close> follows. 64-bit integers are words read with \<open>sint\<close>; Go's \<open>int\<close> values
  that only count or limit are \<open>int\<close>; strings are lists of bytes with \<open>[]rune\<close> decoding UTF-8. A panic is an error of
  its own kind that unwinds through the handlers. An interface of the code is a record of functions,
  and the promise that its callers rely on is a locale, interpreted on each implementation. What is not in the
  repository is a parameter: the clients of the libraries, the remote services, the order in which Go
  ranges over a map, floating point.

  \<open>Prelude\<close>: errors, decimals, the combinators \<open>eret\<close>, \<open>efail\<close>, \<open>ehandle\<close>, \<open>ebind\<close>, \<open>efor\<close>, and
  the locale of relations that programs keep. \<open>Go_Strings\<close>, \<open>Go_Json\<close>, \<open>Go_Http\<close>: what the code
  uses of Go's library, with the inverse lemmas of decoding, trimming, splitting and formatting.

  The theories, part by part

  \<^enum> The database. \<open>Scrapper_Domain\<close> has the data (\<open>scrapper/domain\<close>), \<open>Database\<close> the tables and
    statements (\<open>migrations/\<close>), \<open>Database_Wf\<close> the schema's invariant and that every statement keeps it.
    \<open>Pg_World\<close> is the connection (\<open>repository/*/transactor.go\<close>): a list of faults, consumed call by
    call, loses requests or replies, so a commit may happen and still be reported as failed; the
    empty list is a run without faults. \<open>Refinement\<close> says when a program on such a connection
    implements a statement. \<open>Repo_Contracts\<close> states the promises of the repositories as locales,
    \<open>Repo_Sql\<close> and \<open>Repo_Builder\<close> are the two implementations (\<open>repository/sql\<close>, \<open>repository/sqlbuilder\<close>) with the
    interpretations.

  \<^enum> Subscriptions. \<open>Subscription_Service\<close> (\<open>application/subscription/service.go\<close>), \<open>Tracking\<close> (the
    abstract store: chats, their urls, their sets of tags) and \<open>Subscription_Props\<close>: each operation is the
    abstract one, all or nothing under any faults (C1, C4, C7); its domain errors are genuine (C2, C5);
    when adding succeeds (C3); what is listed (C6); the invariant of every history (C8).

  \<^enum> Fetching. \<open>Fetchers\<close>, \<open>Fetchers_Props\<close> (\<open>adapter/out/http\<close>, \<open>fetcher_service.go\<close>): exactly the newer items in
    order (C9, C10) and which url goes where (C11).

  \<^enum> Messages. \<open>Kafka_Wire\<close>, \<open>Wire_Props\<close>: the JSON of the outbox, Avro and the wire format; what is
    written is read back (C12). \<open>Outbox\<close>, \<open>Outbox_Queue\<close>, \<open>Outbox_Drain\<close>, \<open>Outbox_Props\<close>
    (\<open>adapter/out/notifier/kafka\<close>): delivery at least once under any interleaving of workers and
    services (C13), the outcome of one run (C14), and that repeated runs empty the queue in order (C15).
    \<open>Agent_Outbox\<close>: the agent's copies.

  \<^enum> The run of the scrapper. \<open>Scrapper_Service\<close>, \<open>Scrapper_Effects\<close>, \<open>Scrapper_Props\<close>
    (\<open>scrapper_service.go\<close>): message and time move together (C16), what a failed fetch does (C17).
    \<open>Scrapper_Run\<close>, \<open>Scrapper_Run_Props\<close>: producer, bounded channel and goroutines as an inductive step
    relation; each link once with the query builder (C18), at most \<open>5 * n + 3\<close> steps over \<open>n\<close> links and no
    deadlock (C19), and the links that paging with SQL skips (C20).

  \<^enum> The agent. \<open>Consumer\<close>, \<open>Consumer_Props\<close> (the Kafka handlers of the agent and the bot, and
    \<open>validation\<close>): messages marked in order, bounded waiting (C21). \<open>Agent\<close>, \<open>Agent_Props\<close>: filters,
    transformers, Gemini (C22), and that no marked message is lost (C23).

  \<^enum> The interface between bot and scrapper. \<open>Http_Api\<close>, \<open>Http_Api_Props\<close>, \<open>Grpc_Api\<close>: a call of the client
    over the server is the call of the service, with errors translated by one table (C24, C25).

  \<^enum> The bot. \<open>Bot_Sessions\<close>, \<open>Session_Effects\<close>: sessions are a map (C26). \<open>Bot_Dialog\<close>, \<open>Bot_Moves\<close>,
    \<open>Bot_Dialog_Props\<close>, \<open>Bot_Track\<close>: commands and dialogue; the invariant of every history of messages
    (C27) and the whole dialogue of tracking, from message to table (C28). \<open>Bot_Notify\<close>,
    \<open>Bot_Notify_Props\<close>: every chat is served (C29), over both direct ways (C30). \<open>Telegram\<close>,
    \<open>Telegram_Props\<close>: the offset of polling, at most once (C31), and the update that an empty answer
    skips (C32).

  \<^enum> Resilience. \<open>Resilience\<close>, \<open>Resilience_Props\<close> (\<open>http.go\<close>): bounded retries, and the answer is an
    answer to the request (C33, C34). \<open>Rate_Limit\<close> (\<open>ratelimit.go\<close>): a bucket per client (C35), a
    cleaner that works once (C36). \<open>Caching\<close>, \<open>Caching_Props\<close> (\<open>caching_service.go\<close>, \<open>valkey/cache.go\<close>):
    lists are current as long as invalidations succeed (C37), and how they become stale (C38).

  \<^enum> The whole. \<open>Config\<close> (\<open>*/config/config.go\<close>), \<open>Wiring\<close>, \<open>Wiring_Props\<close> (\<open>*/application/app.go\<close>, the
    scheduler, the Kafka listeners): the configurations that start (C39) and what shutting down
    closes (C40). \<open>agent_app_handles\<close> and \<open>scrapper_app_runs\<close> show that the applications are made of the
    services that the other properties are about (\<open>agent_NewApp\<close>, \<open>scrapper_with\<close>).

  Bounds and fuel

  Loops over lists are structural recursion. A run of \<open>GetUpdates\<close> is a relation, bounded by its
  measure. The retries of a transport are as many as the attempts of the configuration; 0 attempts
  are unbounded in the library, and the properties ask for a positive number. Endless loops (polling,
  listening, the workers) take the list of what the checks of their context answer, one per
  round, so every finite prefix of their life is covered. Tables whose ids come from a sequence ask for room below
  \<open>2 ^ 63\<close> where an insertion has to succeed; the offset of Telegram is bounded where it must not wrap.

  Not modelled

  Logging, the migration runner, the main functions, the test report tool and the settings of the producers
  have no effect on what is stated here. Generated gRPC code, cleanenv (reading the configuration), pgx, sarama, the
  schema registry, gocron, retry-go, gobreaker and Valkey are parameters with their documented behaviour where a
  property needs it. Starting and stopping the servers, the readiness signals and \<open>errgroup\<close> are the
  runtime's. Processing one link is one step of a run, so interleavings inside a link, and the isolation
  between concurrent transactions, are not covered. Client-side caching of Valkey keeps copies that
  the model excludes by hypothesis. Floating point (rates, backoff) is a parameter.
\<close>

end
